(* ===== verification/Prelude.thy ===== *)
theory Prelude
  imports Main "HOL-Library.Sublist" "HOL-Library.Char_ord" "HOL-Library.List_Lexorder"
    "HOL-Library.Product_Lexorder" "HOL-Library.Word" "HOL-Library.AList"
begin

text \<open>
  What every component of the development shares: Go's error values with the sentinels of
  internal/core/core.go, the string and map operations of Go's standard library the program
  uses (strings are byte lists), and the computations of the program as functions from a
  state to an error or a value and the next state, with a weakest-precondition calculus for
  them.
\<close>

named_theorems wp_simps "symbolic execution of the computations"
named_theorems keeps_intros "frame rules: which part of the state a computation leaves alone"
named_theorems inv_intros "rules for invariants that computations preserve"

section \<open>Errors\<close>

datatype sentinel = ErrInvalidInput | ErrNotFound | ErrAlreadyExists | ErrConflict
  | ErrUnauthorized | ErrForbidden | ErrTooMany

text \<open>An error carries the sentinels \<open>errors.Is\<close> finds in its tree, and its text.\<close>

datatype goerr = GoErr (kinds: "sentinel list") (msg: string)

fun sentinel_text :: "sentinel \<Rightarrow> string" where
  "sentinel_text ErrInvalidInput = ''invalid input''"
| "sentinel_text ErrNotFound = ''not found''"
| "sentinel_text ErrAlreadyExists = ''already exists''"
| "sentinel_text ErrConflict = ''conflict''"
| "sentinel_text ErrUnauthorized = ''unauthorized''"
| "sentinel_text ErrForbidden = ''forbidden''"
| "sentinel_text ErrTooMany = ''too many requests''"

definition nl :: string where
  "nl = [CHR 0x0A]"

definition err_sentinel :: "sentinel \<Rightarrow> goerr" where
  "err_sentinel k = GoErr [k] (sentinel_text k)"

definition err_new :: "string \<Rightarrow> goerr" where
  "err_new m = GoErr [] m"

definition err_join :: "goerr \<Rightarrow> goerr \<Rightarrow> goerr" where
  "err_join a b = GoErr (kinds a @ kinds b) (msg a @ nl @ msg b)"

definition err_is :: "goerr \<Rightarrow> sentinel \<Rightarrow> bool" where
  "err_is e k \<longleftrightarrow> k \<in> set (kinds e)"

definition err_wrap :: "string \<Rightarrow> goerr \<Rightarrow> goerr" where
  "err_wrap operation e = GoErr (kinds e) (operation @ '': '' @ msg e)"

definition err_invalid :: "string \<Rightarrow> goerr" where
  "err_invalid m = err_join (err_sentinel ErrInvalidInput) (err_new m)"

lemma kinds_err [simp]:
  "kinds (err_sentinel k) = [k]" "kinds (err_new m) = []"
  "kinds (err_join a b) = kinds a @ kinds b" "kinds (err_wrap oper e) = kinds e"
  "kinds (err_invalid m) = [ErrInvalidInput]"
  by (simp_all add: err_sentinel_def err_new_def err_join_def err_wrap_def err_invalid_def)

lemma err_is_simps [simp]:
  "err_is (err_sentinel k) k' \<longleftrightarrow> k = k'" "\<not> err_is (err_new m) k'"
  "err_is (err_join a b) k' \<longleftrightarrow> err_is a k' \<or> err_is b k'"
  "err_is (err_wrap oper e) k' = err_is e k'"
  "err_is (err_invalid m) k' \<longleftrightarrow> k' = ErrInvalidInput"
  by (auto simp: err_is_def)

section \<open>Strings\<close>

definition c_nat :: "char \<Rightarrow> nat" where
  "c_nat c = of_char c"

definition is_lower :: "char \<Rightarrow> bool" where
  "is_lower c \<longleftrightarrow> 97 \<le> c_nat c \<and> c_nat c \<le> 122"

definition is_upper :: "char \<Rightarrow> bool" where
  "is_upper c \<longleftrightarrow> 65 \<le> c_nat c \<and> c_nat c \<le> 90"

definition is_digit :: "char \<Rightarrow> bool" where
  "is_digit c \<longleftrightarrow> 48 \<le> c_nat c \<and> c_nat c \<le> 57"

definition is_alnum :: "char \<Rightarrow> bool" where
  "is_alnum c \<longleftrightarrow> is_lower c \<or> is_upper c \<or> is_digit c"

definition is_hex :: "char \<Rightarrow> bool" where
  "is_hex c \<longleftrightarrow> is_digit c \<or> (97 \<le> c_nat c \<and> c_nat c \<le> 102)"

text \<open>The class \<open>\w\<close> of Go's regexp, and \<open>\s\<close>.\<close>

definition is_word :: "char \<Rightarrow> bool" where
  "is_word c \<longleftrightarrow> is_alnum c \<or> c = CHR ''_''"

definition is_re_space :: "char \<Rightarrow> bool" where
  "is_re_space c \<longleftrightarrow> c_nat c \<in> {9, 10, 12, 13, 32}"

definition is_ascii :: "char \<Rightarrow> bool" where
  "is_ascii c \<longleftrightarrow> c_nat c < 128"

definition ascii_lower :: "char \<Rightarrow> char" where
  "ascii_lower c = (if is_upper c then char_of (c_nat c + 32) else c)"

lemmas char_class_defs = c_nat_def is_lower_def is_upper_def is_digit_def is_alnum_def
  is_hex_def is_word_def is_re_space_def is_ascii_def ascii_lower_def

definition trim_prefix :: "string \<Rightarrow> string \<Rightarrow> string" where
  "trim_prefix s p = (if prefix p s then drop (length p) s else s)"

definition trim_suffix :: "string \<Rightarrow> string \<Rightarrow> string" where
  "trim_suffix s p = (if suffix p s then take (length s - length p) s else s)"

definition contains_any :: "string \<Rightarrow> string \<Rightarrow> bool" where
  "contains_any s chars \<longleftrightarrow> list_ex (\<lambda>c. c \<in> set chars) s"

text \<open>\<open>strings.Cut\<close> at a single-byte separator: before, after, found.\<close>

definition cut_at :: "char \<Rightarrow> string \<Rightarrow> string \<times> string \<times> bool" where
  "cut_at c s = (takeWhile (\<lambda>x. x \<noteq> c) s, drop 1 (dropWhile (\<lambda>x. x \<noteq> c) s), c \<in> set s)"

lemma takeWhile_sep: "c \<notin> set k \<Longrightarrow> takeWhile (\<lambda>x. x \<noteq> c) (k @ c # z) = k"
  by (induction k) auto

lemma dropWhile_sep: "c \<notin> set k \<Longrightarrow> dropWhile (\<lambda>x. x \<noteq> c) (k @ c # z) = c # z"
  by (induction k) auto

lemma cut_at_sep: "c \<notin> set k \<Longrightarrow> cut_at c (k @ c # z) = (k, z, True)"
  by (simp add: cut_at_def takeWhile_sep dropWhile_sep)

text \<open>\<open>strings.Split\<close> at a single-byte separator, and \<open>strings.SplitN\<close>.\<close>

fun split_at :: "char \<Rightarrow> string \<Rightarrow> string list" where
  "split_at c [] = [[]]"
| "split_at c (x # xs) =
     (if x = c then [] # split_at c xs
      else (case split_at c xs of [] \<Rightarrow> [[x]] | p # ps \<Rightarrow> (x # p) # ps))"

fun join_with :: "string \<Rightarrow> string list \<Rightarrow> string" where
  "join_with sep [] = []"
| "join_with sep [x] = x"
| "join_with sep (x # y # ys) = x @ sep @ join_with sep (y # ys)"

definition split_n :: "nat \<Rightarrow> char \<Rightarrow> string \<Rightarrow> string list" where
  "split_n n c s = (let ps = split_at c s in
     if length ps \<le> n then ps else take (n - 1) ps @ [join_with [c] (drop (n - 1) ps)])"

text \<open>
  The UTF-8 encodings of the code points \<open>unicode.IsSpace\<close> accepts; UTF-8 is
  self-synchronising, so trimming runes is trimming these byte sequences.
\<close>

definition space_seqs :: "string list" where
  "space_seqs = [[CHR 0x09], [CHR 0x0A], [CHR 0x0B], [CHR 0x0C], [CHR 0x0D], [CHR 0x20],
     [CHR 0xC2, CHR 0x85], [CHR 0xC2, CHR 0xA0], [CHR 0xE1, CHR 0x9A, CHR 0x80],
     [CHR 0xE2, CHR 0x80, CHR 0x80], [CHR 0xE2, CHR 0x80, CHR 0x81], [CHR 0xE2, CHR 0x80, CHR 0x82],
     [CHR 0xE2, CHR 0x80, CHR 0x83], [CHR 0xE2, CHR 0x80, CHR 0x84], [CHR 0xE2, CHR 0x80, CHR 0x85],
     [CHR 0xE2, CHR 0x80, CHR 0x86], [CHR 0xE2, CHR 0x80, CHR 0x87], [CHR 0xE2, CHR 0x80, CHR 0x88],
     [CHR 0xE2, CHR 0x80, CHR 0x89], [CHR 0xE2, CHR 0x80, CHR 0x8A], [CHR 0xE2, CHR 0x80, CHR 0xA8],
     [CHR 0xE2, CHR 0x80, CHR 0xA9], [CHR 0xE2, CHR 0x80, CHR 0xAF], [CHR 0xE2, CHR 0x81, CHR 0x9F],
     [CHR 0xE3, CHR 0x80, CHR 0x80]]"

definition space_prefix :: "string \<Rightarrow> nat" where
  "space_prefix s = (case find (\<lambda>p. prefix p s) space_seqs of None \<Rightarrow> 0 | Some p \<Rightarrow> length p)"

definition space_suffix :: "string \<Rightarrow> nat" where
  "space_suffix s = (case find (\<lambda>p. suffix p s) space_seqs of None \<Rightarrow> 0 | Some p \<Rightarrow> length p)"

function trim_left :: "string \<Rightarrow> string" where
  "trim_left s = (if s = [] \<or> space_prefix s = 0 then s else trim_left (drop (space_prefix s) s))"
  by pat_completeness auto
termination
  by (relation "measure length") auto

function trim_right :: "string \<Rightarrow> string" where
  "trim_right s =
     (if s = [] \<or> space_suffix s = 0 then s else trim_right (take (length s - space_suffix s) s))"
  by pat_completeness auto
termination
  by (relation "measure length") auto

declare trim_left.simps [simp del] trim_right.simps [simp del]

text \<open>\<open>strings.TrimSpace\<close>.\<close>

definition trim_space :: "string \<Rightarrow> string" where
  "trim_space s = trim_right (trim_left s)"

lemma trim_left_nil [simp]: "trim_left [] = []"
  by (subst trim_left.simps) simp

lemma trim_right_nil [simp]: "trim_right [] = []"
  by (subst trim_right.simps) simp

lemma trim_space_nil [simp]: "trim_space [] = []"
  by (simp add: trim_space_def)

lemma trim_right_fix: "trim_right (trim_right s) = trim_right s"
proof (induction s rule: trim_right.induct)
  case (1 s)
  then show ?case
    by (cases "s = [] \<or> space_suffix s = 0") (simp_all add: trim_right.simps [of s])
qed

lemma trim_left_done: "space_prefix (trim_left s) = 0 \<or> trim_left s = []"
proof (induction s rule: trim_left.induct)
  case (1 s)
  then show ?case
    by (cases "s = [] \<or> space_prefix s = 0") (auto simp: trim_left.simps [of s])
qed

lemma trim_left_fix: "trim_left (trim_left s) = trim_left s"
  using trim_left_done [of s] by (auto simp: trim_left.simps [of "trim_left s"])

lemma trim_right_length: "length (trim_right s) \<le> length s"
proof (induction s rule: trim_right.induct)
  case (1 s)
  show ?case
  proof (cases "s = [] \<or> space_suffix s = 0")
    case True
    then show ?thesis by (auto simp: trim_right.simps [of s])
  next
    case False
    with 1 show ?thesis by (simp add: trim_right.simps [of s])
  qed
qed

text \<open>\<open>utf8.RuneCountInString\<close>: an invalid byte counts as one rune.\<close>

definition is_cont :: "nat \<Rightarrow> bool" where
  "is_cont b \<longleftrightarrow> 128 \<le> b \<and> b < 192"

definition rune_width :: "string \<Rightarrow> nat" where
  "rune_width s = (case map c_nat s of
       [] \<Rightarrow> 0
     | b # bs \<Rightarrow>
         (if 194 \<le> b \<and> b \<le> 223 then (case bs of c # _ \<Rightarrow> if is_cont c then 2 else 1 | _ \<Rightarrow> 1)
          else if 224 \<le> b \<and> b \<le> 239 then
            (case bs of c # d # _ \<Rightarrow>
               if is_cont c \<and> is_cont d \<and> (b = 224 \<longrightarrow> 160 \<le> c) \<and> (b = 237 \<longrightarrow> c < 160) then 3 else 1
             | _ \<Rightarrow> 1)
          else if 240 \<le> b \<and> b \<le> 244 then
            (case bs of c # d # e # _ \<Rightarrow>
               if is_cont c \<and> is_cont d \<and> is_cont e \<and> (b = 240 \<longrightarrow> 144 \<le> c) \<and> (b = 244 \<longrightarrow> c < 144)
               then 4 else 1
             | _ \<Rightarrow> 1)
          else 1))"

lemma rune_width_pos: "s \<noteq> [] \<Longrightarrow> 0 < rune_width s"
  by (cases s) (auto simp: rune_width_def split: list.splits)

lemma rune_width_nil [simp]: "rune_width [] = 0"
  by (simp add: rune_width_def)

function runes :: "string \<Rightarrow> string list" where
  "runes s = (if s = [] then [] else take (rune_width s) s # runes (drop (rune_width s) s))"
  by pat_completeness auto
termination
  by (relation "measure length") (auto simp: rune_width_pos)

declare runes.simps [simp del]

definition rune_count :: "string \<Rightarrow> nat" where
  "rune_count s = length (runes s)"

lemma runes_nil [simp]: "runes [] = []"
  by (subst runes.simps) simp

lemma concat_runes: "concat (runes s) = s"
proof (induction s rule: runes.induct)
  case (1 s)
  then show ?case by (cases "s = []") (simp_all add: runes.simps [of s])
qed

lemma rune_count_nil [simp]: "rune_count [] = 0"
  by (simp add: rune_count_def)

lemma rune_count_pos: "s \<noteq> [] \<Longrightarrow> 0 < rune_count s"
  by (simp add: rune_count_def runes.simps [of s])

text \<open>\<open>strconv.Itoa\<close>.\<close>

fun nat_str :: "nat \<Rightarrow> string" where
  "nat_str n = (if n < 10 then [char_of (48 + n)] else nat_str (n div 10) @ [char_of (48 + n mod 10)])"

declare nat_str.simps [simp del]

definition int_str :: "int \<Rightarrow> string" where
  "int_str i = (if i < 0 then ''-'' @ nat_str (nat (- i)) else nat_str (nat i))"

text \<open>\<open>%q\<close>: quoted, with the ASCII escapes of \<open>strconv.Quote\<close>.\<close>

definition hex_digit :: "nat \<Rightarrow> char" where
  "hex_digit n = (if n < 10 then char_of (48 + n) else char_of (87 + n))"

definition quote_char :: "char \<Rightarrow> string" where
  "quote_char c = (let n = c_nat c in
     if n = 34 then [CHR 0x5C, CHR 0x22] else if n = 92 then [CHR 0x5C, CHR 0x5C]
     else if n = 7 then CHR 0x5C # ''a'' else if n = 8 then CHR 0x5C # ''b''
     else if n = 9 then CHR 0x5C # ''t'' else if n = 10 then CHR 0x5C # ''n''
     else if n = 11 then CHR 0x5C # ''v'' else if n = 12 then CHR 0x5C # ''f''
     else if n = 13 then CHR 0x5C # ''r''
     else if n < 32 \<or> n = 127 then CHR 0x5C # CHR ''x'' # [hex_digit (n div 16), hex_digit (n mod 16)]
     else [c])"

definition quoted :: "string \<Rightarrow> string" where
  "quoted s = CHR 0x22 # concat (map quote_char s) @ [CHR 0x22]"

text \<open>\<open>cmp.Or\<close> on strings and on integers.\<close>

definition or_str :: "string \<Rightarrow> string \<Rightarrow> string" where
  "or_str a b = (if a \<noteq> [] then a else b)"

definition or_int :: "int \<Rightarrow> int \<Rightarrow> int" where
  "or_int a b = (if a \<noteq> 0 then a else b)"

section \<open>Maps with string keys\<close>

text \<open>
  A Go \<open>map[string]string\<close> is an association list with distinct keys, in some iteration
  order; \<open>maps.Equal\<close> compares the lengths and then looks each key up.
\<close>

type_synonym strmap = "(string \<times> string) list"

definition maps_equal :: "strmap \<Rightarrow> strmap \<Rightarrow> bool" where
  "maps_equal xs ys \<longleftrightarrow> length xs = length ys \<and> list_all (\<lambda>(k, v). map_of ys k = Some v) xs"

definition well_keyed :: "strmap \<Rightarrow> bool" where
  "well_keyed m \<longleftrightarrow> distinct (map fst m)"

lemma maps_equal_refl: "well_keyed m \<Longrightarrow> maps_equal m m"
  by (auto simp: maps_equal_def well_keyed_def list_all_iff)

lemma maps_equal_map_of:
  assumes "well_keyed xs" "well_keyed ys" "maps_equal xs ys"
  shows "map_of xs = map_of ys"
proof -
  have sub: "set xs \<subseteq> set ys"
    using assms(3) by (auto simp: maps_equal_def list_all_iff dest: map_of_SomeD)
  have "card (set xs) = card (set ys)"
    using assms by (metis distinct_card distinct_map maps_equal_def well_keyed_def)
  with sub have "set xs = set ys" by (simp add: card_subset_eq)
  then show ?thesis using assms(1,2) by (metis map_of_inject_set well_keyed_def)
qed

end
