(* ===== verification/Computation.thy ===== *)
theory Computation
  imports Prelude
begin

text \<open>
  Computations: a Go function that returns \<open>(T, error)\<close> and acts on shared state is a
  function from the state to an error or a value and the next state. \<open>io_bind\<close> is the
  early return on \<open>err != nil\<close>; \<open>io_try\<close> hands the error to the caller as a value.
\<close>

type_synonym ('w, 'a) io = "'w \<Rightarrow> (goerr + 'a) \<times> 'w"

definition ret :: "'a \<Rightarrow> ('w, 'a) io" where
  "ret x w = (Inr x, w)"

definition fail :: "goerr \<Rightarrow> ('w, 'a) io" where
  "fail e w = (Inl e, w)"

definition io_bind :: "('w, 'a) io \<Rightarrow> ('a \<Rightarrow> ('w, 'b) io) \<Rightarrow> ('w, 'b) io" where
  "io_bind m f w = (case m w of (Inl e, w') \<Rightarrow> (Inl e, w') | (Inr x, w') \<Rightarrow> f x w')"

definition io_try :: "('w, 'a) io \<Rightarrow> ('w, goerr + 'a) io" where
  "io_try m w = (case m w of (r, w') \<Rightarrow> (Inr r, w'))"

definition io_get :: "('w \<Rightarrow> 'a) \<Rightarrow> ('w, 'a) io" where
  "io_get f w = (Inr (f w), w)"

definition io_mod :: "('w \<Rightarrow> 'w) \<Rightarrow> ('w, unit) io" where
  "io_mod g w = (Inr (), g w)"

definition io_lift :: "goerr + 'a \<Rightarrow> ('w, 'a) io" where
  "io_lift r w = (r, w)"

definition io_wrap :: "string \<Rightarrow> ('w, 'a) io \<Rightarrow> ('w, 'a) io" where
  "io_wrap oper m w = (case m w of (Inl e, w') \<Rightarrow> (Inl (err_wrap oper e), w') | (Inr x, w') \<Rightarrow> (Inr x, w'))"

fun io_each :: "('a \<Rightarrow> ('w, unit) io) \<Rightarrow> 'a list \<Rightarrow> ('w, unit) io" where
  "io_each f [] = ret ()"
| "io_each f (x # xs) = io_bind (f x) (\<lambda>_. io_each f xs)"

text \<open>A check without effects: nothing, or the error the code returns.\<close>

definition io_check :: "goerr option \<Rightarrow> ('w, unit) io" where
  "io_check r = (case r of None \<Rightarrow> ret () | Some e \<Rightarrow> fail e)"

lemmas io_defs = ret_def fail_def io_bind_def io_try_def io_get_def io_mod_def io_lift_def
  io_wrap_def io_check_def

section \<open>Weakest preconditions\<close>

text \<open>\<open>wp m Q E w\<close>: from \<open>w\<close>, \<open>m\<close> ends in a value and state of \<open>Q\<close> or an error and state of \<open>E\<close>.\<close>

definition wp :: "('w, 'a) io \<Rightarrow> ('a \<Rightarrow> 'w \<Rightarrow> bool) \<Rightarrow> (goerr \<Rightarrow> 'w \<Rightarrow> bool) \<Rightarrow> 'w \<Rightarrow> bool" where
  "wp m Q E w = (case m w of (Inl e, w') \<Rightarrow> E e w' | (Inr x, w') \<Rightarrow> Q x w')"

lemma wp_ret [wp_simps]: "wp (ret x) Q E w = Q x w"
  by (simp add: wp_def ret_def)

lemma wp_fail [wp_simps]: "wp (fail e) Q E w = E e w"
  by (simp add: wp_def fail_def)

lemma wp_bind [wp_simps]: "wp (io_bind m f) Q E w = wp m (\<lambda>x. wp (f x) Q E) E w"
  by (simp add: wp_def io_bind_def split: prod.splits sum.splits)

lemma wp_try [wp_simps]: "wp (io_try m) Q E w = wp m (\<lambda>x. Q (Inr x)) (\<lambda>e. Q (Inl e)) w"
  by (simp add: wp_def io_try_def split: prod.splits sum.splits)

lemma wp_get [wp_simps]: "wp (io_get f) Q E w = Q (f w) w"
  by (simp add: wp_def io_get_def)

lemma wp_mod [wp_simps]: "wp (io_mod g) Q E w = Q () (g w)"
  by (simp add: wp_def io_mod_def)

lemma wp_lift [wp_simps]: "wp (io_lift r) Q E w = (case r of Inl e \<Rightarrow> E e w | Inr x \<Rightarrow> Q x w)"
  by (simp add: wp_def io_lift_def)

lemma wp_wrap [wp_simps]: "wp (io_wrap oper m) Q E w = wp m Q (\<lambda>e. E (err_wrap oper e)) w"
  by (simp add: wp_def io_wrap_def split: prod.splits sum.splits)

lemma wp_check [wp_simps]: "wp (io_check r) Q E w = (case r of None \<Rightarrow> Q () w | Some e \<Rightarrow> E e w)"
  by (simp add: wp_def io_check_def ret_def fail_def split: option.splits)

lemma wp_if [wp_simps]: "wp (if b then m else m') Q E w = (if b then wp m Q E w else wp m' Q E w)"
  by simp

lemma wp_mono:
  "wp m Q E w \<Longrightarrow> (\<And>x w'. Q x w' \<Longrightarrow> Q' x w') \<Longrightarrow> (\<And>e w'. E e w' \<Longrightarrow> E' e w') \<Longrightarrow> wp m Q' E' w"
  by (auto simp: wp_def split: prod.splits sum.splits)

text \<open>From a run to the weakest precondition and back.\<close>

lemma wp_okD: "m w = (Inr x, w') \<Longrightarrow> wp m Q E w \<Longrightarrow> Q x w'"
  by (simp add: wp_def)

lemma wp_errD: "m w = (Inl e, w') \<Longrightarrow> wp m Q E w \<Longrightarrow> E e w'"
  by (simp add: wp_def)

lemma wp_runI: "(\<And>x w'. m w = (Inr x, w') \<Longrightarrow> Q x w') \<Longrightarrow> (\<And>e w'. m w = (Inl e, w') \<Longrightarrow> E e w') \<Longrightarrow> wp m Q E w"
  by (auto simp: wp_def split: prod.splits sum.splits)

lemma bind_okE:
  assumes "io_bind m f w = (Inr y, w'')"
  obtains x w' where "m w = (Inr x, w')" "f x w' = (Inr y, w'')"
  using assms by (auto simp: io_bind_def split: prod.splits sum.splits)

section \<open>Frames and invariants\<close>

text \<open>\<open>keeps f m\<close>: \<open>m\<close> leaves the part \<open>f\<close> of the state alone, also when it fails.\<close>

definition keeps :: "('w \<Rightarrow> 'b) \<Rightarrow> ('w, 'a) io \<Rightarrow> bool" where
  "keeps f m \<longleftrightarrow> (\<forall>w. f (snd (m w)) = f w)"

text \<open>\<open>preserves I m\<close>: from a state of \<open>I\<close>, \<open>m\<close> ends in one, also when it fails.\<close>

definition preserves :: "('w \<Rightarrow> bool) \<Rightarrow> ('w, 'a) io \<Rightarrow> bool" where
  "preserves I m \<longleftrightarrow> (\<forall>w. I w \<longrightarrow> I (snd (m w)))"

lemma keepsD: "keeps f m \<Longrightarrow> m w = (r, w') \<Longrightarrow> f w' = f w"
  by (metis keeps_def snd_conv)

lemma preservesD: "preserves I m \<Longrightarrow> m w = (r, w') \<Longrightarrow> I w \<Longrightarrow> I w'"
  by (metis preserves_def snd_conv)

lemma keeps_basic [keeps_intros, simp]:
  "keeps f (ret x)" "keeps f (fail e)" "keeps f (io_get g)" "keeps f (io_lift r)" "keeps f (io_check c)"
  by (auto simp: keeps_def io_defs split: option.splits)

lemma keeps_mod [keeps_intros]: "(\<And>w. f (g w) = f w) \<Longrightarrow> keeps f (io_mod g)"
  by (simp add: keeps_def io_mod_def)

lemma keeps_bind [keeps_intros]: "keeps f m \<Longrightarrow> (\<And>x. keeps f (k x)) \<Longrightarrow> keeps f (io_bind m k)"
  by (simp add: keeps_def io_bind_def split: prod.splits sum.splits) (metis snd_conv)

lemma keeps_try [keeps_intros]: "keeps f m \<Longrightarrow> keeps f (io_try m)"
  by (simp add: keeps_def io_try_def split: prod.splits) (metis snd_conv)

lemma keeps_wrap [keeps_intros]: "keeps f m \<Longrightarrow> keeps f (io_wrap oper m)"
  by (simp add: keeps_def io_wrap_def split: prod.splits sum.splits) (metis snd_conv)

lemma keeps_if [keeps_intros]: "(b \<Longrightarrow> keeps f m) \<Longrightarrow> (\<not> b \<Longrightarrow> keeps f m') \<Longrightarrow> keeps f (if b then m else m')"
  by simp

lemma keeps_option [keeps_intros]:
  "keeps f m \<Longrightarrow> (\<And>x. keeps f (k x)) \<Longrightarrow> keeps f (case v of None \<Rightarrow> m | Some x \<Rightarrow> k x)"
  by (cases v) auto

lemma keeps_sum [keeps_intros]:
  "(\<And>e. keeps f (h e)) \<Longrightarrow> (\<And>x. keeps f (k x)) \<Longrightarrow> keeps f (case v of Inl e \<Rightarrow> h e | Inr x \<Rightarrow> k x)"
  by (cases v) auto

lemma keeps_prod [keeps_intros]: "(\<And>x y. keeps f (k x y)) \<Longrightarrow> keeps f (case p of (x, y) \<Rightarrow> k x y)"
  by (cases p) auto

lemma keeps_let [keeps_intros]: "(\<And>x. keeps f (k x)) \<Longrightarrow> keeps f (Let v k)"
  by simp

lemma keeps_each [keeps_intros]: "(\<And>x. keeps f (k x)) \<Longrightarrow> keeps f (io_each k xs)"
  by (induction xs) (auto intro: keeps_intros)

lemma preserves_keeps [inv_intros]: "keeps f m \<Longrightarrow> (\<And>w w'. f w' = f w \<Longrightarrow> I w \<Longrightarrow> I w') \<Longrightarrow> preserves I m"
  by (auto simp: keeps_def preserves_def)

lemma preserves_basic:
  "preserves I (ret x)" "preserves I (fail e)" "preserves I (io_get g)" "preserves I (io_lift r)"
  "preserves I (io_check c)"
  by (auto simp: preserves_def io_defs split: option.splits)

lemma preserves_mod: "(\<And>w. I w \<Longrightarrow> I (g w)) \<Longrightarrow> preserves I (io_mod g)"
  by (simp add: preserves_def io_mod_def)

lemma preserves_bind: "preserves I m \<Longrightarrow> (\<And>x. preserves I (k x)) \<Longrightarrow> preserves I (io_bind m k)"
  by (simp add: preserves_def io_bind_def split: prod.splits sum.splits) (metis snd_conv)

lemma preserves_try: "preserves I m \<Longrightarrow> preserves I (io_try m)"
  by (simp add: preserves_def io_try_def split: prod.splits) (metis snd_conv)

lemma preserves_wrap: "preserves I m \<Longrightarrow> preserves I (io_wrap oper m)"
  by (simp add: preserves_def io_wrap_def split: prod.splits sum.splits) (metis snd_conv)

lemma preserves_if: "(b \<Longrightarrow> preserves I m) \<Longrightarrow> (\<not> b \<Longrightarrow> preserves I m') \<Longrightarrow> preserves I (if b then m else m')"
  by simp

lemma preserves_option:
  "preserves I m \<Longrightarrow> (\<And>x. preserves I (k x)) \<Longrightarrow> preserves I (case v of None \<Rightarrow> m | Some x \<Rightarrow> k x)"
  by (cases v) auto

lemma preserves_sum:
  "(\<And>e. preserves I (h e)) \<Longrightarrow> (\<And>x. preserves I (k x)) \<Longrightarrow> preserves I (case v of Inl e \<Rightarrow> h e | Inr x \<Rightarrow> k x)"
  by (cases v) auto

lemma preserves_prod: "(\<And>x y. preserves I (k x y)) \<Longrightarrow> preserves I (case p of (x, y) \<Rightarrow> k x y)"
  by (cases p) auto

lemma preserves_each: "(\<And>x. preserves I (k x)) \<Longrightarrow> preserves I (io_each k xs)"
  by (induction xs) (auto intro: preserves_basic preserves_bind)

lemmas preserves_rules = preserves_basic preserves_bind preserves_try preserves_wrap preserves_if
  preserves_option preserves_sum preserves_prod preserves_each

lemma preserves_wp: "preserves I m \<longleftrightarrow> (\<forall>w. I w \<longrightarrow> wp m (\<lambda>_. I) (\<lambda>_. I) w)"
  by (simp add: preserves_def wp_def split: prod.splits sum.splits) (metis snd_conv surjective_pairing)

text \<open>An invariant step by step: what every operation keeps, every run of operations keeps.\<close>

fun run_ops :: "('o \<Rightarrow> 'w \<Rightarrow> 'w) \<Rightarrow> 'o list \<Rightarrow> 'w \<Rightarrow> 'w" where
  "run_ops step [] w = w"
| "run_ops step (x # xs) w = run_ops step xs (step x w)"

locale invariant_steps =
  fixes step :: "'o \<Rightarrow> 'w \<Rightarrow> 'w" and I :: "'w \<Rightarrow> bool"
  assumes step_inv: "I w \<Longrightarrow> I (step x w)"
begin

lemma run_inv: "I w \<Longrightarrow> I (run_ops step xs w)"
  by (induction xs arbitrary: w) (auto simp: step_inv)

end

end
