(* ===== verification/Core.thy ===== *)
theory Core
  imports Computation
begin

text \<open>
  The domain types of internal/core/core.go. Go's string types whose values come from a
  request (roles, dev status, form factor, build state, registry) keep a constructor for any
  other text; those only the program assigns are plain enumerations.
\<close>

type_synonym uuid = "128 word"
type_synonym time = int

text \<open>Nanoseconds; \<open>time.Duration\<close> constants.\<close>

definition second :: int where "second = 1000000000"
definition minute :: int where "minute = 60 * second"
definition hour :: int where "hour = 60 * minute"

section \<open>Enumerations\<close>

datatype task_status = StatusCreating | StatusRunning | StatusStopped | StatusError
  | StatusStarting | StatusUnknown

fun status_str :: "task_status \<Rightarrow> string" where
  "status_str StatusCreating = ''creating''"
| "status_str StatusRunning = ''running''"
| "status_str StatusStopped = ''stopped''"
| "status_str StatusError = ''error''"
| "status_str StatusStarting = ''starting''"
| "status_str StatusUnknown = ''unknown''"

datatype dev_status = DevInProgress | DevBlocked | DevReady | OtherDev string

fun dev_str :: "dev_status \<Rightarrow> string" where
  "dev_str DevInProgress = ''in_progress''"
| "dev_str DevBlocked = ''blocked''"
| "dev_str DevReady = ''ready''"
| "dev_str (OtherDev s) = s"

datatype form_factor = FormFactorWeb | FormFactorMobile | OtherForm string

datatype user_role = RoleAdmin | RoleUser | OtherUserRole string

datatype project_role = ProjectRoleViewer | ProjectRoleOperator | ProjectRoleMember
  | ProjectRoleOwner | OtherRole string

text \<open>The zero value: no role at all.\<close>

definition no_role :: project_role where
  "no_role = OtherRole []"

fun role_str :: "project_role \<Rightarrow> string" where
  "role_str ProjectRoleViewer = ''viewer''"
| "role_str ProjectRoleOperator = ''operator''"
| "role_str ProjectRoleMember = ''member''"
| "role_str ProjectRoleOwner = ''owner''"
| "role_str (OtherRole s) = s"

definition role_of_str :: "string \<Rightarrow> project_role" where
  "role_of_str s =
     (if s = ''viewer'' then ProjectRoleViewer else if s = ''operator'' then ProjectRoleOperator
      else if s = ''member'' then ProjectRoleMember else if s = ''owner'' then ProjectRoleOwner
      else OtherRole s)"

fun role_rank :: "project_role \<Rightarrow> nat" where
  "role_rank ProjectRoleViewer = 1"
| "role_rank ProjectRoleOperator = 2"
| "role_rank ProjectRoleMember = 3"
| "role_rank ProjectRoleOwner = 4"
| "role_rank (OtherRole s) = 0"

definition role_max :: "project_role \<Rightarrow> project_role \<Rightarrow> project_role" where
  "role_max r other = (if role_rank other > role_rank r then other else r)"

datatype registry_kind = RegistryGHCR | RegistryDockerHub | OtherRegistry string

datatype notification_status = NotificationSuccess | NotificationFailure | NotificationInfo

datatype notification_type = NotificationDeployed | NotificationDeployFailed
  | NotificationStatusChanged | NotificationTaskCreated | NotificationTaskAssigned
  | NotificationBuildFailed

fun type_status :: "notification_type \<Rightarrow> notification_status" where
  "type_status NotificationDeployed = NotificationSuccess"
| "type_status NotificationDeployFailed = NotificationFailure"
| "type_status NotificationBuildFailed = NotificationFailure"
| "type_status _ = NotificationInfo"

datatype token_kind = TokenKindSession | TokenKindAPI

datatype build_state = BuildRunning | BuildSuccess | BuildFailure | BuildCanceled | OtherBuild string

section \<open>Records\<close>

record user =
  u_id :: uuid
  u_username :: string
  u_email :: string
  u_hash :: string
  u_role :: user_role
  u_disabled :: "time option"
  u_avatar :: "time option"
  u_created :: time
  u_updated :: time

definition is_admin :: "user \<Rightarrow> bool" where
  "is_admin u \<longleftrightarrow> u_role u = RoleAdmin"

definition disabled :: "user \<Rightarrow> bool" where
  "disabled u \<longleftrightarrow> u_disabled u \<noteq> None"

record auth_token =
  k_id :: uuid
  k_user :: uuid
  k_name :: string
  k_kind :: token_kind
  k_hash :: string
  k_from :: time
  k_expires :: time
  k_revoked :: "time option"
  k_created :: time

record credential =
  c_id :: uuid
  c_name :: string
  c_registry :: registry_kind
  c_username :: string
  c_token :: string
  c_by :: "uuid option"
  c_created :: time

record project =
  p_id :: uuid
  p_slug :: string
  p_name :: string
  p_credential :: "uuid option"
  p_image :: string
  p_port :: int
  p_env :: strmap
  p_form :: form_factor
  p_by :: "uuid option"
  p_created :: time
  p_updated :: time

record member =
  m_project :: uuid
  m_user :: uuid
  m_username :: string
  m_role :: project_role
  m_avatar :: "time option"
  m_created :: time

record grant =
  g_task :: uuid
  g_user :: uuid
  g_username :: string
  g_role :: project_role
  g_created :: time

record assignee =
  a_user :: uuid
  a_username :: string
  a_avatar :: "time option"
  a_role :: project_role

record access =
  acc_project :: project
  acc_user :: uuid
  acc_role :: project_role
  acc_all :: bool

record route =
  r_path :: string
  r_url :: string
  r_anycert :: bool

record build =
  b_state :: build_state
  b_stage :: string
  b_progress :: int
  b_url :: string
  b_at :: time

definition zero_build :: build where
  "zero_build = \<lparr>b_state = OtherBuild [], b_stage = [], b_progress = 0, b_url = [], b_at = 0\<rparr>"

record revision =
  v_repo :: string
  v_commit :: string
  v_previous :: string

definition zero_revision :: revision where
  "zero_revision = \<lparr>v_repo = [], v_commit = [], v_previous = []\<rparr>"

record task =
  t_id :: uuid
  t_project :: uuid
  t_name :: string
  t_description :: string
  t_note :: string
  t_image :: string
  t_status :: task_status
  t_dev :: dev_status
  t_form :: form_factor
  t_password :: string
  t_port :: int
  t_container :: string
  t_ip :: string
  t_labels :: strmap
  t_env :: strmap
  t_volumes :: strmap
  t_routes :: "route list"
  t_assignees :: "assignee list"
  t_build :: build
  t_revision :: revision
  t_pending :: bool
  t_error :: string
  t_created :: time
  t_updated :: time

record container_spec =
  s_project :: string
  s_name :: string
  s_image :: string
  s_port :: int
  s_labels :: strmap
  s_env :: strmap
  s_volumes :: strmap

definition task_spec :: "task \<Rightarrow> string \<Rightarrow> container_spec" where
  "task_spec t slug = \<lparr>s_project = slug, s_name = t_name t, s_image = t_image t, s_port = t_port t,
     s_labels = t_labels t, s_env = t_env t, s_volumes = t_volumes t\<rparr>"

record notification =
  n_id :: uuid
  n_project :: uuid
  n_slug :: string
  n_task :: string
  n_type :: notification_type
  n_status :: notification_status
  n_title :: string
  n_body :: string
  n_user :: "uuid option"
  n_seen :: bool
  n_created :: time

record fleet_task =
  ft_task :: task
  ft_role :: project_role
  ft_deploy :: "notification option"

record container_state =
  cs_exists :: bool
  cs_status :: task_status
  cs_ip :: string
  cs_error :: string

section \<open>Roles\<close>

lemma role_rank_bounds: "role_rank r \<le> 4"
  by (cases r) auto

lemma role_rank_zero_iff: "role_rank r = 0 \<longleftrightarrow> (\<exists>s. r = OtherRole s)"
  by (cases r) auto

lemma role_rank_4_iff [simp]: "role_rank r = 4 \<longleftrightarrow> r = ProjectRoleOwner"
  by (cases r) auto

lemma role_rank_inj: "role_rank r = role_rank r' \<Longrightarrow> 0 < role_rank r \<Longrightarrow> r = r'"
  by (cases r; cases r') auto

lemma role_max_rank [simp]: "role_rank (role_max r r') = max (role_rank r) (role_rank r')"
  by (simp add: role_max_def)

lemma role_max_no_role [simp]: "role_max r no_role = r"
  by (simp add: role_max_def no_role_def)

lemma no_role_rank [simp]: "role_rank no_role = 0"
  by (simp add: no_role_def)

lemma role_of_str_str: "0 < role_rank r \<Longrightarrow> role_of_str (role_str r) = r"
  by (cases r) (auto simp: role_of_str_def)

text \<open>Project roles ordered by rank, ties between unknown roles by their text.\<close>

instantiation project_role :: linorder
begin

definition less_eq_project_role :: "project_role \<Rightarrow> project_role \<Rightarrow> bool" where
  "less_eq_project_role a b \<longleftrightarrow> (role_rank a, role_str a) \<le> (role_rank b, role_str b)"

definition less_project_role :: "project_role \<Rightarrow> project_role \<Rightarrow> bool" where
  "less_project_role a b \<longleftrightarrow> (role_rank a, role_str a) < (role_rank b, role_str b)"

instance
proof
  fix x y :: project_role
  show "x \<le> y \<Longrightarrow> y \<le> x \<Longrightarrow> x = y"
    by (cases x; cases y) (auto simp: less_eq_project_role_def)
qed (auto simp: less_eq_project_role_def less_project_role_def)

end

end
