(* ===== verification/Validate.thy ===== *)
theory Validate
  imports Core
begin

text \<open>
  The validators of internal/core/core.go. The regular expressions are written as predicates
  on the byte list (Go's \<open>$\<close> without \<open>(?m)\<close> is the end of the text); \<open>path.Clean\<close> is the
  standard library's lexical algorithm; \<open>url.Parse\<close> and \<open>URL.String\<close> are the parameters
  \<open>url_lib\<close>.
\<close>

section \<open>Names\<close>

definition task_char :: "char \<Rightarrow> bool" where
  "task_char c \<longleftrightarrow> is_alnum c \<or> c = CHR ''.'' \<or> c = CHR ''_'' \<or> c = CHR ''-''"

definition match_task_name :: "string \<Rightarrow> bool" where
  "match_task_name s = (case s of [] \<Rightarrow> False
     | c # cs \<Rightarrow> is_alnum c \<and> list_all task_char cs \<and> length cs \<le> 62)"

definition slug_first :: "char \<Rightarrow> bool" where
  "slug_first c \<longleftrightarrow> is_lower c \<or> is_digit c"

definition match_project_slug :: "string \<Rightarrow> bool" where
  "match_project_slug s = (case s of [] \<Rightarrow> False
     | c # cs \<Rightarrow> slug_first c \<and> list_all (\<lambda>d. slug_first d \<or> d = CHR ''-'') cs \<and> length cs \<le> 62)"

definition validate_task_name :: "string \<Rightarrow> goerr option" where
  "validate_task_name name = (if \<not> match_task_name name
     then Some (err_invalid ''task name must match ^[A-Za-z0-9][A-Za-z0-9._-]{0,62}$'') else None)"

definition reserved_slugs :: "string list" where
  "reserved_slugs = [''api'', ''health'', ''metrics'', ''static'', ''admin'', ''legal'']"

definition validate_project_slug :: "string \<Rightarrow> goerr option" where
  "validate_project_slug slug =
     (if \<not> match_project_slug slug
      then Some (err_invalid ''project slug must match ^[a-z0-9][a-z0-9-]{0,62}$'')
      else if slug \<in> set reserved_slugs
      then Some (err_invalid (''project slug is reserved: '' @ slug))
      else None)"

section \<open>Enumerations\<close>

definition validate_dev_status :: "dev_status \<Rightarrow> goerr option" where
  "validate_dev_status s = (case s of
       OtherDev _ \<Rightarrow> Some (err_invalid ''dev status must be in_progress, blocked, or ready'')
     | _ \<Rightarrow> None)"

definition validate_form_factor :: "form_factor \<Rightarrow> goerr option" where
  "validate_form_factor f = (case f of
       OtherForm _ \<Rightarrow> Some (err_invalid ''form factor must be web or mobile'')
     | _ \<Rightarrow> None)"

section \<open>Environment, push tokens\<close>

definition reserved_env :: "string list" where
  "reserved_env = [''BOREAS_PROJECT'', ''BOREAS_TASK'', ''BOREAS_PORT'', ''BASE_HREF'']"

fun validate_env :: "strmap \<Rightarrow> goerr option" where
  "validate_env [] = None"
| "validate_env ((key, value) # env) =
     (if key = [] \<or> contains_any key [CHR ''='', CHR 0x00]
      then Some (err_invalid ''environment variable names must be non-empty and contain neither '=' nor NUL'')
      else if key \<in> set reserved_env
      then Some (err_invalid (''environment variable is reserved by Boreas: '' @ key))
      else validate_env env)"

definition push_token_stops :: string where
  "push_token_stops = '',/? '' @ [CHR 0x09, CHR 0x0D, CHR 0x0A]"

definition validate_push_token :: "string \<Rightarrow> goerr option" where
  "validate_push_token token =
     (if token = [] \<or> length token > 4096 \<or> contains_any token push_token_stops
      then Some (err_invalid ''push token must be 1-4096 bytes and contain no comma, slash, question mark, or whitespace'')
      else None)"

section \<open>Paths and volumes\<close>

definition slash :: char where "slash = CHR ''/''"

text \<open>One path segment onto the cleaned output, innermost first.\<close>

definition clean_seg :: "bool \<Rightarrow> string \<Rightarrow> string list \<Rightarrow> string list" where
  "clean_seg rooted seg out =
     (if seg = [] \<or> seg = ''.'' then out
      else if seg = ''..'' then
        (case out of [] \<Rightarrow> if rooted then [] else [''..'']
         | x # xs \<Rightarrow> if x = ''..'' then ''..'' # out else xs)
      else seg # out)"

definition is_abs :: "string \<Rightarrow> bool" where
  "is_abs p \<longleftrightarrow> prefix ''/'' p"

definition path_clean :: "string \<Rightarrow> string" where
  "path_clean p = (let out = rev (fold (clean_seg (is_abs p)) (split_at slash p) []) in
     if is_abs p then slash # join_with ''/'' out
     else if out = [] then ''.'' else join_with ''/'' out)"

fun validate_volumes :: "strmap \<Rightarrow> goerr option" where
  "validate_volumes [] = None"
| "validate_volumes ((target, folder) # volumes) =
     (if \<not> is_abs target \<or> path_clean target \<noteq> target \<or> target = ''/'' \<or>
         folder = [] \<or> folder = ''.'' \<or> folder = ''..'' \<or> slash \<in> set folder
      then Some (err_invalid (''volume must map a clean absolute path other than / to a folder name: '' @ target))
      else validate_volumes volumes)"

section \<open>Container specifications\<close>

definition reserved_labels :: "string list" where
  "reserved_labels = [''managed-by'', ''project'', ''task'']"

fun validate_labels :: "strmap \<Rightarrow> goerr option" where
  "validate_labels [] = None"
| "validate_labels ((key, value) # labels) =
     (if key \<in> set reserved_labels
      then Some (err_invalid (''container label is reserved by Boreas: '' @ key))
      else validate_labels labels)"

definition validate_spec :: "container_spec \<Rightarrow> goerr option" where
  "validate_spec s =
     (case validate_project_slug (s_project s) of Some e \<Rightarrow> Some e | None \<Rightarrow>
      (case validate_task_name (s_name s) of Some e \<Rightarrow> Some e | None \<Rightarrow>
       if trim_space (s_image s) = [] then Some (err_invalid ''image is required'')
       else if s_port s < 1 \<or> s_port s > 65535 then Some (err_invalid ''port must be between 1 and 65535'')
       else (case validate_env (s_env s) of Some e \<Rightarrow> Some e | None \<Rightarrow>
         (case validate_labels (s_labels s) of Some e \<Rightarrow> Some e | None \<Rightarrow>
           validate_volumes (s_volumes s)))))"

section \<open>URLs and routes\<close>

record url =
  ul_scheme :: string
  ul_host :: string
  ul_user :: bool
  ul_path :: string
  ul_rawquery :: string
  ul_forcequery :: bool
  ul_fragment :: string

text \<open>net/url: \<open>Parse\<close> (None for an error) and \<open>String\<close> of a URL without a RawPath.\<close>

record url_lib =
  url_parse :: "string \<Rightarrow> url option"
  url_string :: "url \<Rightarrow> string"

definition bad_route_url :: string where
  "bad_route_url = ''address must be http(s)://host[:port][/path]''"

definition clean_route_url :: "url_lib \<Rightarrow> string \<Rightarrow> goerr + string" where
  "clean_route_url ul raw = (case url_parse ul raw of None \<Rightarrow> Inl (err_invalid bad_route_url)
     | Some u \<Rightarrow>
        if length raw > 2048 \<or> (ul_scheme u \<noteq> ''http'' \<and> ul_scheme u \<noteq> ''https'') \<or> ul_host u = [] \<or>
           ul_user u \<or> ul_rawquery u \<noteq> [] \<or> ul_forcequery u \<or> ul_fragment u \<noteq> []
        then Inl (err_invalid bad_route_url)
        else Inr (url_string ul (u\<lparr>ul_path := trim_suffix (path_clean (''/'' @ ul_path u)) ''/''\<rparr>)))"

definition route_seg_char :: "char \<Rightarrow> bool" where
  "route_seg_char c \<longleftrightarrow> is_alnum c \<or> c = CHR ''_'' \<or> c = CHR ''-''"

text \<open>\<open>^(/[A-Za-z0-9_-]+)+$\<close>: one or more non-empty segments, each after a slash.\<close>

definition match_route_path :: "string \<Rightarrow> bool" where
  "match_route_path p = (case split_at slash p of [] \<Rightarrow> False
     | s # segs \<Rightarrow> s = [] \<and> segs \<noteq> [] \<and> list_all (\<lambda>g. g \<noteq> [] \<and> list_all route_seg_char g) segs)"

definition route_reason :: "url_lib \<Rightarrow> route list \<Rightarrow> route \<Rightarrow> string option" where
  "route_reason ul clean r = (let p = trim_suffix (r_path r) ''/'' in
     if r_path r = ''/'' then Some ''/ is the task itself''
     else if length p > 64 \<or> \<not> match_route_path p
       then Some ''path must start with / and use letters, digits, - and _''
     else if list_ex (\<lambda>c. r_path c = p) clean then Some ''path is taken''
     else (case clean_route_url ul (r_url r) of Inl _ \<Rightarrow> Some bad_route_url | Inr _ \<Rightarrow> None))"

fun clean_routes_loop :: "url_lib \<Rightarrow> route list \<Rightarrow> route list \<Rightarrow> goerr + route list" where
  "clean_routes_loop ul clean [] = Inr clean"
| "clean_routes_loop ul clean (r # rs) = (case route_reason ul clean r of
       Some reason \<Rightarrow> Inl (err_invalid (r_path r @ '': '' @ reason))
     | None \<Rightarrow> (case clean_route_url ul (r_url r) of Inl e \<Rightarrow> Inl e
        | Inr u \<Rightarrow> clean_routes_loop ul
            (clean @ [\<lparr>r_path = trim_suffix (r_path r) ''/'', r_url = u, r_anycert = r_anycert r\<rparr>]) rs))"

definition clean_routes :: "url_lib \<Rightarrow> route list \<Rightarrow> goerr + route list" where
  "clean_routes ul routes =
     (if length routes > 20 then Inl (err_invalid ''at most 20 routes'')
      else (case clean_routes_loop ul [] routes of Inl e \<Rightarrow> Inl e
        | Inr clean \<Rightarrow> Inr (sort_key r_path clean)))"

section \<open>Builds, revisions, deploy images\<close>

text \<open>\<open>unicode.IsControl\<close> of a rune, given by its bytes.\<close>

definition is_control_rune :: "string \<Rightarrow> bool" where
  "is_control_rune r = (case map c_nat r of
       [b] \<Rightarrow> b < 32 \<or> b = 127
     | [b, c] \<Rightarrow> b = 194 \<and> 128 \<le> c \<and> c < 160
     | _ \<Rightarrow> False)"

definition validate_build :: "url_lib \<Rightarrow> build \<Rightarrow> goerr option" where
  "validate_build ul b =
     (if (case b_state b of OtherBuild _ \<Rightarrow> True | _ \<Rightarrow> False)
      then Some (err_invalid ''build state must be running, success, failure, or canceled'')
      else if rune_count (b_stage b) > 100 \<or> list_ex is_control_rune (runes (b_stage b))
      then Some (err_invalid ''build stage must be at most 100 printable characters'')
      else if b_progress b < 0 \<or> b_progress b > 100
      then Some (err_invalid ''build progress must be between 0 and 100'')
      else if b_url b \<noteq> [] \<and> (case url_parse ul (b_url b) of None \<Rightarrow> True
             | Some link \<Rightarrow> length (b_url b) > 2048 \<or> ul_host link = [] \<or>
                 (ul_scheme link \<noteq> ''http'' \<and> ul_scheme link \<noteq> ''https''))
      then Some (err_invalid ''build url must be an absolute http or https URL'')
      else None)"

definition match_full_commit :: "string \<Rightarrow> bool" where
  "match_full_commit s \<longleftrightarrow> 40 \<le> length s \<and> length s \<le> 64 \<and> list_all is_hex s"

definition repo_char :: "char \<Rightarrow> bool" where
  "repo_char c \<longleftrightarrow> is_word c \<or> c = CHR ''.'' \<or> c = CHR ''-''"

text \<open>\<open>^[\w.-]+(/[\w.-]+)+$\<close>: at least two non-empty segments.\<close>

definition valid_repo_name :: "string \<Rightarrow> bool" where
  "valid_repo_name name \<longleftrightarrow> length name \<le> 200 \<and>
     (let segs = split_at slash name in
      2 \<le> length segs \<and> list_all (\<lambda>g. g \<noteq> [] \<and> list_all repo_char g) segs)"

definition validate_revision :: "revision \<Rightarrow> goerr option" where
  "validate_revision r =
     (if (v_repo r \<noteq> [] \<or> v_commit r \<noteq> []) \<and> (\<not> valid_repo_name (v_repo r) \<or> \<not> match_full_commit (v_commit r))
      then Some (err_invalid ''repository and revision come together: the repository as Sourcebot names it, such as github.com/org/repo, and a full commit hash'')
      else None)"

text \<open>\<open>^[^@\s]+@sha256:[0-9a-f]{64}$\<close> of internal/service/task_service.go.\<close>

definition match_deploy_digest :: "string \<Rightarrow> bool" where
  "match_deploy_digest s = (case cut_at (CHR ''@'') s of (repo, digest, found) \<Rightarrow>
     found \<and> repo \<noteq> [] \<and> list_all (\<lambda>c. \<not> is_re_space c) repo \<and>
     prefix ''sha256:'' digest \<and> length digest = 71 \<and> list_all is_hex (drop 7 digest))"

section \<open>Splitting and joining\<close>

lemma split_at_not_nil [simp]: "split_at c s \<noteq> []"
  by (induction s) (auto split: list.splits)

lemma split_at_segs: "g \<in> set (split_at c s) \<Longrightarrow> c \<notin> set g"
proof (induction s arbitrary: g)
  case (Cons x xs)
  then show ?case by (cases "split_at c xs") (auto split: if_splits)
qed simp

lemma join_split: "join_with [c] (split_at c s) = s"
proof (induction s)
  case (Cons x xs)
  then show ?case
    by (cases "split_at c xs"; cases "tl (split_at c xs)") (auto simp: neq_Nil_conv)
qed simp

lemma split_no_sep: "c \<notin> set s \<Longrightarrow> split_at c s = [s]"
  by (induction s) auto

lemma split_append_sep: "c \<notin> set p \<Longrightarrow> split_at c (p @ c # s) = p # split_at c s"
  by (induction p) auto

lemma split_join: "ps \<noteq> [] \<Longrightarrow> (\<forall>p \<in> set ps. c \<notin> set p) \<Longrightarrow> split_at c (join_with [c] ps) = ps"
  by (induction ps rule: induct_list012) (auto simp: split_no_sep split_append_sep)

section \<open>path.Clean\<close>

text \<open>What the loop of \<open>path.Clean\<close> keeps of its output, innermost segment first.\<close>

definition clean_stack :: "bool \<Rightarrow> string list \<Rightarrow> bool" where
  "clean_stack rooted out \<longleftrightarrow>
     (\<forall>g \<in> set out. g \<noteq> [] \<and> g \<noteq> ''.'' \<and> slash \<notin> set g) \<and>
     (\<exists>xs n. out = xs @ replicate n ''..'' \<and> ''..'' \<notin> set xs \<and> (rooted \<longrightarrow> n = 0))"

lemma clean_stack_nil [simp]: "clean_stack rooted []"
  by (auto simp: clean_stack_def)

lemma clean_seg_stack:
  assumes "clean_stack rooted out" "slash \<notin> set g"
  shows "clean_stack rooted (clean_seg rooted g out)"
proof -
  obtain xs n where out: "out = xs @ replicate n ''..''" and up: "''..'' \<notin> set xs"
    and rt: "rooted \<longrightarrow> n = 0"
    using assms(1) by (auto simp: clean_stack_def)
  have good: "\<forall>g \<in> set out. g \<noteq> [] \<and> g \<noteq> ''.'' \<and> slash \<notin> set g"
    using assms(1) by (simp add: clean_stack_def)
  consider "g = [] \<or> g = ''.''" | "g = ''..''" | "g \<noteq> []" "g \<noteq> ''.''" "g \<noteq> ''..''" by blast
  then show ?thesis
  proof cases
    case 1
    then show ?thesis using assms(1) by (auto simp: clean_seg_def)
  next
    case 2
    have root: "slash \<notin> set ''..''" by (simp add: slash_def)
    show ?thesis
    proof (cases xs)
      case Nil
      have "clean_stack rooted (''..'' # out)" if "\<not> rooted"
        unfolding clean_stack_def using good root that out Nil
        by (auto intro!: exI [of _ "[]"] exI [of _ "Suc n"])
      moreover have "clean_seg rooted g out = (if rooted then [] else ''..'' # out)"
        using 2 out Nil rt by (cases n) (auto simp: clean_seg_def)
      ultimately show ?thesis by auto
    next
      case (Cons y ys)
      then have "y \<noteq> ''..''" using up by auto
      then have "clean_seg rooted g out = ys @ replicate n ''..''"
        using 2 out Cons by (simp add: clean_seg_def)
      moreover have "clean_stack rooted (ys @ replicate n ''..'')"
        unfolding clean_stack_def using good out Cons up rt by auto
      ultimately show ?thesis by simp
    qed
  next
    case 3
    then have "clean_seg rooted g out = g # out" by (simp add: clean_seg_def)
    moreover have "g # out = (g # xs) @ replicate n ''..'' \<and> ''..'' \<notin> set (g # xs)"
      using out up 3 by simp
    then have "clean_stack rooted (g # out)"
      unfolding clean_stack_def using good rt 3 assms(2) by (metis set_ConsD)
    ultimately show ?thesis by simp
  qed
qed

lemma clean_fold_stack:
  "clean_stack rooted out \<Longrightarrow> (\<forall>g \<in> set segs. slash \<notin> set g) \<Longrightarrow>
   clean_stack rooted (fold (clean_seg rooted) segs out)"
  by (induction segs arbitrary: out) (auto simp: clean_seg_stack)

lemma clean_fold_ups: "\<not> rooted \<Longrightarrow>
  fold (clean_seg rooted) (replicate n ''..'') (replicate m ''..'') = replicate (m + n) ''..''"
proof (induction n arbitrary: m)
  case (Suc n)
  have "clean_seg rooted ''..'' (replicate m ''..'') = replicate (Suc m) ''..''"
    using Suc.prems by (cases m) (auto simp: clean_seg_def)
  with Suc.IH [of "Suc m"] Suc.prems show ?case by simp
qed simp

lemma clean_fold_plain:
  "(\<forall>g \<in> set xs. g \<noteq> [] \<and> g \<noteq> ''.'' \<and> g \<noteq> ''..'') \<Longrightarrow> fold (clean_seg rooted) xs out = rev xs @ out"
  by (induction xs arbitrary: out) (auto simp: clean_seg_def)

lemma clean_fold_fixed:
  assumes "clean_stack rooted out"
  shows "fold (clean_seg rooted) (rev out) [] = out"
proof -
  obtain xs n where out: "out = xs @ replicate n ''..''" and up: "''..'' \<notin> set xs"
    and rt: "rooted \<longrightarrow> n = 0"
    using assms by (auto simp: clean_stack_def)
  have plain: "\<forall>g \<in> set (rev xs). g \<noteq> [] \<and> g \<noteq> ''.'' \<and> g \<noteq> ''..''"
    using assms out up by (auto simp: clean_stack_def)
  have ups: "fold (clean_seg rooted) (replicate n ''..'') [] = replicate n ''..''"
    using clean_fold_ups [of rooted n 0] rt by (cases rooted) auto
  have "fold (clean_seg rooted) (rev out) [] = fold (clean_seg rooted) (rev xs) (replicate n ''..'')"
    by (simp add: out ups del: fold_simps(2) fold_replicate)
  also have "\<dots> = out"
    by (subst clean_fold_plain [OF plain]) (simp add: out)
  finally show ?thesis .
qed

definition clean_out :: "string \<Rightarrow> string list" where
  "clean_out p = rev (fold (clean_seg (is_abs p)) (split_at slash p) [])"

lemma path_clean_out: "path_clean p = (if is_abs p then slash # join_with ''/'' (clean_out p)
    else if clean_out p = [] then ''.'' else join_with ''/'' (clean_out p))"
  by (simp add: path_clean_def clean_out_def Let_def)

lemma clean_out_stack: "clean_stack (is_abs p) (rev (clean_out p))"
  using clean_fold_stack [of "is_abs p" "[]" "split_at slash p"] split_at_segs
  by (auto simp: clean_out_def)

lemma clean_out_segs:
  "g \<in> set (clean_out p) \<Longrightarrow> g \<noteq> [] \<and> g \<noteq> ''.'' \<and> slash \<notin> set g \<and> (is_abs p \<longrightarrow> g \<noteq> ''..'')"
  using clean_out_stack [of p] by (auto simp: clean_stack_def)

lemma join_head: "ps \<noteq> [] \<Longrightarrow> hd ps \<noteq> [] \<Longrightarrow>
    join_with sep ps \<noteq> [] \<and> hd (join_with sep ps) = hd (hd ps)"
  by (induction ps rule: induct_list012) auto

lemma slash_sep: "''/'' = [slash]"
  by (simp add: slash_def)

lemma path_clean_idem: "path_clean (path_clean p) = path_clean p"
proof -
  let ?o = "clean_out p"
  have segs: "\<forall>g \<in> set ?o. slash \<notin> set g" using clean_out_segs by blast
  have fx: "fold (clean_seg (is_abs p)) ?o [] = rev ?o"
    using clean_fold_fixed [OF clean_out_stack [of p]] by simp
  show ?thesis
  proof (cases "is_abs p")
    case True
    let ?q = "slash # join_with ''/'' ?o"
    have "split_at slash ?q = [] # (if ?o = [] then [[]] else ?o)"
      using segs by (simp add: slash_sep split_join)
    moreover have "is_abs ?q" by (simp add: is_abs_def slash_def)
    moreover have "clean_seg True [] out = out" for out by (simp add: clean_seg_def)
    ultimately have "clean_out ?q = ?o"
      using fx True by (simp add: clean_out_def split: if_splits)
    moreover have "path_clean p = ?q" using True by (simp add: path_clean_out)
    ultimately show ?thesis using \<open>is_abs ?q\<close> by (simp add: path_clean_out)
  next
    case False
    show ?thesis
    proof (cases "?o = []")
      case True
      with False show ?thesis
        by (simp add: path_clean_out clean_out_def is_abs_def slash_def clean_seg_def)
    next
      case ne: False
      let ?q = "join_with ''/'' ?o"
      have "hd ?o \<noteq> [] \<and> slash \<notin> set (hd ?o)" using clean_out_segs ne by (meson hd_in_set)
      then have "?q \<noteq> []" "hd ?q \<noteq> slash" using join_head [where ps = ?o and sep = "''/''"] ne by (auto dest: hd_in_set)
      then have rel: "\<not> is_abs ?q" by (cases ?q) (auto simp: is_abs_def slash_def)
      have "split_at slash ?q = ?o" using segs ne by (simp add: slash_sep split_join)
      then have "clean_out ?q = ?o" using fx rel False by (simp add: clean_out_def)
      with rel False ne show ?thesis by (simp add: path_clean_out)
    qed
  qed
qed

section \<open>What the validators accept\<close>

lemma c_nat_inj [simp]: "c_nat c = c_nat d \<longleftrightarrow> c = d"
  by (simp add: c_nat_def)

lemma slug_no_slash: "match_project_slug s \<Longrightarrow> slash \<notin> set s"
  by (auto simp: match_project_slug_def slug_first_def list_all_iff slash_def char_class_defs split: list.splits)

lemma task_name_no_slash: "match_task_name s \<Longrightarrow> slash \<notin> set s"
  by (auto simp: match_task_name_def task_char_def list_all_iff slash_def char_class_defs split: list.splits)

lemma slug_is_task_name: "match_project_slug s \<Longrightarrow> match_task_name s"
  by (auto simp: match_project_slug_def match_task_name_def slug_first_def task_char_def is_alnum_def
      list_all_iff split: list.splits)

lemma task_name_ascii: "match_task_name s \<Longrightarrow> list_all is_ascii s"
  by (auto simp: match_task_name_def task_char_def list_all_iff char_class_defs split: list.splits)

lemma validate_task_name_None [simp]: "validate_task_name s = None \<longleftrightarrow> match_task_name s"
  by (simp add: validate_task_name_def)

lemma validate_project_slug_None [simp]:
  "validate_project_slug s = None \<longleftrightarrow> match_project_slug s \<and> s \<notin> set reserved_slugs"
  by (simp add: validate_project_slug_def)

lemma validate_env_None:
  "validate_env env = None \<longleftrightarrow>
     (\<forall>k \<in> fst ` set env. k \<noteq> [] \<and> \<not> contains_any k [CHR ''='', CHR 0x00] \<and> k \<notin> set reserved_env)"
  by (induction env) (auto split: if_splits)

lemma validate_labels_None: "validate_labels ls = None \<longleftrightarrow> (\<forall>k \<in> fst ` set ls. k \<notin> set reserved_labels)"
  by (induction ls) (auto split: if_splits)

lemma validate_volumes_None:
  "validate_volumes vs = None \<longleftrightarrow> (\<forall>(target, folder) \<in> set vs. is_abs target \<and> path_clean target = target \<and>
     target \<noteq> ''/'' \<and> folder \<noteq> [] \<and> folder \<noteq> ''.'' \<and> folder \<noteq> ''..'' \<and> slash \<notin> set folder)"
proof (induction vs)
  case (Cons v vs)
  obtain target folder where v: "v = (target, folder)" by (cases v)
  have "validate_volumes ((target, folder) # vs) = None \<longleftrightarrow>
      (is_abs target \<and> path_clean target = target \<and> target \<noteq> ''/'' \<and> folder \<noteq> [] \<and>
       folder \<noteq> ''.'' \<and> folder \<noteq> ''..'' \<and> slash \<notin> set folder) \<and> validate_volumes vs = None"
    by (cases "validate_volumes vs"; simp; blast)
  then show ?case by (simp only: v Cons.IH list.set ball_simps split_conv)
qed simp

lemma validators_invalid_input:
  "validate_task_name s = Some e \<Longrightarrow> err_is e ErrInvalidInput"
  "validate_project_slug s = Some e \<Longrightarrow> err_is e ErrInvalidInput"
  "validate_env env = Some e \<Longrightarrow> err_is e ErrInvalidInput"
  "validate_labels env = Some e \<Longrightarrow> err_is e ErrInvalidInput"
  "validate_volumes env = Some e \<Longrightarrow> err_is e ErrInvalidInput"
  "validate_dev_status d = Some e \<Longrightarrow> err_is e ErrInvalidInput"
  "validate_form_factor f = Some e \<Longrightarrow> err_is e ErrInvalidInput"
proof -
  show "validate_env env = Some e \<Longrightarrow> err_is e ErrInvalidInput"
    by (induction env) (auto split: if_splits)
  show "validate_labels env = Some e \<Longrightarrow> err_is e ErrInvalidInput"
    by (induction env) (auto split: if_splits)
  show "validate_volumes env = Some e \<Longrightarrow> err_is e ErrInvalidInput"
    by (induction env) (auto split: if_splits)
qed (auto simp: validate_task_name_def validate_project_slug_def validate_dev_status_def
    validate_form_factor_def split: if_splits dev_status.splits form_factor.splits)

lemma validate_spec_None:
  "validate_spec s = None \<longleftrightarrow> match_project_slug (s_project s) \<and> s_project s \<notin> set reserved_slugs \<and>
     match_task_name (s_name s) \<and> trim_space (s_image s) \<noteq> [] \<and> 1 \<le> s_port s \<and> s_port s \<le> 65535 \<and>
     validate_env (s_env s) = None \<and> validate_labels (s_labels s) = None \<and>
     validate_volumes (s_volumes s) = None"
  by (auto simp: validate_spec_def validate_task_name_def validate_project_slug_def split: option.splits)

lemma validate_spec_invalid: "validate_spec s = Some e \<Longrightarrow> err_is e ErrInvalidInput"
  by (auto simp: validate_spec_def validators_invalid_input split: option.splits if_splits)

section \<open>Cleaned routes\<close>

definition route_clean :: "route \<Rightarrow> bool" where
  "route_clean r \<longleftrightarrow> match_route_path (r_path r) \<and> length (r_path r) \<le> 64"

lemma clean_routes_loop_ok:
  assumes "clean_routes_loop ul clean rs = Inr out" "distinct (map r_path clean)"
  shows "distinct (map r_path out) \<and>
    map r_path out = map r_path clean @ map (\<lambda>r. trim_suffix (r_path r) ''/'') rs \<and>
    map r_anycert out = map r_anycert clean @ map r_anycert rs \<and>
    (\<forall>r \<in> set (drop (length clean) out). route_clean r)"
  using assms
proof (induction rs arbitrary: clean)
  case Nil
  then show ?case by simp
next
  case (Cons r rs)
  let ?p = "trim_suffix (r_path r) ''/''"
  from Cons.prems(1) obtain u where rr: "route_reason ul clean r = None"
    and loop: "clean_routes_loop ul (clean @ [\<lparr>r_path = ?p, r_url = u, r_anycert = r_anycert r\<rparr>]) rs = Inr out"
    by (auto split: option.splits sum.splits)
  have new: "?p \<notin> r_path ` set clean" and good: "match_route_path ?p" "length ?p \<le> 64"
    using rr by (auto simp: route_reason_def Let_def list_ex_iff split: if_splits)
  have dist: "distinct (map r_path (clean @ [\<lparr>r_path = ?p, r_url = u, r_anycert = r_anycert r\<rparr>]))"
    using Cons.prems(2) new by simp
  note IH = Cons.IH [OF loop dist, unfolded map_append list.map route.select_convs append.assoc
      append_Cons append_Nil length_append_singleton]
  have len: "length clean < length out" using arg_cong [OF conjunct1 [OF conjunct2 [OF IH]], of length] by simp
  then have "drop (length clean) out = out ! length clean # drop (Suc (length clean)) out"
    by (simp add: Cons_nth_drop_Suc)
  moreover have "r_path (out ! length clean) = ?p"
  proof -
    have "r_path (out ! length clean) = map r_path out ! length clean" using len by simp
    then show ?thesis using IH by (simp add: nth_append)
  qed
  ultimately have "\<forall>r \<in> set (drop (length clean) out). route_clean r"
    using IH good by (simp add: route_clean_def)
  with IH show ?case unfolding list.map by blast
qed

text \<open>
  a route list that is accepted has at most 20 routes, its paths are exactly the sent ones
  without a trailing slash, they are distinct, sorted, at most 64 bytes and made of non-empty
  segments of letters, digits, - and _.
\<close>
lemma clean_routes_accepts:
  assumes "clean_routes ul rs = Inr out"
  shows "length out \<le> 20 \<and> sorted (map r_path out) \<and> distinct (map r_path out) \<and>
    set (map r_path out) = set (map (\<lambda>r. trim_suffix (r_path r) ''/'') rs) \<and>
    (\<forall>r \<in> set out. match_route_path (r_path r) \<and> length (r_path r) \<le> 64)"
proof -
  from assms obtain clean where len: "length rs \<le> 20" and loop: "clean_routes_loop ul [] rs = Inr clean"
    and out: "out = sort_key r_path clean"
    by (auto simp: clean_routes_def split: if_splits sum.splits)
  note ok = clean_routes_loop_ok [OF loop]
  have paths: "map r_path clean = map (\<lambda>r. trim_suffix (r_path r) ''/'') rs" using ok by simp
  have "length clean = length rs" using arg_cong [OF paths, of length] by simp
  moreover have "distinct (map r_path out)"
    using ok unfolding out by (simp add: distinct_map)
  moreover have "set (map r_path out) = set (map r_path clean)" by (simp add: out)
  ultimately show ?thesis using ok len paths by (simp add: out route_clean_def)
qed

definition demo_url_lib :: url_lib where
  "demo_url_lib = \<lparr>url_parse = (\<lambda>s. Some \<lparr>ul_scheme = ''http'', ul_host = s, ul_user = False, ul_path = ''/'',
     ul_rawquery = [], ul_forcequery = False, ul_fragment = []\<rparr>),
     url_string = (\<lambda>u. ul_host u @ ul_path u)\<rparr>"

definition demo_routes :: "route list" where
  "demo_routes = [\<lparr>r_path = ''/b/'', r_url = ''h:1'', r_anycert = False\<rparr>, \<lparr>r_path = ''/a'', r_url = ''h:2'', r_anycert = True\<rparr>]"

lemma clean_routes_accepts_witness:
  "\<exists>out. clean_routes demo_url_lib demo_routes = Inr out \<and> map r_path out = [''/a'', ''/b''] \<and> distinct (map r_path out)"
proof -
  have "case clean_routes demo_url_lib demo_routes of Inl _ \<Rightarrow> False | Inr out \<Rightarrow> map r_path out = [''/a'', ''/b'']"
    by code_simp
  then show ?thesis using clean_routes_accepts by (fastforce split: sum.splits)
qed

text \<open>
  Cleaning a path twice is cleaning it once, and a cleaned absolute path holds no empty,
  dot or dot-dot segment.
\<close>
lemma path_clean_normal:
  "path_clean (path_clean p) = path_clean p \<and>
   (is_abs p \<longrightarrow> path_clean p = ''/'' \<or>
      (\<exists>segs. path_clean p = ''/'' @ join_with ''/'' segs \<and> segs \<noteq> [] \<and>
         (\<forall>g \<in> set segs. g \<noteq> [] \<and> g \<noteq> ''.'' \<and> g \<noteq> ''..'' \<and> slash \<notin> set g)))"
proof (intro conjI impI)
  show "path_clean (path_clean p) = path_clean p" by (rule path_clean_idem)
next
  assume "is_abs p"
  then have "path_clean p = ''/'' @ join_with ''/'' (clean_out p)"
    by (simp add: path_clean_out slash_def)
  moreover have "\<forall>g \<in> set (clean_out p). g \<noteq> [] \<and> g \<noteq> ''.'' \<and> g \<noteq> ''..'' \<and> slash \<notin> set g"
    using clean_out_segs \<open>is_abs p\<close> by blast
  ultimately show "path_clean p = ''/'' \<or>
      (\<exists>segs. path_clean p = ''/'' @ join_with ''/'' segs \<and> segs \<noteq> [] \<and>
         (\<forall>g \<in> set segs. g \<noteq> [] \<and> g \<noteq> ''.'' \<and> g \<noteq> ''..'' \<and> slash \<notin> set g))"
    by (cases "clean_out p = []") auto
qed

end
