(* ===== verification/Hub.thy ===== *)
theory Hub
  imports Computation
begin

text \<open>
  The event hub of internal/transport/http/events.go: one buffered channel per open stream,
  a wake that is never lost, and channels that are never closed twice or written after close.
  The mutex makes each method one step; a panic is the value \<open>None\<close>.
\<close>

record chan1 =
  ch_pending :: bool
  ch_closed :: bool

text \<open>Channels are numbered as they are made; \<open>h_subs\<close> is None once the hub is closed.\<close>

record hub =
  h_chans :: "chan1 list"
  h_subs :: "nat list option"

definition new_hub :: hub where
  "new_hub = \<lparr>h_chans = [], h_subs = Some []\<rparr>"

text \<open>A send that would block is skipped; a send on a closed channel panics.\<close>

fun wake_all :: "nat list \<Rightarrow> chan1 list \<Rightarrow> chan1 list option" where
  "wake_all [] cs = Some cs"
| "wake_all (i # is) cs =
     (if ch_closed (cs ! i) then None else wake_all is (cs[i := (cs ! i)\<lparr>ch_pending := True\<rparr>]))"

definition publish :: "hub \<Rightarrow> hub option" where
  "publish h = (case h_subs h of None \<Rightarrow> Some h
     | Some subs \<Rightarrow> map_option (\<lambda>cs. h\<lparr>h_chans := cs\<rparr>) (wake_all subs (h_chans h)))"

fun close_all :: "nat list \<Rightarrow> chan1 list \<Rightarrow> chan1 list option" where
  "close_all [] cs = Some cs"
| "close_all (i # is) cs =
     (if ch_closed (cs ! i) then None else close_all is (cs[i := (cs ! i)\<lparr>ch_closed := True\<rparr>]))"

definition hub_close :: "hub \<Rightarrow> hub option" where
  "hub_close h = (case h_subs h of None \<Rightarrow> Some h
     | Some subs \<Rightarrow> map_option (\<lambda>cs. h\<lparr>h_chans := cs, h_subs := None\<rparr>) (close_all subs (h_chans h)))"

text \<open>The new channel's number; its wake is already in the buffer.\<close>

definition subscribe :: "hub \<Rightarrow> nat \<times> hub" where
  "subscribe h = (let i = length (h_chans h) in case h_subs h of
       None \<Rightarrow> (i, h\<lparr>h_chans := h_chans h @ [\<lparr>ch_pending = True, ch_closed = True\<rparr>]\<rparr>)
     | Some subs \<Rightarrow> (i, h\<lparr>h_chans := h_chans h @ [\<lparr>ch_pending = True, ch_closed = False\<rparr>],
          h_subs := Some (subs @ [i])\<rparr>))"

definition unsubscribe :: "nat \<Rightarrow> hub \<Rightarrow> hub" where
  "unsubscribe i h = h\<lparr>h_subs := map_option (removeAll i) (h_subs h)\<rparr>"

text \<open>The reader of a stream: a wake, the end of the stream, or it waits.\<close>

datatype received = Woken | Ended | Waits

definition receive :: "nat \<Rightarrow> hub \<Rightarrow> received \<times> hub" where
  "receive i h = (let c = h_chans h ! i in
     if ch_pending c then (Woken, h\<lparr>h_chans := (h_chans h)[i := c\<lparr>ch_pending := False\<rparr>]\<rparr>)
     else (if ch_closed c then Ended else Waits, h))"

section \<open>Steps\<close>

datatype hub_event = Published | Closed | Subscribed nat | Unsubscribed nat | Received nat received

inductive hub_step :: "hub \<Rightarrow> hub_event \<Rightarrow> hub \<Rightarrow> bool" where
  step_publish: "publish h = Some h' \<Longrightarrow> hub_step h Published h'"
| step_close: "hub_close h = Some h' \<Longrightarrow> hub_step h Closed h'"
| step_subscribe: "subscribe h = (i, h') \<Longrightarrow> hub_step h (Subscribed i) h'"
| step_unsubscribe: "i < length (h_chans h) \<Longrightarrow> hub_step h (Unsubscribed i) (unsubscribe i h)"
| step_receive: "i < length (h_chans h) \<Longrightarrow> receive i h = (r, h') \<Longrightarrow> hub_step h (Received i r) h'"

inductive hub_run :: "hub \<Rightarrow> hub_event list \<Rightarrow> hub \<Rightarrow> bool" where
  run_nil: "hub_run h [] h"
| run_cons: "hub_step h e h' \<Longrightarrow> hub_run h' es h'' \<Longrightarrow> hub_run h (e # es) h''"

inductive_cases hub_step_publishE: "hub_step h Published h'"
inductive_cases hub_step_receiveE: "hub_step h (Received i r) h'"
inductive_cases hub_run_consE: "hub_run h (e # es) h''"
inductive_simps hub_run_nil [simp]: "hub_run h [] h'"

text \<open>The channels in the map exist, are there once and are open.\<close>

definition hub_ok :: "hub \<Rightarrow> bool" where
  "hub_ok h \<longleftrightarrow> (case h_subs h of None \<Rightarrow> True
     | Some subs \<Rightarrow> distinct subs \<and> (\<forall>i \<in> set subs. i < length (h_chans h) \<and> \<not> ch_closed (h_chans h ! i)))"

lemma wake_all_ok:
  assumes "\<forall>i \<in> set is. i < length cs \<and> \<not> ch_closed (cs ! i)"
  shows "\<exists>cs'. wake_all is cs = Some cs' \<and> length cs' = length cs \<and>
    (\<forall>j < length cs. ch_closed (cs' ! j) = ch_closed (cs ! j) \<and>
       (ch_pending (cs' ! j) \<longleftrightarrow> ch_pending (cs ! j) \<or> j \<in> set is))"
  using assms
proof (induction "is" arbitrary: cs)
  case Nil
  then show ?case by simp
next
  case (Cons i "is")
  let ?cs = "cs[i := (cs ! i)\<lparr>ch_pending := True\<rparr>]"
  have closed: "ch_closed (?cs ! j) = ch_closed (cs ! j)" for j
    using Cons.prems by (cases "j = i") auto
  have "\<forall>i \<in> set is. i < length ?cs \<and> \<not> ch_closed (?cs ! i)"
    using Cons.prems closed by simp
  from Cons.IH [OF this] obtain cs' where cs': "wake_all is ?cs = Some cs'" "length cs' = length cs"
    "\<forall>j < length cs. ch_closed (cs' ! j) = ch_closed (?cs ! j) \<and>
       (ch_pending (cs' ! j) \<longleftrightarrow> ch_pending (?cs ! j) \<or> j \<in> set is)" by auto
  have "ch_pending (?cs ! j) \<longleftrightarrow> ch_pending (cs ! j) \<or> j = i" if "j < length cs" for j
    using that by (cases "j = i") auto
  with cs' closed Cons.prems show ?case by auto
qed

lemma close_all_ok:
  "distinct is \<Longrightarrow> \<forall>i \<in> set is. i < length cs \<and> \<not> ch_closed (cs ! i) \<Longrightarrow>
   \<exists>cs'. close_all is cs = Some cs' \<and> length cs' = length cs \<and>
     (\<forall>j < length cs. ch_pending (cs' ! j) = ch_pending (cs ! j) \<and> (ch_closed (cs ! j) \<longrightarrow> ch_closed (cs' ! j)))"
proof (induction "is" arbitrary: cs)
  case Nil
  then show ?case by simp
next
  case (Cons i "is")
  let ?cs = "cs[i := (cs ! i)\<lparr>ch_closed := True\<rparr>]"
  have "\<forall>k \<in> set is. k < length ?cs \<and> \<not> ch_closed (?cs ! k)"
    using Cons.prems by (auto simp: nth_list_update)
  from Cons.IH [OF _ this] Cons.prems(1) obtain cs' where cs': "close_all is ?cs = Some cs'" "length cs' = length cs"
    "\<forall>j < length cs. ch_pending (cs' ! j) = ch_pending (?cs ! j) \<and> (ch_closed (?cs ! j) \<longrightarrow> ch_closed (cs' ! j))"
    by auto
  have "ch_pending (?cs ! j) = ch_pending (cs ! j) \<and> (ch_closed (cs ! j) \<longrightarrow> ch_closed (?cs ! j))"
    if "j < length cs" for j
    using that by (cases "j = i") auto
  with cs' Cons.prems show ?case by auto
qed

lemma publish_ok:
  assumes "hub_ok h"
  obtains h' where "publish h = Some h'" "hub_ok h'" "h_subs h' = h_subs h"
    "length (h_chans h') = length (h_chans h)"
    "\<forall>j < length (h_chans h). ch_closed (h_chans h' ! j) = ch_closed (h_chans h ! j) \<and>
       (ch_pending (h_chans h' ! j) \<longleftrightarrow> ch_pending (h_chans h ! j) \<or> (\<exists>s. h_subs h = Some s \<and> j \<in> set s))"
proof (cases "h_subs h")
  case None
  then show ?thesis using assms by (intro that [of h]) (auto simp: publish_def)
next
  case (Some subs)
  with assms have "\<forall>i \<in> set subs. i < length (h_chans h) \<and> \<not> ch_closed (h_chans h ! i)"
    by (simp add: hub_ok_def)
  from wake_all_ok [OF this] obtain cs' where cs': "wake_all subs (h_chans h) = Some cs'"
    "length cs' = length (h_chans h)" "\<forall>j < length (h_chans h). ch_closed (cs' ! j) = ch_closed (h_chans h ! j) \<and>
       (ch_pending (cs' ! j) \<longleftrightarrow> ch_pending (h_chans h ! j) \<or> j \<in> set subs)"
    by blast
  show ?thesis
    using cs' Some assms by (intro that [of "h\<lparr>h_chans := cs'\<rparr>"]) (auto simp: publish_def hub_ok_def)
qed

lemma close_ok:
  assumes "hub_ok h"
  obtains h' where "hub_close h = Some h'" "hub_ok h'" "h_subs h' = None"
    "length (h_chans h') = length (h_chans h)"
    "\<forall>j < length (h_chans h). ch_pending (h_chans h' ! j) = ch_pending (h_chans h ! j)"
proof (cases "h_subs h")
  case None
  then show ?thesis using assms by (intro that [of h]) (auto simp: hub_close_def)
next
  case (Some subs)
  with assms have "distinct subs" "\<forall>i \<in> set subs. i < length (h_chans h) \<and> \<not> ch_closed (h_chans h ! i)"
    by (simp_all add: hub_ok_def)
  from close_all_ok [OF this] obtain cs' where "close_all subs (h_chans h) = Some cs'"
    "length cs' = length (h_chans h)" "\<forall>j < length (h_chans h). ch_pending (cs' ! j) = ch_pending (h_chans h ! j)"
    by blast
  with Some show ?thesis
    by (intro that [of "h\<lparr>h_chans := cs', h_subs := None\<rparr>"]) (auto simp: hub_close_def hub_ok_def)
qed

lemma hub_ok_new [simp]: "hub_ok new_hub"
  by (simp add: hub_ok_def new_hub_def)

lemma hub_ok_subscribe: "hub_ok h \<Longrightarrow> subscribe h = (i, h') \<Longrightarrow> hub_ok h'"
  by (auto simp: hub_ok_def subscribe_def Let_def nth_append less_Suc_eq split: option.splits) (use nat_neq_iff in blast)

lemma hub_ok_unsubscribe: "hub_ok h \<Longrightarrow> hub_ok (unsubscribe i h)"
  by (auto simp: hub_ok_def unsubscribe_def distinct_removeAll split: option.splits)

lemma receive_closed: "receive i h = (r, h') \<Longrightarrow> h_subs h' = h_subs h \<and>
    length (h_chans h') = length (h_chans h) \<and> ch_closed (h_chans h' ! j) = ch_closed (h_chans h ! j)"
  by (cases "i < length (h_chans h)"; cases "i = j")
    (auto simp: receive_def Let_def list_update_beyond split: if_splits)

lemma hub_ok_receive: "hub_ok h \<Longrightarrow> receive i h = (r, h') \<Longrightarrow> hub_ok h'"
  using receive_closed by (fastforce simp: hub_ok_def split: option.splits)

lemma hub_step_ok: "hub_step h e h' \<Longrightarrow> hub_ok h \<Longrightarrow> hub_ok h'"
proof (induction rule: hub_step.induct)
  case (step_publish h h')
  then show ?case using publish_ok by (metis option.inject)
next
  case (step_close h h')
  then show ?case using close_ok by (metis option.inject)
qed (auto intro: hub_ok_subscribe hub_ok_unsubscribe hub_ok_receive)

lemma hub_run_ok: "hub_run h es h' \<Longrightarrow> hub_ok h \<Longrightarrow> hub_ok h'"
  by (induction rule: hub_run.induct) (auto intro: hub_step_ok)

lemma hub_step_pending:
  assumes "hub_step h e h'" "hub_ok h" "i < length (h_chans h)" "ch_pending (h_chans h ! i)"
    "\<forall>r. e \<noteq> Received i r"
  shows "i < length (h_chans h') \<and> ch_pending (h_chans h' ! i)"
  using assms
proof (induction rule: hub_step.induct)
  case (step_publish h h')
  from publish_ok [OF step_publish(2)] step_publish show ?case
    by (metis option.inject)
next
  case (step_close h h')
  from close_ok [OF step_close(2)] step_close show ?case
    by (metis option.inject)
next
  case (step_subscribe h k h')
  then show ?case by (auto simp: subscribe_def Let_def nth_append split: option.splits)
next
  case (step_unsubscribe k h)
  then show ?case by (simp add: unsubscribe_def)
next
  case (step_receive k h r h')
  then show ?case by (auto simp: receive_def Let_def split: if_splits)
qed

lemma hub_run_pending:
  "hub_run h es h' \<Longrightarrow> hub_ok h \<Longrightarrow> i < length (h_chans h) \<Longrightarrow> ch_pending (h_chans h ! i) \<Longrightarrow>
   \<forall>r. Received i r \<notin> set es \<Longrightarrow> i < length (h_chans h') \<and> ch_pending (h_chans h' ! i)"
proof (induction rule: hub_run.induct)
  case (run_cons h e h1 es h2)
  then have "i < length (h_chans h1) \<and> ch_pending (h_chans h1 ! i)"
    using hub_step_pending by (metis list.set_intros(1))
  with run_cons show ?case using hub_step_ok by simp
qed simp

text \<open>
  C9: A change is never lost on an open stream. In a hub reached from a new one by any steps,
  a publish finds no closed channel (it cannot panic); every stream still subscribed then finds
  a wake at its next read, whatever else happens in between, a close of the hub included.
\<close>

theorem hub_wake_not_lost:
  assumes "hub_run new_hub before h"
  shows "\<exists>h'. publish h = Some h' \<and> (\<forall>subs i after h''. h_subs h = Some subs \<longrightarrow> i \<in> set subs \<longrightarrow>
    hub_run h' after h'' \<longrightarrow> (\<forall>r. Received i r \<notin> set after) \<longrightarrow> fst (receive i h'') = Woken)"
proof -
  have ok: "hub_ok h" using hub_run_ok [OF assms] by simp
  then obtain h' where h': "publish h = Some h'" "hub_ok h'"
    "length (h_chans h') = length (h_chans h)"
    "\<forall>j < length (h_chans h). ch_pending (h_chans h' ! j) \<longleftrightarrow>
        ch_pending (h_chans h ! j) \<or> (\<exists>s. h_subs h = Some s \<and> j \<in> set s)"
    by (rule publish_ok) blast
  have "fst (receive i h'') = Woken" if "h_subs h = Some subs" "i \<in> set subs" "hub_run h' after h''"
    "\<forall>r. Received i r \<notin> set after" for subs i after h''
  proof -
    have "i < length (h_chans h)" using ok that(1,2) by (simp add: hub_ok_def)
    with h' that have "ch_pending (h_chans h'' ! i)"
      using hub_run_pending [OF that(3)] by auto
    then show ?thesis by (simp add: receive_def)
  qed
  with h'(1) show ?thesis by blast
qed

theorem hub_wake_not_lost_witness:
  "\<exists>h'. publish (snd (subscribe new_hub)) = Some h' \<and> (\<forall>subs i after h''.
     h_subs (snd (subscribe new_hub)) = Some subs \<longrightarrow> i \<in> set subs \<longrightarrow> hub_run h' after h'' \<longrightarrow>
     (\<forall>r. Received i r \<notin> set after) \<longrightarrow> fst (receive i h'') = Woken)"
proof (rule hub_wake_not_lost)
  show "hub_run new_hub [Subscribed 0] (snd (subscribe new_hub))"
    by (auto intro!: hub_run.intros hub_step.step_subscribe simp: subscribe_def new_hub_def)
qed

end
