(* ===== verification/Tables.thy ===== *)
theory Tables
  imports Validate
begin

text \<open>
  Tables as lists of rows in insertion order, and the interface the stores rely on: a table
  with a unique key, whose lookup after an insert, an update or a delete is what the key says.
\<close>

definition rows_with :: "('r \<Rightarrow> 'k) \<Rightarrow> 'k \<Rightarrow> 'r list \<Rightarrow> 'r list" where
  "rows_with key k rows = filter (\<lambda>r. key r = k) rows"

definition rows_upd :: "('r \<Rightarrow> 'k) \<Rightarrow> 'k \<Rightarrow> ('r \<Rightarrow> 'r) \<Rightarrow> 'r list \<Rightarrow> 'r list" where
  "rows_upd key k g rows = map (\<lambda>r. if key r = k then g r else r) rows"

definition rows_del :: "('r \<Rightarrow> 'k) \<Rightarrow> 'k \<Rightarrow> 'r list \<Rightarrow> 'r list" where
  "rows_del key k rows = filter (\<lambda>r. key r \<noteq> k) rows"

definition rows_has :: "('r \<Rightarrow> 'k) \<Rightarrow> 'k \<Rightarrow> 'r list \<Rightarrow> bool" where
  "rows_has key k rows \<longleftrightarrow> list_ex (\<lambda>r. key r = k) rows"

definition unique_key :: "('r \<Rightarrow> 'k) \<Rightarrow> 'r list \<Rightarrow> bool" where
  "unique_key key rows \<longleftrightarrow> distinct (map key rows)"

text \<open>\<open>INSERT \<dots> ON CONFLICT (key) DO UPDATE\<close>.\<close>

definition rows_upsert :: "('r \<Rightarrow> 'k) \<Rightarrow> ('r \<Rightarrow> 'r) \<Rightarrow> 'r \<Rightarrow> 'r list \<Rightarrow> 'r list" where
  "rows_upsert key g r rows =
     (if rows_has key (key r) rows then rows_upd key (key r) g rows else rows @ [r])"

lemma rows_has_iff: "rows_has key k rows \<longleftrightarrow> k \<in> key ` set rows"
  by (auto simp: rows_has_def list_ex_iff)

lemma rows_with_nil_iff: "rows_with key k rows = [] \<longleftrightarrow> \<not> rows_has key k rows"
  by (auto simp: rows_with_def rows_has_def list_ex_iff filter_empty_conv)

lemma set_rows_with [simp]: "set (rows_with key k rows) = {r \<in> set rows. key r = k}"
  by (auto simp: rows_with_def)

lemma set_rows_del [simp]: "set (rows_del key k rows) = {r \<in> set rows. key r \<noteq> k}"
  by (auto simp: rows_del_def)

lemma set_rows_upd: "set (rows_upd key k g rows) = (\<lambda>r. if key r = k then g r else r) ` set rows"
  by (simp add: rows_upd_def)

lemma in_rows_upd: "r \<in> set rows \<Longrightarrow> (if key r = k then g r else r) \<in> set (rows_upd key k g rows)"
  by (auto simp: rows_upd_def)

lemma rows_upd_keys: "(\<And>r. key (g r) = key r) \<Longrightarrow> map key (rows_upd key k g rows) = map key rows"
  by (auto simp: rows_upd_def)

lemma map_rows_upd: "(\<And>r. f (g r) = f r) \<Longrightarrow> map f (rows_upd key k g rows) = map f rows"
  by (auto simp: rows_upd_def)

lemma filter_rows_upd:
  "(\<And>r. key (g r) = key r) \<Longrightarrow> filter (\<lambda>r. key r \<noteq> k) (rows_upd key k g rows) = filter (\<lambda>r. key r \<noteq> k) rows"
  by (induction rows) (auto simp: rows_upd_def)

locale keyed_table =
  fixes key :: "'r \<Rightarrow> 'k"
    and find :: "'k \<Rightarrow> 't \<Rightarrow> 'r list"
    and add :: "'r \<Rightarrow> 't \<Rightarrow> 't"
    and modify :: "'k \<Rightarrow> ('r \<Rightarrow> 'r) \<Rightarrow> 't \<Rightarrow> 't"
    and delete :: "'k \<Rightarrow> 't \<Rightarrow> 't"
    and ok :: "'t \<Rightarrow> bool"
  assumes find_key: "r \<in> set (find k t) \<Longrightarrow> key r = k"
    and find_one: "ok t \<Longrightarrow> length (find k t) \<le> 1"
    and find_add: "find k (add r t) = find k t @ (if key r = k then [r] else [])"
    and find_modify: "(\<And>r. key (g r) = key r) \<Longrightarrow>
        find k (modify k' g t) = (if k' = k then map g (find k t) else find k t)"
    and find_delete: "find k (delete k' t) = (if k' = k then [] else find k t)"
    and ok_add: "ok t \<Longrightarrow> find (key r) t = [] \<Longrightarrow> ok (add r t)"
    and ok_modify: "ok t \<Longrightarrow> (\<And>r. key (g r) = key r) \<Longrightarrow> ok (modify k g t)"
    and ok_delete: "ok t \<Longrightarrow> ok (delete k t)"
begin

lemma find_cases:
  assumes "ok t"
  obtains "find k t = []" | r where "find k t = [r]" "key r = k"
proof (cases "find k t")
  case Nil
  then show ?thesis by (rule that(1))
next
  case (Cons r rs)
  with find_one [OF assms, of k] have "find k t = [r]" by simp
  with find_key [of r k t] show ?thesis by (intro that(2)) simp_all
qed

lemma find_add_fresh: "find (key r) t = [] \<Longrightarrow> find (key r) (add r t) = [r]"
  by (simp add: find_add)

lemma find_modify_same:
  "(\<And>r. key (g r) = key r) \<Longrightarrow> find k t = [r] \<Longrightarrow> find k (modify k g t) = [g r]"
  by (simp add: find_modify)

lemma delete_then_missing: "find k (delete k t) = []"
  by (simp add: find_delete)

end

text \<open>The list tables keep these laws for any key.\<close>

lemma list_table: "keyed_table key (rows_with key) (\<lambda>r rows. rows @ [r]) (rows_upd key) (rows_del key) (unique_key key)"
proof
  fix k and t :: "'a list"
  show "length (rows_with key k t) \<le> 1" if "unique_key key t"
    using that by (induction t) (auto simp: unique_key_def rows_with_def filter_empty_conv image_iff)
next
  fix g :: "'a \<Rightarrow> 'a" and k k' and t :: "'a list"
  assume "\<And>r. key (g r) = key r"
  then show "rows_with key k (rows_upd key k' g t) = (if k' = k then map g (rows_with key k t) else rows_with key k t)"
    by (induction t) (auto simp: rows_with_def rows_upd_def)
  show "unique_key key (rows_upd key k g t)" if "unique_key key t"
    using that rows_upd_keys [where key = key and g = g] \<open>\<And>r. key (g r) = key r\<close>
    by (simp add: unique_key_def)
next
  fix k k' and t :: "'a list"
  show "rows_with key k (rows_del key k' t) = (if k' = k then [] else rows_with key k t)"
    by (induction t) (auto simp: rows_with_def rows_del_def)
  show "unique_key key t \<Longrightarrow> unique_key key (rows_del key k t)"
    by (auto simp: unique_key_def rows_del_def distinct_map_filter)
qed (auto simp: rows_with_def unique_key_def filter_empty_conv)

lemma rows_opt: "unique_key key t \<Longrightarrow> rows_with key k t = [] \<or> (\<exists>r. rows_with key k t = [r])"
  by (rule keyed_table.find_cases [OF list_table]) auto

lemma rows_mem: "unique_key key t \<Longrightarrow> r \<in> set t \<Longrightarrow> rows_with key (key r) t = [r]"
proof -
  assume "unique_key key t" "r \<in> set t"
  then have "r \<in> set (rows_with key (key r) t)" by simp
  with rows_opt [OF \<open>unique_key key t\<close>, of "key r"] show ?thesis by (metis empty_iff list.set(1) set_ConsD)
qed

lemma unique_key_append: "unique_key key (rows @ [r]) \<longleftrightarrow> unique_key key rows \<and> \<not> rows_has key (key r) rows"
  by (auto simp: unique_key_def rows_has_iff)

lemma unique_key_del: "unique_key key rows \<Longrightarrow> unique_key key (rows_del k' v rows)"
  by (auto simp: unique_key_def rows_del_def distinct_map_filter)

lemma unique_key_upd: "unique_key key rows \<Longrightarrow> (\<And>r. key (g r) = key r) \<Longrightarrow> unique_key key (rows_upd k' v g rows)"
  by (simp add: unique_key_def map_rows_upd)

lemma rows_has_upd: "(\<And>r. f (g r) = f r) \<Longrightarrow> rows_has f i (rows_upd key k g rows) = rows_has f i rows"
  by (auto simp: rows_has_def list_ex_iff rows_upd_def)

text \<open>Writing a row's key when no other row has the new key.\<close>

lemma unique_key_write:
  assumes "unique_key pk rows" "unique_key key rows" "\<not> rows_has key v (rows_del pk i rows)"
    "\<And>r. key (g r) = v"
  shows "unique_key key (rows_upd pk i g rows)"
  using assms(1-3)
proof (induction rows)
  case (Cons r rows)
  have other: "rows_upd pk i g rows = rows" if "pk r = i"
    using Cons.prems(1) that by (auto simp: unique_key_def rows_upd_def image_iff intro!: map_idI)
  show ?case
  proof (cases "pk r = i")
    case True
    have "\<not> rows_has key v rows"
      using Cons.prems(1,3) True by (auto simp: unique_key_def rows_has_iff rows_del_def image_iff) metis
    with True other Cons.prems(2) assms(4) show ?thesis
      by (simp add: unique_key_def rows_upd_def rows_has_iff)
  next
    case False
    then have "key r \<noteq> v" using Cons.prems(3) by (auto simp: rows_has_iff rows_del_def)
    moreover have "key ` set (rows_upd pk i g rows) \<subseteq> key ` set rows \<union> {v}"
      using assms(4) by (auto simp: set_rows_upd)
    moreover have "unique_key key (rows_upd pk i g rows)"
      using Cons False by (intro Cons.IH) (auto simp: unique_key_def rows_del_def rows_has_iff)
    moreover have "key r \<notin> key ` set rows" using Cons.prems(2) by (simp add: unique_key_def)
    ultimately have "unique_key key (rows_upd pk i g rows)" "key r \<notin> key ` set (rows_upd pk i g rows)" by auto
    moreover have "rows_upd pk i g (r # rows) = r # rows_upd pk i g rows" using False by (simp add: rows_upd_def)
    ultimately show ?thesis unfolding unique_key_def by simp
  qed
qed (simp add: rows_upd_def)

lemma unique_key_upsert:
  "unique_key key rows \<Longrightarrow> (\<And>r. key (g r) = key r) \<Longrightarrow> unique_key key (rows_upsert key g r rows)"
  using rows_upd_keys [where key = key and g = g]
  by (auto simp: rows_upsert_def unique_key_def rows_has_iff)

lemma rows_with_upsert:
  "(\<And>r. key (g r) = key r) \<Longrightarrow> rows_with key k (rows_upsert key g r rows) =
     (if key r = k then (if rows_with key k rows = [] then [r] else map g (rows_with key k rows))
      else rows_with key k rows)"
  by (auto simp: rows_upsert_def rows_with_nil_iff keyed_table.find_modify [OF list_table]
      keyed_table.find_add [OF list_table])

end
