(* ===== verification/Store.thy ===== *)
theory Store
  imports Tables
begin

text \<open>
  The persistence layer of internal/infra/postgres over the schema of
  internal/pkg/database/migrations: one operation per store method, with the statement's
  WHERE, the unique, foreign-key and check constraints it can violate and the cascades of a
  delete. Any call may also fail with an I/O error: the script \<open>faults\<close> decides, one entry
  per call, and an empty script means no more failures.
\<close>

section \<open>State\<close>

text \<open>
  Code that is not part of the program: hashing, random values, SQL's \<open>lower()\<close>, the sort
  key of the database's collation, net/url, HMAC-SHA-256 of a key and a message, the Unicode
  tables of \<open>strings.ToLower\<close>, the text of a UUID and of a time of day, how many readiness polls fit before their deadline, and
  the rate limiter, which answers from the instants it was asked at before and now. Hashing a
  password salts it: the hash depends on a number drawn each time.
\<close>

record ext =
  x_sha :: "string \<Rightarrow> string"
  x_bcrypt :: "nat \<Rightarrow> string \<Rightarrow> goerr + string"
  x_bcrypt_ok :: "string \<Rightarrow> string \<Rightarrow> bool"
  x_rand :: "nat \<Rightarrow> string"
  x_uuid :: "nat \<Rightarrow> uuid"
  x_sql_lower :: "string \<Rightarrow> string"
  x_collate :: "string \<Rightarrow> string"
  x_url :: url_lib
  x_hmac :: "string \<Rightarrow> string \<Rightarrow> string"
  x_lower :: "string \<Rightarrow> string"
  x_allow :: "time list \<Rightarrow> time \<Rightarrow> bool"
  x_uuid_str :: "uuid \<Rightarrow> string"
  x_clock :: "time \<Rightarrow> string"
  x_polls :: nat

record store =
  ext :: ext
  now :: time
  seed :: nat
  faults :: "string option list"
  users :: "user list"
  tokens :: "auth_token list"
  credentials :: "credential list"
  projects :: "project list"
  members :: "member list"
  tasks :: "task list"
  grants :: "grant list"
  notifications :: "notification list"
  seen :: "(uuid \<times> uuid) list"
  push :: "(string \<times> uuid) list"

datatype pg_error = NoRows | UniqueViolation string | ForeignKeyViolation string | OtherPg string

definition pg_text :: "pg_error \<Rightarrow> string" where
  "pg_text e = (case e of NoRows \<Rightarrow> ''no rows in result set'' | UniqueViolation s \<Rightarrow> s
     | ForeignKeyViolation s \<Rightarrow> s | OtherPg s \<Rightarrow> s)"

text \<open>\<open>mapError\<close> of postgres.go; 23503 and 23001 are one constructor.\<close>

definition map_error :: "string \<Rightarrow> pg_error \<Rightarrow> goerr" where
  "map_error operation e = (let wrapped = err_wrap operation (err_new (pg_text e)) in
     case e of NoRows \<Rightarrow> err_sentinel ErrNotFound
     | UniqueViolation _ \<Rightarrow> err_join (err_sentinel ErrAlreadyExists) wrapped
     | ForeignKeyViolation _ \<Rightarrow> err_join (err_sentinel ErrConflict) wrapped
     | OtherPg _ \<Rightarrow> wrapped)"

definition db_call :: "string \<Rightarrow> ('a store_scheme, 'x) io \<Rightarrow> ('a store_scheme, 'x) io" where
  "db_call operation m w = (case faults w of [] \<Rightarrow> m w
     | None # fs \<Rightarrow> m (w\<lparr>faults := fs\<rparr>)
     | Some e # fs \<Rightarrow> (Inl (map_error operation (OtherPg e)), w\<lparr>faults := fs\<rparr>))"

definition pg_fail :: "string \<Rightarrow> pg_error \<Rightarrow> ('w, 'x) io" where
  "pg_fail operation e = fail (map_error operation e)"

text \<open>\<open>one\<close>: exactly one row, or \<open>ErrNotFound\<close>.\<close>

definition one :: "string \<Rightarrow> 'r list \<Rightarrow> ('w, 'r) io" where
  "one operation rows = (case rows of [] \<Rightarrow> pg_fail operation NoRows
     | [r] \<Rightarrow> ret r
     | _ \<Rightarrow> pg_fail operation (OtherPg ''too many rows in result set''))"

definition query_one :: "string \<Rightarrow> ('a store_scheme \<Rightarrow> 'r list) \<Rightarrow> ('a store_scheme, 'r) io" where
  "query_one operation q = db_call operation (io_bind (io_get q) (one operation))"

definition query_many :: "string \<Rightarrow> ('a store_scheme \<Rightarrow> 'r list) \<Rightarrow> ('a store_scheme, 'r list) io" where
  "query_many operation q = db_call operation (io_get q)"

text \<open>\<open>deleteRow\<close>: a statement that must touch a row.\<close>

definition exec_row :: "string \<Rightarrow> ('a store_scheme \<Rightarrow> bool) \<Rightarrow> ('a store_scheme \<Rightarrow> 'a store_scheme) \<Rightarrow>
    ('a store_scheme, unit) io" where
  "exec_row operation touches g = db_call operation (io_bind (io_get touches) (\<lambda>b.
     if b then io_mod g else fail (err_sentinel ErrNotFound)))"

definition exec_any :: "string \<Rightarrow> ('a store_scheme \<Rightarrow> 'a store_scheme) \<Rightarrow> ('a store_scheme, unit) io" where
  "exec_any operation g = db_call operation (io_mod g)"

definition fresh_id :: "('a store_scheme, uuid) io" where
  "fresh_id = io_bind (io_get (\<lambda>w. x_uuid (ext w) (seed w))) (\<lambda>i.
     io_bind (io_mod (\<lambda>w. w\<lparr>seed := Suc (seed w)\<rparr>)) (\<lambda>_. ret i))"

definition rand_text :: "('a store_scheme, string) io" where
  "rand_text = io_bind (io_get (\<lambda>w. x_rand (ext w) (seed w))) (\<lambda>s.
     io_bind (io_mod (\<lambda>w. w\<lparr>seed := Suc (seed w)\<rparr>)) (\<lambda>_. ret s))"

text \<open>A violated constraint, the first of a list of checks.\<close>

fun violated :: "(bool \<times> pg_error) list \<Rightarrow> pg_error option" where
  "violated [] = None"
| "violated ((bad, e) # cs) = (if bad then Some e else violated cs)"

definition constraint :: "string \<Rightarrow> ('a store_scheme \<Rightarrow> (bool \<times> pg_error) list) \<Rightarrow> ('a store_scheme, unit) io" where
  "constraint operation cs = io_bind (io_get (\<lambda>w. violated (cs w))) (\<lambda>v.
     case v of None \<Rightarrow> ret () | Some e \<Rightarrow> pg_fail operation e)"

section \<open>Users\<close>

definition db_users_list :: "('a store_scheme, user list) io" where
  "db_users_list = query_many ''list users'' (\<lambda>w.
     sort_key (\<lambda>u. (u_created u, x_collate (ext w) (u_username u))) (users w))"

definition db_users_get :: "uuid \<Rightarrow> ('a store_scheme, user) io" where
  "db_users_get i = query_one ''get user'' (\<lambda>w. rows_with u_id i (users w))"

definition db_users_by_name :: "string \<Rightarrow> ('a store_scheme, user) io" where
  "db_users_by_name name = query_one ''get user by username'' (\<lambda>w.
     rows_with (\<lambda>u. x_sql_lower (ext w) (u_username u)) (x_sql_lower (ext w) name) (users w))"

definition db_users_count :: "('a store_scheme, nat) io" where
  "db_users_count = db_call ''count users'' (io_get (\<lambda>w. length (users w)))"

definition user_role_ok :: "user_role \<Rightarrow> bool" where
  "user_role_ok r \<longleftrightarrow> r = RoleAdmin \<or> r = RoleUser"

definition user_checks :: "string \<Rightarrow> user \<Rightarrow> 'a store_scheme \<Rightarrow> (bool \<times> pg_error) list" where
  "user_checks what u w = (let others = rows_del u_id (u_id u) (users w); low = x_sql_lower (ext w) in
     [(\<not> user_role_ok (u_role u), OtherPg ''users_role_check''),
      (rows_has (\<lambda>v. low (u_username v)) (low (u_username u)) others, UniqueViolation ''users_username_key''),
      (rows_has (\<lambda>v. low (u_email v)) (low (u_email u)) others, UniqueViolation ''users_email_key'')])"

definition db_users_create :: "user \<Rightarrow> ('a store_scheme, user) io" where
  "db_users_create u = db_call ''create user'' (io_bind fresh_id (\<lambda>i.
     io_bind (io_get now) (\<lambda>t.
       let row = u\<lparr>u_id := i, u_avatar := None, u_created := t, u_updated := t\<rparr> in
       io_bind (constraint ''create user'' (\<lambda>w.
         (rows_has u_id i (users w), UniqueViolation ''users_pkey'') # user_checks ''create user'' row w)) (\<lambda>_.
       io_bind (io_mod (\<lambda>w. w\<lparr>users := users w @ [row]\<rparr>)) (\<lambda>_. ret row)))))"

definition user_write :: "user \<Rightarrow> time \<Rightarrow> user \<Rightarrow> user" where
  "user_write u t row = row\<lparr>u_username := u_username u, u_email := u_email u, u_hash := u_hash u,
     u_role := u_role u, u_disabled := u_disabled u, u_updated := t\<rparr>"

definition db_users_update :: "user \<Rightarrow> ('a store_scheme, user) io" where
  "db_users_update u = db_call ''update user'' (io_bind (io_get (\<lambda>w. rows_with u_id (u_id u) (users w))) (\<lambda>rows.
     io_bind (one ''update user'' rows) (\<lambda>old.
     io_bind (constraint ''update user'' (user_checks ''update user'' u)) (\<lambda>_.
     io_bind (io_get now) (\<lambda>t.
     io_bind (io_mod (\<lambda>w. w\<lparr>users := rows_upd u_id (u_id u) (user_write u t) (users w)\<rparr>)) (\<lambda>_.
     ret (user_write u t old)))))))"

definition db_users_set_avatar :: "uuid \<Rightarrow> ('a store_scheme, user) io" where
  "db_users_set_avatar i = db_call ''set avatar'' (io_bind (io_get now) (\<lambda>t.
     io_bind (io_mod (\<lambda>w. w\<lparr>users := rows_upd u_id i (\<lambda>u. u\<lparr>u_avatar := Some t, u_updated := t\<rparr>) (users w)\<rparr>)) (\<lambda>_.
     io_bind (io_get (\<lambda>w. rows_with u_id i (users w))) (one ''set avatar''))))"

text \<open>The cascades of a user's row: what references it is deleted, or its reference is nulled.\<close>

definition user_cascade :: "uuid \<Rightarrow> 'a store_scheme \<Rightarrow> 'a store_scheme" where
  "user_cascade i w = w\<lparr>users := rows_del u_id i (users w),
     tokens := rows_del k_user i (tokens w),
     credentials := rows_upd c_by (Some i) (\<lambda>c. c\<lparr>c_by := None\<rparr>) (credentials w),
     projects := rows_upd p_by (Some i) (\<lambda>p. p\<lparr>p_by := None\<rparr>) (projects w),
     members := rows_del m_user i (members w),
     grants := rows_del g_user i (grants w),
     seen := filter (\<lambda>(n, u). u \<noteq> i \<and> \<not> rows_has n_id n (rows_with n_user (Some i) (notifications w))) (seen w),
     notifications := rows_del n_user (Some i) (notifications w),
     push := rows_del snd i (push w)\<rparr>"

definition db_users_delete :: "uuid \<Rightarrow> ('a store_scheme, unit) io" where
  "db_users_delete i = exec_row ''delete user'' (\<lambda>w. rows_has u_id i (users w)) (user_cascade i)"

section \<open>Tokens\<close>

text \<open>A nullable reference to a user.\<close>

definition user_ref :: "uuid option \<Rightarrow> 'a store_scheme \<Rightarrow> bool" where
  "user_ref r w = (case r of None \<Rightarrow> True | Some i \<Rightarrow> rows_has u_id i (users w))"

definition ninety_days :: int where
  "ninety_days = 90 * 24 * hour"

definition token_checks :: "auth_token \<Rightarrow> 'a store_scheme \<Rightarrow> (bool \<times> pg_error) list" where
  "token_checks k w =
     [(rows_has k_id (k_id k) (tokens w), UniqueViolation ''auth_tokens_pkey''),
      (rows_has k_hash (k_hash k) (tokens w), UniqueViolation ''auth_tokens_token_hash_key''),
      (\<not> k_from k < k_expires k, OtherPg ''auth_tokens_valid_window_check''),
      (\<not> (case k_kind k of TokenKindSession \<Rightarrow> k_name k = []
           | TokenKindAPI \<Rightarrow> 1 \<le> rune_count (k_name k) \<and> rune_count (k_name k) \<le> 100),
         OtherPg ''auth_tokens_api_name_check''),
      (k_kind k = TokenKindAPI \<and> k_expires k - k_from k > ninety_days, OtherPg ''auth_tokens_api_lifetime_check''),
      (\<not> rows_has u_id (k_user k) (users w), ForeignKeyViolation ''auth_tokens_user_id_fkey'')]"

definition db_tokens_create :: "auth_token \<Rightarrow> ('a store_scheme, auth_token) io" where
  "db_tokens_create k = db_call ''create token'' (io_bind fresh_id (\<lambda>i.
     io_bind (io_get now) (\<lambda>t.
       let row = k\<lparr>k_id := i, k_revoked := None, k_created := t\<rparr> in
       io_bind (constraint ''create token'' (token_checks row)) (\<lambda>_.
       io_bind (io_mod (\<lambda>w. w\<lparr>tokens := tokens w @ [row]\<rparr>)) (\<lambda>_. ret row)))))"

definition db_tokens_list_api :: "uuid \<Rightarrow> ('a store_scheme, auth_token list) io" where
  "db_tokens_list_api i = query_many ''list tokens'' (\<lambda>w.
     sort_key (\<lambda>k. - k_created k) (filter (\<lambda>k. k_user k = i \<and> k_kind k = TokenKindAPI) (tokens w)))"

definition db_tokens_by_hash :: "string \<Rightarrow> ('a store_scheme, auth_token) io" where
  "db_tokens_by_hash h = query_one ''get token'' (\<lambda>w. rows_with k_hash h (tokens w))"

definition revoke_now :: "time \<Rightarrow> auth_token \<Rightarrow> auth_token" where
  "revoke_now t k = (case k_revoked k of None \<Rightarrow> k\<lparr>k_revoked := Some t\<rparr> | Some _ \<Rightarrow> k)"

definition db_tokens_revoke :: "string \<Rightarrow> ('a store_scheme, unit) io" where
  "db_tokens_revoke h = exec_any ''revoke token'' (\<lambda>w. w\<lparr>tokens := rows_upd k_hash h (revoke_now (now w)) (tokens w)\<rparr>)"

definition db_tokens_revoke_id :: "uuid \<Rightarrow> uuid \<Rightarrow> ('a store_scheme, unit) io" where
  "db_tokens_revoke_id user i = exec_row ''revoke API token''
     (\<lambda>w. list_ex (\<lambda>k. k_id k = i \<and> k_user k = user \<and> k_kind k = TokenKindAPI) (tokens w))
     (\<lambda>w. w\<lparr>tokens := map (\<lambda>k. if k_id k = i \<and> k_user k = user \<and> k_kind k = TokenKindAPI
        then revoke_now (now w) k else k) (tokens w)\<rparr>)"

definition db_tokens_revoke_all :: "uuid \<Rightarrow> ('a store_scheme, unit) io" where
  "db_tokens_revoke_all user = exec_any ''revoke user tokens''
     (\<lambda>w. w\<lparr>tokens := rows_upd k_user user (revoke_now (now w)) (tokens w)\<rparr>)"

section \<open>Registry credentials\<close>

definition db_credentials_list :: "('a store_scheme, credential list) io" where
  "db_credentials_list = query_many ''list credentials'' (\<lambda>w. sort_key (\<lambda>c. x_collate (ext w) (c_name c)) (credentials w))"

definition db_credentials_get :: "uuid \<Rightarrow> ('a store_scheme, credential) io" where
  "db_credentials_get i = query_one ''get credential'' (\<lambda>w. rows_with c_id i (credentials w))"

definition db_credentials_create :: "credential \<Rightarrow> ('a store_scheme, credential) io" where
  "db_credentials_create c = db_call ''create credential'' (io_bind fresh_id (\<lambda>i.
     io_bind (io_get now) (\<lambda>t.
       let row = c\<lparr>c_id := i, c_created := t\<rparr> in
       io_bind (constraint ''create credential'' (\<lambda>w.
         [(rows_has c_id i (credentials w), UniqueViolation ''registry_credentials_pkey''),
          (\<not> user_ref (c_by c) w, ForeignKeyViolation ''registry_credentials_created_by_fkey''),
          (c_registry c \<noteq> RegistryGHCR \<and> c_registry c \<noteq> RegistryDockerHub, OtherPg ''registry_check''),
          (rows_has c_name (c_name c) (credentials w), UniqueViolation ''registry_credentials_name_key'')])) (\<lambda>_.
       io_bind (io_mod (\<lambda>w. w\<lparr>credentials := credentials w @ [row]\<rparr>)) (\<lambda>_. ret row)))))"

definition db_credentials_delete :: "uuid \<Rightarrow> ('a store_scheme, unit) io" where
  "db_credentials_delete i = exec_row ''delete credential'' (\<lambda>w. rows_has c_id i (credentials w))
     (\<lambda>w. w\<lparr>credentials := rows_del c_id i (credentials w),
        projects := rows_upd p_credential (Some i) (\<lambda>p. p\<lparr>p_credential := None\<rparr>) (projects w)\<rparr>)"

section \<open>Projects and members\<close>

definition db_projects_list :: "('a store_scheme, project list) io" where
  "db_projects_list = query_many ''list projects'' (\<lambda>w. sort_key (\<lambda>p. x_collate (ext w) (p_slug p)) (projects w))"

definition db_projects_by_slug :: "string \<Rightarrow> ('a store_scheme, project) io" where
  "db_projects_by_slug slug = query_one ''get project by slug'' (\<lambda>w. rows_with p_slug slug (projects w))"

definition db_projects_count :: "('a store_scheme, nat) io" where
  "db_projects_count = db_call ''count projects'' (io_get (\<lambda>w. length (projects w)))"

definition member_of :: "uuid \<Rightarrow> uuid \<Rightarrow> member list \<Rightarrow> member list" where
  "member_of p u ms = rows_with (\<lambda>m. (m_project m, m_user m)) (p, u) ms"

text \<open>Whether a user holds a grant on a task of a project (by the task's row).\<close>

definition granted_in :: "uuid \<Rightarrow> uuid \<Rightarrow> 'a store_scheme \<Rightarrow> bool" where
  "granted_in p u w \<longleftrightarrow> list_ex (\<lambda>g. g_user g = u \<and>
     list_ex (\<lambda>t. t_id t = g_task g \<and> t_project t = p) (tasks w)) (grants w)"

text \<open>
  \<open>ListForUser\<close>: memberships, and projects reached by a grant alone, as viewer and with
  the default environment emptied.
\<close>

definition user_access :: "uuid \<Rightarrow> project \<Rightarrow> 'a store_scheme \<Rightarrow> access option" where
  "user_access u p w = (case member_of (p_id p) u (members w) of
       m # _ \<Rightarrow> Some \<lparr>acc_project = p, acc_user = u, acc_role = m_role m, acc_all = True\<rparr>
     | [] \<Rightarrow> if granted_in (p_id p) u w
          then Some \<lparr>acc_project = p\<lparr>p_env := []\<rparr>, acc_user = u, acc_role = ProjectRoleViewer, acc_all = False\<rparr>
          else None)"

definition db_projects_for_user :: "uuid \<Rightarrow> ('a store_scheme, access list) io" where
  "db_projects_for_user u = query_many ''list user projects'' (\<lambda>w.
     List.map_filter (\<lambda>p. user_access u p w) (sort_key (\<lambda>p. x_collate (ext w) (p_slug p)) (projects w)))"

definition credential_ref :: "uuid option \<Rightarrow> 'a store_scheme \<Rightarrow> bool" where
  "credential_ref r w = (case r of None \<Rightarrow> True | Some i \<Rightarrow> rows_has c_id i (credentials w))"

text \<open>The checks on a project's own columns; the schema does not reserve the slug legal.\<close>

definition project_checks :: "project \<Rightarrow> 'a store_scheme \<Rightarrow> (bool \<times> pg_error) list" where
  "project_checks p w =
     [(\<not> match_project_slug (p_slug p) \<or>
         p_slug p \<in> set [''api'', ''health'', ''metrics'', ''static'', ''admin''], OtherPg ''projects_slug_check''),
      (p_port p < 1 \<or> p_port p > 65535, OtherPg ''projects_default_port_check''),
      (p_form p \<noteq> FormFactorWeb \<and> p_form p \<noteq> FormFactorMobile, OtherPg ''projects_form_factor_check''),
      (\<not> credential_ref (p_credential p) w, ForeignKeyViolation ''projects_registry_credential_id_fkey''),
      (\<not> user_ref (p_by p) w, ForeignKeyViolation ''projects_created_by_fkey'')]"

definition or_form :: "form_factor \<Rightarrow> form_factor \<Rightarrow> form_factor" where
  "or_form a b = (if a = OtherForm [] then b else a)"

definition db_projects_create :: "project \<Rightarrow> ('a store_scheme, project) io" where
  "db_projects_create p = db_call ''create project'' (io_bind fresh_id (\<lambda>i.
     io_bind (io_get now) (\<lambda>t.
       let row = p\<lparr>p_id := i, p_form := or_form (p_form p) FormFactorWeb, p_created := t, p_updated := t\<rparr> in
       io_bind (constraint ''create project'' (\<lambda>w.
         (rows_has p_id i (projects w), UniqueViolation ''projects_pkey'') # project_checks row w @
         [(rows_has p_slug (p_slug p) (projects w), UniqueViolation ''projects_slug_key'')])) (\<lambda>_.
       io_bind (io_mod (\<lambda>w. w\<lparr>projects := projects w @ [row]\<rparr>)) (\<lambda>_. ret row)))))"

definition project_write :: "project \<Rightarrow> time \<Rightarrow> project \<Rightarrow> project" where
  "project_write p t row = row\<lparr>p_name := p_name p, p_credential := p_credential p, p_image := p_image p,
     p_port := p_port p, p_env := p_env p, p_form := p_form p, p_updated := t\<rparr>"

definition db_projects_update :: "project \<Rightarrow> ('a store_scheme, project) io" where
  "db_projects_update p = db_call ''update project'' (io_bind (io_get (\<lambda>w. rows_with p_id (p_id p) (projects w))) (\<lambda>rows.
     io_bind (one ''update project'' rows) (\<lambda>old.
     io_bind (io_get now) (\<lambda>t.
     io_bind (constraint ''update project'' (project_checks (project_write p t old))) (\<lambda>_.
     io_bind (io_mod (\<lambda>w. w\<lparr>projects := rows_upd p_id (p_id p) (project_write p t) (projects w)\<rparr>)) (\<lambda>_.
     ret (project_write p t old)))))))"

text \<open>\<open>tasks.project_id\<close> is ON DELETE RESTRICT; members and notifications cascade.\<close>

definition project_cascade :: "uuid \<Rightarrow> 'a store_scheme \<Rightarrow> 'a store_scheme" where
  "project_cascade i w = w\<lparr>projects := rows_del p_id i (projects w),
     members := rows_del m_project i (members w),
     seen := filter (\<lambda>(n, u). \<not> rows_has n_id n (rows_with n_project i (notifications w))) (seen w),
     notifications := rows_del n_project i (notifications w)\<rparr>"

definition db_projects_delete :: "uuid \<Rightarrow> ('a store_scheme, unit) io" where
  "db_projects_delete i = db_call ''delete project'' (io_bind (io_get (\<lambda>w. rows_has p_id i (projects w))) (\<lambda>b.
     if \<not> b then fail (err_sentinel ErrNotFound)
     else io_bind (constraint ''delete project'' (\<lambda>w.
        [(rows_has t_project i (tasks w), ForeignKeyViolation ''tasks_project_id_fkey'')])) (\<lambda>_.
       io_mod (project_cascade i))))"

text \<open>A member row joined with its user.\<close>

definition with_user :: "'a store_scheme \<Rightarrow> member \<Rightarrow> member" where
  "with_user w m = (case rows_with u_id (m_user m) (users w) of [] \<Rightarrow> m
     | u # _ \<Rightarrow> m\<lparr>m_username := u_username u, m_avatar := u_avatar u\<rparr>)"

definition joined :: "'a store_scheme \<Rightarrow> uuid \<Rightarrow> bool" where
  "joined w u \<longleftrightarrow> rows_has u_id u (users w)"

definition db_list_members :: "uuid \<Rightarrow> ('a store_scheme, member list) io" where
  "db_list_members p = query_many ''list members'' (\<lambda>w.
     sort_key (\<lambda>m. x_collate (ext w) (m_username m))
       (map (with_user w) (filter (\<lambda>m. m_project m = p \<and> joined w (m_user m)) (members w))))"

definition db_get_member :: "uuid \<Rightarrow> uuid \<Rightarrow> ('a store_scheme, member) io" where
  "db_get_member p u = query_one ''get member'' (\<lambda>w.
     map (with_user w) (filter (\<lambda>m. joined w (m_user m)) (member_of p u (members w))))"

definition db_add_member :: "member \<Rightarrow> ('a store_scheme, unit) io" where
  "db_add_member m = db_call ''add member'' (io_bind (constraint ''add member'' (\<lambda>w.
       [(role_rank (m_role m) = 0, OtherPg ''project_members_role_check''),
        (\<not> rows_has p_id (m_project m) (projects w), ForeignKeyViolation ''project_members_project_id_fkey''),
        (\<not> joined w (m_user m), ForeignKeyViolation ''project_members_user_id_fkey'')])) (\<lambda>_.
     io_mod (\<lambda>w. w\<lparr>members := rows_upsert (\<lambda>r. (m_project r, m_user r)) (\<lambda>r. r\<lparr>m_role := m_role m\<rparr>)
        (m\<lparr>m_created := now w\<rparr>) (members w)\<rparr>)))"

definition db_remove_member :: "uuid \<Rightarrow> uuid \<Rightarrow> ('a store_scheme, unit) io" where
  "db_remove_member p u = exec_row ''remove member'' (\<lambda>w. rows_has (\<lambda>m. (m_project m, m_user m)) (p, u) (members w))
     (\<lambda>w. w\<lparr>members := rows_del (\<lambda>m. (m_project m, m_user m)) (p, u) (members w)\<rparr>)"

section \<open>Task grants\<close>

text \<open>\<open>Role\<close> reports no role when nothing is granted.\<close>

definition db_grants_role :: "uuid \<Rightarrow> uuid \<Rightarrow> string \<Rightarrow> ('a store_scheme, project_role) io" where
  "db_grants_role p u name = io_bind (io_try (query_one ''get task grant'' (\<lambda>w.
       map g_role (filter (\<lambda>g. g_user g = u \<and>
         list_ex (\<lambda>t. t_id t = g_task g \<and> t_project t = p \<and> t_name t = name) (tasks w)) (grants w))))) (\<lambda>r.
     case r of Inr role \<Rightarrow> ret role
     | Inl e \<Rightarrow> if err_is e ErrNotFound then ret no_role else fail e)"

definition db_grants_any :: "uuid \<Rightarrow> uuid \<Rightarrow> ('a store_scheme, bool) io" where
  "db_grants_any p u = db_call ''check task grants'' (io_get (granted_in p u))"

definition db_grants_for_user :: "uuid \<Rightarrow> ('a store_scheme, (uuid \<times> project_role) list) io" where
  "db_grants_for_user u = query_many ''list user grants'' (\<lambda>w.
     map (\<lambda>g. (g_task g, g_role g)) (rows_with g_user u (grants w)))"

definition grant_user :: "'a store_scheme \<Rightarrow> grant \<Rightarrow> grant" where
  "grant_user w g = (case rows_with u_id (g_user g) (users w) of [] \<Rightarrow> g | u # _ \<Rightarrow> g\<lparr>g_username := u_username u\<rparr>)"

definition db_grants_for_task :: "uuid \<Rightarrow> ('a store_scheme, grant list) io" where
  "db_grants_for_task t = query_many ''list task grants'' (\<lambda>w.
     sort_key (\<lambda>g. x_collate (ext w) (g_username g))
       (map (grant_user w) (filter (\<lambda>g. g_task g = t \<and> joined w (g_user g)) (grants w))))"

text \<open>The schema admits no owner grant.\<close>

definition db_grants_grant :: "grant \<Rightarrow> ('a store_scheme, unit) io" where
  "db_grants_grant g = db_call ''grant task'' (io_bind (constraint ''grant task'' (\<lambda>w.
       [(role_rank (g_role g) = 0 \<or> g_role g = ProjectRoleOwner, OtherPg ''task_grants_role_check''),
        (\<not> rows_has t_id (g_task g) (tasks w), ForeignKeyViolation ''task_grants_task_id_fkey''),
        (\<not> joined w (g_user g), ForeignKeyViolation ''task_grants_user_id_fkey'')])) (\<lambda>_.
     io_mod (\<lambda>w. w\<lparr>grants := rows_upsert (\<lambda>r. (g_task r, g_user r)) (\<lambda>r. r\<lparr>g_role := g_role g\<rparr>)
        (g\<lparr>g_created := now w\<rparr>) (grants w)\<rparr>)))"

definition db_grants_revoke :: "uuid \<Rightarrow> uuid \<Rightarrow> ('a store_scheme, unit) io" where
  "db_grants_revoke t u = exec_row ''revoke task grant'' (\<lambda>w. rows_has (\<lambda>g. (g_task g, g_user g)) (t, u) (grants w))
     (\<lambda>w. w\<lparr>grants := rows_del (\<lambda>g. (g_task g, g_user g)) (t, u) (grants w)\<rparr>)"

section \<open>Tasks\<close>

text \<open>The assignees every task query aggregates from its grants.\<close>

definition task_assignees :: "uuid \<Rightarrow> 'a store_scheme \<Rightarrow> assignee list" where
  "task_assignees t w = sort_key (\<lambda>a. x_collate (ext w) (a_username a))
     (map (\<lambda>g. case rows_with u_id (g_user g) (users w) of
          [] \<Rightarrow> \<lparr>a_user = g_user g, a_username = g_username g, a_avatar = None, a_role = g_role g\<rparr>
        | u # _ \<Rightarrow> \<lparr>a_user = g_user g, a_username = u_username u, a_avatar = u_avatar u, a_role = g_role g\<rparr>)
       (filter (\<lambda>g. g_task g = t \<and> joined w (g_user g)) (grants w)))"

definition scan_task :: "'a store_scheme \<Rightarrow> task \<Rightarrow> task" where
  "scan_task w t = t\<lparr>t_assignees := task_assignees (t_id t) w\<rparr>"

definition task_order :: "'a store_scheme \<Rightarrow> task list \<Rightarrow> task list" where
  "task_order w ts = sort_key (\<lambda>t. (t_created t, x_collate (ext w) (t_name t))) ts"

definition db_tasks_list :: "uuid \<Rightarrow> uuid \<Rightarrow> bool \<Rightarrow> ('a store_scheme, task list) io" where
  "db_tasks_list p u all = query_many ''list tasks'' (\<lambda>w. map (scan_task w) (task_order w
     (filter (\<lambda>t. t_project t = p \<and> (all \<or> rows_has (\<lambda>g. (g_task g, g_user g)) (t_id t, u) (grants w))) (tasks w))))"

definition db_tasks_all :: "('a store_scheme, task list) io" where
  "db_tasks_all = query_many ''list all tasks'' (\<lambda>w. map (scan_task w) (task_order w (tasks w)))"

definition task_named :: "uuid \<Rightarrow> string \<Rightarrow> task list \<Rightarrow> task list" where
  "task_named p name ts = rows_with (\<lambda>t. (t_project t, t_name t)) (p, name) ts"

definition db_tasks_by_name :: "uuid \<Rightarrow> string \<Rightarrow> ('a store_scheme, task) io" where
  "db_tasks_by_name p name = query_one ''get task'' (\<lambda>w. map (scan_task w) (task_named p name (tasks w)))"

definition task_checks :: "task \<Rightarrow> (bool \<times> pg_error) list" where
  "task_checks t =
     [(\<not> match_task_name (t_name t), OtherPg ''tasks_name_check''),
      (t_port t < 1 \<or> t_port t > 65535, OtherPg ''tasks_port_check''),
      ((case t_dev t of OtherDev _ \<Rightarrow> True | _ \<Rightarrow> False), OtherPg ''tasks_dev_status_check''),
      ((case t_form t of OtherForm _ \<Rightarrow> True | _ \<Rightarrow> False), OtherPg ''tasks_form_factor_check'')]"

definition or_dev :: "dev_status \<Rightarrow> dev_status \<Rightarrow> dev_status" where
  "or_dev a b = (if a = OtherDev [] then b else a)"

definition db_tasks_create :: "task \<Rightarrow> ('a store_scheme, task) io" where
  "db_tasks_create t = db_call ''create task'' (io_bind fresh_id (\<lambda>i.
     io_bind (io_get now) (\<lambda>at.
       let row = t\<lparr>t_id := i, t_dev := or_dev (t_dev t) DevInProgress, t_form := or_form (t_form t) FormFactorWeb,
           t_password := [], t_build := zero_build, t_revision := zero_revision, t_assignees := [],
           t_created := at, t_updated := at\<rparr> in
       io_bind (constraint ''create task'' (\<lambda>w.
         (rows_has t_id i (tasks w), UniqueViolation ''tasks_pkey'') # task_checks row @
         [(rows_has (\<lambda>r. (t_project r, x_sql_lower (ext w) (t_name r))) (t_project t, x_sql_lower (ext w) (t_name t)) (tasks w),
            UniqueViolation ''tasks_project_lower_name_key''),
          (task_named (t_project t) (t_name t) (tasks w) \<noteq> [], UniqueViolation ''tasks_project_id_name_key''),
          (\<not> rows_has p_id (t_project t) (projects w), ForeignKeyViolation ''tasks_project_id_fkey'')])) (\<lambda>_.
       io_bind (io_mod (\<lambda>w. w\<lparr>tasks := tasks w @ [row]\<rparr>)) (\<lambda>_.
       io_get (\<lambda>w. scan_task w row))))))"

text \<open>
  \<open>Update\<close> writes every column but the identity, the build report and the assignees; the
  trigger sets \<open>updated_at\<close> unless the build changed, which this statement never does.
\<close>

definition task_write :: "task \<Rightarrow> time \<Rightarrow> task \<Rightarrow> task" where
  "task_write t at row = row\<lparr>t_description := t_description t, t_note := t_note t, t_image := t_image t,
     t_status := t_status t, t_dev := or_dev (t_dev t) DevInProgress, t_port := t_port t,
     t_container := t_container t, t_ip := t_ip t, t_labels := t_labels t, t_env := t_env t,
     t_volumes := t_volumes t, t_routes := t_routes t, t_pending := t_pending t, t_error := t_error t,
     t_revision := t_revision t, t_form := or_form (t_form t) FormFactorWeb, t_password := t_password t,
     t_updated := at\<rparr>"

definition db_tasks_update :: "task \<Rightarrow> ('a store_scheme, task) io" where
  "db_tasks_update t = db_call ''update task'' (io_bind (io_get (\<lambda>w. rows_with t_id (t_id t) (tasks w))) (\<lambda>rows.
     io_bind (one ''update task'' rows) (\<lambda>old.
     io_bind (io_get now) (\<lambda>at.
     io_bind (constraint ''update task'' (\<lambda>_. task_checks (task_write t at old))) (\<lambda>_.
     io_bind (io_mod (\<lambda>w. w\<lparr>tasks := rows_upd t_id (t_id t) (task_write t at) (tasks w)\<rparr>)) (\<lambda>_.
     io_get (\<lambda>w. scan_task w (task_write t at old))))))))"

definition db_set_build :: "uuid \<Rightarrow> build \<Rightarrow> ('a store_scheme, unit) io" where
  "db_set_build i b = exec_row ''set task build'' (\<lambda>w. rows_has t_id i (tasks w))
     (\<lambda>w. w\<lparr>tasks := rows_upd t_id i (\<lambda>t. if t_build t = b then t\<lparr>t_updated := now w\<rparr> else t\<lparr>t_build := b\<rparr>) (tasks w)\<rparr>)"

definition db_tasks_delete :: "uuid \<Rightarrow> ('a store_scheme, unit) io" where
  "db_tasks_delete i = exec_row ''delete task'' (\<lambda>w. rows_has t_id i (tasks w))
     (\<lambda>w. w\<lparr>tasks := rows_del t_id i (tasks w), grants := rows_del g_task i (grants w)\<rparr>)"

section \<open>Notifications\<close>

definition db_notifications_create :: "notification \<Rightarrow> ('a store_scheme, notification) io" where
  "db_notifications_create n = db_call ''create notification'' (io_bind fresh_id (\<lambda>i.
     io_bind (io_get now) (\<lambda>at.
       let row = n\<lparr>n_id := i, n_created := at\<rparr> in
       io_bind (constraint ''create notification'' (\<lambda>w.
         [(rows_has n_id i (notifications w), UniqueViolation ''notifications_pkey''),
          (\<not> rows_has p_id (n_project n) (projects w), ForeignKeyViolation ''notifications_project_id_fkey''),
          (\<not> user_ref (n_user n) w, ForeignKeyViolation ''notifications_user_id_fkey'')])) (\<lambda>_.
       io_bind (io_mod (\<lambda>w. w\<lparr>notifications := notifications w @ [row]\<rparr>)) (\<lambda>_. ret row)))))"

text \<open>The SQL fragments \<open>visible\<close> and \<open>selectNotifications\<close>.\<close>

definition granted_task :: "uuid \<Rightarrow> uuid \<Rightarrow> string \<Rightarrow> 'a store_scheme \<Rightarrow> bool" where
  "granted_task p u name w \<longleftrightarrow> list_ex (\<lambda>g. g_user g = u \<and>
     list_ex (\<lambda>t. t_id t = g_task g \<and> t_project t = p \<and> t_name t = name) (tasks w)) (grants w)"

definition visible :: "uuid \<Rightarrow> bool \<Rightarrow> 'a store_scheme \<Rightarrow> notification \<Rightarrow> bool" where
  "visible u admin w n \<longleftrightarrow> n_user n = Some u \<or> n_user n = None \<and> (admin \<or>
     rows_has (\<lambda>m. (m_project m, m_user m)) (n_project n, u) (members w) \<or>
     granted_task (n_project n) u (n_task n) w)"

definition scan_notification :: "uuid \<Rightarrow> 'a store_scheme \<Rightarrow> notification \<Rightarrow> notification" where
  "scan_notification u w n = n\<lparr>n_slug := (case rows_with p_id (n_project n) (projects w) of [] \<Rightarrow> [] | p # _ \<Rightarrow> p_slug p),
     n_user := None, n_seen := (n_id n, u) \<in> set (seen w)\<rparr>"

definition select_notifications :: "uuid \<Rightarrow> bool \<Rightarrow> 'a store_scheme \<Rightarrow> notification list" where
  "select_notifications u admin w = filter (\<lambda>n. rows_has p_id (n_project n) (projects w) \<and> visible u admin w n) (notifications w)"

definition note_key :: "notification \<Rightarrow> int \<times> int" where
  "note_key n = (- n_created n, - uint (n_id n))"

text \<open>Newest first; a cursor that names no notification compares with NULL, which selects nothing.\<close>

definition after_cursor :: "uuid option \<Rightarrow> 'a store_scheme \<Rightarrow> notification \<Rightarrow> bool" where
  "after_cursor before w n = (case before of None \<Rightarrow> True
     | Some i \<Rightarrow> (case rows_with n_id i (notifications w) of [] \<Rightarrow> False | b # _ \<Rightarrow> note_key b < note_key n))"

definition db_notifications_list :: "uuid \<Rightarrow> bool \<Rightarrow> uuid option \<Rightarrow> uuid option \<Rightarrow> nat \<Rightarrow>
    ('a store_scheme, notification list) io" where
  "db_notifications_list u admin proj before limit = query_many ''list notifications'' (\<lambda>w.
     map (scan_notification u w) (take limit (sort_key note_key
       (filter (\<lambda>n. (case proj of None \<Rightarrow> True | Some p \<Rightarrow> n_project n = p) \<and> after_cursor before w n)
         (select_notifications u admin w)))))"

definition db_notifications_get :: "uuid \<Rightarrow> bool \<Rightarrow> uuid \<Rightarrow> ('a store_scheme, notification) io" where
  "db_notifications_get u admin i = query_one ''get notification'' (\<lambda>w.
     map (scan_notification u w) (rows_with n_id i (select_notifications u admin w)))"

definition db_mark_seen :: "uuid \<Rightarrow> bool \<Rightarrow> uuid list \<Rightarrow> ('a store_scheme, unit) io" where
  "db_mark_seen u admin ids = db_call ''mark notifications seen'' (io_mod (\<lambda>w.
     w\<lparr>seen := seen w @ filter (\<lambda>p. p \<notin> set (seen w))
        (map (\<lambda>n. (n_id n, u)) (filter (\<lambda>n. n_id n \<in> set ids \<and> visible u admin w n) (notifications w)))\<rparr>))"

definition db_mark_unseen :: "uuid \<Rightarrow> uuid \<Rightarrow> ('a store_scheme, unit) io" where
  "db_mark_unseen i u = exec_any ''mark notification unseen'' (\<lambda>w. w\<lparr>seen := filter (\<lambda>p. p \<noteq> (i, u)) (seen w)\<rparr>)"

text \<open>The newest deploy of each task, none older than the task itself.\<close>

definition is_deploy :: "notification \<Rightarrow> bool" where
  "is_deploy n \<longleftrightarrow> n_type n = NotificationDeployed \<or> n_type n = NotificationDeployFailed"

definition last_deploy :: "'a store_scheme \<Rightarrow> task \<Rightarrow> notification option" where
  "last_deploy w t = (case sort_key (\<lambda>n. - n_created n) (filter (\<lambda>n. n_project n = t_project t \<and>
       n_task n = t_name t \<and> is_deploy n \<and> t_created t \<le> n_created n) (notifications w)) of
     [] \<Rightarrow> None | n # _ \<Rightarrow> Some n)"

definition db_last_deploys :: "('a store_scheme, (uuid \<times> notification) list) io" where
  "db_last_deploys = query_many ''list last deploys'' (\<lambda>w.
     List.map_filter (\<lambda>t. map_option (\<lambda>n. (t_id t, n)) (last_deploy w t)) (tasks w))"

section \<open>Push tokens\<close>

text \<open>A token belongs to whoever registered it last.\<close>

definition db_push_create :: "uuid \<Rightarrow> string \<Rightarrow> ('a store_scheme, unit) io" where
  "db_push_create u token = db_call ''create push subscription'' (io_bind (constraint ''create push subscription'' (\<lambda>w.
       [(\<not> joined w u, ForeignKeyViolation ''push_subscriptions_user_id_fkey'')])) (\<lambda>_.
     io_mod (\<lambda>w. w\<lparr>push := rows_upsert fst (\<lambda>(k, _). (k, u)) (token, u) (push w)\<rparr>)))"

definition db_push_delete :: "uuid \<Rightarrow> string \<Rightarrow> ('a store_scheme, unit) io" where
  "db_push_delete u token = exec_row ''delete push subscription'' (\<lambda>w. (token, u) \<in> set (push w))
     (\<lambda>w. w\<lparr>push := filter (\<lambda>p. p \<noteq> (token, u)) (push w)\<rparr>)"

definition db_push_delete_tokens :: "string list \<Rightarrow> ('a store_scheme, unit) io" where
  "db_push_delete_tokens ts = exec_any ''delete push subscriptions'' (\<lambda>w. w\<lparr>push := filter (\<lambda>(k, _). k \<notin> set ts) (push w)\<rparr>)"

definition push_reaches :: "'a store_scheme \<Rightarrow> notification \<Rightarrow> user \<Rightarrow> bool" where
  "push_reaches w n u \<longleftrightarrow> \<not> disabled u \<and> (n_user n = Some (u_id u) \<or> n_user n = None \<and> (is_admin u \<or>
     rows_has (\<lambda>m. (m_project m, m_user m)) (n_project n, u_id u) (members w) \<or>
     granted_task (n_project n) (u_id u) (n_task n) w))"

definition db_push_tokens :: "notification \<Rightarrow> ('a store_scheme, string list) io" where
  "db_push_tokens n = query_many ''list push subscriptions'' (\<lambda>w.
     map fst (filter (\<lambda>(k, i). list_ex (push_reaches w n) (rows_with u_id i (users w))) (push w)))"

section \<open>Frames\<close>

text \<open>A store operation touches nothing outside the store, and never the environment.\<close>

lemma keeps_db_call [keeps_intros]: "keeps f m \<Longrightarrow> (\<And>w fs. f (w\<lparr>faults := fs\<rparr>) = f w) \<Longrightarrow> keeps f (db_call oper m)"
  by (auto simp: keeps_def db_call_def split: list.splits option.splits)

lemma keeps_constraint [keeps_intros]: "keeps f (constraint oper cs)"
  unfolding constraint_def pg_fail_def by (intro keeps_intros)

lemma keeps_one [keeps_intros]: "keeps f (one oper rows)"
  by (simp add: one_def pg_fail_def split: list.split)

lemma keeps_query [keeps_intros]:
  "(\<And>w fs. f (w\<lparr>faults := fs\<rparr>) = f w) \<Longrightarrow> keeps f (query_one oper q)"
  "(\<And>w fs. f (w\<lparr>faults := fs\<rparr>) = f w) \<Longrightarrow> keeps f (query_many oper q')"
  unfolding query_one_def query_many_def by (intro keeps_intros; simp)+

lemma keeps_exec [keeps_intros]:
  "(\<And>w fs. f (w\<lparr>faults := fs\<rparr>) = f w) \<Longrightarrow> (\<And>w. f (g w) = f w) \<Longrightarrow> keeps f (exec_row oper b g)"
  "(\<And>w fs. f (w\<lparr>faults := fs\<rparr>) = f w) \<Longrightarrow> (\<And>w. f (g w) = f w) \<Longrightarrow> keeps f (exec_any oper g)"
  unfolding exec_row_def exec_any_def by (intro keeps_intros; simp)+

lemma keeps_fresh [keeps_intros]:
  "(\<And>w n. f (w\<lparr>seed := n\<rparr>) = f w) \<Longrightarrow> keeps f fresh_id"
  "(\<And>w n. f (w\<lparr>seed := n\<rparr>) = f w) \<Longrightarrow> keeps f rand_text"
  unfolding fresh_id_def rand_text_def by (intro keeps_intros; simp)+


section \<open>The tables keep the laws of a keyed table\<close>

interpretation users_tab: keyed_table u_id "rows_with u_id" "\<lambda>r rows. rows @ [r]" "rows_upd u_id" "rows_del u_id" "unique_key u_id"
  by (rule list_table)

interpretation tokens_tab: keyed_table k_hash "rows_with k_hash" "\<lambda>r rows. rows @ [r]" "rows_upd k_hash" "rows_del k_hash" "unique_key k_hash"
  by (rule list_table)

interpretation tasks_tab: keyed_table t_id "rows_with t_id" "\<lambda>r rows. rows @ [r]" "rows_upd t_id" "rows_del t_id" "unique_key t_id"
  by (rule list_table)

interpretation projects_tab: keyed_table p_slug "rows_with p_slug" "\<lambda>r rows. rows @ [r]" "rows_upd p_slug" "rows_del p_slug" "unique_key p_slug"
  by (rule list_table)

section \<open>The environment\<close>

text \<open>What no operation of the program changes, and what no store operation changes.\<close>

definition outside :: "'a store_scheme \<Rightarrow> ext \<times> time \<times> 'a" where
  "outside w = (ext w, now w, store.more w)"

lemma outside_simps [simp]: "outside (w\<lparr>faults := fs\<rparr>) = outside w" "outside (w\<lparr>seed := n\<rparr>) = outside w"
  "outside (w\<lparr>users := us\<rparr>) = outside w" "outside (w\<lparr>tokens := ks\<rparr>) = outside w"
  "outside (w\<lparr>credentials := cs\<rparr>) = outside w" "outside (w\<lparr>projects := ps\<rparr>) = outside w"
  "outside (w\<lparr>members := ms\<rparr>) = outside w" "outside (w\<lparr>tasks := ts\<rparr>) = outside w"
  "outside (w\<lparr>grants := gs\<rparr>) = outside w" "outside (w\<lparr>notifications := ns\<rparr>) = outside w"
  "outside (w\<lparr>seen := sn\<rparr>) = outside w" "outside (w\<lparr>push := pu\<rparr>) = outside w"
  "outside (user_cascade i w) = outside w" "outside (project_cascade i w) = outside w"
  by (simp_all add: outside_def user_cascade_def project_cascade_def)

lemma db_outside [keeps_intros]:
  "keeps outside db_users_list" "keeps outside (db_users_get i)" "keeps outside (db_users_by_name s)"
  "keeps outside db_users_count" "keeps outside (db_users_create u)" "keeps outside (db_users_update u)"
  "keeps outside (db_users_set_avatar i)" "keeps outside (db_users_delete i)"
  "keeps outside (db_tokens_create k)" "keeps outside (db_tokens_list_api i)" "keeps outside (db_tokens_by_hash s)"
  "keeps outside (db_tokens_revoke s)" "keeps outside (db_tokens_revoke_id i j)" "keeps outside (db_tokens_revoke_all i)"
  "keeps outside db_credentials_list" "keeps outside (db_credentials_get i)" "keeps outside (db_credentials_create c)"
  "keeps outside (db_credentials_delete i)"
  "keeps outside db_projects_list" "keeps outside (db_projects_by_slug s)" "keeps outside db_projects_count"
  "keeps outside (db_projects_for_user i)" "keeps outside (db_projects_create p)" "keeps outside (db_projects_update p)"
  "keeps outside (db_projects_delete i)" "keeps outside (db_list_members i)" "keeps outside (db_get_member i j)"
  "keeps outside (db_add_member m)" "keeps outside (db_remove_member i j)"
  "keeps outside (db_grants_role i j s)" "keeps outside (db_grants_any i j)" "keeps outside (db_grants_for_user i)"
  "keeps outside (db_grants_for_task i)" "keeps outside (db_grants_grant g)" "keeps outside (db_grants_revoke i j)"
  "keeps outside (db_tasks_list i j b)" "keeps outside db_tasks_all" "keeps outside (db_tasks_by_name i s)"
  "keeps outside (db_tasks_create t)" "keeps outside (db_tasks_update t)" "keeps outside (db_set_build i bl)"
  "keeps outside (db_tasks_delete i)" "keeps outside (db_notifications_create n)"
  "keeps outside (db_notifications_list i b pr bf l)" "keeps outside (db_notifications_get i b j)"
  "keeps outside (db_mark_seen i b js)" "keeps outside (db_mark_unseen i j)" "keeps outside db_last_deploys"
  "keeps outside (db_push_create i s)" "keeps outside (db_push_delete i s)" "keeps outside (db_push_delete_tokens ss)"
  "keeps outside (db_push_tokens n)"
  unfolding db_users_list_def db_users_get_def db_users_by_name_def db_users_count_def db_users_create_def
    db_users_update_def db_users_set_avatar_def db_users_delete_def db_tokens_create_def db_tokens_list_api_def
    db_tokens_by_hash_def db_tokens_revoke_def db_tokens_revoke_id_def db_tokens_revoke_all_def
    db_credentials_list_def db_credentials_get_def db_credentials_create_def db_credentials_delete_def
    db_projects_list_def db_projects_by_slug_def db_projects_count_def db_projects_for_user_def
    db_projects_create_def db_projects_update_def db_projects_delete_def db_list_members_def db_get_member_def
    db_add_member_def db_remove_member_def db_grants_role_def db_grants_any_def db_grants_for_user_def
    db_grants_for_task_def db_grants_grant_def db_grants_revoke_def db_tasks_list_def db_tasks_all_def
    db_tasks_by_name_def db_tasks_create_def db_tasks_update_def db_set_build_def db_tasks_delete_def
    db_notifications_create_def db_notifications_list_def db_notifications_get_def db_mark_seen_def
    db_mark_unseen_def db_last_deploys_def db_push_create_def db_push_delete_def db_push_delete_tokens_def
    db_push_tokens_def Let_def
  by (intro keeps_intros keeps_mod; simp)+


section \<open>Runs of store operations\<close>

lemma wp_db_callI:
  assumes "\<And>fs. wp m Q E (w\<lparr>faults := fs\<rparr>)" "\<And>fs e. E (map_error oper (OtherPg e)) (w\<lparr>faults := fs\<rparr>)"
  shows "wp (db_call oper m) Q E w"
  using assms(1) [of "faults w"] assms
  by (auto simp: wp_def db_call_def split: list.split option.split)

lemma wp_store [wp_simps]:
  "wp fresh_id Q1 E w = Q1 (x_uuid (ext w) (seed w)) (w\<lparr>seed := Suc (seed w)\<rparr>)"
  "wp rand_text Q2 E w = Q2 (x_rand (ext w) (seed w)) (w\<lparr>seed := Suc (seed w)\<rparr>)"
  "wp (constraint oper cs) Q3 E w = (case violated (cs w) of None \<Rightarrow> Q3 () w | Some e \<Rightarrow> E (map_error oper e) w)"
  "wp (one oper rows) Q4 F w1 = (case rows of [] \<Rightarrow> F (map_error oper NoRows) w1 | [r] \<Rightarrow> Q4 r w1
     | _ \<Rightarrow> F (map_error oper (OtherPg ''too many rows in result set'')) w1)"
  by (auto simp: wp_simps fresh_id_def rand_text_def constraint_def one_def pg_fail_def split: option.split list.split)

lemma preserves_db_call: "preserves I m \<Longrightarrow> (\<And>w fs. I w \<Longrightarrow> I (w\<lparr>faults := fs\<rparr>)) \<Longrightarrow> preserves I (db_call oper m)"
  by (auto simp: preserves_def db_call_def split: list.splits option.splits)

lemma preserves_exec: "(\<And>w. I w \<Longrightarrow> I (g w)) \<Longrightarrow> (\<And>w fs. I w \<Longrightarrow> I (w\<lparr>faults := fs\<rparr>)) \<Longrightarrow> preserves I (exec_row oper b g)"
  "(\<And>w. I w \<Longrightarrow> I (g w)) \<Longrightarrow> (\<And>w fs. I w \<Longrightarrow> I (w\<lparr>faults := fs\<rparr>)) \<Longrightarrow> preserves I (exec_any oper g)"
  unfolding exec_row_def exec_any_def by (intro preserves_db_call preserves_rules preserves_mod; simp)+

lemma preserves_query: "(\<And>w fs. I w \<Longrightarrow> I (w\<lparr>faults := fs\<rparr>)) \<Longrightarrow> preserves I (query_one oper q)"
  "(\<And>w fs. I w \<Longrightarrow> I (w\<lparr>faults := fs\<rparr>)) \<Longrightarrow> preserves I (query_many oper q')"
  unfolding query_one_def query_many_def
  by (intro preserves_db_call preserves_rules; auto intro: preserves_keeps keeps_one)+

lemma db_call_ok: "db_call oper m w = (Inr x, w') \<Longrightarrow> \<exists>fs. m (w\<lparr>faults := fs\<rparr>) = (Inr x, w')"
  by (auto simp: db_call_def split: list.splits option.splits intro: exI [of _ "[]"]) (metis store.surjective store.update_convs(4))

lemma db_call_healthy: "faults w = [] \<Longrightarrow> db_call oper m w = m w"
  by (simp add: db_call_def)

lemma bind_ok_iff: "io_bind m f w = (Inr y, w'') \<longleftrightarrow> (\<exists>x w'. m w = (Inr x, w') \<and> f x w' = (Inr y, w''))"
  by (auto simp: io_bind_def split: prod.splits sum.splits)

lemma run_simps: "ret x w = (Inr y, w') \<longleftrightarrow> y = x \<and> w' = w" "fail e w = (Inr y, w') \<longleftrightarrow> False"
  "io_get f w = (Inr z, w') \<longleftrightarrow> z = f w \<and> w' = w" "io_mod g w = (Inr (), w') \<longleftrightarrow> w' = g w"
  "io_wrap oper m w = (Inr y, w') \<longleftrightarrow> m w = (Inr y, w')" "io_lift r w = (Inr y, w') \<longleftrightarrow> r = Inr y \<and> w' = w"
  "io_check c w = (Inr u, w') \<longleftrightarrow> c = None \<and> w' = w" "io_try m w = (Inr r', w') \<longleftrightarrow> m w = (r', w')"
  by (auto simp: io_defs split: prod.splits sum.splits option.splits)

lemma one_ok: "one oper rows w = (Inr r, w') \<longleftrightarrow> rows = [r] \<and> w' = w"
  by (auto simp: one_def pg_fail_def io_defs split: list.splits)

lemma constraint_ok: "constraint oper cs w = (Inr u, w') \<longleftrightarrow> violated (cs w) = None \<and> w' = w"
  by (auto simp: constraint_def pg_fail_def io_defs split: option.splits)

lemma violated_None: "violated cs = None \<longleftrightarrow> (\<forall>(bad, e) \<in> set cs. \<not> bad)"
  by (induction cs rule: violated.induct) auto

lemma query_ok: "query_one oper q w = (Inr r, w') \<Longrightarrow> \<exists>fs. q (w\<lparr>faults := fs\<rparr>) = [r] \<and> w' = w\<lparr>faults := fs\<rparr>"
  "query_many oper q' w = (Inr rs, w') \<Longrightarrow> \<exists>fs. rs = q' (w\<lparr>faults := fs\<rparr>) \<and> w' = w\<lparr>faults := fs\<rparr>"
  unfolding query_one_def query_many_def by (auto dest!: db_call_ok simp: bind_ok_iff run_simps one_ok)

lemma exec_row_ok: "exec_row oper b g w = (Inr u, w') \<Longrightarrow> \<exists>fs. b (w\<lparr>faults := fs\<rparr>) \<and> w' = g (w\<lparr>faults := fs\<rparr>)"
  unfolding exec_row_def by (auto dest!: db_call_ok simp: bind_ok_iff run_simps split: if_splits)

lemma exec_any_ok: "exec_any oper g w = (Inr u, w') \<Longrightarrow> \<exists>fs. w' = g (w\<lparr>faults := fs\<rparr>)"
  unfolding exec_any_def by (auto dest!: db_call_ok simp: run_simps)

lemma fresh_ok: "fresh_id w = (Inr i, w') \<longleftrightarrow> i = x_uuid (ext w) (seed w) \<and> w' = w\<lparr>seed := Suc (seed w)\<rparr>"
  "rand_text w = (Inr s, w') \<longleftrightarrow> s = x_rand (ext w) (seed w) \<and> w' = w\<lparr>seed := Suc (seed w)\<rparr>"
  by (auto simp: fresh_id_def rand_text_def bind_ok_iff run_simps)

lemma query_one_fail: "faults w = [] \<Longrightarrow> query_one oper q w = (case q w of [] \<Rightarrow> (Inl (map_error oper NoRows), w)
    | [r] \<Rightarrow> (Inr r, w) | _ \<Rightarrow> (Inl (map_error oper (OtherPg ''too many rows in result set'')), w))"
  by (auto simp: query_one_def db_call_healthy io_bind_def io_get_def one_def pg_fail_def fail_def ret_def split: list.splits)

lemma map_error_no_rows [simp]: "map_error oper NoRows = err_sentinel ErrNotFound"
  by (simp add: map_error_def Let_def)

lemma healthy_runs: "faults w = [] \<Longrightarrow> query_many oper q w = (Inr (q w), w)"
  "faults w = [] \<Longrightarrow> exec_row oper b g w = (if b w then (Inr (), g w) else (Inl (err_sentinel ErrNotFound), w))"
  "faults w = [] \<Longrightarrow> exec_any oper g w = (Inr (), g w)"
  by (simp_all add: query_many_def exec_row_def exec_any_def db_call_healthy io_defs)

lemmas run_ok = bind_ok_iff run_simps one_ok constraint_ok fresh_ok

text \<open>An environment the witnesses run in.\<close>

definition demo_ext :: ext where
  "demo_ext = \<lparr>x_sha = (\<lambda>s. CHR ''#'' # s), x_bcrypt = (\<lambda>n s. if length s > 72 then Inl (err_new ''too long'') else Inr (CHR ''$'' # s)),
     x_bcrypt_ok = (\<lambda>h s. h = CHR ''$'' # s), x_rand = (\<lambda>n. CHR ''R'' # nat_str n), x_uuid = (\<lambda>n. word_of_nat (Suc n)),
     x_sql_lower = (\<lambda>s. s), x_collate = (\<lambda>s. s), x_url = demo_url_lib, x_hmac = (\<lambda>k s. k @ s),
     x_lower = map ascii_lower, x_allow = (\<lambda>h t. length h < 10),
     x_uuid_str = (\<lambda>i. nat_str (unat i)), x_clock = (\<lambda>t. ''3:04PM''), x_polls = 3\<rparr>"

definition demo_store :: store where
  "demo_store = \<lparr>ext = demo_ext, now = 1000 * second, seed = 100, faults = [], users = [], tokens = [], credentials = [],
     projects = [], members = [], tasks = [], grants = [], notifications = [], seen = [], push = []\<rparr>"

end
