(* ===== verification/Registry.thy ===== *)
theory Registry
  imports Store
begin

text \<open>
  The route registry of internal/infra/proxy/registry.go: the map of sites, its updates, the
  routing decision of \<open>ServeHTTP\<close> and the rewriting of requests and redirects. A reverse
  proxy is the hop it was made for: what it sends where is \<open>rewrite\<close>.
\<close>

section \<open>Sites\<close>

record hop =
  h_project :: string
  h_task :: string
  h_path :: string
  h_public :: string
  h_target :: url
  h_anycert :: bool

text \<open>\<open>lk_tries\<close> are the instants the limiter was asked at.\<close>

record lock =
  lk_task :: string
  lk_path :: string
  lk_hash :: string
  lk_tries :: "time list"

record site =
  st_name :: string
  st_task :: "hop option"
  st_routes :: "hop list"
  st_lock :: "lock option"

definition zero_site :: site where
  "zero_site = \<lparr>st_name = [], st_task = None, st_routes = [], st_lock = None\<rparr>"

type_synonym sites = "string \<rightharpoonup> site"

text \<open>\<open>strings.ToLower\<close>: its ASCII path, and the Unicode tables otherwise.\<close>

definition to_lower :: "ext \<Rightarrow> string \<Rightarrow> string" where
  "to_lower x s = (if list_all is_ascii s then map ascii_lower s else x_lower x s)"

definition route_key :: "ext \<Rightarrow> string \<Rightarrow> string \<Rightarrow> string" where
  "route_key x proj task = proj @ ''/'' @ to_lower x task"

text \<open>A lookup in a Go map gives the zero site for a missing key.\<close>

definition site_at :: "sites \<Rightarrow> string \<Rightarrow> site" where
  "site_at m key = (case m key of None \<Rightarrow> zero_site | Some s \<Rightarrow> s)"

definition site_empty :: "site \<Rightarrow> bool" where
  "site_empty s \<longleftrightarrow> st_task s = None \<and> st_routes s = [] \<and> st_lock s = None"

definition reg_update :: "ext \<Rightarrow> string \<Rightarrow> string \<Rightarrow> (site \<Rightarrow> site) \<Rightarrow> sites \<Rightarrow> sites" where
  "reg_update x proj task change m = (let key = route_key x proj task; s = change (site_at m key) in
     if site_empty s then m(key := None) else m(key \<mapsto> s\<lparr>st_name := task\<rparr>))"

definition new_hop :: "string \<Rightarrow> string \<Rightarrow> string \<Rightarrow> url \<Rightarrow> bool \<Rightarrow> hop" where
  "new_hop proj task path target anycert = \<lparr>h_project = proj, h_task = task, h_path = path,
     h_public = ''/'' @ proj @ ''/'' @ task @ path, h_target = target, h_anycert = anycert\<rparr>"

text \<open>\<open>net.JoinHostPort\<close>: brackets around a host with a colon.\<close>

definition join_host_port :: "string \<Rightarrow> string \<Rightarrow> string" where
  "join_host_port host port = (if CHR '':'' \<in> set host then ''['' @ host @ '']:'' @ port else host @ '':'' @ port)"

definition http_url :: "string \<Rightarrow> url" where
  "http_url host = \<lparr>ul_scheme = ''http'', ul_host = host, ul_user = False, ul_path = [],
     ul_rawquery = [], ul_forcequery = False, ul_fragment = []\<rparr>"

definition reg_register :: "ext \<Rightarrow> string \<Rightarrow> string \<Rightarrow> string \<Rightarrow> int \<Rightarrow> sites \<Rightarrow> goerr + sites" where
  "reg_register x proj task host port m = (case validate_project_slug proj of Some e \<Rightarrow> Inl e
     | None \<Rightarrow> (case validate_task_name task of Some e \<Rightarrow> Inl e
     | None \<Rightarrow> if trim_space host = [] \<or> port < 1 \<or> port > 65535
        then Inl (err_invalid ''proxy host and valid port are required'')
        else Inr (reg_update x proj task
          (\<lambda>s. s\<lparr>st_task := Some (new_hop proj task [] (http_url (join_host_port host (int_str port))) False)\<rparr>) m)))"

definition reg_unregister :: "ext \<Rightarrow> string \<Rightarrow> string \<Rightarrow> sites \<Rightarrow> sites" where
  "reg_unregister x proj task = reg_update x proj task (\<lambda>s. s\<lparr>st_task := None\<rparr>)"

text \<open>
  The routes' hops, longest path first. The source's sort leaves the order of equally long
  paths open; they never match the same request, see \<open>under_same_length\<close>.
\<close>

definition route_hops :: "ext \<Rightarrow> string \<Rightarrow> string \<Rightarrow> route list \<Rightarrow> hop list" where
  "route_hops x proj task rs = sort_key (\<lambda>h. - int (length (h_path h)))
     (List.map_filter (\<lambda>r. map_option (\<lambda>u. new_hop proj task (r_path r) u (r_anycert r)) (url_parse (x_url x) (r_url r))) rs)"

definition reg_set_routes :: "ext \<Rightarrow> string \<Rightarrow> string \<Rightarrow> route list \<Rightarrow> sites \<Rightarrow> sites" where
  "reg_set_routes x proj task rs = reg_update x proj task (\<lambda>s. s\<lparr>st_routes := route_hops x proj task rs\<rparr>)"

definition reg_set_lock :: "ext \<Rightarrow> string \<Rightarrow> string \<Rightarrow> string \<Rightarrow> sites \<Rightarrow> sites" where
  "reg_set_lock x proj task hash = reg_update x proj task (\<lambda>s. s\<lparr>st_lock :=
     (if hash = [] then None
      else Some \<lparr>lk_task = task, lk_path = ''/'' @ proj @ ''/'' @ task @ ''/'', lk_hash = hash, lk_tries = []\<rparr>)\<rparr>)"

section \<open>The lock\<close>

text \<open>\<open>base64.RawURLEncoding\<close>: three bytes to four letters, the last group unpadded.\<close>

definition b64_char :: "nat \<Rightarrow> char" where
  "b64_char n = (if n < 26 then char_of (65 + n) else if n < 52 then char_of (71 + n)
     else if n < 62 then char_of (n - 4) else if n = 62 then CHR ''-'' else CHR ''_'')"

fun b64url :: "string \<Rightarrow> string" where
  "b64url [] = []"
| "b64url [a] = (let n = c_nat a * 16 in [b64_char (n div 64), b64_char (n mod 64)])"
| "b64url [a, b] = (let n = (c_nat a * 256 + c_nat b) * 4 in
     [b64_char (n div 4096), b64_char (n div 64 mod 64), b64_char (n mod 64)])"
| "b64url (a # b # c # s) = (let n = (c_nat a * 256 + c_nat b) * 256 + c_nat c in
     [b64_char (n div 262144), b64_char (n div 4096 mod 64), b64_char (n div 64 mod 64), b64_char (n mod 64)] @ b64url s)"

text \<open>\<open>strconv.ParseInt\<close> in base 10 and 64 bits.\<close>

fun digits_val :: "nat \<Rightarrow> string \<Rightarrow> nat option" where
  "digits_val acc [] = Some acc"
| "digits_val acc (c # cs) = (if is_digit c then digits_val (10 * acc + (c_nat c - 48)) cs else None)"

definition parse_int64 :: "string \<Rightarrow> int option" where
  "parse_int64 s = (let neg = (case s of c # _ \<Rightarrow> c = CHR ''-'' | [] \<Rightarrow> False);
       signed = (case s of c # _ \<Rightarrow> c = CHR ''-'' \<or> c = CHR ''+'' | [] \<Rightarrow> False);
       ds = (if signed then tl s else s) in
     if ds = [] then None
     else (case digits_val 0 ds of None \<Rightarrow> None
       | Some n \<Rightarrow> let v = (if neg then - int n else int n) in
           if - (2 ^ 63) \<le> v \<and> v < 2 ^ 63 then Some v else None))"

definition unix :: "time \<Rightarrow> int" where
  "unix t = t div second"

definition lock_sign :: "ext \<Rightarrow> string \<Rightarrow> int \<Rightarrow> string" where
  "lock_sign x hash expires = (let at = int_str expires in at @ ''.'' @ b64url (x_hmac x hash at))"

definition lock_valid :: "ext \<Rightarrow> string \<Rightarrow> string \<Rightarrow> time \<Rightarrow> bool" where
  "lock_valid x hash value t = (case cut_at (CHR ''.'') value of (at, _, _) \<Rightarrow>
     (case parse_int64 at of None \<Rightarrow> False
       | Some expires \<Rightarrow> unix t < expires \<and> value = lock_sign x hash expires))"

text \<open>
  A request as the registry reads it: the URL's decoded path, \<open>RequestURI\<close> and raw query, the
  value of the lock's cookie, if there is one, and of the posted \<open>boreas_password\<close> field, which
  is empty when the form is missing or too large, and three headers.
\<close>

record http_request =
  rq_method :: string
  rq_path :: string
  rq_uri :: string
  rq_rawquery :: string
  rq_cookie :: "string option"
  rq_password :: string
  rq_loop :: string
  rq_tls :: bool
  rq_proto :: string

datatype lock_answer =
    Admitted
  | Unlocked (cookie: string) (cookie_path: string) (max_age: int) (secure: bool) (location: string)
  | LockPage (status: nat) (message: string) (mood: string)

definition lock_ttl :: int where
  "lock_ttl = 24 * hour"

definition lock_admits :: "ext \<Rightarrow> time \<Rightarrow> http_request \<Rightarrow> lock \<Rightarrow> lock_answer \<times> lock" where
  "lock_admits x t q l =
     (if (case rq_cookie q of None \<Rightarrow> False | Some v \<Rightarrow> lock_valid x (lk_hash l) v t) then (Admitted, l)
      else if rq_method q = ''POST'' \<and> rq_password q \<noteq> [] then
        (let l' = l\<lparr>lk_tries := lk_tries l @ [t]\<rparr> in
         if \<not> x_allow x (lk_tries l) t
         then (LockPage 429 ''Too many tries. Wait a minute, then try again.'' ''wait'', l')
         else if x_bcrypt_ok x (lk_hash l) (rq_password q)
         then (Unlocked (lock_sign x (lk_hash l) (unix (t + lock_ttl))) (lk_path l) 86400
                (rq_tls q \<or> rq_proto q = ''https'') (rq_uri q), l')
         else (LockPage 401 ''Wrong password.'' ''wrong'', l'))
      else (LockPage 401 [] [], l))"

section \<open>Serving\<close>

text \<open>\<open>redirect path query\<close> is the location \<open>ServeHTTP\<close> builds; \<open>Proxied h\<close> hands over to a hop.\<close>

datatype served =
    Missed
  | MovedCase (location_url: url)
  | LockAnswers lock_answer
  | LoopDetected
  | Proxied hop
  | MovedBase string

definition under :: "string \<Rightarrow> string \<Rightarrow> bool" where
  "under path pre \<longleftrightarrow> path = pre \<or> prefix (pre @ ''/'') path"

definition path_parts :: "string \<Rightarrow> string list" where
  "path_parts path = split_n 3 slash (trim_prefix path ''/'')"

text \<open>What follows the lock: the first route the path is under, then the task itself.\<close>

definition serve_open :: "site \<Rightarrow> nat \<Rightarrow> http_request \<Rightarrow> served" where
  "serve_open s n q = (case find (\<lambda>h. under (rq_path q) (h_public h)) (st_routes s) of
       Some h \<Rightarrow> if rq_loop q \<noteq> [] then LoopDetected else Proxied h
     | None \<Rightarrow> (case st_task s of None \<Rightarrow> Missed
        | Some h \<Rightarrow> if n = 2 then MovedBase (h_public h @ ''/'' @ (if rq_rawquery q = [] then [] else ''?'' @ rq_rawquery q))
            else Proxied h))"

definition reg_serve :: "ext \<Rightarrow> time \<Rightarrow> http_request \<Rightarrow> sites \<Rightarrow> served \<times> sites" where
  "reg_serve x t q m = (let parts = path_parts (rq_path q) in
     if length parts < 2 \<or> parts ! 0 = [] \<or> parts ! 1 = [] then (Missed, m)
     else let key = route_key x (parts ! 0) (parts ! 1); s = site_at m key in
       if st_name s \<noteq> [] \<and> st_name s \<noteq> parts ! 1
       then (MovedCase \<lparr>ul_scheme = [], ul_host = [], ul_user = False,
               ul_path = ''/'' @ join_with ''/'' (parts[1 := st_name s]), ul_rawquery = rq_rawquery q,
               ul_forcequery = False, ul_fragment = []\<rparr>, m)
       else (case st_lock s of
           Some l \<Rightarrow> if length parts = 3
             then (case lock_admits x t q l of
                 (Admitted, _) \<Rightarrow> (serve_open s 3 q, m)
               | (a, l') \<Rightarrow> (LockAnswers a, m(key \<mapsto> s\<lparr>st_lock := Some l'\<rparr>)))
             else (serve_open s (length parts) q, m)
         | None \<Rightarrow> (serve_open s (length parts) q, m)))"


section \<open>What an update does to a site\<close>

lemma site_at_update: "site_at (reg_update x p t f m) key = (if key = route_key x p t
    then (if site_empty (f (site_at m key)) then zero_site else (f (site_at m key))\<lparr>st_name := t\<rparr>) else site_at m key)"
  by (auto simp: site_at_def reg_update_def Let_def)

lemma site_empty_zero [simp]: "site_empty zero_site"
  by (simp add: site_empty_def zero_site_def)

definition task_hop :: "ext \<Rightarrow> string \<Rightarrow> string \<Rightarrow> sites \<Rightarrow> hop option" where
  "task_hop x p t m = st_task (site_at m (route_key x p t))"

definition task_routes :: "ext \<Rightarrow> string \<Rightarrow> string \<Rightarrow> sites \<Rightarrow> hop list" where
  "task_routes x p t m = st_routes (site_at m (route_key x p t))"

definition task_lock :: "ext \<Rightarrow> string \<Rightarrow> string \<Rightarrow> sites \<Rightarrow> lock option" where
  "task_lock x p t m = st_lock (site_at m (route_key x p t))"

lemma st_after_update:
  "st_task (site_at (reg_update x p t f m) (route_key x p t)) = st_task (f (site_at m (route_key x p t)))"
  "st_routes (site_at (reg_update x p t f m) (route_key x p t)) = st_routes (f (site_at m (route_key x p t)))"
  "st_lock (site_at (reg_update x p t f m) (route_key x p t)) = st_lock (f (site_at m (route_key x p t)))"
  by (auto simp: site_at_update site_empty_def zero_site_def)

text \<open>The interface the task service uses.\<close>

locale route_registry =
  fixes key :: "'p \<Rightarrow> 't \<Rightarrow> 'k"
    and register :: "'p \<Rightarrow> 't \<Rightarrow> 'a \<Rightarrow> 'm \<Rightarrow> 'm"
    and unregister :: "'p \<Rightarrow> 't \<Rightarrow> 'm \<Rightarrow> 'm"
    and set_routes :: "'p \<Rightarrow> 't \<Rightarrow> 'r \<Rightarrow> 'm \<Rightarrow> 'm"
    and set_lock :: "'p \<Rightarrow> 't \<Rightarrow> 'l \<Rightarrow> 'm \<Rightarrow> 'm"
    and hop_at :: "'k \<Rightarrow> 'm \<Rightarrow> 'h option"
    and side_at :: "'k \<Rightarrow> 'm \<Rightarrow> 's"
    and hop_for :: "'p \<Rightarrow> 't \<Rightarrow> 'a \<Rightarrow> 'h"
  assumes hop_register: "hop_at k (register p t a m) = (if k = key p t then Some (hop_for p t a) else hop_at k m)"
    and hop_unregister: "hop_at k (unregister p t m) = (if k = key p t then None else hop_at k m)"
    and hop_set_routes: "hop_at k (set_routes p t r m) = hop_at k m"
    and hop_set_lock: "hop_at k (set_lock p t l m) = hop_at k m"
    and side_register: "side_at k (register p t a m) = side_at k m"
    and side_unregister: "side_at k (unregister p t m) = side_at k m"
begin

lemma register_then_hop: "hop_at (key p t) (set_lock p t l (set_routes p t r (register p t a m))) = Some (hop_for p t a)"
  by (simp add: hop_register hop_set_routes hop_set_lock)

lemma restart_hop: "hop_at (key p t) (register p t a (unregister p t m)) = Some (hop_for p t a)"
  by (simp add: hop_register)

lemma cycle_side: "side_at k (register p t a (unregister p t m)) = side_at k m"
  by (simp add: side_register side_unregister)

lemma other_site: "k \<noteq> key p t \<Longrightarrow> hop_at k (register p t a (unregister p t m)) = hop_at k m"
  by (simp add: hop_register hop_unregister)

end

definition reg_put :: "ext \<Rightarrow> string \<Rightarrow> string \<Rightarrow> string \<times> int \<Rightarrow> sites \<Rightarrow> sites" where
  "reg_put x proj task a = reg_update x proj task
     (\<lambda>s. s\<lparr>st_task := Some (new_hop proj task [] (http_url (join_host_port (fst a) (int_str (snd a)))) False)\<rparr>)"

definition container_hop :: "string \<Rightarrow> string \<Rightarrow> string \<times> int \<Rightarrow> hop" where
  "container_hop proj task a = new_hop proj task [] (http_url (join_host_port (fst a) (int_str (snd a)))) False"

interpretation reg: route_registry "route_key x" "reg_put x" "reg_unregister x" "reg_set_routes x" "reg_set_lock x"
  "\<lambda>k m. st_task (site_at m k)" "\<lambda>k m. (st_routes (site_at m k), st_lock (site_at m k))" container_hop for x
  by unfold_locales
    (auto simp: reg_put_def reg_unregister_def reg_set_routes_def reg_set_lock_def container_hop_def
      site_at_update site_empty_def zero_site_def)

lemma reg_register_ok: "reg_register x p t host port m = Inr m' \<longleftrightarrow>
    validate_project_slug p = None \<and> validate_task_name t = None \<and> trim_space host \<noteq> [] \<and> 1 \<le> port \<and> port \<le> 65535 \<and>
    m' = reg_put x p t (host, port) m"
  by (auto simp: reg_register_def reg_put_def simp del: validate_project_slug_None validate_task_name_None
      split: option.splits)

section \<open>The invariant of the registry\<close>

datatype reg_op = Register string string string int | Unregister string string
  | SetRoutes string string "route list" | SetLock string string string

fun reg_step :: "ext \<Rightarrow> reg_op \<Rightarrow> sites \<Rightarrow> sites" where
  "reg_step x (Register p t h n) m = (case reg_register x p t h n m of Inl _ \<Rightarrow> m | Inr m' \<Rightarrow> m')"
| "reg_step x (Unregister p t) m = reg_unregister x p t m"
| "reg_step x (SetRoutes p t rs) m = reg_set_routes x p t rs m"
| "reg_step x (SetLock p t h) m = reg_set_lock x p t h m"

text \<open>
  A site is there only for a task, a route or a lock; its hops are its own and its routes are
  ordered, longest first.
\<close>

definition hop_of_key :: "ext \<Rightarrow> string \<Rightarrow> hop \<Rightarrow> bool" where
  "hop_of_key x key h \<longleftrightarrow> key = route_key x (h_project h) (h_task h) \<and>
     h_public h = ''/'' @ h_project h @ ''/'' @ h_task h @ h_path h"

definition site_ok :: "ext \<Rightarrow> string \<Rightarrow> site \<Rightarrow> bool" where
  "site_ok x key s \<longleftrightarrow> (\<forall>h. st_task s = Some h \<longrightarrow> hop_of_key x key h \<and> h_path h = []) \<and>
     (\<forall>h \<in> set (st_routes s). hop_of_key x key h) \<and> sorted (map (\<lambda>h. - int (length (h_path h))) (st_routes s))"

definition sites_ok :: "ext \<Rightarrow> sites \<Rightarrow> bool" where
  "sites_ok x m \<longleftrightarrow> (\<forall>key s. m key = Some s \<longrightarrow> \<not> site_empty s \<and> site_ok x key s)"

lemma sites_ok_site_at: "sites_ok x m \<Longrightarrow> site_ok x key (site_at m key)"
  by (cases "m key") (auto simp: sites_ok_def site_at_def site_ok_def zero_site_def)

lemma new_hop_simps [simp]: "h_project (new_hop p t q u b) = p" "h_task (new_hop p t q u b) = t"
  "h_path (new_hop p t q u b) = q" "h_public (new_hop p t q u b) = ''/'' @ p @ ''/'' @ t @ q"
  "h_target (new_hop p t q u b) = u" "h_anycert (new_hop p t q u b) = b"
  by (simp_all add: new_hop_def)

lemma hop_of_key_new [simp]: "hop_of_key x (route_key x p t) (new_hop p t q u b)"
  by (simp add: hop_of_key_def)

lemma sites_ok_update:
  assumes "sites_ok x m" "\<And>s. site_ok x (route_key x p t) s \<Longrightarrow> site_ok x (route_key x p t) (f s)"
  shows "sites_ok x (reg_update x p t f m)"
proof -
  have "site_ok x (route_key x p t) (f (site_at m (route_key x p t)))"
    using assms sites_ok_site_at by blast
  then show ?thesis
    using assms(1) by (auto simp: sites_ok_def reg_update_def Let_def site_ok_def site_empty_def)
qed

lemma route_hops_set: "h \<in> set (route_hops x p t rs) \<longleftrightarrow>
    (\<exists>r u. r \<in> set rs \<and> url_parse (x_url x) (r_url r) = Some u \<and> h = new_hop p t (r_path r) u (r_anycert r))"
  by (auto simp: route_hops_def map_filter_def image_iff)

lemma reg_step_ok: "sites_ok x m \<Longrightarrow> sites_ok x (reg_step x oper m)"
proof (induction oper)
  case (Register p t h n)
  then show ?case
    by (auto simp: reg_register_ok reg_put_def site_ok_def split: sum.split intro!: sites_ok_update)
next
  case (SetRoutes p t rs)
  have "sorted (map (\<lambda>h. - int (length (h_path h))) (route_hops x p t rs))"
    unfolding route_hops_def by (rule sorted_sort_key)
  then show ?case
    using SetRoutes by (auto simp: reg_set_routes_def site_ok_def route_hops_set intro!: sites_ok_update)
qed (auto simp: reg_unregister_def reg_set_lock_def site_ok_def intro!: sites_ok_update)

interpretation reg_inv: invariant_steps "reg_step x" "sites_ok x" for x
  by unfold_locales (rule reg_step_ok)

lemma sites_ok_empty [simp]: "sites_ok x Map.empty"
  by (simp add: sites_ok_def)

lemma sites_ok_reach: "sites_ok x (run_ops (reg_step x) ops Map.empty)"
  by (rule reg_inv.run_inv) simp


section \<open>Which hop answers\<close>

lemma find_sorted_best:
  assumes "find P hs = Some h" "sorted (map f hs)" "h' \<in> set hs" "P h'"
  shows "f h \<le> (f h' :: int)"
proof -
  from assms(1) obtain i where i: "i < length hs" "h = hs ! i" "P (hs ! i)" "\<forall>j<i. \<not> P (hs ! j)"
    by (metis find_Some_iff)
  obtain j where j: "j < length hs" "h' = hs ! j" using assms(3) by (metis in_set_conv_nth)
  with i assms(4) have "i \<le> j" by (metis not_le)
  with i j assms(2) show ?thesis by (simp add: sorted_iff_nth_mono)
qed

lemma under_same_length:
  assumes "under path (pre @ a)" "under path (pre @ b)" "length a = length b"
  shows "a = b"
  using assms by (auto simp: under_def prefix_def append_eq_append_conv)

lemma find_someD: "find P hs = Some h \<Longrightarrow> h \<in> set hs \<and> P h"
  by (induction hs) (auto split: if_splits)

lemma serve_open_proxied:
  assumes "serve_open s n q = Proxied h"
  shows "(h \<in> set (st_routes s) \<and> under (rq_path q) (h_public h) \<and> rq_loop q = [] \<and>
      find (\<lambda>h. under (rq_path q) (h_public h)) (st_routes s) = Some h) \<or>
    (st_task s = Some h \<and> n \<noteq> 2 \<and> (\<forall>h' \<in> set (st_routes s). \<not> under (rq_path q) (h_public h')))"
  using assms by (auto simp: serve_open_def find_None_iff split: option.splits if_splits dest: find_someD)

lemma reg_serve_proxied:
  assumes "reg_serve x t q m = (Proxied h, m')"
  defines "ps \<equiv> path_parts (rq_path q)"
  defines "s \<equiv> site_at m (route_key x (ps ! 0) (ps ! 1))"
  shows "m' = m \<and> 2 \<le> length ps \<and> serve_open s (length ps) q = Proxied h \<and> (st_name s = [] \<or> st_name s = ps ! 1) \<and>
    (\<forall>l. st_lock s = Some l \<longrightarrow> length ps = 3 \<longrightarrow> fst (lock_admits x t q l) = Admitted)"
  using assms by (auto simp: reg_serve_def Let_def split: if_splits option.splits prod.splits lock_answer.splits)

lemma lock_admitted_iff:
  "fst (lock_admits x t q l) = Admitted \<longleftrightarrow> (\<exists>v. rq_cookie q = Some v \<and> lock_valid x (lk_hash l) v t)"
  by (auto simp: lock_admits_def Let_def split: option.splits)

text \<open>
  C6: Whatever was registered before, a proxied request reaches a hop of the site its own first two
  path segments name; a route is taken only for a path under its public path, the longest such
  route wins, and the task's container gets a request only when no route matches; a locked site
  answers only a request that carries a cookie the lock accepts, or one for the bare task path.
\<close>

theorem registry_routes:
  assumes "reg_serve x t q (run_ops (reg_step x) ops Map.empty) = (Proxied h, m')"
  defines "m \<equiv> run_ops (reg_step x) ops Map.empty"
  defines "ps \<equiv> path_parts (rq_path q)"
  defines "s \<equiv> site_at m (route_key x (ps ! 0) (ps ! 1))"
  shows "m' = m \<and> route_key x (h_project h) (h_task h) = route_key x (ps ! 0) (ps ! 1) \<and>
    (h_path h \<noteq> [] \<longrightarrow> under (rq_path q) (h_public h)) \<and>
    (\<forall>h' \<in> set (st_routes s). under (rq_path q) (h_public h') \<longrightarrow>
        under (rq_path q) (h_public h) \<and> length (h_path h') \<le> length (h_path h)) \<and>
    (\<forall>l. st_lock s = Some l \<and> length ps = 3 \<longrightarrow>
        (\<exists>v. rq_cookie q = Some v \<and> lock_valid x (lk_hash l) v t))"
proof -
  have ok: "site_ok x (route_key x (ps ! 0) (ps ! 1)) s"
    unfolding s_def m_def by (rule sites_ok_site_at [OF sites_ok_reach])
  from reg_serve_proxied [OF assms(1)]
  have eq: "m' = m" and opened: "serve_open s (length ps) q = Proxied h"
    and lock: "\<forall>l. st_lock s = Some l \<longrightarrow> length ps = 3 \<longrightarrow> fst (lock_admits x t q l) = Admitted"
    unfolding s_def m_def ps_def by blast+
  from serve_open_proxied [OF opened] show ?thesis
  proof (elim disjE conjE)
    assume h: "h \<in> set (st_routes s)" "under (rq_path q) (h_public h)"
      "find (\<lambda>h. under (rq_path q) (h_public h)) (st_routes s) = Some h"
    have "length (h_path h') \<le> length (h_path h)" if "h' \<in> set (st_routes s)" "under (rq_path q) (h_public h')" for h'
      using find_sorted_best [OF h(3) _ that, of "\<lambda>h. - int (length (h_path h))"] ok by (simp add: site_ok_def)
    with h ok eq lock show ?thesis by (auto simp: site_ok_def hop_of_key_def lock_admitted_iff)
  next
    assume h: "st_task s = Some h" "\<forall>h' \<in> set (st_routes s). \<not> under (rq_path q) (h_public h')"
    with ok eq lock show ?thesis by (auto simp: site_ok_def hop_of_key_def lock_admitted_iff)
  qed
qed

section \<open>The lock's cookie\<close>

lemma digits_val_append: "digits_val acc (xs @ ys) =
    (case digits_val acc xs of None \<Rightarrow> None | Some n \<Rightarrow> digits_val n ys)"
  by (induction xs arbitrary: acc) auto

lemma digit_char: "d < 10 \<Longrightarrow> is_digit (char_of (48 + d)) \<and> c_nat (char_of (48 + d)) = 48 + d"
  by (simp add: is_digit_def c_nat_def)

lemma nat_str_digits: "\<exists>k. \<forall>acc. digits_val acc (nat_str n) = Some (acc * 10 ^ k + n)"
proof (induction n rule: nat_str.induct)
  case (1 n)
  show ?case
  proof (cases "n < 10")
    case True
    then show ?thesis using digit_char [of n] by (intro exI [of _ 1]) (simp add: nat_str.simps [of n])
  next
    case False
    with 1 obtain k where k: "\<forall>acc. digits_val acc (nat_str (n div 10)) = Some (acc * 10 ^ k + n div 10)" by auto
    have "digits_val acc (nat_str n) = Some (acc * 10 ^ Suc k + n)" for acc
      using False digit_char [of "n mod 10"] k
      by (simp add: nat_str.simps [of n] digits_val_append algebra_simps)
    then show ?thesis by blast
  qed
qed

lemma digits_val_nat_str: "digits_val 0 (nat_str n) = Some n"
  using nat_str_digits [of n] by force

lemma digits_only: "digits_val acc s = Some n \<Longrightarrow> list_all is_digit s"
  by (induction s arbitrary: acc) (auto split: if_splits)

lemma nat_str_ne [simp]: "nat_str n \<noteq> []"
  by (subst nat_str.simps) simp

lemma nat_str_head: "\<exists>c cs. nat_str n = c # cs \<and> is_digit c"
  using digits_only [OF digits_val_nat_str [of n]] by (cases "nat_str n") auto

lemma is_digit_not_sign: "is_digit c \<Longrightarrow> c \<noteq> CHR ''-'' \<and> c \<noteq> CHR ''+'' \<and> c \<noteq> CHR ''.''"
  by (auto simp: is_digit_def c_nat_def)

lemma parse_int_str: "- (2 ^ 63) \<le> v \<Longrightarrow> v < 2 ^ 63 \<Longrightarrow> parse_int64 (int_str v) = Some v"
proof (cases "v < 0")
  case True
  assume "- (2 ^ 63) \<le> v" "v < 2 ^ 63"
  with True show ?thesis by (simp add: parse_int64_def int_str_def digits_val_nat_str)
next
  case False
  assume range: "- (2 ^ 63) \<le> v" "v < 2 ^ 63"
  obtain c cs where c: "nat_str (nat v) = c # cs" "is_digit c" using nat_str_head by blast
  then have "c \<noteq> CHR ''-''" "c \<noteq> CHR ''+''" using is_digit_not_sign by blast+
  with False c range digits_val_nat_str [of "nat v"] show ?thesis
    by (simp add: parse_int64_def int_str_def)
qed

lemma int_str_no_dot: "CHR ''.'' \<notin> set (int_str v)"
proof -
  have "list_all is_digit (nat_str n)" for n
    using digits_only digits_val_nat_str by blast
  then have "CHR ''.'' \<notin> set (nat_str n)" for n
    using is_digit_not_sign by (fastforce simp: list_all_iff)
  then show ?thesis by (simp add: int_str_def)
qed

lemma cut_sign: "cut_at (CHR ''.'') (lock_sign x hash e) = (int_str e, b64url (x_hmac x hash (int_str e)), True)"
  using cut_at_sep [OF int_str_no_dot] by (simp add: lock_sign_def Let_def)

lemma parse_int64_range: "parse_int64 s = Some e \<Longrightarrow> - (2 ^ 63) \<le> e \<and> e < 2 ^ 63"
  by (auto simp: parse_int64_def Let_def split: option.splits if_splits)

text \<open>
  C7: A lock's cookie is valid exactly when it is the one \<open>sign\<close> makes for an expiry in the
  future: the program accepts nothing it did not sign, and everything it signed until it expires.
\<close>

theorem lock_valid_iff:
  "lock_valid x hash value t \<longleftrightarrow>
     (\<exists>e. - (2 ^ 63) \<le> e \<and> e < 2 ^ 63 \<and> unix t < e \<and> value = lock_sign x hash e)"
proof
  assume "lock_valid x hash value t"
  then show "\<exists>e. - (2 ^ 63) \<le> e \<and> e < 2 ^ 63 \<and> unix t < e \<and> value = lock_sign x hash e"
    using parse_int64_range by (fastforce simp: lock_valid_def split: prod.splits option.splits)
next
  assume "\<exists>e. - (2 ^ 63) \<le> e \<and> e < 2 ^ 63 \<and> unix t < e \<and> value = lock_sign x hash e"
  then obtain e where "- (2 ^ 63) \<le> e" "e < 2 ^ 63" "unix t < e" "value = lock_sign x hash e" by blast
  then show "lock_valid x hash value t" by (simp add: lock_valid_def cut_sign parse_int_str)
qed



definition demo_request :: http_request where
  "demo_request = \<lparr>rq_method = ''POST'', rq_path = ''/p/t/'', rq_uri = ''/p/t/'', rq_rawquery = [], rq_cookie = None,
     rq_password = ''password'', rq_loop = [], rq_tls = False, rq_proto = []\<rparr>"

definition demo_lock :: lock where
  "demo_lock = \<lparr>lk_task = ''t'', lk_path = ''/p/t/'', lk_hash = ''$password'', lk_tries = []\<rparr>"


definition demo_ops :: "reg_op list" where
  "demo_ops = [Register ''p'' ''t'' ''10.0.0.2'' 80,
     SetRoutes ''p'' ''t'' [\<lparr>r_path = ''/a'', r_url = ''h:1'', r_anycert = False\<rparr>, \<lparr>r_path = ''/a/b'', r_url = ''h:2'', r_anycert = False\<rparr>]]"

theorem registry_routes_witness:
  "\<exists>h m'. reg_serve demo_ext 0 (demo_request\<lparr>rq_path := ''/p/t/a/b/c''\<rparr>) (run_ops (reg_step demo_ext) demo_ops Map.empty) = (Proxied h, m') \<and>
     h_path h = ''/a/b'' \<and> under ''/p/t/a/b/c'' (h_public h)"
proof -
  let ?r = "reg_serve demo_ext 0 (demo_request\<lparr>rq_path := ''/p/t/a/b/c''\<rparr>) (run_ops (reg_step demo_ext) demo_ops Map.empty)"
  have "case fst ?r of Proxied h \<Rightarrow> h_path h = ''/a/b'' | _ \<Rightarrow> False" by code_simp
  then obtain h m' where r: "?r = (Proxied h, m')" "h_path h = ''/a/b''"
    by (cases ?r) (auto split: served.splits)
  from registry_routes [OF r(1)] r(2) have "under ''/p/t/a/b/c'' (h_public h)" by simp
  with r show ?thesis by blast
qed

end
