(* ===== verification/World.thy ===== *)
theory World
  imports Registry Hub
begin

text \<open>
  The state of one Boreas process: the store, the pairings and sites in memory, the event hub,
  the notifications handed to the notifier's goroutines, the number of open public event streams,
  and the calls made so far to what is
  outside the program: the Docker daemon with the host's file system, the object store and the
  HTTP endpoints of the push services. Their answers come from oracles that see the whole
  history of calls, this one last, so nothing is assumed of them unless a lemma says so.
\<close>

section \<open>Docker\<close>

text \<open>An error of the Docker client, as \<open>errdefs\<close> classifies it.\<close>

datatype docker_error = DockerNotFound string | DockerConflict string | DockerNotModified string | DockerOther string

fun docker_text :: "docker_error \<Rightarrow> string" where
  "docker_text (DockerNotFound s) = s"
| "docker_text (DockerConflict s) = s"
| "docker_text (DockerNotModified s) = s"
| "docker_text (DockerOther s) = s"

record mount =
  mt_source :: string
  mt_target :: string
  mt_subpath :: string

record create_config =
  cc_image :: string
  cc_port :: string
  cc_labels :: strmap
  cc_env :: "string list"
  cc_network :: string
  cc_restart :: string
  cc_mounts :: "mount list"

text \<open>What an inspect returns: each part may be missing.\<close>

record inspect_state =
  is_running :: bool
  is_restarting :: bool
  is_status :: string
  is_error :: string

record inspect_info =
  if_id :: string
  if_labels :: "strmap option"
  if_state :: "inspect_state option"
  if_networks :: "(string \<times> string option) list option"

datatype docker_call =
    NetworkList string
  | NetworkCreate string strmap
  | ContainerList string string
  | ContainerUpdate string string
  | ImagePull string "(string \<times> string \<times> string) option"
  | ContainerCreate create_config string
  | ContainerInspect string
  | ContainerStart string
  | ContainerStop string
  | ContainerRemove string
  | ContainerLogs string bool string string
  | ContainerStats string
  | DockerInfo
  | DialTCP string
  | ReadDir string
  | MkdirAll string
  | OpenRoot string
  | ChmodFolder string

text \<open>One event of a pull's stream: a message with an error text, or a decoding failure.\<close>

datatype pull_event = PullEvent string | PullBroken string

record daemon =
  d_error :: "docker_call list \<Rightarrow> docker_error option"
  d_names :: "docker_call list \<Rightarrow> string list"
  d_pull :: "docker_call list \<Rightarrow> pull_event list"
  d_id :: "docker_call list \<Rightarrow> string"
  d_inspect :: "docker_call list \<Rightarrow> inspect_info"
  d_memory :: "docker_call list \<Rightarrow> int"
  d_dirs :: "docker_call list \<Rightarrow> (string \<times> bool) list"

section \<open>The object store and HTTP endpoints\<close>

datatype object_call = PutObject string string string | GetObject string | DeleteObject string

datatype http_reply = NoReply string | HttpReply (rep_status: nat) (rep_type: string) (rep_body: string)

text \<open>A push message as FCM takes it, and a notification for the team.\<close>

record push_message =
  pm_token :: string
  pm_title :: string
  pm_body :: string
  pm_type :: string
  pm_android :: string
  pm_android_ttl :: string
  pm_apns_priority :: string
  pm_apns_expiration :: string
  pm_web_ttl :: string
  pm_urgency :: string

datatype post_call = PushPost push_message | TeamPost string string string string

section \<open>State\<close>

record pairing =
  pr_user :: uuid
  pr_expires :: time

record world = store +
  pairings :: "string \<rightharpoonup> pairing"
  claimed :: "string list"
  sites :: sites
  hub :: "hub option"
  outbox :: "notification list"
  daemon :: daemon
  dlog :: "docker_call list"
  s3_on :: bool
  objects :: "object_call list \<Rightarrow> http_reply"
  olog :: "object_call list"
  poster :: "post_call list \<Rightarrow> http_reply"
  plog :: "post_call list"
  publics :: nat

text \<open>A store operation leaves every part outside the store alone.\<close>

lemma outside_world:
  assumes "keeps outside (m :: (world, 'a) io)"
  shows "keeps ext m" "keeps now m" "keeps pairings m" "keeps claimed m" "keeps sites m" "keeps hub m" "keeps outbox m"
    "keeps daemon m" "keeps dlog m" "keeps objects m" "keeps olog m" "keeps poster m" "keeps plog m"
    "keeps s3_on m" "keeps publics m"
proof -
  have out: "ext (snd (m w)) = ext w \<and> now (snd (m w)) = now w \<and> store.more (snd (m w)) = store.more w" for w
    using assms by (simp add: keeps_def outside_def)
  show "keeps ext m" "keeps now m" using out by (simp_all add: keeps_def)
  have same: "pairings (snd (m w)) = pairings w \<and> claimed (snd (m w)) = claimed w \<and> sites (snd (m w)) = sites w \<and>
      hub (snd (m w)) = hub w \<and> outbox (snd (m w)) = outbox w \<and> daemon (snd (m w)) = daemon w \<and>
      dlog (snd (m w)) = dlog w \<and> s3_on (snd (m w)) = s3_on w \<and> objects (snd (m w)) = objects w \<and> olog (snd (m w)) = olog w \<and>
      poster (snd (m w)) = poster w \<and> plog (snd (m w)) = plog w \<and> publics (snd (m w)) = publics w" for w
    using out [of w] by (cases "snd (m w)"; cases w) simp
  then show "keeps pairings m" "keeps claimed m" "keeps sites m" "keeps hub m" "keeps outbox m" "keeps daemon m"
    "keeps dlog m" "keeps objects m" "keeps olog m" "keeps poster m" "keeps plog m"
    "keeps s3_on m" "keeps publics m"
    by (simp_all add: keeps_def)
qed

section \<open>Calls\<close>

definition d_call :: "docker_call \<Rightarrow> (daemon \<Rightarrow> docker_call list \<Rightarrow> 'x) \<Rightarrow> (world, docker_error + 'x) io" where
  "d_call c answer w = (let h = dlog w @ [c] in
     (Inr (case d_error (daemon w) h of Some e \<Rightarrow> Inl e | None \<Rightarrow> Inr (answer (daemon w) h)), w\<lparr>dlog := h\<rparr>))"

definition o_call :: "object_call \<Rightarrow> (world, http_reply) io" where
  "o_call c w = (let h = olog w @ [c] in (Inr (objects w h), w\<lparr>olog := h\<rparr>))"

definition p_call :: "post_call \<Rightarrow> (world, http_reply) io" where
  "p_call c w = (let h = plog w @ [c] in (Inr (poster w h), w\<lparr>plog := h\<rparr>))"

text \<open>Sends to the hub; \<open>hub w = None\<close> is a process that has panicked.\<close>

definition publish_events :: "(world, unit) io" where
  "publish_events = io_mod (\<lambda>w. w\<lparr>hub := Option.bind (hub w) publish\<rparr>)"

text \<open>\<open>Notify\<close> returns at once: its goroutine runs later.\<close>

definition notify :: "notification \<Rightarrow> (world, unit) io" where
  "notify n = io_mod (\<lambda>w. w\<lparr>outbox := outbox w @ [n]\<rparr>)"

lemma wp_calls [wp_simps]:
  "wp (d_call c f) Q E w = Q (case d_error (daemon w) (dlog w @ [c]) of Some e \<Rightarrow> Inl e
     | None \<Rightarrow> Inr (f (daemon w) (dlog w @ [c]))) (w\<lparr>dlog := dlog w @ [c]\<rparr>)"
  "wp (o_call oc) Q' E w = Q' (objects w (olog w @ [oc])) (w\<lparr>olog := olog w @ [oc]\<rparr>)"
  "wp (p_call pc) Q' E w = Q' (poster w (plog w @ [pc])) (w\<lparr>plog := plog w @ [pc]\<rparr>)"
  "wp publish_events Q'' E w = Q'' () (w\<lparr>hub := Option.bind (hub w) publish\<rparr>)"
  "wp (notify n) Q'' E w = Q'' () (w\<lparr>outbox := outbox w @ [n]\<rparr>)"
  by (simp_all add: wp_def d_call_def o_call_def p_call_def publish_events_def notify_def io_mod_def Let_def)

lemma keeps_calls [keeps_intros]:
  "(\<And>w h. f (w\<lparr>dlog := h\<rparr>) = f w) \<Longrightarrow> keeps f (d_call c g)"
  "(\<And>w h. f (w\<lparr>olog := h\<rparr>) = f w) \<Longrightarrow> keeps f (o_call oc)"
  "(\<And>w h. f (w\<lparr>plog := h\<rparr>) = f w) \<Longrightarrow> keeps f (p_call pc)"
  "(\<And>w h. f (w\<lparr>hub := h\<rparr>) = f w) \<Longrightarrow> keeps f publish_events"
  "(\<And>w h. f (w\<lparr>outbox := h\<rparr>) = f w) \<Longrightarrow> keeps f (notify n)"
  by (simp_all add: keeps_def d_call_def o_call_def p_call_def publish_events_def notify_def io_mod_def Let_def)

section \<open>What a computation asks of the daemon\<close>

text \<open>
  \<open>logs P m\<close>: every call \<open>m\<close> makes of the daemon satisfies \<open>P\<close> of the daemon, the calls before
  it and the call. The log only grows.
\<close>

definition logs :: "(daemon \<Rightarrow> docker_call list \<Rightarrow> docker_call \<Rightarrow> bool) \<Rightarrow> (world, 'a) io \<Rightarrow> bool" where
  "logs P m \<longleftrightarrow> (\<forall>w. daemon (snd (m w)) = daemon w \<and> (\<exists>cs. dlog (snd (m w)) = dlog w @ cs \<and>
     (\<forall>i < length cs. P (daemon w) (dlog w @ take i cs) (cs ! i))))"

definition new_calls :: "world \<Rightarrow> world \<Rightarrow> docker_call list" where
  "new_calls w w' = drop (length (dlog w)) (dlog w')"

named_theorems log_intros "rules for the calls a computation makes"

lemma logs_quiet: "keeps dlog m \<Longrightarrow> keeps daemon m \<Longrightarrow> logs P m"
  by (simp add: logs_def keeps_def)

lemma logs_outside: "keeps outside m \<Longrightarrow> logs P m"
  by (intro logs_quiet outside_world)

lemmas logs_db [log_intros] = db_outside [THEN logs_outside]

lemma logs_basic [log_intros]: "logs P (ret x)" "logs P (fail e)" "logs P (io_get f)" "logs P (io_lift r)" "logs P (io_check c)"
  by (intro logs_quiet keeps_basic)+

lemma logs_mod [log_intros]: "(\<And>w. dlog (g w) = dlog w) \<Longrightarrow> (\<And>w. daemon (g w) = daemon w) \<Longrightarrow> logs P (io_mod g)"
  by (intro logs_quiet keeps_mod)

lemma logs_call [log_intros]: "(\<And>d h. P d h c) \<Longrightarrow> logs P (d_call c f)"
  by (auto simp: logs_def d_call_def Let_def)

lemma logs_append:
  assumes "\<forall>i < length cs. P d (h @ take i cs) (cs ! i)" "\<forall>i < length ds. P d ((h @ cs) @ take i ds) (ds ! i)"
  shows "\<forall>i < length (cs @ ds). P d (h @ take i (cs @ ds)) ((cs @ ds) ! i)"
proof (intro allI impI)
  fix i assume i: "i < length (cs @ ds)"
  show "P d (h @ take i (cs @ ds)) ((cs @ ds) ! i)"
  proof (cases "i < length cs")
    case True
    then show ?thesis using assms(1) by (simp add: nth_append)
  next
    case False
    then have "i - length cs < length ds" using i by simp
    with assms(2) False show ?thesis by (auto simp: nth_append)
  qed
qed

lemma logs_bind [log_intros]:
  assumes "logs P m" "\<And>x. logs P (f x)"
  shows "logs P (io_bind m f)"
  unfolding logs_def
proof (rule allI)
  fix w
  obtain r w1 where m: "m w = (r, w1)" by (cases "m w")
  from assms(1) [unfolded logs_def, rule_format, of w] m obtain cs where
    cs: "daemon w1 = daemon w" "dlog w1 = dlog w @ cs" "\<forall>i < length cs. P (daemon w) (dlog w @ take i cs) (cs ! i)" by auto
  show "daemon (snd (io_bind m f w)) = daemon w \<and> (\<exists>cs. dlog (snd (io_bind m f w)) = dlog w @ cs \<and>
     (\<forall>i < length cs. P (daemon w) (dlog w @ take i cs) (cs ! i)))"
  proof (cases r)
    case (Inl e)
    then show ?thesis using m cs by (auto simp: io_bind_def)
  next
    case (Inr x)
    from assms(2) [unfolded logs_def, rule_format, of x w1] obtain ds where
      ds: "daemon (snd (f x w1)) = daemon w1" "dlog (snd (f x w1)) = dlog w1 @ ds"
      "\<forall>i < length ds. P (daemon w1) (dlog w1 @ take i ds) (ds ! i)" by auto
    have "snd (io_bind m f w) = snd (f x w1)" using m Inr by (simp add: io_bind_def)
    then show ?thesis using cs ds logs_append [of cs P "daemon w" "dlog w" ds] by auto
  qed
qed

lemma logs_try [log_intros]: "logs P m \<Longrightarrow> logs P (io_try m)"
proof -
  have "snd (io_try m w) = snd (m w)" for w by (simp add: io_try_def split: prod.splits)
  then show "logs P m \<Longrightarrow> logs P (io_try m)" by (simp add: logs_def)
qed

lemma logs_wrap [log_intros]: "logs P m \<Longrightarrow> logs P (io_wrap oper m)"
proof -
  have "snd (io_wrap oper m w) = snd (m w)" for w by (simp add: io_wrap_def split: prod.splits sum.splits)
  then show "logs P m \<Longrightarrow> logs P (io_wrap oper m)" by (simp add: logs_def)
qed

lemma logs_if [log_intros]: "(b \<Longrightarrow> logs P m) \<Longrightarrow> (\<not> b \<Longrightarrow> logs P m') \<Longrightarrow> logs P (if b then m else m')"
  by simp

lemma logs_option [log_intros]:
  "(v = None \<Longrightarrow> logs P m) \<Longrightarrow> (\<And>x. v = Some x \<Longrightarrow> logs P (k x)) \<Longrightarrow> logs P (case v of None \<Rightarrow> m | Some x \<Rightarrow> k x)"
  by (cases v) auto

lemma logs_sum [log_intros]:
  "(\<And>e. logs P (h e)) \<Longrightarrow> (\<And>x. logs P (k x)) \<Longrightarrow> logs P (case v of Inl e \<Rightarrow> h e | Inr x \<Rightarrow> k x)"
  by (cases v) auto

lemma logs_prod [log_intros]: "(\<And>x y. p = (x, y) \<Longrightarrow> logs P (k x y)) \<Longrightarrow> logs P (case p of (x, y) \<Rightarrow> k x y)"
  by (cases p) auto

lemma logs_docker_error [log_intros]:
  "(\<And>s. logs P (a s)) \<Longrightarrow> (\<And>s. logs P (b s)) \<Longrightarrow> (\<And>s. logs P (c s)) \<Longrightarrow> (\<And>s. logs P (d s)) \<Longrightarrow>
   logs P (case e of DockerNotFound s \<Rightarrow> a s | DockerConflict s \<Rightarrow> b s | DockerNotModified s \<Rightarrow> c s | DockerOther s \<Rightarrow> d s)"
  by (cases e) auto

lemma logs_each [log_intros]: "(\<And>x. x \<in> set xs \<Longrightarrow> logs P (k x)) \<Longrightarrow> logs P (io_each k xs)"
  by (induction xs) (auto intro: log_intros)

lemma logs_mono: "logs P m \<Longrightarrow> (\<And>d h c. P d h c \<Longrightarrow> Q d h c) \<Longrightarrow> logs Q m"
  unfolding logs_def by meson

lemma logs_new_calls:
  assumes "logs P m" "m w = (r, w')" "c \<in> set (new_calls w w')"
  shows "\<exists>h. prefix (h @ [c]) (dlog w') \<and> prefix (dlog w) h \<and> P (daemon w) h c"
proof -
  from assms(1) [unfolded logs_def, rule_format, of w] assms(2) obtain cs where
    cs: "dlog w' = dlog w @ cs" "\<forall>i < length cs. P (daemon w) (dlog w @ take i cs) (cs ! i)" by auto
  with assms(3) obtain i where i: "i < length cs" "c = cs ! i" by (auto simp: new_calls_def in_set_conv_nth)
  have "cs = take i cs @ cs ! i # drop (Suc i) cs" using i by (simp add: id_take_nth_drop)
  then have "dlog w' = (dlog w @ take i cs) @ [c] @ drop (Suc i) cs" using cs i by simp
  then have "prefix ((dlog w @ take i cs) @ [c]) (dlog w')" by (metis append.assoc prefixI)
  with cs i show ?thesis by (intro exI [of _ "dlog w @ take i cs"]) auto
qed

definition bcrypt_hash :: "string \<Rightarrow> (world, string) io" where
  "bcrypt_hash password = io_bind (io_get (\<lambda>w. x_bcrypt (ext w) (seed w) password)) (\<lambda>r.
     io_bind (io_mod (\<lambda>w. w\<lparr>seed := Suc (seed w)\<rparr>)) (\<lambda>_. io_lift r))"

lemma wp_bcrypt_hash [wp_simps]: "wp (bcrypt_hash p) Q E w = (case x_bcrypt (ext w) (seed w) p of
    Inl e \<Rightarrow> E e (w\<lparr>seed := Suc (seed w)\<rparr>) | Inr h \<Rightarrow> Q h (w\<lparr>seed := Suc (seed w)\<rparr>))"
  by (simp add: bcrypt_hash_def wp_simps split: sum.split)

lemma keeps_bcrypt_hash [keeps_intros]: "(\<And>w n. f (w\<lparr>seed := n\<rparr>) = f w) \<Longrightarrow> keeps f (bcrypt_hash p)"
  unfolding bcrypt_hash_def by (intro keeps_intros; simp)

lemma logs_bcrypt_hash [log_intros]: "logs P (bcrypt_hash p)"
  unfolding bcrypt_hash_def by (intro log_intros; simp)

section \<open>Tasks as main wires them\<close>

text \<open>\<open>publishingTasks\<close> of cmd/boreas/main.go: every write publishes, whether it succeeded or not.\<close>

definition published :: "(world, 'a) io \<Rightarrow> (world, 'a) io" where
  "published m w = (case m w of (r, w') \<Rightarrow> (r, snd (publish_events w')))"

definition pub_tasks_create :: "task \<Rightarrow> (world, task) io" where
  "pub_tasks_create t = published (db_tasks_create t)"

definition pub_tasks_update :: "task \<Rightarrow> (world, task) io" where
  "pub_tasks_update t = published (db_tasks_update t)"

definition pub_set_build :: "uuid \<Rightarrow> build \<Rightarrow> (world, unit) io" where
  "pub_set_build i b = published (db_set_build i b)"

definition pub_tasks_delete :: "uuid \<Rightarrow> (world, unit) io" where
  "pub_tasks_delete i = published (db_tasks_delete i)"

lemma wp_published [wp_simps]: "wp (published m) Q E w =
    wp m (\<lambda>x w'. Q x (w'\<lparr>hub := Option.bind (hub w') publish\<rparr>)) (\<lambda>e w'. E e (w'\<lparr>hub := Option.bind (hub w') publish\<rparr>)) w"
  by (auto simp: wp_def published_def publish_events_def io_mod_def split: prod.splits sum.splits)

lemma keeps_published [keeps_intros]: "keeps f m \<Longrightarrow> (\<And>w h. f (w\<lparr>hub := h\<rparr>) = f w) \<Longrightarrow> keeps f (published m)"
  by (simp add: keeps_def published_def publish_events_def io_mod_def split: prod.splits) (metis snd_conv)

lemma logs_published [log_intros]: "logs P m \<Longrightarrow> logs P (published m)"
proof -
  have "dlog (snd (published m w)) = dlog (snd (m w))" "daemon (snd (published m w)) = daemon (snd (m w))" for w
    by (simp_all add: published_def publish_events_def io_mod_def split: prod.splits)
  then show "logs P m \<Longrightarrow> logs P (published m)" by (simp add: logs_def)
qed

lemma logs_notify [log_intros]: "logs P (notify n)" "logs P publish_events"
  unfolding notify_def publish_events_def by (intro log_intros; simp)+

section \<open>Object store\<close>

text \<open>
  \<open>Store.do\<close> of internal/infra/s3/s3.go, from the response on; a request that cannot be built,
  signed, sent or read is \<open>NoReply\<close> with the error's text.
\<close>

definition object_limit :: nat where
  "object_limit = 16777216"

definition s3_do :: "string \<Rightarrow> string \<Rightarrow> object_call \<Rightarrow> (world, string \<times> string) io" where
  "s3_do meth key c = io_bind (o_call c) (\<lambda>r. case r of
       NoReply e \<Rightarrow> fail (err_new (meth @ '' object '' @ key @ '': '' @ e))
     | HttpReply st ct body \<Rightarrow>
         if st = 404 then fail (err_sentinel ErrNotFound)
         else if st \<ge> 300 then fail (err_new (meth @ '' object '' @ key @ '': '' @ nat_str st))
         else ret (take object_limit body, ct))"

definition s3_put :: "string \<Rightarrow> string \<Rightarrow> string \<Rightarrow> (world, unit) io" where
  "s3_put key ct body = io_bind (s3_do ''PUT'' key (PutObject key ct body)) (\<lambda>_. ret ())"

definition s3_get :: "string \<Rightarrow> (world, string \<times> string) io" where
  "s3_get key = s3_do ''GET'' key (GetObject key)"

definition s3_delete :: "string \<Rightarrow> (world, unit) io" where
  "s3_delete key = io_bind (s3_do ''DELETE'' key (DeleteObject key)) (\<lambda>_. ret ())"

lemma keeps_s3 [keeps_intros]:
  "(\<And>w h. f (w\<lparr>olog := h\<rparr>) = f w) \<Longrightarrow> keeps f (s3_put k c b)"
  "(\<And>w h. f (w\<lparr>olog := h\<rparr>) = f w) \<Longrightarrow> keeps f (s3_get k)"
  "(\<And>w h. f (w\<lparr>olog := h\<rparr>) = f w) \<Longrightarrow> keeps f (s3_delete k)"
  unfolding s3_put_def s3_get_def s3_delete_def s3_do_def
  by (auto simp: keeps_def io_defs o_call_def Let_def split: http_reply.split)


section \<open>A world the witnesses run in\<close>

text \<open>A daemon that accepts every call: containers run at once, with one address.\<close>

definition demo_daemon :: daemon where
  "demo_daemon = \<lparr>d_error = (\<lambda>_. None), d_names = (\<lambda>_. []), d_pull = (\<lambda>_. []), d_id = (\<lambda>h. CHR ''c'' # nat_str (length h)),
     d_inspect = (\<lambda>h. \<lparr>if_id = ''c'', if_labels = None,
        if_state = Some \<lparr>is_running = True, is_restarting = False, is_status = ''running'', is_error = []\<rparr>,
        if_networks = Some [(''boreas-net'', Some ''10.0.0.2'')]\<rparr>),
     d_memory = (\<lambda>_. 0), d_dirs = (\<lambda>_. [])\<rparr>"

definition demo_world :: world where
  "demo_world = \<lparr>ext = demo_ext, now = 1000 * second, seed = 100, faults = [], users = [], tokens = [], credentials = [],
     projects = [], members = [], tasks = [], grants = [], notifications = [], seen = [], push = [],
     pairings = Map.empty, claimed = [], sites = Map.empty, hub = Some new_hub, outbox = [],
     daemon = demo_daemon, dlog = [], s3_on = False, objects = (\<lambda>_. HttpReply 200 [] []), olog = [],
     poster = (\<lambda>_. HttpReply 200 [] []), plog = [], publics = 0\<rparr>"

definition demo_user :: user where
  "demo_user = \<lparr>u_id = 7, u_username = ''ann'', u_email = ''ann@x'', u_hash = ''$password'', u_role = RoleUser,
     u_disabled = None, u_avatar = None, u_created = 0, u_updated = 0\<rparr>"

end
