(* ===== verification/Auth.thy ===== *)
theory Auth
  imports World
begin

text \<open>
  internal/service/auth_service.go: logins, sessions, device pairing, API tokens and users.
  One operation reads one clock: \<open>now\<close> moves between operations, not within one.
\<close>

section \<open>Operations\<close>

definition token_ttl :: int where "token_ttl = 30 * 24 * hour"
definition max_api_token_ttl :: int where "max_api_token_ttl = 90 * 24 * hour"
definition min_password_length :: nat where "min_password_length = 8"
definition pairing_ttl :: int where "pairing_ttl = 2 * minute"

definition unauthorized :: goerr where
  "unauthorized = err_sentinel ErrUnauthorized"

definition hash_token :: "string \<Rightarrow> (world, string) io" where
  "hash_token token = io_get (\<lambda>w. x_sha (ext w) token)"

definition zero_time :: time where
  "zero_time = -62135596800 * second"

definition new_token :: "uuid \<Rightarrow> token_kind \<Rightarrow> string \<Rightarrow> string \<Rightarrow> time \<Rightarrow> time \<Rightarrow> auth_token" where
  "new_token user kind name h a b = \<lparr>k_id = 0, k_user = user, k_name = name, k_kind = kind, k_hash = h, k_from = a,
     k_expires = b, k_revoked = None, k_created = zero_time\<rparr>"

definition auth_session :: "uuid \<Rightarrow> (world, string) io" where
  "auth_session user = io_bind rand_text (\<lambda>token. io_bind (io_get now) (\<lambda>t. io_bind (hash_token token) (\<lambda>h.
     io_bind (io_wrap ''persist token'' (db_tokens_create (new_token user TokenKindSession [] h t (t + token_ttl)))) (\<lambda>_.
     ret token))))"

text \<open>A missing row becomes \<open>ErrUnauthorized\<close>; any other error keeps its text under \<open>what\<close>.\<close>

definition or_unauthorized :: "string \<Rightarrow> (world, 'a) io \<Rightarrow> (world, 'a) io" where
  "or_unauthorized what m = io_bind (io_try m) (\<lambda>r. case r of
       Inr v \<Rightarrow> ret v
     | Inl e \<Rightarrow> fail (if err_is e ErrNotFound then unauthorized else err_wrap what e))"

definition auth_login :: "string \<Rightarrow> string \<Rightarrow> (world, string \<times> user) io" where
  "auth_login username password = io_bind (or_unauthorized ''lookup user'' (db_users_by_name username)) (\<lambda>u.
     if disabled u then fail unauthorized
     else io_bind (io_get (\<lambda>w. x_bcrypt_ok (ext w) (u_hash u) password)) (\<lambda>matches.
       if \<not> matches then fail unauthorized
       else io_bind (auth_session (u_id u)) (\<lambda>token. ret (token, u))))"

definition auth_start_pairing :: "user \<Rightarrow> (world, string \<times> time) io" where
  "auth_start_pairing u = io_bind rand_text (\<lambda>code. io_bind (io_get now) (\<lambda>t. io_bind (hash_token code) (\<lambda>h.
     io_bind (io_mod (\<lambda>w. w\<lparr>pairings := (\<lambda>k. case pairings w k of None \<Rightarrow> None
         | Some p \<Rightarrow> if pr_expires p < t then None else Some p)
       (h \<mapsto> \<lparr>pr_user = u_id u, pr_expires = t + pairing_ttl\<rparr>)\<rparr>)) (\<lambda>_. ret (code, t + pairing_ttl)))))"

text \<open>The watcher gets the pairing's channel, known by the hash of its code, and the expiry.\<close>

definition auth_watch_pairing :: "user \<Rightarrow> string \<Rightarrow> (world, string \<times> time) io" where
  "auth_watch_pairing u code = io_bind (hash_token code) (\<lambda>h. io_bind (io_get (\<lambda>w. (pairings w h, now w))) (\<lambda>(found, t).
     case found of None \<Rightarrow> fail (err_sentinel ErrNotFound)
       | Some p \<Rightarrow> if pr_user p \<noteq> u_id u \<or> pr_expires p < t then fail (err_sentinel ErrNotFound)
           else ret (h, pr_expires p)))"

definition auth_claim_pairing :: "string \<Rightarrow> (world, string \<times> user) io" where
  "auth_claim_pairing code = io_bind (hash_token code) (\<lambda>h. io_bind (io_get (\<lambda>w. (pairings w h, now w))) (\<lambda>(found, t).
     io_bind (io_mod (\<lambda>w. w\<lparr>pairings := (pairings w)(h := None)\<rparr>)) (\<lambda>_.
     case found of None \<Rightarrow> fail unauthorized
       | Some p \<Rightarrow> if pr_expires p < t then fail unauthorized
           else io_bind (or_unauthorized ''lookup pairing user'' (db_users_get (pr_user p))) (\<lambda>u.
             if disabled u then fail unauthorized
             else io_bind (auth_session (u_id u)) (\<lambda>token.
               io_bind (io_mod (\<lambda>w. w\<lparr>claimed := claimed w @ [h]\<rparr>)) (\<lambda>_. ret (token, u)))))))"

definition token_live :: "time \<Rightarrow> auth_token \<Rightarrow> bool" where
  "token_live t k \<longleftrightarrow> k_revoked k = None \<and> k_from k \<le> t \<and> t < k_expires k"

definition auth_authenticate :: "string \<Rightarrow> (world, user \<times> token_kind) io" where
  "auth_authenticate token = (if trim_space token = [] then fail unauthorized
     else io_bind (hash_token token) (\<lambda>h. io_bind (or_unauthorized ''lookup token'' (db_tokens_by_hash h)) (\<lambda>k.
       io_bind (io_get now) (\<lambda>t. if \<not> token_live t k then fail unauthorized
         else io_bind (or_unauthorized ''lookup token user'' (db_users_get (k_user k))) (\<lambda>u.
           if disabled u then fail unauthorized else ret (u, k_kind k))))))"

definition auth_logout :: "string \<Rightarrow> (world, unit) io" where
  "auth_logout token = io_bind (hash_token token) (\<lambda>h. io_wrap ''revoke token'' (db_tokens_revoke h))"

definition auth_create_api_token :: "uuid \<Rightarrow> string \<Rightarrow> time \<Rightarrow> time \<Rightarrow> (world, string \<times> auth_token) io" where
  "auth_create_api_token user raw_name valid_from valid_to = (let name = trim_space raw_name in
     if name = [] \<or> rune_count name > 100 then fail (err_invalid ''token name must be between 1 and 100 characters'')
     else if valid_from = zero_time \<or> valid_to = zero_time then fail (err_invalid ''valid_from and valid_to are required'')
     else if \<not> valid_from < valid_to then fail (err_invalid ''valid_from must be before valid_to'')
     else if valid_to - valid_from > max_api_token_ttl then fail (err_invalid ''API token validity must not exceed 90 days'')
     else io_bind (io_get now) (\<lambda>t. if \<not> t < valid_to then fail (err_invalid ''valid_to must be in the future'')
       else io_bind rand_text (\<lambda>raw. io_bind (hash_token raw) (\<lambda>h.
         io_bind (io_wrap ''persist API token'' (db_tokens_create (new_token user TokenKindAPI name h valid_from valid_to))) (\<lambda>k.
         ret (raw, k))))))"

definition auth_list_api_tokens :: "uuid \<Rightarrow> (world, auth_token list) io" where
  "auth_list_api_tokens user = io_wrap ''list API tokens'' (db_tokens_list_api user)"

definition auth_revoke_api_token :: "uuid \<Rightarrow> uuid \<Rightarrow> (world, unit) io" where
  "auth_revoke_api_token user i = io_wrap ''revoke API token'' (db_tokens_revoke_id user i)"

definition auth_list_users :: "(world, user list) io" where
  "auth_list_users = io_wrap ''list users'' db_users_list"

definition short_password :: goerr where
  "short_password = err_invalid (''password must be at least '' @ nat_str min_password_length @ '' characters'')"

definition hash_password :: "string \<Rightarrow> (world, string) io" where
  "hash_password password = io_wrap ''hash password'' (bcrypt_hash password)"

definition auth_create_user :: "string \<Rightarrow> string \<Rightarrow> string \<Rightarrow> user_role \<Rightarrow> (world, user) io" where
  "auth_create_user username email password in_role =
     (if trim_space username = [] then fail (err_invalid ''username is required'')
      else if trim_space email = [] then fail (err_invalid ''email is required'')
      else if length password < min_password_length then fail short_password
      else let role = (if in_role = OtherUserRole [] then RoleUser else in_role) in
        if role \<noteq> RoleAdmin \<and> role \<noteq> RoleUser then fail (err_invalid ''role must be admin or user'')
        else io_bind (hash_password password) (\<lambda>h.
          io_wrap ''create user'' (db_users_create \<lparr>u_id = 0, u_username = username, u_email = email, u_hash = h, u_role = role,
            u_disabled = None, u_avatar = None, u_created = zero_time, u_updated = zero_time\<rparr>)))"

record update_user_input =
  uu_email :: "string option"
  uu_password :: "string option"
  uu_role :: "user_role option"
  uu_disabled :: "bool option"

definition edit_email :: "string option \<Rightarrow> user \<Rightarrow> (world, user) io" where
  "edit_email i u = (case i of None \<Rightarrow> ret u
     | Some e \<Rightarrow> if trim_space e = [] then fail (err_invalid ''email must not be empty'') else ret (u\<lparr>u_email := e\<rparr>))"

definition edit_password :: "string option \<Rightarrow> user \<Rightarrow> (world, user) io" where
  "edit_password i u = (case i of None \<Rightarrow> ret u
     | Some p \<Rightarrow> if length p < min_password_length then fail short_password
         else io_bind (hash_password p) (\<lambda>h. ret (u\<lparr>u_hash := h\<rparr>)))"

definition edit_role :: "user_role option \<Rightarrow> user \<Rightarrow> (world, user) io" where
  "edit_role i u = (case i of None \<Rightarrow> ret u
     | Some r \<Rightarrow> if r \<noteq> RoleAdmin \<and> r \<noteq> RoleUser then fail (err_invalid ''role must be admin or user'')
         else ret (u\<lparr>u_role := r\<rparr>))"

definition edit_disabled :: "bool option \<Rightarrow> user \<Rightarrow> (world, user) io" where
  "edit_disabled i u = io_bind (io_get now) (\<lambda>t. ret (case i of None \<Rightarrow> u
     | Some d \<Rightarrow> if d \<and> u_disabled u = None then u\<lparr>u_disabled := Some t\<rparr>
         else if \<not> d then u\<lparr>u_disabled := None\<rparr> else u))"

definition revokes :: "update_user_input \<Rightarrow> bool" where
  "revokes i \<longleftrightarrow> uu_password i \<noteq> None \<or> uu_role i \<noteq> None \<or> uu_disabled i = Some True"

definition auth_update_user :: "uuid \<Rightarrow> update_user_input \<Rightarrow> (world, user) io" where
  "auth_update_user i inp = io_bind (io_wrap ''get user'' (db_users_get i)) (\<lambda>u0.
     io_bind (edit_email (uu_email inp) u0) (\<lambda>u1. io_bind (edit_password (uu_password inp) u1) (\<lambda>u2.
     io_bind (edit_role (uu_role inp) u2) (\<lambda>u3. io_bind (edit_disabled (uu_disabled inp) u3) (\<lambda>u4.
     io_bind (io_wrap ''update user'' (db_users_update u4)) (\<lambda>updated.
     if revokes inp then io_bind (io_wrap ''revoke user tokens'' (db_tokens_revoke_all (u_id updated))) (\<lambda>_. ret updated)
     else ret updated))))))"

definition avatar_key :: "uuid \<Rightarrow> (world, string) io" where
  "avatar_key i = io_get (\<lambda>w. ''avatars/'' @ x_uuid_str (ext w) i)"

definition auth_delete_user :: "uuid \<Rightarrow> (world, unit) io" where
  "auth_delete_user i = io_bind (io_wrap ''delete user'' (db_users_delete i)) (\<lambda>_.
     io_bind (io_get s3_on) (\<lambda>on. if on then io_bind (avatar_key i) (\<lambda>k. io_bind (io_try (s3_delete k)) (\<lambda>_. ret ()))
       else ret ()))"

definition image_types :: "string list" where
  "image_types = [''image/jpeg'', ''image/png'', ''image/webp'', ''image/gif'']"

definition auth_set_avatar :: "user \<Rightarrow> string \<Rightarrow> string \<Rightarrow> (world, user) io" where
  "auth_set_avatar actor mime body = io_bind (io_get s3_on) (\<lambda>on.
     if \<not> on then fail (err_sentinel ErrConflict)
     else if mime \<notin> set image_types then fail (err_invalid ''image must be JPEG, PNG, WebP or GIF'')
     else io_bind (avatar_key (u_id actor)) (\<lambda>k. io_bind (io_wrap ''store avatar'' (s3_put k mime body)) (\<lambda>_.
       io_wrap ''set avatar'' (db_users_set_avatar (u_id actor)))))"

definition auth_avatar :: "uuid \<Rightarrow> (world, string \<times> string) io" where
  "auth_avatar i = io_bind (io_get s3_on) (\<lambda>on. if \<not> on then fail (err_sentinel ErrNotFound)
     else io_bind (avatar_key i) (\<lambda>k. io_wrap ''get avatar'' (s3_get k)))"

definition auth_ensure_admin :: "string \<Rightarrow> string \<Rightarrow> string \<Rightarrow> (world, bool) io" where
  "auth_ensure_admin username email password = io_bind (io_wrap ''count users'' db_users_count) (\<lambda>n.
     if n > 0 then ret False
     else io_bind (auth_create_user username email password RoleAdmin) (\<lambda>_. ret True))"

text \<open>\<open>seedAdmin\<close> of cmd/boreas/main.go; \<open>None\<close> is a configuration without an administrator.\<close>

definition seed_admin :: "(string \<times> string \<times> string) option \<Rightarrow> (world, unit) io" where
  "seed_admin admin = (case admin of
       Some (username, email, password) \<Rightarrow> io_bind (auth_ensure_admin username email password) (\<lambda>_. ret ())
     | None \<Rightarrow> io_bind db_users_count (\<lambda>n. if n = 0 then fail (err_new (''no users exist: set BOREAS_ADMIN_USERNAME, '' @
          ''BOREAS_ADMIN_EMAIL, and BOREAS_ADMIN_PASSWORD to create the first administrator'')) else ret ()))"

section \<open>What the operations do\<close>

lemma or_unauthorized_ok: "or_unauthorized what m w = (Inr v, w') \<longleftrightarrow> m w = (Inr v, w')"
  by (cases "m w"; cases "fst (m w)") (auto simp: or_unauthorized_def io_defs)

lemma hash_token_ok: "hash_token s w = (Inr h, w') \<longleftrightarrow> h = x_sha (ext w) s \<and> w' = w"
  by (auto simp: hash_token_def run_ok)

lemma token_create_ok:
  assumes "db_tokens_create k w = (Inr k', w')"
  shows "\<exists>fs sd. k' = k\<lparr>k_id := k_id k', k_revoked := None, k_created := now w\<rparr> \<and>
    w' = w\<lparr>faults := fs, seed := sd, tokens := tokens w @ [k']\<rparr> \<and>
    \<not> rows_has k_hash (k_hash k) (tokens w) \<and> rows_has u_id (k_user k) (users w) \<and> k_from k < k_expires k \<and>
    (k_kind k = TokenKindAPI \<longrightarrow> k_expires k - k_from k \<le> ninety_days)"
proof -
  obtain fs where "io_bind fresh_id (\<lambda>i. io_bind (io_get now) (\<lambda>t. let row = k\<lparr>k_id := i, k_revoked := None, k_created := t\<rparr> in
       io_bind (constraint ''create token'' (token_checks row)) (\<lambda>_.
       io_bind (io_mod (\<lambda>w. w\<lparr>tokens := tokens w @ [row]\<rparr>)) (\<lambda>_. ret row)))) (w\<lparr>faults := fs\<rparr>) = (Inr k', w')"
    using db_call_ok [OF assms [unfolded db_tokens_create_def]] by blast
  then show ?thesis
    by (intro exI [of _ fs] exI [of _ "Suc (seed w)"])
      (auto simp: run_ok Let_def token_checks_def split: if_splits)
qed

lemma session_ok:
  assumes "auth_session i w = (Inr tok, w')"
  obtains row fs sd where "w' = w\<lparr>faults := fs, seed := sd, tokens := tokens w @ [row]\<rparr>"
    "k_hash row = x_sha (ext w) tok" "k_user row = i" "k_from row = now w" "k_expires row = now w + token_ttl"
    "k_revoked row = None" "k_kind row = TokenKindSession" "\<not> rows_has k_hash (k_hash row) (tokens w)"
    "rows_has u_id i (users w)"
proof -
  from assms obtain h k' where tok: "h = x_sha (ext w) tok"
    and c: "db_tokens_create (new_token i TokenKindSession [] h (now w) (now w + token_ttl)) (w\<lparr>seed := Suc (seed w)\<rparr>) = (Inr k', w')"
    by (auto simp: auth_session_def run_ok hash_token_ok)
  from token_create_ok [OF c] obtain fs sd where
    k: "k' = (new_token i TokenKindSession [] h (now w) (now w + token_ttl))\<lparr>k_id := k_id k', k_revoked := None, k_created := now w\<rparr>"
    and w: "w' = w\<lparr>faults := fs, seed := sd, tokens := tokens w @ [k']\<rparr>"
    and f: "\<not> rows_has k_hash h (tokens w)" "rows_has u_id i (users w)"
    by (auto simp: new_token_def)
  have "k_hash k' = h" "k_user k' = i" "k_from k' = now w" "k_expires k' = now w + token_ttl" "k_revoked k' = None"
    "k_kind k' = TokenKindSession"
    by (subst k, simp add: new_token_def)+
  with w f tok show ?thesis by (intro that [of k' sd fs]) simp_all
qed

lemma login_ok:
  assumes "auth_login name password w = (Inr (tok, u), w')"
  obtains fs where "u \<in> set (users w)" "\<not> disabled u" "x_bcrypt_ok (ext w) (u_hash u) password"
    "x_sql_lower (ext w) (u_username u) = x_sql_lower (ext w) name"
    "auth_session (u_id u) (w\<lparr>faults := fs\<rparr>) = (Inr tok, w')"
proof -
  from assms obtain w1 where "db_users_by_name name w = (Inr u, w1)" and rest: "\<not> disabled u"
    "x_bcrypt_ok (ext w1) (u_hash u) password" "auth_session (u_id u) w1 = (Inr tok, w')"
    by (auto simp: auth_login_def run_ok or_unauthorized_ok split: if_splits)
  from query_ok(1) [OF this(1) [unfolded db_users_by_name_def]] obtain fs where
    rows: "rows_with (\<lambda>u. x_sql_lower (ext w) (u_username u)) (x_sql_lower (ext w) name) (users w) = [u]"
    and w1: "w1 = w\<lparr>faults := fs\<rparr>" by auto
  from arg_cong [OF rows, of set] have "u \<in> set (users w)" "x_sql_lower (ext w) (u_username u) = x_sql_lower (ext w) name"
    by auto
  with rest w1 show ?thesis by (intro that) simp_all
qed

lemma authenticate_ok_iff:
  assumes "faults w = []"
  shows "auth_authenticate tok w = (Inr (u, kind), w') \<longleftrightarrow> w' = w \<and> trim_space tok \<noteq> [] \<and>
    (\<exists>k. rows_with k_hash (x_sha (ext w) tok) (tokens w) = [k] \<and> token_live (now w) k \<and>
       rows_with u_id (k_user k) (users w) = [u] \<and> \<not> disabled u \<and> kind = k_kind k)"
  using assms by (auto simp: auth_authenticate_def run_ok or_unauthorized_ok hash_token_ok db_tokens_by_hash_def
      db_users_get_def query_one_def db_call_healthy split: if_splits)

lemma authenticate_cases:
  assumes "faults w = []" "unique_key k_hash (tokens w)" "unique_key u_id (users w)"
  shows "auth_authenticate tok w = (Inl unauthorized, w) \<or> (\<exists>u kind. auth_authenticate tok w = (Inr (u, kind), w))"
proof -
  note one = rows_opt [OF assms(2)] rows_opt [OF assms(3)]
  show ?thesis
    using one(1) [of "x_sha (ext w) tok"] assms(1)
  proof (elim disjE exE)
    assume "rows_with k_hash (x_sha (ext w) tok) (tokens w) = []"
    then show ?thesis using assms(1)
      by (auto simp: auth_authenticate_def io_defs hash_token_def or_unauthorized_def db_tokens_by_hash_def query_one_fail)
  next
    fix k assume "rows_with k_hash (x_sha (ext w) tok) (tokens w) = [k]"
    then show ?thesis using assms(1) one(2) [of "k_user k"]
      by (auto simp: auth_authenticate_def io_defs hash_token_def or_unauthorized_def db_tokens_by_hash_def db_users_get_def
          query_one_fail split: if_splits)
  qed
qed

text \<open>
  C1: A login gives a token that authenticates its user for exactly thirty days: on a store that
  answers, at any later instant the token authenticates as a session of that user from now until
  now + 30 days, and is unauthorized at every other instant. Only the token's hash is stored.
\<close>

theorem login_authenticates:
  assumes "faults w' = []" "unique_key u_id (users w)" "unique_key k_hash (tokens w)"
    "auth_login name password w = (Inr (tok, u), w')" "trim_space tok \<noteq> []"
  shows "(\<exists>k. tokens w' = tokens w @ [k] \<and> k_hash k = x_sha (ext w) tok) \<and>
    auth_authenticate tok (w'\<lparr>now := t\<rparr>) =
      (if now w \<le> t \<and> t < now w + 30 * 24 * hour then Inr (u, TokenKindSession) else Inl unauthorized, w'\<lparr>now := t\<rparr>)"
proof -
  obtain fs where u: "u \<in> set (users w)" "\<not> disabled u" and s: "auth_session (u_id u) (w\<lparr>faults := fs\<rparr>) = (Inr tok, w')"
    using assms(4) by (rule login_ok)
  obtain k fs' sd where w': "w' = w\<lparr>faults := fs', seed := sd, tokens := tokens w @ [k]\<rparr>"
    and k: "k_hash k = x_sha (ext w) tok" "k_user k = u_id u" "k_from k = now w" "k_expires k = now w + token_ttl"
      "k_revoked k = None" "k_kind k = TokenKindSession" and fresh: "\<not> rows_has k_hash (k_hash k) (tokens w)"
    using s by (rule session_ok) simp
  have krow: "rows_with k_hash (x_sha (ext w) tok) (tokens w') = [k]"
    using fresh k(1) by (simp add: w' tokens_tab.find_add rows_with_nil_iff)
  have "rows_with u_id (u_id u) (users w) = [u]"
    using assms(2) u(1) by (rule rows_mem)
  then have urow: "rows_with u_id (k_user k) (users w') = [u]" by (simp add: w' k(2))
  have live: "token_live t k \<longleftrightarrow> now w \<le> t \<and> t < now w + 30 * 24 * hour"
    using k by (simp add: token_live_def token_ttl_def)
  have ok: "auth_authenticate tok (w'\<lparr>now := t\<rparr>) = (Inr (v, kind), w'') \<longleftrightarrow>
      w'' = w'\<lparr>now := t\<rparr> \<and> token_live t k \<and> v = u \<and> kind = TokenKindSession" for v kind w''
    using assms(1,5) krow urow u(2) k(6) w' by (subst authenticate_ok_iff) auto
  have "unique_key k_hash (tokens w')" using assms(3) fresh tokens_tab.ok_add
    by (simp add: w' rows_with_nil_iff)
  then have "auth_authenticate tok (w'\<lparr>now := t\<rparr>) = (Inl unauthorized, w'\<lparr>now := t\<rparr>) \<or>
      (\<exists>u kind. auth_authenticate tok (w'\<lparr>now := t\<rparr>) = (Inr (u, kind), w'\<lparr>now := t\<rparr>))"
    using assms(1,2) by (intro authenticate_cases) (simp_all add: w')
  then have "auth_authenticate tok (w'\<lparr>now := t\<rparr>) =
      (if token_live t k then Inr (u, TokenKindSession) else Inl unauthorized, w'\<lparr>now := t\<rparr>)"
    using ok by (cases "token_live t k") auto
  then have "auth_authenticate tok (w'\<lparr>now := t\<rparr>) =
      (if now w \<le> t \<and> t < now w + 30 * 24 * hour then Inr (u, TokenKindSession) else Inl unauthorized, w'\<lparr>now := t\<rparr>)"
    unfolding live .
  with k(1) w' show ?thesis by auto
qed


definition demo_auth :: world where
  "demo_auth = demo_world\<lparr>users := [demo_user]\<rparr>"

lemma demo_login: "case auth_login ''ann'' ''password'' demo_auth of
    (Inr (tok, u), w') \<Rightarrow> tok = ''R100'' \<and> faults w' = [] \<and> now w' = 1000 * second | _ \<Rightarrow> False"
  by code_simp

theorem login_authenticates_witness:
  "\<exists>u w'. auth_login ''ann'' ''password'' demo_auth = (Inr (''R100'', u), w') \<and>
     fst (auth_authenticate ''R100'' (w'\<lparr>now := 1000 * second + 29 * 24 * hour\<rparr>)) = Inr (u, TokenKindSession)"
proof -
  obtain u w' where w': "auth_login ''ann'' ''password'' demo_auth = (Inr (''R100'', u), w')" "faults w' = []"
    using demo_login by (auto split: prod.splits sum.splits)
  have "trim_space ''R100'' \<noteq> []" by code_simp
  moreover have "unique_key u_id (users demo_auth)" "unique_key k_hash (tokens demo_auth)" "now demo_auth = 1000 * second"
    by (simp_all add: unique_key_def demo_auth_def demo_world_def)
  ultimately show ?thesis
    using login_authenticates [OF w'(2) _ _ w'(1), of "1000 * second + 29 * 24 * hour"] w'(1)
    by (intro exI [of _ u] exI [of _ w']) (simp add: second_def hour_def minute_def)
qed

section \<open>Changing a user\<close>

lemma keeps_hash_token [keeps_intros]: "keeps f (hash_token s)"
  unfolding hash_token_def by (intro keeps_intros)

lemma keeps_or_unauthorized [keeps_intros]: "keeps f m \<Longrightarrow> keeps f (or_unauthorized what m)"
  unfolding or_unauthorized_def by (intro keeps_intros)

lemma authenticated_token:
  assumes "auth_authenticate tok w = (Inr (u, kind), w')"
  shows "\<exists>k \<in> set (tokens w). k_hash k = x_sha (ext w) tok \<and> k_user k = u_id u \<and> token_live (now w) k \<and> kind = k_kind k \<and>
     u \<in> set (users w) \<and> \<not> disabled u"
proof -
  from assms obtain k w1 w2 where k: "db_tokens_by_hash (x_sha (ext w) tok) w = (Inr k, w1)" "token_live (now w1) k"
    "db_users_get (k_user k) w1 = (Inr u, w2)" "\<not> disabled u" "kind = k_kind k"
    by (auto simp: auth_authenticate_def run_ok or_unauthorized_ok hash_token_ok split: if_splits)
  from query_ok(1) [OF k(1) [unfolded db_tokens_by_hash_def]] obtain fs where
    rk: "rows_with k_hash (x_sha (ext w) tok) (tokens w) = [k]" and w1: "w1 = w\<lparr>faults := fs\<rparr>" by auto
  from query_ok(1) [OF k(3) [unfolded db_users_get_def]] have
    ru: "rows_with u_id (k_user k) (users w) = [u]" using w1 by auto
  have "k \<in> set (rows_with k_hash (x_sha (ext w) tok) (tokens w))" "u \<in> set (rows_with u_id (k_user k) (users w))"
    using rk ru by simp_all
  with k w1 show ?thesis by auto
qed

lemma users_update_ok:
  assumes "db_users_update u w = (Inr v, w')"
  shows "u_id v = u_id u \<and> (\<exists>fs. w' = w\<lparr>faults := fs, users := rows_upd u_id (u_id u) (user_write u (now w)) (users w)\<rparr>)"
proof -
  obtain fs where "io_bind (io_get (\<lambda>w. rows_with u_id (u_id u) (users w))) (\<lambda>rows.
     io_bind (one ''update user'' rows) (\<lambda>old. io_bind (constraint ''update user'' (user_checks ''update user'' u)) (\<lambda>_.
     io_bind (io_get now) (\<lambda>t.
     io_bind (io_mod (\<lambda>w. w\<lparr>users := rows_upd u_id (u_id u) (user_write u t) (users w)\<rparr>)) (\<lambda>_.
     ret (user_write u t old)))))) (w\<lparr>faults := fs\<rparr>) = (Inr v, w')"
    using db_call_ok [OF assms [unfolded db_users_update_def]] by blast
  then obtain old where "rows_with u_id (u_id u) (users w) = [old]" "v = user_write u (now w) old"
    "w' = w\<lparr>faults := fs, users := rows_upd u_id (u_id u) (user_write u (now w)) (users w)\<rparr>"
    by (auto simp: run_ok)
  moreover have "u_id old = u_id u"
    using arg_cong [OF calculation(1), of set] by auto
  ultimately show ?thesis by (auto simp: user_write_def)
qed

lemma bcrypt_hash_ok: "bcrypt_hash p w = (Inr h, w') \<Longrightarrow> w' = w\<lparr>seed := Suc (seed w)\<rparr>"
  by (auto simp: bcrypt_hash_def run_ok)

lemma edit_ok: "edit_email e u w = (Inr v, w') \<Longrightarrow> u_id v = u_id u \<and> w' = w"
  "edit_password p u w = (Inr v, w') \<Longrightarrow> u_id v = u_id u \<and> (\<exists>sd. w' = w\<lparr>seed := sd\<rparr>)"
  "edit_role r u w = (Inr v, w') \<Longrightarrow> u_id v = u_id u \<and> w' = w"
  "edit_disabled d u w = (Inr v, w') \<Longrightarrow> u_id v = u_id u \<and> w' = w"
proof -
  show "edit_password p u w = (Inr v, w') \<Longrightarrow> u_id v = u_id u \<and> (\<exists>sd. w' = w\<lparr>seed := sd\<rparr>)"
    by (auto simp: edit_password_def run_ok hash_password_def intro: exI [of _ "seed w"] dest!: bcrypt_hash_ok split: option.splits if_splits)
qed (auto simp: edit_email_def edit_role_def edit_disabled_def run_ok split: option.splits if_splits)

lemma revoke_now_simps [simp]: "k_id (revoke_now t k) = k_id k" "k_user (revoke_now t k) = k_user k"
  "k_hash (revoke_now t k) = k_hash k" "k_kind (revoke_now t k) = k_kind k" "k_from (revoke_now t k) = k_from k"
  "k_expires (revoke_now t k) = k_expires k" "k_revoked (revoke_now t k) \<noteq> None"
  by (auto simp: revoke_now_def split: option.split)

text \<open>
  C2: After a change of password, role or a disabling succeeds, no token issued before works: every
  token of the user is revoked, none is lost or made, other users' tokens are as they were, and at
  no later instant does any token authenticate as that user.
\<close>

theorem update_user_revokes:
  assumes "auth_update_user i inp w = (Inr u, w')"
    "uu_password inp \<noteq> None \<or> uu_role inp \<noteq> None \<or> uu_disabled inp = Some True"
  shows "u_id u = i \<and> (\<forall>k \<in> set (tokens w'). k_user k = i \<longrightarrow> k_revoked k \<noteq> None) \<and>
    map k_hash (tokens w') = map k_hash (tokens w) \<and>
    filter (\<lambda>k. k_user k \<noteq> i) (tokens w') = filter (\<lambda>k. k_user k \<noteq> i) (tokens w) \<and>
    (\<forall>tok t v kind w''. auth_authenticate tok (w'\<lparr>now := t\<rparr>) = (Inr (v, kind), w'') \<longrightarrow> u_id v \<noteq> i)"
proof -
  from assms obtain u0 u1 u2 u3 u4 w1 wa wb wc wd w2 where steps: "db_users_get i w = (Inr u0, w1)"
    "edit_email (uu_email inp) u0 w1 = (Inr u1, wa)" "edit_password (uu_password inp) u1 wa = (Inr u2, wb)"
    "edit_role (uu_role inp) u2 wb = (Inr u3, wc)" "edit_disabled (uu_disabled inp) u3 wc = (Inr u4, wd)"
    "db_users_update u4 wd = (Inr u, w2)" "db_tokens_revoke_all (u_id u) w2 = (Inr (), w')"
    by (auto simp: auth_update_user_def run_ok revokes_def split: if_splits)
  from query_ok(1) [OF steps(1) [unfolded db_users_get_def]] obtain fs where
    "rows_with u_id i (users w) = [u0]" and w1: "w1 = w\<lparr>faults := fs\<rparr>" by auto
  from arg_cong [OF this(1), of set] have "u_id u0 = i" by auto
  with edit_ok(1) [OF steps(2)] edit_ok(2) [OF steps(3)] edit_ok(3) [OF steps(4)] edit_ok(4) [OF steps(5)]
  obtain sd where "u_id u4 = i" "wd = w1\<lparr>seed := sd\<rparr>" by auto
  with users_update_ok [OF steps(6)] have id: "u_id u = i" and tok2: "tokens w2 = tokens w" using w1 by auto
  from exec_any_ok [OF steps(7) [unfolded db_tokens_revoke_all_def]] have
    toks: "tokens w' = rows_upd k_user i (revoke_now (now w2)) (tokens w)" using tok2 id by auto
  have revoked: "\<forall>k \<in> set (tokens w'). k_user k = i \<longrightarrow> k_revoked k \<noteq> None"
    by (simp add: toks set_rows_upd ball_Un del: not_None_eq)
  moreover have "filter (\<lambda>k. k_user k \<noteq> i) (tokens w') = filter (\<lambda>k. k_user k \<noteq> i) (tokens w)"
    unfolding toks by (rule filter_rows_upd) simp
  moreover have "u_id v \<noteq> i" if "auth_authenticate tok (w'\<lparr>now := t\<rparr>) = (Inr (v, kind), w'')" for tok t v kind w''
    using authenticated_token [OF that] revoked by (auto simp: token_live_def)
  ultimately show ?thesis using id by (auto simp: toks map_rows_upd)
qed


definition demo_edit :: update_user_input where
  "demo_edit = \<lparr>uu_email = None, uu_password = None, uu_role = None, uu_disabled = Some True\<rparr>"

definition demo_session :: auth_token where
  "demo_session = (new_token 7 TokenKindSession [] ''#tok'' 0 (10000 * second))\<lparr>k_id := 3\<rparr>"

lemma demo_update: "case auth_update_user 7 demo_edit (demo_auth\<lparr>tokens := [demo_session]\<rparr>) of
    (Inr u, w') \<Rightarrow> length (tokens w') = 1 | _ \<Rightarrow> False"
  by code_simp

theorem update_user_revokes_witness:
  "\<exists>u w'. auth_update_user 7 demo_edit (demo_auth\<lparr>tokens := [demo_session]\<rparr>) = (Inr u, w') \<and> length (tokens w') = 1 \<and>
     (\<forall>k \<in> set (tokens w'). k_user k = 7 \<longrightarrow> k_revoked k \<noteq> None)"
proof -
  obtain u w' where w': "auth_update_user 7 demo_edit (demo_auth\<lparr>tokens := [demo_session]\<rparr>) = (Inr u, w')" "length (tokens w') = 1"
    using demo_update by (auto split: prod.splits sum.splits)
  from update_user_revokes [OF w'(1)] w' show ?thesis by (simp add: demo_edit_def)
qed

section \<open>Pairing\<close>

lemma claim_forgets: "snd (auth_claim_pairing code w) = w' \<Longrightarrow> pairings w' (x_sha (ext w) code) = None \<and> ext w' = ext w"
proof -
  assume w': "snd (auth_claim_pairing code w) = w'"
  define h where "h = x_sha (ext w) code"
  define tail where "tail = (\<lambda>(found :: pairing option, t :: time). case found of None \<Rightarrow> fail unauthorized
       | Some p \<Rightarrow> if pr_expires p < t then fail unauthorized
           else io_bind (or_unauthorized ''lookup pairing user'' (db_users_get (pr_user p))) (\<lambda>u.
             if disabled u then fail unauthorized
             else io_bind (auth_session (u_id u)) (\<lambda>token.
               io_bind (io_mod (\<lambda>w. w\<lparr>claimed := claimed w @ [h]\<rparr>)) (\<lambda>_. ret (token, u)))))"
  have run: "auth_claim_pairing code w = tail (pairings w h, now w) (w\<lparr>pairings := (pairings w)(h := None)\<rparr>)"
    unfolding tail_def h_def by (simp add: auth_claim_pairing_def io_bind_def hash_token_def io_get_def io_mod_def)
  have session: "keeps pairings (auth_session i)" "keeps ext (auth_session i)" for i
    unfolding auth_session_def by (intro keeps_intros outside_world db_outside; simp)+
  have "keeps pairings (tail p)" "keeps ext (tail p)" for p
    unfolding tail_def by (intro keeps_intros keeps_mod session outside_world db_outside; simp)+
  moreover have "w' = snd (tail (pairings w h, now w) (w\<lparr>pairings := (pairings w)(h := None)\<rparr>))"
    using w' run by simp
  ultimately have "pairings w' = (pairings w)(h := None)" "ext w' = ext w"
    by (simp_all add: keeps_def)
  then show ?thesis by (simp add: h_def)
qed

lemma claim_unknown: "pairings w (x_sha (ext w) code) = None \<Longrightarrow> \<exists>w'. auth_claim_pairing code w = (Inl unauthorized, w')"
  by (simp add: auth_claim_pairing_def io_bind_def hash_token_def io_get_def io_mod_def fail_def)

text \<open>
  C13: A pairing code works once. Whatever the outcome of claiming it, claiming it again is
  unauthorized at any later time; and a claim that succeeds had a pairing that had not expired, and
  signs in the user who started it, who is not disabled.
\<close>

theorem pairing_once:
  assumes "auth_claim_pairing code w = (r, w')"
  shows "fst (auth_claim_pairing code (w'\<lparr>now := t\<rparr>)) = Inl unauthorized \<and>
    (\<forall>tok u. r = Inr (tok, u) \<longrightarrow> (\<exists>p. pairings w (x_sha (ext w) code) = Some p \<and> pr_user p = u_id u \<and>
       now w \<le> pr_expires p \<and> u \<in> set (users w) \<and> \<not> disabled u))"
proof
  have "pairings w' (x_sha (ext w) code) = None \<and> ext w' = ext w"
    using claim_forgets assms by (metis snd_conv)
  then have "pairings (w'\<lparr>now := t\<rparr>) (x_sha (ext (w'\<lparr>now := t\<rparr>)) code) = None" by simp
  from claim_unknown [OF this] show "fst (auth_claim_pairing code (w'\<lparr>now := t\<rparr>)) = Inl unauthorized" by auto
next
  show "\<forall>tok u. r = Inr (tok, u) \<longrightarrow> (\<exists>p. pairings w (x_sha (ext w) code) = Some p \<and> pr_user p = u_id u \<and>
       now w \<le> pr_expires p \<and> u \<in> set (users w) \<and> \<not> disabled u)"
  proof (intro allI impI)
    fix tok u assume "r = Inr (tok, u)"
    with assms obtain p w1 where p: "pairings w (x_sha (ext w) code) = Some p" "\<not> pr_expires p < now w" "\<not> disabled u"
      and u: "db_users_get (pr_user p) (w\<lparr>pairings := (pairings w)(x_sha (ext w) code := None)\<rparr>) = (Inr u, w1)"
      by (auto simp: auth_claim_pairing_def run_ok hash_token_ok or_unauthorized_ok split: option.splits if_splits)
    from query_ok(1) [OF u [unfolded db_users_get_def]] have "rows_with u_id (pr_user p) (users w) = [u]" by auto
    from arg_cong [OF this, of set] have "u_id u = pr_user p" "u \<in> set (users w)" by auto
    with p show "\<exists>p. pairings w (x_sha (ext w) code) = Some p \<and> pr_user p = u_id u \<and>
       now w \<le> pr_expires p \<and> u \<in> set (users w) \<and> \<not> disabled u" by auto
  qed
qed

definition demo_paired :: world where
  "demo_paired = demo_auth\<lparr>pairings := [''#code'' \<mapsto> \<lparr>pr_user = 7, pr_expires = 1060 * second\<rparr>]\<rparr>"

lemma demo_claim: "case auth_claim_pairing ''code'' demo_paired of (Inr (tok, u), w') \<Rightarrow> u_id u = 7 | _ \<Rightarrow> False"
  by code_simp

theorem pairing_once_witness:
  "\<exists>tok u w'. auth_claim_pairing ''code'' demo_paired = (Inr (tok, u), w') \<and> u_id u = 7 \<and>
     fst (auth_claim_pairing ''code'' (w'\<lparr>now := 1001 * second\<rparr>)) = Inl unauthorized"
proof -
  obtain tok u w' where w': "auth_claim_pairing ''code'' demo_paired = (Inr (tok, u), w')" "u_id u = 7"
    using demo_claim by (auto split: prod.splits sum.splits)
  with pairing_once [OF w'(1), of "1001 * second"] show ?thesis by blast
qed

section \<open>The accounts stay well formed\<close>

definition accounts_ok :: "world \<Rightarrow> bool" where
  "accounts_ok w \<longleftrightarrow> unique_key u_id (users w) \<and>
     unique_key (\<lambda>u. x_sql_lower (ext w) (u_username u)) (users w) \<and>
     unique_key (\<lambda>u. x_sql_lower (ext w) (u_email u)) (users w) \<and>
     (\<forall>u \<in> set (users w). user_role_ok (u_role u)) \<and>
     unique_key k_id (tokens w) \<and> unique_key k_hash (tokens w) \<and>
     (\<forall>k \<in> set (tokens w). rows_has u_id (k_user k) (users w) \<and> k_from k < k_expires k \<and>
        (k_kind k = TokenKindAPI \<longrightarrow> k_expires k - k_from k \<le> ninety_days))"

definition accounts :: "world \<Rightarrow> ext \<times> user list \<times> auth_token list" where
  "accounts w = (ext w, users w, tokens w)"

lemma accounts_frame: "accounts w' = accounts w \<Longrightarrow> accounts_ok w \<Longrightarrow> accounts_ok w'"
  by (simp add: accounts_def accounts_ok_def)

lemma accounts_simps [simp]: "accounts (w\<lparr>faults := fs\<rparr>) = accounts w" "accounts (w\<lparr>seed := n\<rparr>) = accounts w"
  "accounts (w\<lparr>pairings := ps\<rparr>) = accounts w" "accounts (w\<lparr>claimed := cl\<rparr>) = accounts w"
  "accounts (w\<lparr>olog := ol\<rparr>) = accounts w" "accounts (w\<lparr>now := t\<rparr>) = accounts w"
  by (simp_all add: accounts_def)

lemma keeps_accounts: "keeps accounts m \<Longrightarrow> preserves accounts_ok m"
  by (rule preserves_keeps [where f = accounts]) (auto intro: accounts_frame)

lemma accounts_faults: "accounts_ok w \<Longrightarrow> accounts_ok (w\<lparr>faults := fs\<rparr>)"
  by (rule accounts_frame) simp_all

lemma accounts_create_user: "preserves accounts_ok (db_users_create u)"
  unfolding db_users_create_def
  by (intro preserves_db_call accounts_faults)
    (auto simp: preserves_wp wp_simps Let_def user_checks_def violated_None accounts_ok_def unique_key_append
      rows_has_iff image_iff rows_del_def split: option.split if_splits; metis)

lemma accounts_update_user: "preserves accounts_ok (db_users_update u)"
  unfolding db_users_update_def
proof (intro preserves_db_call accounts_faults; (simp add: preserves_wp wp_simps split: option.split list.split)?; intro allI impI)
  fix w v va assume ok: "accounts_ok w" and v: "violated (user_checks ''update user'' u w) = None"
  let ?us = "rows_upd u_id (u_id u) (user_write u (now w)) (users w)"
  have keys: "\<And>r. u_username (user_write u (now w) r) = u_username u" "\<And>r. u_email (user_write u (now w) r) = u_email u"
    "\<And>r. u_role (user_write u (now w) r) = u_role u" "\<And>r. u_id (user_write u (now w) r) = u_id r"
    by (simp_all add: user_write_def)
  have free: "\<not> rows_has (\<lambda>r. x_sql_lower (ext w) (u_username r)) (x_sql_lower (ext w) (u_username u)) (rows_del u_id (u_id u) (users w))"
    "\<not> rows_has (\<lambda>r. x_sql_lower (ext w) (u_email r)) (x_sql_lower (ext w) (u_email u)) (rows_del u_id (u_id u) (users w))"
    "user_role_ok (u_role u)"
    using v by (auto simp: user_checks_def Let_def split: if_splits)
  have "unique_key u_id ?us"
    using ok keys by (intro unique_key_upd) (auto simp: accounts_ok_def)
  moreover have "unique_key (\<lambda>r. x_sql_lower (ext w) (u_username r)) ?us"
    using ok free(1) by (intro unique_key_write [where pk = u_id]) (auto simp: accounts_ok_def keys)
  moreover have "unique_key (\<lambda>r. x_sql_lower (ext w) (u_email r)) ?us"
    using ok free(2) by (intro unique_key_write [where pk = u_id]) (auto simp: accounts_ok_def keys)
  moreover have "\<forall>r \<in> set ?us. user_role_ok (u_role r)"
    using ok free(3) by (auto simp: set_rows_upd accounts_ok_def keys)
  moreover have "rows_has u_id i ?us \<longleftrightarrow> rows_has u_id i (users w)" for i
    using keys by (intro rows_has_upd)
  ultimately show "accounts_ok (w\<lparr>users := ?us\<rparr>)" using ok by (simp add: accounts_ok_def)
qed

lemma accounts_set_avatar: "preserves accounts_ok (db_users_set_avatar i)"
proof -
  let ?g = "\<lambda>t u. u\<lparr>u_avatar := Some t, u_updated := t\<rparr>"
  have "accounts_ok (w\<lparr>users := rows_upd u_id i (?g t) (users w)\<rparr>)" if ok: "accounts_ok w" for w t
  proof -
    have same: "map f (rows_upd u_id i (?g t) (users w)) = map f (users w)" if "\<And>r. f (?g t r) = f r" for f :: "user \<Rightarrow> 'z"
      by (rule map_rows_upd) (rule that)
    have "rows_has u_id j (rows_upd u_id i (?g t) (users w)) \<longleftrightarrow> rows_has u_id j (users w)" for j
      by (intro rows_has_upd) simp
    with ok show ?thesis by (auto simp: accounts_ok_def unique_key_def same set_rows_upd)
  qed
  then show ?thesis
    unfolding db_users_set_avatar_def
    by (intro preserves_db_call preserves_rules preserves_mod accounts_faults)
      (auto intro: keeps_accounts keeps_one)
qed

lemma accounts_delete_user: "preserves accounts_ok (db_users_delete i)"
  unfolding db_users_delete_def
proof (intro preserves_exec accounts_faults)
  fix w assume ok: "accounts_ok w"
  have "rows_has u_id j (rows_del u_id i (users w)) \<longleftrightarrow> j \<noteq> i \<and> rows_has u_id j (users w)" for j
    by (auto simp: rows_has_iff)
  with ok show "accounts_ok (user_cascade i w)"
    by (auto simp: accounts_ok_def user_cascade_def unique_key_del)
qed

lemma accounts_create_token: "preserves accounts_ok (db_tokens_create k)"
  unfolding db_tokens_create_def
  by (intro preserves_db_call accounts_faults)
    (auto simp: preserves_wp wp_simps Let_def token_checks_def accounts_ok_def unique_key_append
      split: option.split if_splits)

lemma accounts_revoke:
  assumes "accounts_ok w" "\<And>k. k_id (g k) = k_id k \<and> k_hash (g k) = k_hash k \<and> k_user (g k) = k_user k \<and>
      k_from (g k) = k_from k \<and> k_expires (g k) = k_expires k \<and> k_kind (g k) = k_kind k"
  shows "accounts_ok (w\<lparr>tokens := map g (tokens w)\<rparr>)"
  using assms by (auto simp: accounts_ok_def unique_key_def o_def)

lemma accounts_revokes: "preserves accounts_ok (db_tokens_revoke h)" "preserves accounts_ok (db_tokens_revoke_all i)"
  "preserves accounts_ok (db_tokens_revoke_id i j)"
  unfolding db_tokens_revoke_def db_tokens_revoke_all_def db_tokens_revoke_id_def rows_upd_def
  by (intro preserves_exec accounts_faults accounts_revoke; simp)+

lemma accounts_reads: "preserves accounts_ok db_users_list" "preserves accounts_ok (db_users_get i)"
  "preserves accounts_ok (db_users_by_name s)" "preserves accounts_ok db_users_count"
  "preserves accounts_ok (db_tokens_list_api i)" "preserves accounts_ok (db_tokens_by_hash s)"
  "preserves accounts_ok rand_text" "preserves accounts_ok (hash_token s)" "preserves accounts_ok (s3_put ky ct body)"
  "preserves accounts_ok (s3_delete ky)" "preserves accounts_ok (avatar_key i)" "preserves accounts_ok (hash_password s)"
  "preserves accounts_ok (edit_email e u)" "preserves accounts_ok (edit_password pw u)" "preserves accounts_ok (edit_role r u)"
  "preserves accounts_ok (edit_disabled d u)"
  unfolding db_users_list_def db_users_get_def db_users_by_name_def db_users_count_def db_tokens_list_api_def
    db_tokens_by_hash_def avatar_key_def hash_password_def edit_email_def edit_password_def edit_role_def edit_disabled_def
  by (intro keeps_accounts keeps_intros; simp)+

lemmas accounts_ops = accounts_create_user accounts_update_user accounts_set_avatar accounts_delete_user
  accounts_create_token accounts_revokes accounts_reads

datatype auth_op = Login string string | StartPairing user | ClaimPairing string | Logout string
  | CreateApiToken uuid string time time | RevokeApiToken uuid uuid | CreateUser string string string user_role
  | UpdateUser uuid update_user_input | DeleteUser uuid | SetAvatar user string string
  | EnsureAdmin string string string | TimePasses int

fun auth_step :: "auth_op \<Rightarrow> world \<Rightarrow> world" where
  "auth_step (Login n p) w = snd (auth_login n p w)"
| "auth_step (StartPairing u) w = snd (auth_start_pairing u w)"
| "auth_step (ClaimPairing c) w = snd (auth_claim_pairing c w)"
| "auth_step (Logout t) w = snd (auth_logout t w)"
| "auth_step (CreateApiToken u n a b) w = snd (auth_create_api_token u n a b w)"
| "auth_step (RevokeApiToken u i) w = snd (auth_revoke_api_token u i w)"
| "auth_step (CreateUser n e p r) w = snd (auth_create_user n e p r w)"
| "auth_step (UpdateUser i inp) w = snd (auth_update_user i inp w)"
| "auth_step (DeleteUser i) w = snd (auth_delete_user i w)"
| "auth_step (SetAvatar u m b) w = snd (auth_set_avatar u m b w)"
| "auth_step (EnsureAdmin n e p) w = snd (auth_ensure_admin n e p w)"
| "auth_step (TimePasses d) w = w\<lparr>now := now w + d\<rparr>"

lemma accounts_composed: "preserves accounts_ok m \<Longrightarrow> preserves accounts_ok (or_unauthorized what m)"
  "preserves accounts_ok (auth_session i)"
  unfolding or_unauthorized_def auth_session_def by (intro preserves_rules accounts_ops; assumption?)+

lemma accounts_mod: "preserves accounts_ok (io_mod (\<lambda>w. w\<lparr>pairings := f w\<rparr>))" "preserves accounts_ok (io_mod (\<lambda>w. w\<lparr>claimed := g w\<rparr>))"
  by (intro keeps_accounts keeps_mod; simp)+

lemma accounts_auth: "preserves accounts_ok (auth_login n p)" "preserves accounts_ok (auth_start_pairing u)"
  "preserves accounts_ok (auth_claim_pairing c)" "preserves accounts_ok (auth_logout c)"
  "preserves accounts_ok (auth_create_api_token i n a b)" "preserves accounts_ok (auth_revoke_api_token i j)"
  "preserves accounts_ok (auth_create_user n p e r)" "preserves accounts_ok (auth_update_user i inp)"
  "preserves accounts_ok (auth_delete_user i)" "preserves accounts_ok (auth_set_avatar u n p)"
  "preserves accounts_ok (auth_ensure_admin n p e)"
  unfolding auth_login_def auth_start_pairing_def auth_claim_pairing_def auth_logout_def auth_create_api_token_def
    auth_revoke_api_token_def auth_create_user_def auth_update_user_def auth_delete_user_def auth_set_avatar_def
    auth_ensure_admin_def Let_def
  by (intro preserves_rules accounts_ops accounts_composed accounts_mod)+

interpretation auth_inv: invariant_steps auth_step accounts_ok
proof
  fix w x assume "accounts_ok w"
  then show "accounts_ok (auth_step x w)"
    using accounts_auth by (cases x) (auto simp: preserves_def intro: accounts_frame)
qed

text \<open>
  C10: From an empty store, whatever sequence of account operations runs, with whatever failures of
  the store: no two users share a name or an e-mail address under SQL's \<open>lower\<close>, every role is
  admin or user, no two tokens share a hash, every token belongs to a user that exists and is valid
  for a non-empty time, and no API token for more than 90 days.
\<close>

theorem accounts_invariant:
  "let w' = run_ops auth_step ops (w\<lparr>users := [], tokens := []\<rparr>); low = x_sql_lower (ext w') in
     distinct (map (\<lambda>u. low (u_username u)) (users w')) \<and> distinct (map (\<lambda>u. low (u_email u)) (users w')) \<and>
     (\<forall>u \<in> set (users w'). u_role u = RoleAdmin \<or> u_role u = RoleUser) \<and>
     distinct (map k_hash (tokens w')) \<and>
     (\<forall>k \<in> set (tokens w'). k_user k \<in> u_id ` set (users w') \<and> k_from k < k_expires k \<and>
        (k_kind k = TokenKindAPI \<longrightarrow> k_expires k - k_from k \<le> 90 * 24 * hour))"
proof -
  have "accounts_ok (w\<lparr>users := [], tokens := []\<rparr>)" by (simp add: accounts_ok_def unique_key_def)
  from auth_inv.run_inv [OF this] show ?thesis
    by (auto simp: accounts_ok_def unique_key_def Let_def user_role_ok_def rows_has_iff ninety_days_def)
qed

theorem accounts_invariant_witness:
  "length (users (run_ops auth_step [CreateUser ''ann'' ''a@x'' ''password'' RoleAdmin, Login ''ann'' ''password'']
     (demo_world\<lparr>users := [], tokens := []\<rparr>))) = 1 \<and>
   (let w' = run_ops auth_step [CreateUser ''ann'' ''a@x'' ''password'' RoleAdmin, Login ''ann'' ''password'']
     (demo_world\<lparr>users := [], tokens := []\<rparr>) in distinct (map k_hash (tokens w')))"
proof
  show "length (users (run_ops auth_step [CreateUser ''ann'' ''a@x'' ''password'' RoleAdmin, Login ''ann'' ''password'']
     (demo_world\<lparr>users := [], tokens := []\<rparr>))) = 1" by code_simp
  show "let w' = run_ops auth_step [CreateUser ''ann'' ''a@x'' ''password'' RoleAdmin, Login ''ann'' ''password'']
     (demo_world\<lparr>users := [], tokens := []\<rparr>) in distinct (map k_hash (tokens w'))"
    using accounts_invariant [of "[CreateUser ''ann'' ''a@x'' ''password'' RoleAdmin, Login ''ann'' ''password'']" demo_world]
    unfolding Let_def by blast
qed

section \<open>API tokens and the first administrator\<close>

text \<open>
  C14: An API token is made only with a name of 1 to 100 characters and a validity that starts
  before it ends, lasts at most 90 days and ends in the future; the caller gets the one plaintext,
  and only its hash is stored, with the caller as its owner. Every refusal that is not the store's
  is \<open>ErrInvalidInput\<close> and leaves the tokens as they were.
\<close>

theorem api_token_bounds:
  "case auth_create_api_token user name a b w of
     (Inr (raw, k), w') \<Rightarrow> tokens w' = tokens w @ [k] \<and> k_user k = user \<and> k_kind k = TokenKindAPI \<and>
        k_hash k = x_sha (ext w) raw \<and> k_name k = trim_space name \<and> 1 \<le> rune_count (k_name k) \<and> rune_count (k_name k) \<le> 100 \<and>
        k_from k = a \<and> k_expires k = b \<and> a < b \<and> b - a \<le> 90 * 24 * hour \<and> now w < b \<and> k_revoked k = None
   | (Inl e, w') \<Rightarrow> tokens w' = tokens w \<and>
        (trim_space name = [] \<or> rune_count (trim_space name) > 100 \<or> \<not> a < b \<or> b - a > 90 * 24 * hour \<or> \<not> now w < b
           \<longrightarrow> err_is e ErrInvalidInput)"
proof -
  have "wp (auth_create_api_token user name a b)
      (\<lambda>(raw, k) w'. tokens w' = tokens w @ [k] \<and> k_user k = user \<and> k_kind k = TokenKindAPI \<and>
        k_hash k = x_sha (ext w) raw \<and> k_name k = trim_space name \<and> 1 \<le> rune_count (k_name k) \<and> rune_count (k_name k) \<le> 100 \<and>
        k_from k = a \<and> k_expires k = b \<and> a < b \<and> b - a \<le> 90 * 24 * hour \<and> now w < b \<and> k_revoked k = None)
      (\<lambda>e w'. tokens w' = tokens w \<and>
        (trim_space name = [] \<or> rune_count (trim_space name) > 100 \<or> \<not> a < b \<or> b - a > 90 * 24 * hour \<or> \<not> now w < b
           \<longrightarrow> err_is e ErrInvalidInput)) w"
    unfolding auth_create_api_token_def hash_token_def db_tokens_create_def Let_def
    using rune_count_pos [of "trim_space name"]
    by (auto simp: wp_simps new_token_def max_api_token_ttl_def Suc_le_eq split: option.split intro!: wp_db_callI)
  then show ?thesis by (auto simp: wp_def split: prod.splits sum.splits)
qed

lemma demo_api_token: "case auth_create_api_token 7 '' ci '' (1000 * second) (2000 * second) demo_auth of
    (Inr (raw, k), w') \<Rightarrow> raw = ''R100'' | _ \<Rightarrow> False"
  by code_simp

theorem api_token_bounds_witness:
  "\<exists>raw k w'. auth_create_api_token 7 '' ci '' (1000 * second) (2000 * second) demo_auth = (Inr (raw, k), w') \<and>
     k_user k = 7 \<and> k_kind k = TokenKindAPI \<and> k_expires k = 2000 * second \<and> tokens w' = tokens demo_auth @ [k]"
proof -
  obtain raw k w' where run: "auth_create_api_token 7 '' ci '' (1000 * second) (2000 * second) demo_auth = (Inr (raw, k), w')"
    using demo_api_token by (auto split: prod.splits sum.splits)
  show ?thesis
    using api_token_bounds [where user = 7 and name = "'' ci ''" and a = "1000 * second" and b = "2000 * second" and w = demo_auth] run by auto
qed

text \<open>
  \<open>EnsureAdmin\<close> makes an administrator exactly when the installation is empty: reporting that it
  created one, it found no user and left one, an enabled administrator with the given name and a
  hash of the given password; otherwise the users are as they were.
\<close>

lemma ensure_admin_once:
  "case auth_ensure_admin name email password w of
     (Inr True, w') \<Rightarrow> users w = [] \<and> (\<exists>u. users w' = [u] \<and> is_admin u \<and> \<not> disabled u \<and> u_username u = name \<and>
        u_email u = email \<and> (\<exists>n. x_bcrypt (ext w) n password = Inr (u_hash u)) \<and> 8 \<le> length password)
   | (Inr False, w') \<Rightarrow> users w \<noteq> [] \<and> users w' = users w
   | (Inl _, w') \<Rightarrow> users w' = users w"
proof -
  have "wp (auth_ensure_admin name email password)
     (\<lambda>b w'. if b then users w = [] \<and> (\<exists>u. users w' = [u] \<and> is_admin u \<and> \<not> disabled u \<and> u_username u = name \<and>
        u_email u = email \<and> (\<exists>n. x_bcrypt (ext w) n password = Inr (u_hash u)) \<and> 8 \<le> length password)
       else users w \<noteq> [] \<and> users w' = users w) (\<lambda>_ w'. users w' = users w) w"
    unfolding auth_ensure_admin_def auth_create_user_def hash_password_def db_users_create_def db_users_count_def Let_def
    by (auto simp: wp_simps is_admin_def disabled_def min_password_length_def split: option.split sum.split intro!: wp_db_callI exI [of _ "seed w"])
  then show ?thesis by (auto simp: wp_def split: prod.splits sum.splits bool.splits)
qed

end
