(* ===== verification/Docker.thy ===== *)
theory Docker
  imports World
begin

text \<open>
  The container runtime of internal/infra/docker: which calls each operation makes of the
  daemon, in which order, and what it makes of the answers. Nothing is assumed of the daemon.
\<close>

section \<open>Errors\<close>

text \<open>\<open>mapError\<close> of runtime.go.\<close>

definition docker_map_error :: "string \<Rightarrow> docker_error \<Rightarrow> goerr" where
  "docker_map_error operation e = (let wrapped = err_wrap operation (err_new (docker_text e)) in
     case e of DockerNotFound _ \<Rightarrow> err_join (err_sentinel ErrNotFound) wrapped
     | DockerConflict _ \<Rightarrow> err_join (err_sentinel ErrConflict) wrapped
     | _ \<Rightarrow> wrapped)"

definition docker_plain :: "string \<Rightarrow> docker_error \<Rightarrow> goerr" where
  "docker_plain operation e = err_wrap operation (err_new (docker_text e))"

definition d_must :: "(docker_error \<Rightarrow> goerr) \<Rightarrow> (world, docker_error + 'x) io \<Rightarrow> (world, 'x) io" where
  "d_must f m = io_bind m (\<lambda>r. case r of Inl e \<Rightarrow> fail (f e) | Inr v \<Rightarrow> ret v)"

section \<open>Network and restart policy\<close>

definition docker_network :: string where "docker_network = ''boreas-net''"
definition restart_policy :: string where "restart_policy = ''unless-stopped''"

definition rt_ensure_network :: "(world, unit) io" where
  "rt_ensure_network = io_bind (d_must (docker_plain ''list docker networks'') (d_call (NetworkList docker_network) d_names)) (\<lambda>ns.
     if docker_network \<in> set ns then ret ()
     else io_bind (d_call (NetworkCreate docker_network [(''managed-by'', ''boreas'')]) (\<lambda>_ _. ())) (\<lambda>r.
       case r of Inr _ \<Rightarrow> ret ()
       | Inl (DockerConflict _) \<Rightarrow> ret ()
       | Inl e \<Rightarrow> fail (docker_plain (''create docker network '' @ quoted docker_network) e)))"

text \<open>\<open>errors.Join\<close> of what went wrong so far, which may be nothing.\<close>

definition join_opt :: "goerr option \<Rightarrow> goerr \<Rightarrow> goerr option" where
  "join_opt errs e = Some (case errs of None \<Rightarrow> e | Some j \<Rightarrow> err_join j e)"

fun update_policies :: "goerr option \<Rightarrow> string list \<Rightarrow> (world, unit) io" where
  "update_policies errs [] = io_check errs"
| "update_policies errs (i # is) = io_bind (d_call (ContainerUpdate i restart_policy) (\<lambda>_ _. ())) (\<lambda>r.
     case r of Inr _ \<Rightarrow> update_policies errs is
     | Inl e \<Rightarrow> update_policies (join_opt errs (docker_map_error (''update restart policy '' @ i) e)) is)"

definition rt_ensure_restart_policy :: "(world, unit) io" where
  "rt_ensure_restart_policy = io_bind (d_must (docker_map_error ''list task containers'')
     (d_call (ContainerList ''managed-by=boreas'' docker_network) d_names)) (update_policies None)"

section \<open>Images\<close>

definition registry_auth :: "credential option \<Rightarrow> (string \<times> string \<times> string) option" where
  "registry_auth c = map_option (\<lambda>c. (c_username c, c_token c,
     if c_registry c = RegistryGHCR then ''https://ghcr.io'' else ''https://index.docker.io/v1/'')) c"

fun read_pull :: "string \<Rightarrow> pull_event list \<Rightarrow> goerr option" where
  "read_pull img [] = None"
| "read_pull img (PullBroken e # _) = Some (err_new (''read pull response for '' @ quoted img @ '': '' @ e))"
| "read_pull img (PullEvent e # es) =
     (if e \<noteq> [] then Some (err_new (''pull image '' @ quoted img @ '': '' @ e)) else read_pull img es)"

definition rt_pull :: "string \<Rightarrow> credential option \<Rightarrow> (world, unit) io" where
  "rt_pull img cred = (if trim_space img = [] then fail (err_invalid ''image is required'')
     else io_bind (d_must (docker_map_error (''pull image '' @ img)) (d_call (ImagePull img (registry_auth cred)) d_pull))
       (\<lambda>es. io_check (read_pull img es)))"

section \<open>Containers\<close>

definition container_name :: "container_spec \<Rightarrow> string" where
  "container_name s = ''boreas-'' @ s_project s @ ''-'' @ s_name s"

text \<open>\<open>maps.Copy\<close> into the ownership labels.\<close>

definition container_labels :: "container_spec \<Rightarrow> strmap" where
  "container_labels s = fold (\<lambda>(k, v) m. AList.update k v m) (s_labels s)
     [(''managed-by'', ''boreas''), (''project'', s_project s), (''task'', s_name s)]"

definition container_env :: "container_spec \<Rightarrow> string list" where
  "container_env s = [''BOREAS_PROJECT='' @ s_project s, ''BOREAS_TASK='' @ s_name s, ''BOREAS_PORT='' @ int_str (s_port s),
     ''BASE_HREF=/'' @ s_project s @ ''/'' @ s_name s @ ''/''] @ map (\<lambda>(k, v). k @ ''='' @ v) (s_env s)"

definition appdata_volume :: string where "appdata_volume = ''boreas-appdata''"
definition appdata_mount :: string where "appdata_mount = ''/opt/appdata''"

definition container_mounts :: "container_spec \<Rightarrow> mount list" where
  "container_mounts s = map (\<lambda>(target, folder).
     \<lparr>mt_source = appdata_volume, mt_target = target, mt_subpath = s_project s @ ''/'' @ folder\<rparr>) (s_volumes s)"

definition create_request :: "container_spec \<Rightarrow> docker_call" where
  "create_request s = ContainerCreate \<lparr>cc_image = s_image s, cc_port = int_str (s_port s) @ ''/tcp'',
     cc_labels = container_labels s, cc_env = container_env s, cc_network = docker_network,
     cc_restart = restart_policy, cc_mounts = container_mounts s\<rparr> (container_name s)"

text \<open>\<open>openUp\<close> is best effort.\<close>

definition open_up :: "string \<Rightarrow> strmap \<Rightarrow> (world, unit) io" where
  "open_up proj vols = io_bind (d_call (OpenRoot appdata_mount) (\<lambda>_ _. ())) (\<lambda>r. case r of Inl _ \<Rightarrow> ret ()
     | Inr _ \<Rightarrow> io_each (\<lambda>(_, folder). io_bind (d_call (ChmodFolder (proj @ ''/'' @ folder)) (\<lambda>_ _. ())) (\<lambda>_. ret ())) vols)"

definition rt_remove :: "string \<Rightarrow> (world, unit) io" where
  "rt_remove i = d_must (docker_map_error (''remove container '' @ i)) (d_call (ContainerRemove i) (\<lambda>_ _. ()))"

text \<open>An error other than a missing container is returned.\<close>

definition unless_missing :: "(world, unit) io \<Rightarrow> (world, unit) io" where
  "unless_missing m = io_bind (io_try m) (\<lambda>r. case r of Inr _ \<Rightarrow> ret ()
     | Inl e \<Rightarrow> if err_is e ErrNotFound then ret () else fail e)"

definition owned_by :: "inspect_info \<Rightarrow> container_spec \<Rightarrow> bool" where
  "owned_by info s = (case if_labels info of None \<Rightarrow> False
     | Some ls \<Rightarrow> map_of ls ''managed-by'' = Some ''boreas'' \<and> map_of ls ''project'' = Some (s_project s) \<and>
         map_of ls ''task'' = Some (s_name s))"

definition remove_superseded :: "string \<Rightarrow> container_spec \<Rightarrow> (world, unit) io" where
  "remove_superseded name s = io_bind (d_must (docker_map_error (''inspect container '' @ name)) (d_call (ContainerInspect name) d_inspect)) (\<lambda>info.
     if \<not> owned_by info s then fail (err_join (err_sentinel ErrConflict)
         (err_new (''container '' @ quoted name @ '' already exists and is not managed by Boreas'')))
     else unless_missing (rt_remove (if_id info)))"

definition rt_create :: "container_spec \<Rightarrow> (world, string) io" where
  "rt_create s = io_bind (io_check (validate_spec s)) (\<lambda>_. io_bind (open_up (s_project s) (s_volumes s)) (\<lambda>_.
     io_bind (d_call (create_request s) d_id) (\<lambda>r1.
     io_bind (case r1 of
         Inl (DockerConflict _) \<Rightarrow> io_bind (remove_superseded (container_name s) s) (\<lambda>_. d_call (create_request s) d_id)
       | _ \<Rightarrow> ret r1) (\<lambda>r2.
     case r2 of Inr i \<Rightarrow> ret i
       | Inl e \<Rightarrow> fail (docker_map_error (''create container for task '' @ s_project s @ ''/'' @ s_name s) e)))))"

definition rt_start :: "string \<Rightarrow> (world, unit) io" where
  "rt_start i = d_must (docker_map_error (''start container '' @ i)) (d_call (ContainerStart i) (\<lambda>_ _. ()))"

definition rt_stop :: "string \<Rightarrow> (world, unit) io" where
  "rt_stop i = io_bind (d_call (ContainerStop i) (\<lambda>_ _. ())) (\<lambda>r. case r of
       Inl (DockerNotModified _) \<Rightarrow> ret ()
     | Inl e \<Rightarrow> fail (docker_map_error (''stop container '' @ i) e)
     | Inr _ \<Rightarrow> ret ())"

definition rt_recreate :: "string \<Rightarrow> container_spec \<Rightarrow> (world, string) io" where
  "rt_recreate old s = io_bind (if old \<noteq> [] then
       io_bind (unless_missing (rt_stop old)) (\<lambda>_. unless_missing (rt_remove old)) else ret ()) (\<lambda>_. rt_create s)"

definition first_ip :: "(string \<times> string option) list \<Rightarrow> string" where
  "first_ip nets = (case List.find (\<lambda>(_, e). e \<noteq> None \<and> e \<noteq> Some []) nets of Some (_, Some ip) \<Rightarrow> ip | _ \<Rightarrow> [])"

definition inspect_ip :: "inspect_info \<Rightarrow> string" where
  "inspect_ip info = (case if_networks info of None \<Rightarrow> []
     | Some nets \<Rightarrow> or_str (case map_of nets docker_network of Some (Some ip) \<Rightarrow> ip | _ \<Rightarrow> []) (first_ip nets))"

definition inspect_status :: "inspect_state \<Rightarrow> task_status" where
  "inspect_status s = (if is_running s then StatusRunning
     else if is_status s = ''created'' \<or> is_restarting s then StatusStarting
     else if is_status s = ''exited'' \<or> is_status s = ''dead'' then StatusStopped
     else StatusUnknown)"

definition rt_inspect :: "string \<Rightarrow> (world, container_state) io" where
  "rt_inspect i = io_bind (d_call (ContainerInspect i) d_inspect) (\<lambda>r. case r of
       Inl (DockerNotFound _) \<Rightarrow> ret \<lparr>cs_exists = False, cs_status = StatusUnknown, cs_ip = [], cs_error = []\<rparr>
     | Inl e \<Rightarrow> fail (docker_map_error (''inspect container '' @ i) e)
     | Inr info \<Rightarrow> ret \<lparr>cs_exists = True,
         cs_status = (case if_state info of None \<Rightarrow> StatusUnknown | Some st \<Rightarrow> inspect_status st),
         cs_ip = inspect_ip info, cs_error = (case if_state info of None \<Rightarrow> [] | Some st \<Rightarrow> is_error st)\<rparr>)"

record log_options =
  lo_tail :: int
  lo_follow :: bool
  lo_since :: "time option"

text \<open>\<open>%d.%09d\<close> of the seconds and nanoseconds.\<close>

definition pad9 :: "string \<Rightarrow> string" where
  "pad9 s = replicate (9 - length s) (CHR ''0'') @ s"

definition log_args :: "log_options \<Rightarrow> string \<times> string" where
  "log_args o' = (case lo_since o' of None \<Rightarrow> (int_str (lo_tail o'), [])
     | Some t \<Rightarrow> (if lo_follow o' then ''all'' else int_str (lo_tail o'),
         int_str (t div second) @ ''.'' @ pad9 (int_str (t mod second))))"

definition rt_logs :: "string \<Rightarrow> log_options \<Rightarrow> (world, string) io" where
  "rt_logs i o' = d_must (docker_map_error (''read logs for container '' @ i))
     (d_call (ContainerLogs i (lo_follow o') (fst (log_args o')) (snd (log_args o'))) d_id)"

definition rt_total_memory :: "(world, int) io" where
  "rt_total_memory = d_must (docker_plain ''docker info'') (d_call DockerInfo d_memory)"

section \<open>Folders\<close>

definition folder_path :: "string \<Rightarrow> string" where
  "folder_path proj = path_clean (appdata_mount @ ''/'' @ proj)"

definition rt_folders :: "string \<Rightarrow> (world, string list) io" where
  "rt_folders proj = io_bind (d_call (ReadDir (folder_path proj)) d_dirs) (\<lambda>r. case r of
       Inl (DockerNotFound _) \<Rightarrow> ret []
     | Inl e \<Rightarrow> fail (docker_plain ''list folders'' e)
     | Inr es \<Rightarrow> ret (map fst (filter snd es)))"

definition rt_make_folder :: "string \<Rightarrow> (world, unit) io" where
  "rt_make_folder proj = d_must (\<lambda>e. err_new (docker_text e)) (d_call (MkdirAll (folder_path proj)) (\<lambda>_ _. ()))"

text \<open>\<open>TCPReadyChecker.Ready\<close>.\<close>

definition tcp_ready :: "string \<Rightarrow> (world, unit) io" where
  "tcp_ready address = d_must (docker_plain (''dial readiness endpoint '' @ address)) (d_call (DialTCP address) (\<lambda>_ _. ()))"

section \<open>Metrics\<close>

text \<open>\<open>memoryBytes\<close>: counters are uint64, their int64 difference wraps before the maximum with 0.\<close>

definition memory_bytes :: "64 word \<Rightarrow> 64 word \<Rightarrow> int" where
  "memory_bytes usage inactive = max (sint (usage - inactive)) 0"

text \<open>The network counters are summed as int64.\<close>

definition net_total :: "64 word list \<Rightarrow> int" where
  "net_total ns = sint (sum_list ns)"

lemma memory_bytes_exact:
  "uint inactive \<le> uint usage \<Longrightarrow> uint usage < 2 ^ 63 \<Longrightarrow> memory_bytes usage inactive = uint usage - uint inactive"
proof -
  assume le: "uint inactive \<le> uint usage" and lt: "uint usage < 2 ^ 63"
  have "uint (usage - inactive) = uint usage - uint inactive"
    using le by (simp add: uint_sub_if')
  moreover have "uint usage - uint inactive < 2 ^ 63" using lt by (smt (verit) uint_lt_0)
  ultimately show ?thesis
    using le by (simp add: memory_bytes_def sint_uint signed_take_bit_int_eq_self)
qed

section \<open>Which calls the runtime makes\<close>

lemma logs_d_must [log_intros]: "logs P m \<Longrightarrow> logs P (d_must f m)"
  unfolding d_must_def by (intro log_intros)

lemma logs_unless_missing [log_intros]: "logs P m \<Longrightarrow> logs P (unless_missing m)"
  unfolding unless_missing_def by (intro log_intros)

lemma logs_removal:
  assumes "\<And>d h. P d h (ContainerInspect name)"
    "\<And>d h info. d_error d (h @ [ContainerInspect name]) = None \<Longrightarrow> info = d_inspect d (h @ [ContainerInspect name]) \<Longrightarrow>
       owned_by info s \<Longrightarrow> P d (h @ [ContainerInspect name]) (ContainerRemove (if_id info))"
  shows "logs P (remove_superseded name s)"
  unfolding logs_def
proof (rule allI)
  fix w :: world
  let ?h = "dlog w @ [ContainerInspect name]" and ?m = "remove_superseded name s"
  consider "d_error (daemon w) ?h \<noteq> None \<or> \<not> owned_by (d_inspect (daemon w) ?h) s"
    | "d_error (daemon w) ?h = None" "owned_by (d_inspect (daemon w) ?h) s" by blast
  then show "daemon (snd (?m w)) = daemon w \<and> (\<exists>cs. dlog (snd (?m w)) = dlog w @ cs \<and>
     (\<forall>i < length cs. P (daemon w) (dlog w @ take i cs) (cs ! i)))"
  proof cases
    case 1
    then have "snd (?m w) = w\<lparr>dlog := ?h\<rparr>"
      by (auto simp: remove_superseded_def d_must_def io_defs d_call_def Let_def split: option.splits)
    with assms(1) show ?thesis by (intro conjI exI [of _ "[ContainerInspect name]"]) auto
  next
    case 2
    let ?i = "if_id (d_inspect (daemon w) ?h)"
    have "snd (?m w) = w\<lparr>dlog := ?h @ [ContainerRemove ?i]\<rparr>"
      using 2 by (auto simp: remove_superseded_def unless_missing_def rt_remove_def d_must_def io_defs d_call_def Let_def
          split: option.splits)
    moreover have "P (daemon w) ?h (ContainerRemove ?i)" using assms(2) 2 by simp
    ultimately show ?thesis using assms(1)
      by (intro conjI exI [of _ "[ContainerInspect name, ContainerRemove ?i]"]) (auto simp: less_Suc_eq)
  qed
qed

text \<open>What \<open>Create\<close> may ask: to inspect its own name, to remove what it owns there, to create.\<close>

definition create_may :: "container_spec \<Rightarrow> daemon \<Rightarrow> docker_call list \<Rightarrow> docker_call \<Rightarrow> bool" where
  "create_may s d h c = (case c of
       OpenRoot root \<Rightarrow> root = appdata_mount
     | ChmodFolder f \<Rightarrow> f \<in> (\<lambda>(_, folder). s_project s @ ''/'' @ folder) ` set (s_volumes s)
     | ContainerInspect n \<Rightarrow> n = container_name s
     | ContainerRemove i \<Rightarrow> h \<noteq> [] \<and> last h = ContainerInspect (container_name s) \<and> d_error d h = None \<and>
          owned_by (d_inspect d h) s \<and> i = if_id (d_inspect d h)
     | ContainerCreate cfg n \<Rightarrow> ContainerCreate cfg n = create_request s \<and> validate_spec s = None
     | _ \<Rightarrow> False)"

lemma logs_create: "logs (create_may s) (rt_create s)"
proof (cases "validate_spec s")
  case (Some e)
  have "rt_create s = fail e"
    by (rule ext) (simp add: rt_create_def Some io_bind_def io_check_def fail_def)
  then show ?thesis by (simp add: log_intros)
next
  case None
  have create: "logs (create_may s) (d_call (create_request s) d_id)"
    by (rule logs_call) (simp add: create_may_def create_request_def None)
  have "logs (create_may s) (open_up (s_project s) (s_volumes s))"
    unfolding open_up_def by (intro log_intros) (force simp: create_may_def)+
  moreover have "logs (create_may s) (remove_superseded (container_name s) s)"
    by (rule logs_removal) (simp_all add: create_may_def)
  ultimately show ?thesis
    unfolding rt_create_def by (intro log_intros create)
qed

lemma map_of_labels_other:
  "k \<notin> fst ` set ls \<Longrightarrow> map_of (fold (\<lambda>(k, v) m. AList.update k v m) ls m) k = map_of m k"
  by (induction ls arbitrary: m) (auto simp: update_conv')

lemma reserved_env_free:
  assumes "validate_env env = None" "k \<in> set reserved_env" "e \<in> set (map (\<lambda>(k, v). k @ ''='' @ v) env)"
  shows "\<not> prefix (k @ ''='') e"
proof
  assume pre: "prefix (k @ ''='') e"
  obtain k' v where e: "(k', v) \<in> set env" "e = k' @ CHR ''='' # v" using assms(3) by auto
  then have k': "CHR ''='' \<notin> set k'" "k' \<notin> set reserved_env"
    using assms(1) by (force simp: validate_env_None contains_any_def list_ex_iff)+
  have "CHR ''='' \<notin> set k" using assms(2) by (auto simp: reserved_env_def)
  obtain z where "k @ CHR ''='' # z = k' @ CHR ''='' # v" using pre e by (auto simp: prefix_def)
  then have "cut_at (CHR ''='') (k @ CHR ''='' # z) = cut_at (CHR ''='') (k' @ CHR ''='' # v)" by simp
  then have "k = k'" using \<open>CHR ''='' \<notin> set k\<close> k'(1) by (simp add: cut_at_sep)
  with k' assms(2) show False by simp
qed

lemma confined_subpath:
  assumes "match_project_slug proj" "folder \<noteq> []" "folder \<noteq> ''.''" "folder \<noteq> ''..''" "slash \<notin> set folder"
  shows "path_clean (proj @ ''/'' @ folder) = proj @ ''/'' @ folder"
proof -
  have "proj \<noteq> []" using assms(1) by (auto simp: match_project_slug_def)
  then obtain c cs where c: "proj = c # cs" "slug_first c"
    using assms(1) by (cases proj) (auto simp: match_project_slug_def)
  then have "c \<noteq> CHR ''.''" "c \<noteq> slash" by (auto simp: slug_first_def char_class_defs slash_def)
  then have proj: "slash \<notin> set proj" "proj \<noteq> []" "proj \<noteq> ''.''" "proj \<noteq> ''..''" "\<not> is_abs proj"
    using c slug_no_slash [OF assms(1)] by (auto simp: is_abs_def slash_def)
  have "split_at slash (proj @ ''/'' @ folder) = [proj, folder]"
    using split_append_sep [OF proj(1)] split_no_sep [OF assms(5)] by (simp add: slash_def)
  moreover have "\<not> is_abs (proj @ ''/'' @ folder)" using proj by (cases proj) (auto simp: is_abs_def)
  ultimately show ?thesis using assms proj by (simp add: path_clean_def clean_seg_def Let_def)
qed

text \<open>
  C5: Creating a container asks the daemon to remove only a container it has just inspected under
  the task's own name and whose labels say Boreas made it for this very task, and to create only
  the validated specification: the ownership labels cannot be overridden, the program's four
  environment variables come first and no other entry sets one of them, and every mount is a folder of
  the project's own directory in the appdata volume, with no way out of it.
\<close>

theorem create_confined:
  assumes "rt_create s w = (r, w')" "c \<in> set (new_calls w w')"
  shows "case c of
      ContainerRemove i \<Rightarrow> (\<exists>h. prefix (h @ [c]) (dlog w') \<and> last h = ContainerInspect (container_name s) \<and>
        i = if_id (d_inspect (daemon w) h) \<and> (\<exists>ls. if_labels (d_inspect (daemon w) h) = Some ls \<and>
          map_of ls ''managed-by'' = Some ''boreas'' \<and> map_of ls ''project'' = Some (s_project s) \<and> map_of ls ''task'' = Some (s_name s)))
    | ContainerCreate cfg name \<Rightarrow> name = ''boreas-'' @ s_project s @ ''-'' @ s_name s \<and> cc_image cfg = s_image s \<and>
        map_of (cc_labels cfg) ''managed-by'' = Some ''boreas'' \<and> map_of (cc_labels cfg) ''project'' = Some (s_project s) \<and>
        map_of (cc_labels cfg) ''task'' = Some (s_name s) \<and>
        take 2 (cc_env cfg) = [''BOREAS_PROJECT='' @ s_project s, ''BOREAS_TASK='' @ s_name s] \<and>
        (\<forall>e \<in> set (drop 4 (cc_env cfg)). \<forall>k \<in> set reserved_env. \<not> prefix (k @ ''='') e) \<and>
        (\<forall>mt \<in> set (cc_mounts cfg). mt_source mt = ''boreas-appdata'' \<and> is_abs (mt_target mt) \<and>
           path_clean (mt_target mt) = mt_target mt \<and> mt_target mt \<noteq> ''/'' \<and>
           (\<exists>folder. mt_subpath mt = s_project s @ ''/'' @ folder \<and> folder \<noteq> [] \<and> slash \<notin> set folder \<and>
              path_clean (mt_subpath mt) = mt_subpath mt))
    | ContainerInspect name \<Rightarrow> name = container_name s
    | OpenRoot root \<Rightarrow> root = ''/opt/appdata''
    | ChmodFolder path \<Rightarrow> prefix (s_project s @ ''/'') path
    | _ \<Rightarrow> False"
proof -
  obtain h where h: "prefix (h @ [c]) (dlog w')" "create_may s (daemon w) h c"
    using logs_new_calls [OF logs_create assms] by blast
  show ?thesis
  proof (cases c)
    case (ContainerCreate cfg name)
    with h have eq: "ContainerCreate cfg name = create_request s" and ok: "validate_spec s = None"
      by (auto simp: create_may_def)
    from ok have parts: "match_project_slug (s_project s)" "validate_env (s_env s) = None"
      "validate_labels (s_labels s) = None" "validate_volumes (s_volumes s) = None"
      by (auto simp: validate_spec_None)
    have labels: "map_of (container_labels s) k = map_of [(''managed-by'', ''boreas''), (''project'', s_project s), (''task'', s_name s)] k"
      if "k \<in> set reserved_labels" for k
      unfolding container_labels_def using parts(3) that
      by (intro map_of_labels_other) (auto simp: validate_labels_None)
    have mounts: "mt_source mt = ''boreas-appdata'' \<and> is_abs (mt_target mt) \<and>
           path_clean (mt_target mt) = mt_target mt \<and> mt_target mt \<noteq> ''/'' \<and>
           (\<exists>folder. mt_subpath mt = s_project s @ ''/'' @ folder \<and> folder \<noteq> [] \<and> slash \<notin> set folder \<and>
              path_clean (mt_subpath mt) = mt_subpath mt)" if "mt \<in> set (container_mounts s)" for mt
    proof -
      from that obtain target folder where tf: "(target, folder) \<in> set (s_volumes s)"
        "mt = \<lparr>mt_source = appdata_volume, mt_target = target, mt_subpath = s_project s @ ''/'' @ folder\<rparr>"
        by (auto simp: container_mounts_def)
      with parts(4) have "is_abs target \<and> path_clean target = target \<and> target \<noteq> ''/'' \<and> folder \<noteq> [] \<and>
          folder \<noteq> ''.'' \<and> folder \<noteq> ''..'' \<and> slash \<notin> set folder"
        unfolding validate_volumes_None by blast
      with tf confined_subpath [OF parts(1), of folder] show ?thesis by (auto simp: appdata_volume_def)
    qed
    have "\<not> prefix (k @ ''='') e" if "k \<in> set reserved_env" "e \<in> set (drop 4 (container_env s))" for k e
      using reserved_env_free [OF parts(2) that(1), of e] that(2) by (simp add: container_env_def)
    with eq labels mounts ContainerCreate show ?thesis
      by (simp add: create_request_def container_name_def reserved_labels_def container_env_def)
  qed (use h in \<open>auto simp: create_may_def appdata_mount_def owned_by_def split: option.splits\<close>)
qed


definition demo_spec :: container_spec where
  "demo_spec = \<lparr>s_project = ''p'', s_name = ''t'', s_image = ''nginx'', s_port = 80, s_labels = [(''team'', ''x'')],
     s_env = [(''A'', ''1'')], s_volumes = [(''/data'', ''files'')]\<rparr>"

lemma demo_create: "case rt_create demo_spec demo_world of (Inr i, w') \<Rightarrow>
    list_ex (\<lambda>c. case c of ContainerCreate cfg n \<Rightarrow> length (cc_mounts cfg) = 1 | _ \<Rightarrow> False) (new_calls demo_world w') | _ \<Rightarrow> False"
  by code_simp

theorem create_confined_witness:
  "\<exists>r w' cfg name. rt_create demo_spec demo_world = (r, w') \<and> ContainerCreate cfg name \<in> set (new_calls demo_world w') \<and>
     length (cc_mounts cfg) = 1 \<and> map_of (cc_labels cfg) ''managed-by'' = Some ''boreas''"
proof -
  obtain r w' c where run: "rt_create demo_spec demo_world = (r, w')" "c \<in> set (new_calls demo_world w')"
    and c: "case c of ContainerCreate cfg n \<Rightarrow> length (cc_mounts cfg) = 1 | _ \<Rightarrow> False"
    using demo_create by (auto simp: list_ex_iff split: prod.splits sum.splits)
  from create_confined [OF run] c show ?thesis using run by (cases c) auto
qed

end
