(* ===== verification/Projects.thy ===== *)
theory Projects
  imports Docker "HOL-Library.Multiset"
begin

text \<open>
  internal/service/project_service.go: projects, members, access, task grants, assignees,
  credentials and the caller's notifications. Bora's part of the service is elsewhere.
\<close>

section \<open>Projects\<close>

text \<open>\<open>getProject\<close> and \<open>getTask\<close> of task_service.go.\<close>

definition get_project :: "string \<Rightarrow> (world, project) io" where
  "get_project slug = io_bind (io_check (validate_project_slug slug)) (\<lambda>_.
     io_wrap (''get project '' @ quoted slug) (db_projects_by_slug slug))"

definition get_task :: "string \<Rightarrow> string \<Rightarrow> (world, task \<times> project) io" where
  "get_task slug name = io_bind (io_check (validate_task_name name)) (\<lambda>_. io_bind (get_project slug) (\<lambda>p.
     io_bind (io_wrap (''get task '' @ quoted name) (db_tasks_by_name (p_id p) name)) (\<lambda>t. ret (t, p))))"

definition pr_list :: "user \<Rightarrow> (world, access list) io" where
  "pr_list actor = (if \<not> is_admin actor then io_wrap ''list projects'' (db_projects_for_user (u_id actor))
     else io_bind (io_wrap ''list projects'' db_projects_list) (\<lambda>ps.
       ret (map (\<lambda>p. \<lparr>acc_project = p, acc_user = u_id actor, acc_role = ProjectRoleOwner, acc_all = True\<rparr>) ps)))"

definition pr_tasks_with_deploys :: "(world, fleet_task list) io" where
  "pr_tasks_with_deploys = io_bind (io_wrap ''list last deploys'' db_last_deploys) (\<lambda>ds.
     io_bind (io_wrap ''list tasks'' db_tasks_all) (\<lambda>ts.
     ret (map (\<lambda>t. \<lparr>ft_task = t, ft_role = no_role, ft_deploy = map_of ds (t_id t)\<rparr>) ts)))"

definition pr_granted_roles :: "uuid \<Rightarrow> (world, (uuid \<times> project_role) list) io" where
  "pr_granted_roles u = io_wrap ''list user grants'' (db_grants_for_user u)"

text \<open>The role of a reached task; a missing grant is the zero role.\<close>

definition fleet_of :: "access list \<Rightarrow> (uuid \<times> project_role) list \<Rightarrow> fleet_task list \<Rightarrow> fleet_task list" where
  "fleet_of accs gs ts = List.map_filter (\<lambda>ft. let t = ft_task ft in
     case map_of (rev (map (\<lambda>a. (p_id (acc_project a), a)) accs)) (t_project t) of None \<Rightarrow> None
     | Some acc \<Rightarrow> let grant = map_of gs (t_id t) in
         if \<not> acc_all acc \<and> grant = None then None
         else Some (ft\<lparr>ft_role := role_max (acc_role acc) (case grant of None \<Rightarrow> no_role | Some r \<Rightarrow> r)\<rparr>)) ts"

text \<open>The fleet's map by project is \<open>fleet_of\<close>, whose tasks name their projects.\<close>

definition pr_fleet :: "user \<Rightarrow> (world, access list \<times> fleet_task list) io" where
  "pr_fleet actor = io_bind (pr_list actor) (\<lambda>accs. io_bind (pr_granted_roles (u_id actor)) (\<lambda>gs.
     io_bind pr_tasks_with_deploys (\<lambda>ts. ret (accs, fleet_of accs gs ts))))"

definition pr_directory :: "(world, project list \<times> fleet_task list) io" where
  "pr_directory = io_bind (io_wrap ''list projects'' db_projects_list) (\<lambda>ps.
     io_bind pr_tasks_with_deploys (\<lambda>ts. ret (ps, ts)))"

definition check_credential :: "uuid option \<Rightarrow> (world, unit) io" where
  "check_credential c = (case c of None \<Rightarrow> ret ()
     | Some i \<Rightarrow> io_bind (io_wrap ''get registry credential'' (db_credentials_get i)) (\<lambda>_. ret ()))"

record project_input =
  pi_slug :: string
  pi_name :: string
  pi_credential :: "uuid option"
  pi_image :: string
  pi_port :: int
  pi_env :: strmap
  pi_form :: form_factor

definition check_port :: "int \<Rightarrow> goerr option" where
  "check_port n = (if n < 1 \<or> n > 65535 then Some (err_invalid ''default port must be between 1 and 65535'') else None)"

definition new_member :: "uuid \<Rightarrow> uuid \<Rightarrow> project_role \<Rightarrow> member" where
  "new_member p u r = \<lparr>m_project = p, m_user = u, m_username = [], m_role = r, m_avatar = None, m_created = 0\<rparr>"

definition pr_create :: "user \<Rightarrow> project_input \<Rightarrow> (world, project) io" where
  "pr_create actor inp = io_bind (io_check (validate_project_slug (pi_slug inp))) (\<lambda>_.
     let name = or_str (trim_space (pi_name inp)) (pi_slug inp); port = or_int (pi_port inp) 80;
         form = or_form (pi_form inp) FormFactorWeb in
     io_bind (io_check (check_port port)) (\<lambda>_. io_bind (io_check (validate_env (pi_env inp))) (\<lambda>_.
     io_bind (io_check (validate_form_factor form)) (\<lambda>_. io_bind (check_credential (pi_credential inp)) (\<lambda>_.
     io_bind (io_wrap ''create project folder'' (rt_make_folder (pi_slug inp))) (\<lambda>_.
     io_bind (io_wrap ''create project'' (db_projects_create \<lparr>p_id = 0, p_slug = pi_slug inp, p_name = name,
        p_credential = pi_credential inp, p_image = trim_space (pi_image inp), p_port = port, p_env = pi_env inp,
        p_form = form, p_by = Some (u_id actor), p_created = 0, p_updated = 0\<rparr>)) (\<lambda>p.
     io_bind (io_wrap ''add project owner'' (db_add_member (new_member (p_id p) (u_id actor) ProjectRoleOwner))) (\<lambda>_.
     ret p))))))))"

record update_project_input =
  up_name :: "string option"
  up_credential :: "uuid option option"
  up_image :: "string option"
  up_port :: "int option"
  up_env :: "strmap option"
  up_form :: "form_factor option"

text \<open>The optional edits, in the order of the source; each checks before it changes.\<close>

definition edit :: "'v option \<Rightarrow> ('v \<Rightarrow> (world, unit) io) \<Rightarrow> ('v \<Rightarrow> project \<Rightarrow> project) \<Rightarrow> project \<Rightarrow> (world, project) io" where
  "edit v check change p = (case v of None \<Rightarrow> ret p | Some x \<Rightarrow> io_bind (check x) (\<lambda>_. ret (change x p)))"

definition pr_update :: "string \<Rightarrow> update_project_input \<Rightarrow> (world, project) io" where
  "pr_update slug inp = io_bind (get_project slug) (\<lambda>p0.
     io_bind (edit (up_name inp) (\<lambda>s. io_check (if trim_space s = [] then Some (err_invalid ''project name must not be empty'') else None))
        (\<lambda>s p. p\<lparr>p_name := s\<rparr>) p0) (\<lambda>p1.
     io_bind (edit (up_image inp) (\<lambda>_. ret ()) (\<lambda>s p. p\<lparr>p_image := trim_space s\<rparr>) p1) (\<lambda>p2.
     io_bind (edit (up_port inp) (\<lambda>n. io_check (check_port n)) (\<lambda>n p. p\<lparr>p_port := n\<rparr>) p2) (\<lambda>p3.
     io_bind (edit (up_env inp) (\<lambda>e. io_check (validate_env e)) (\<lambda>e p. p\<lparr>p_env := e\<rparr>) p3) (\<lambda>p4.
     io_bind (edit (up_form inp) (\<lambda>f. io_check (validate_form_factor f)) (\<lambda>f p. p\<lparr>p_form := f\<rparr>) p4) (\<lambda>p5.
     io_bind (edit (up_credential inp) check_credential (\<lambda>c p. p\<lparr>p_credential := c\<rparr>) p5) (\<lambda>p6.
     io_wrap ''update project'' (db_projects_update p6))))))))"

definition pr_delete :: "string \<Rightarrow> (world, unit) io" where
  "pr_delete slug = io_bind (get_project slug) (\<lambda>p. io_wrap ''delete project'' (db_projects_delete (p_id p)))"

section \<open>Members\<close>

definition pr_list_members :: "string \<Rightarrow> (world, member list) io" where
  "pr_list_members slug = io_bind (get_project slug) (\<lambda>p. io_wrap ''list members'' (db_list_members (p_id p)))"

definition keep_owner :: "project \<Rightarrow> uuid \<Rightarrow> (world, unit) io" where
  "keep_owner p u = io_bind (io_wrap ''list members'' (db_list_members (p_id p))) (\<lambda>ms.
     case filter (\<lambda>m. m_role m = ProjectRoleOwner) ms of
       [m] \<Rightarrow> if m_user m = u then fail (err_wrap (''project '' @ quoted (p_slug p) @ '' would lose its last owner'') (err_sentinel ErrConflict))
         else ret ()
     | _ \<Rightarrow> ret ())"

definition pr_add_member :: "string \<Rightarrow> uuid \<Rightarrow> project_role \<Rightarrow> (world, unit) io" where
  "pr_add_member slug u r = (if role_rank r = 0 then fail (err_invalid ''role must be viewer, operator, member, or owner'')
     else io_bind (get_project slug) (\<lambda>p.
       io_bind (if r \<noteq> ProjectRoleOwner then keep_owner p u else ret ()) (\<lambda>_.
       io_wrap ''add member'' (db_add_member (new_member (p_id p) u r)))))"

definition pr_remove_member :: "string \<Rightarrow> uuid \<Rightarrow> (world, unit) io" where
  "pr_remove_member slug u = io_bind (get_project slug) (\<lambda>p. io_bind (keep_owner p u) (\<lambda>_.
     io_wrap ''remove member'' (db_remove_member (p_id p) u)))"

section \<open>Access\<close>

definition granted_role :: "uuid \<Rightarrow> uuid \<Rightarrow> string \<Rightarrow> (world, project_role) io" where
  "granted_role p u name = (if name = [] then io_bind (io_wrap ''check task grants'' (db_grants_any p u)) (\<lambda>b.
       ret (if b then ProjectRoleViewer else no_role))
     else io_wrap ''get task grant'' (db_grants_role p u name))"

definition pr_access :: "user \<Rightarrow> string \<Rightarrow> string \<Rightarrow> (world, access) io" where
  "pr_access actor slug name = io_bind (get_project slug) (\<lambda>p.
     let acc = \<lparr>acc_project = p, acc_user = u_id actor, acc_role = no_role, acc_all = False\<rparr> in
     if is_admin actor then ret (acc\<lparr>acc_role := ProjectRoleOwner, acc_all := True\<rparr>)
     else io_bind (io_try (db_get_member (p_id p) (u_id actor))) (\<lambda>r.
       io_bind (case r of Inr m \<Rightarrow> ret (acc\<lparr>acc_role := m_role m, acc_all := True\<rparr>)
         | Inl e \<Rightarrow> if err_is e ErrNotFound then ret acc else fail (err_wrap ''get project member'' e)) (\<lambda>acc1.
       io_bind (granted_role (p_id p) (u_id actor) name) (\<lambda>granted.
       let role = role_max (acc_role acc1) granted in
       if role = no_role then fail (err_sentinel ErrNotFound) else ret (acc1\<lparr>acc_role := role\<rparr>)))))"

section \<open>Grants and assignees\<close>

definition new_notification :: "project \<Rightarrow> string \<Rightarrow> notification_type \<Rightarrow> string \<Rightarrow> string \<Rightarrow> notification" where
  "new_notification p task kind event detail = \<lparr>n_id = 0, n_project = p_id p, n_slug = [], n_task = task, n_type = kind,
     n_status = type_status kind, n_title = event @ [CHR '' '', CHR 0xE2, CHR 0x80, CHR 0xA2, CHR '' ''] @ p_name p,
     n_body = task @ '': '' @ detail, n_user = None, n_seen = False, n_created = 0\<rparr>"

definition tell_assignee :: "project \<Rightarrow> string \<Rightarrow> uuid \<Rightarrow> project_role \<Rightarrow> (world, unit) io" where
  "tell_assignee p task u r = notify ((new_notification p task NotificationTaskAssigned
       ([CHR 0xF0, CHR 0x9F, CHR 0x91, CHR 0xA4] @ '' Task Assigned'') (''assigned to you ('' @ role_str r @ '')''))
     \<lparr>n_user := Some u\<rparr>)"

definition pr_list_grants :: "string \<Rightarrow> string \<Rightarrow> (world, grant list) io" where
  "pr_list_grants slug name = io_bind (get_task slug name) (\<lambda>(t, _). io_wrap ''list task grants'' (db_grants_for_task (t_id t)))"

definition new_grant :: "uuid \<Rightarrow> uuid \<Rightarrow> project_role \<Rightarrow> grant" where
  "new_grant t u r = \<lparr>g_task = t, g_user = u, g_username = [], g_role = r, g_created = 0\<rparr>"

definition pr_grant :: "string \<Rightarrow> string \<Rightarrow> uuid \<Rightarrow> project_role \<Rightarrow> (world, unit) io" where
  "pr_grant slug name u r = (if role_rank r < role_rank ProjectRoleViewer \<or> role_rank r > role_rank ProjectRoleMember
     then fail (err_invalid ''role must be viewer, operator, or member'')
     else io_bind (get_task slug name) (\<lambda>(t, p).
       io_bind (io_wrap ''grant task'' (db_grants_grant (new_grant (t_id t) u r))) (\<lambda>_. tell_assignee p name u r)))"

definition pr_revoke :: "string \<Rightarrow> string \<Rightarrow> uuid \<Rightarrow> (world, unit) io" where
  "pr_revoke slug name u = io_bind (get_task slug name) (\<lambda>(t, _). io_wrap ''revoke task grant'' (db_grants_revoke (t_id t) u))"

text \<open>The ids to add, once each in the order sent, and to remove.\<close>

fun added_ids :: "uuid list \<Rightarrow> uuid list \<Rightarrow> uuid list \<Rightarrow> uuid list" where
  "added_ids had kept [] = []"
| "added_ids had kept (i # is) =
     (if i \<notin> set kept \<and> i \<notin> set had then i # added_ids had (i # kept) is else added_ids had (i # kept) is)"

definition removed_ids :: "uuid list \<Rightarrow> uuid list \<Rightarrow> uuid list" where
  "removed_ids had wanted = filter (\<lambda>i. i \<notin> set wanted) had"

text \<open>Below owner, the caller's project role decides, and both sides must be members.\<close>

definition assign_allowed :: "uuid \<Rightarrow> member list \<Rightarrow> uuid list \<Rightarrow> bool" where
  "assign_allowed caller ms ids = (let roles = map_of (rev (map (\<lambda>m. (m_user m, m_role m)) ms)) in
     (case roles caller of None \<Rightarrow> False | Some r \<Rightarrow> role_rank r \<ge> role_rank ProjectRoleMember) \<and>
     list_all (\<lambda>i. case roles i of None \<Rightarrow> False | Some r \<Rightarrow> r \<noteq> no_role) ids)"

definition revoke_if_there :: "uuid \<Rightarrow> uuid \<Rightarrow> (world, unit) io" where
  "revoke_if_there t u = io_bind (io_try (db_grants_revoke t u)) (\<lambda>r. case r of Inr _ \<Rightarrow> ret ()
     | Inl e \<Rightarrow> if err_is e ErrNotFound then ret () else fail (err_wrap ''unassign task'' e))"

definition pr_set_assignees :: "access \<Rightarrow> string \<Rightarrow> uuid list \<Rightarrow> (world, unit) io" where
  "pr_set_assignees acc name ids = io_bind (io_wrap ''get task'' (db_tasks_by_name (p_id (acc_project acc)) name)) (\<lambda>t.
     io_bind (io_wrap ''list task grants'' (db_grants_for_task (t_id t))) (\<lambda>current.
     let had = map g_user current; added = added_ids had [] ids; removed = removed_ids had ids in
     io_bind (if acc_role acc \<noteq> ProjectRoleOwner
       then io_bind (io_wrap ''list project members'' (db_list_members (p_id (acc_project acc)))) (\<lambda>ms.
         if assign_allowed (acc_user acc) ms (added @ removed) then ret () else fail (err_sentinel ErrForbidden))
       else ret ()) (\<lambda>_.
     io_bind (io_each (\<lambda>i. io_wrap ''assign task'' (db_grants_grant (new_grant (t_id t) i ProjectRoleMember))) added) (\<lambda>_.
     io_bind (io_each (revoke_if_there (t_id t)) removed) (\<lambda>_.
     io_each (\<lambda>i. if i \<noteq> acc_user acc then tell_assignee (acc_project acc) name i ProjectRoleMember else ret ()) added)))))"

section \<open>Credentials and notifications\<close>

definition pr_list_credentials :: "(world, credential list) io" where
  "pr_list_credentials = io_wrap ''list credentials'' db_credentials_list"

definition pr_create_credential :: "user \<Rightarrow> string \<Rightarrow> registry_kind \<Rightarrow> string \<Rightarrow> string \<Rightarrow> (world, credential) io" where
  "pr_create_credential actor name reg username token =
     (if trim_space name = [] \<or> trim_space username = [] \<or> trim_space token = []
      then fail (err_invalid ''credential name, username, and token are required'')
      else if reg \<noteq> RegistryGHCR \<and> reg \<noteq> RegistryDockerHub then fail (err_invalid ''registry must be ghcr or dockerhub'')
      else io_wrap ''create credential'' (db_credentials_create \<lparr>c_id = 0, c_name = name, c_registry = reg, c_username = username,
        c_token = token, c_by = Some (u_id actor), c_created = 0\<rparr>))"

definition pr_delete_credential :: "uuid \<Rightarrow> (world, unit) io" where
  "pr_delete_credential i = io_wrap ''delete credential'' (db_credentials_delete i)"

definition pr_notifications :: "user \<Rightarrow> uuid option \<Rightarrow> uuid option \<Rightarrow> nat \<Rightarrow> (world, notification list) io" where
  "pr_notifications actor proj before limit =
     io_wrap ''list notifications'' (db_notifications_list (u_id actor) (is_admin actor) proj before limit)"

definition pr_mark_seen :: "user \<Rightarrow> uuid list \<Rightarrow> (world, unit) io" where
  "pr_mark_seen actor ids = io_wrap ''mark notifications seen'' (db_mark_seen (u_id actor) (is_admin actor) ids)"

definition pr_mark_unseen :: "access \<Rightarrow> uuid \<Rightarrow> (world, unit) io" where
  "pr_mark_unseen acc i = io_wrap ''mark notification unseen'' (db_mark_unseen i (acc_user acc))"

section \<open>The last owner\<close>

lemma wp_queryI:
  assumes "\<And>fs rows. rows = q (w\<lparr>faults := fs\<rparr>) \<Longrightarrow> Q rows (w\<lparr>faults := fs\<rparr>)" "\<And>e fs. E e (w\<lparr>faults := fs\<rparr>)"
  shows "wp (query_many oper q) Q E w"
  unfolding query_many_def using assms by (intro wp_db_callI) (simp_all add: wp_simps)

lemma wp_query_oneI:
  assumes "\<And>fs r. q (w\<lparr>faults := fs\<rparr>) = [r] \<Longrightarrow> Q r (w\<lparr>faults := fs\<rparr>)" "\<And>e fs. E e (w\<lparr>faults := fs\<rparr>)"
  shows "wp (query_one oper q) Q E w"
  unfolding query_one_def using assms by (intro wp_db_callI) (simp_all add: wp_simps split: list.split)

definition member_key :: "member \<Rightarrow> uuid \<times> uuid" where
  "member_key m = (m_project m, m_user m)"

text \<open>A project's owners that are users; the rows are unique, as the table's primary key.\<close>

definition owners :: "uuid \<Rightarrow> world \<Rightarrow> member list" where
  "owners p w = filter (\<lambda>m. m_project m = p \<and> m_role m = ProjectRoleOwner \<and> rows_has u_id (m_user m) (users w)) (members w)"

definition owned :: "uuid \<Rightarrow> world \<Rightarrow> bool" where
  "owned p w \<longleftrightarrow> unique_key member_key (members w) \<and> owners p w \<noteq> []"

lemma owned_simps [simp]: "owned p (w\<lparr>faults := fs\<rparr>) = owned p w" "owners p (w\<lparr>faults := fs\<rparr>) = owners p w"
  by (simp_all add: owned_def owners_def)

lemma with_user_simps [simp]: "m_user (with_user w m) = m_user m" "m_role (with_user w m) = m_role m" "m_project (with_user w m) = m_project m"
  by (simp_all add: with_user_def split: list.split)

definition member_rows :: "uuid \<Rightarrow> world \<Rightarrow> member list" where
  "member_rows p w = sort_key (\<lambda>m. x_collate (ext w) (m_username m))
     (map (with_user w) (filter (\<lambda>m. m_project m = p \<and> joined w (m_user m)) (members w)))"

lemma listed_owners:
  "m_user ` set (filter (\<lambda>m. m_role m = ProjectRoleOwner) (member_rows p w)) = m_user ` set (owners p w)"
  "length (filter (\<lambda>m. m_role m = ProjectRoleOwner) (member_rows p w)) = length (owners p w)"
proof -
  have "mset (filter (\<lambda>m. m_role m = ProjectRoleOwner) (member_rows p w)) =
    filter_mset (\<lambda>m. m_role m = ProjectRoleOwner) (image_mset (with_user w) (mset (filter (\<lambda>m. m_project m = p \<and> joined w (m_user m)) (members w))))"
    by (simp add: member_rows_def)
  also have "\<dots> = image_mset (with_user w) (mset (owners p w))"
    by (simp add: owners_def joined_def filter_mset_image_mset filter_filter_mset conj_ac)
  finally have eq: "mset (filter (\<lambda>m. m_role m = ProjectRoleOwner) (member_rows p w)) = mset (map (with_user w) (owners p w))"
    by simp
  then show "length (filter (\<lambda>m. m_role m = ProjectRoleOwner) (member_rows p w)) = length (owners p w)"
    by (metis length_map size_mset)
  from eq have "set (filter (\<lambda>m. m_role m = ProjectRoleOwner) (member_rows p w)) = set (map (with_user w) (owners p w))"
    by (metis set_mset_mset)
  then show "m_user ` set (filter (\<lambda>m. m_role m = ProjectRoleOwner) (member_rows p w)) = m_user ` set (owners p w)"
    by (simp add: image_image)
qed


lemma wp_keep_owner:
  assumes "\<And>fs. length (owners (p_id p) w) \<noteq> 1 \<or> u \<notin> m_user ` set (owners (p_id p) w) \<Longrightarrow> Q () (w\<lparr>faults := fs\<rparr>)"
    "\<And>e fs. E e (w\<lparr>faults := fs\<rparr>)"
  shows "wp (keep_owner p u) Q E w"
proof -
  let ?os = "filter (\<lambda>m. m_role m = ProjectRoleOwner) (member_rows (p_id p) w)"
  have "Q () (w\<lparr>faults := fs\<rparr>)" if "\<And>m. ?os = [m] \<Longrightarrow> m_user m \<noteq> u" for fs
  proof (rule assms(1))
    show "length (owners (p_id p) w) \<noteq> 1 \<or> u \<notin> m_user ` set (owners (p_id p) w)"
    proof (rule ccontr)
      assume "\<not> ?thesis"
      then have "length ?os = 1" "u \<in> m_user ` set ?os" using listed_owners [of "p_id p" w] by auto
      then obtain m where "?os = [m]" by (metis One_nat_def length_0_conv length_Suc_conv)
      with that \<open>u \<in> m_user ` set ?os\<close> show False by auto
    qed
  qed
  moreover have "member_rows (p_id p) w = sort_key (\<lambda>m. x_collate (ext w) (m_username m))
      (map (with_user (w\<lparr>faults := fs\<rparr>)) (filter (\<lambda>m. m_project m = p_id p \<and> joined (w\<lparr>faults := fs\<rparr>) (m_user m)) (members w)))" for fs
    by (simp add: member_rows_def joined_def with_user_def [abs_def])
  ultimately show ?thesis
    unfolding keep_owner_def db_list_members_def
    by (auto simp: wp_simps assms(2) split: list.split intro!: wp_queryI)
qed

lemma owners_removed: "owners p (w\<lparr>members := rows_del member_key k ms\<rparr>) = rows_del member_key k (owners p (w\<lparr>members := ms\<rparr>))"
  by (auto simp: owners_def rows_del_def intro!: filter_cong)

lemma owned_after_remove:
  assumes "owned p w" "q \<noteq> p \<or> length (owners p w) \<noteq> 1 \<or> u \<notin> m_user ` set (owners p w)"
  shows "owned p (w\<lparr>members := rows_del member_key (q, u) (members w)\<rparr>)"
proof -
  have dist: "distinct (map member_key (owners p w))"
    using assms(1) by (auto simp: owned_def owners_def unique_key_def distinct_map_filter)
  have "\<exists>m \<in> set (owners p w). member_key m \<noteq> (q, u)"
  proof (rule ccontr)
    assume "\<not> ?thesis"
    then have all: "\<forall>m \<in> set (owners p w). member_key m = (q, u)" by blast
    obtain m ms where m: "owners p w = m # ms" using assms(1) by (cases "owners p w") (auto simp: owned_def)
    with all dist have "ms = []" by (cases ms) auto
    moreover have "m \<in> set (owners p w)" using m by simp
    then have "m_project m = p" by (simp add: owners_def)
    ultimately show False using assms(2) m all by (auto simp: member_key_def)
  qed
  then have "rows_del member_key (q, u) (owners p w) \<noteq> []" by (auto simp: rows_del_def filter_empty_conv)
  then show ?thesis
    using assms(1) owners_removed [where w = w and p = p and k = "(q, u)" and ms = "members w"]
      unique_key_del [where key = member_key and k' = member_key and v = "(q, u)"]
    by (simp add: owned_def)
qed


lemma owned_after_add:
  assumes "owned p w" "m_role m = ProjectRoleOwner \<or> m_project m \<noteq> p \<or> length (owners p w) \<noteq> 1 \<or> m_user m \<notin> m_user ` set (owners p w)"
  shows "owned p (w\<lparr>members := rows_upsert member_key (\<lambda>r. r\<lparr>m_role := m_role m\<rparr>) (m\<lparr>m_created := t\<rparr>) (members w)\<rparr>)"
proof -
  let ?ms = "rows_upsert member_key (\<lambda>r. r\<lparr>m_role := m_role m\<rparr>) (m\<lparr>m_created := t\<rparr>) (members w)"
  have keys: "member_key (r\<lparr>m_role := x\<rparr>) = member_key r" "member_key (r\<lparr>m_created := t\<rparr>) = member_key r" for r x
    by (simp_all add: member_key_def)
  have "unique_key member_key ?ms"
    using assms(1) by (intro unique_key_upsert) (simp_all add: owned_def keys)
  moreover have "\<exists>o' \<in> set ?ms. m_project o' = p \<and> m_role o' = ProjectRoleOwner \<and> rows_has u_id (m_user o') (users w)"
  proof -
    have "\<exists>o' \<in> set (owners p w). m_role m = ProjectRoleOwner \<or> member_key o' \<noteq> member_key m"
    proof (cases "m_role m = ProjectRoleOwner")
      case True
      then show ?thesis using assms(1) by (cases "owners p w") (auto simp: owned_def)
    next
      case False
      from owned_after_remove [OF assms(1), of "m_project m" "m_user m"] assms(2) False
      have "rows_del member_key (m_project m, m_user m) (owners p w) \<noteq> []"
        using owners_removed [where w = w and p = p and k = "(m_project m, m_user m)" and ms = "members w"] by (auto simp: owned_def)
      then show ?thesis by (auto simp: rows_del_def filter_empty_conv member_key_def)
    qed
    then obtain o' where o': "o' \<in> set (members w)" "m_project o' = p" "m_role o' = ProjectRoleOwner"
      "rows_has u_id (m_user o') (users w)" "m_role m = ProjectRoleOwner \<or> member_key o' \<noteq> member_key m"
      by (auto simp: owners_def)
    show ?thesis
    proof (cases "member_key o' = member_key m")
      case True
      then have "rows_has member_key (member_key m) (members w)" using o'(1) by (metis imageI rows_has_iff)
      moreover have "o' = o'\<lparr>m_role := m_role m\<rparr>" using o' True by simp
      ultimately have "o' \<in> set ?ms" using o'(1) True
        in_rows_upd [OF o'(1), of member_key "member_key m" "\<lambda>r. r\<lparr>m_role := m_role m\<rparr>"]
        by (simp add: rows_upsert_def keys)
      then show ?thesis using o' by blast
    next
      case False
      then show ?thesis using o' by (intro bexI [of _ o']) (auto simp: rows_upsert_def keys set_rows_upd image_iff)
    qed
  qed
  ultimately show ?thesis by (auto simp: owned_def owners_def filter_empty_conv)
qed

datatype member_op = AddMember string uuid project_role | RemoveMember string uuid

fun member_step :: "member_op \<Rightarrow> world \<Rightarrow> world" where
  "member_step (AddMember slug u r) w = snd (pr_add_member slug u r w)"
| "member_step (RemoveMember slug u) w = snd (pr_remove_member slug u w)"

lemma get_project_wpI:
  assumes "\<And>fs q. q \<in> set (projects w) \<Longrightarrow> p_slug q = slug \<Longrightarrow> Q q (w\<lparr>faults := fs\<rparr>)" "\<And>e fs. E e (w\<lparr>faults := fs\<rparr>)"
  shows "wp (get_project slug) Q E w"
proof -
  have "E e w" for e using assms(2) [of e "faults w"] by simp
  moreover have "q \<in> set (projects w) \<and> p_slug q = slug" if "rows_with p_slug slug (projects w) = [q]" for q
    using arg_cong [OF that, of set] by auto
  ultimately show ?thesis
    unfolding get_project_def db_projects_by_slug_def using assms
    by (auto simp: wp_simps split: option.split intro!: wp_query_oneI)
qed

lemma owned_remove_step: "owned p w \<Longrightarrow> owned p (snd (pr_remove_member slug u w))"
proof -
  assume ok: "owned p w"
  have key: "(\<lambda>m. (m_project m, m_user m)) = member_key" by (simp add: fun_eq_iff member_key_def)
  have step: "owned p (w\<lparr>faults := fs, members := rows_del member_key (q, u) (members w)\<rparr>)"
    if "length (owners q w) \<noteq> 1 \<or> u \<notin> m_user ` set (owners q w)" for fs q
    using owned_after_remove [of p "w\<lparr>faults := fs\<rparr>" q u] ok that by auto
  have "wp (pr_remove_member slug u) (\<lambda>_. owned p) (\<lambda>_. owned p) w"
    unfolding pr_remove_member_def wp_bind wp_wrap db_remove_member_def exec_row_def key
    using ok by (intro get_project_wpI wp_keep_owner wp_db_callI) (auto simp: wp_simps intro!: step)
  then show ?thesis by (simp add: wp_def split: prod.splits sum.splits)
qed


lemma owned_add_step: "owned p w \<Longrightarrow> owned p (snd (pr_add_member slug u r w))"
proof -
  assume ok: "owned p w"
  have key: "(\<lambda>m. (m_project m, m_user m)) = member_key" by (simp add: fun_eq_iff member_key_def)
  have new: "m_role (new_member q u r) = r" "m_user (new_member q u r) = u" "m_project (new_member q u r) = q" for q
    by (simp_all add: new_member_def)
  have step: "owned p (w\<lparr>faults := fs, members := rows_upsert member_key (\<lambda>x. x\<lparr>m_role := r\<rparr>)
        ((new_member q u r)\<lparr>m_created := t\<rparr>) (members w)\<rparr>)"
    if "r = ProjectRoleOwner \<or> length (owners q w) \<noteq> 1 \<or> u \<notin> m_user ` set (owners q w)" for fs q t
    using owned_after_add [of p "w\<lparr>faults := fs\<rparr>" "new_member q u r" t] ok that by (auto simp: new)
  have "wp (pr_add_member slug u r) (\<lambda>_. owned p) (\<lambda>_. owned p) w"
  proof (cases "role_rank r = 0")
    case True
    then show ?thesis using ok by (simp add: pr_add_member_def wp_simps)
  next
    case False
    have add: "wp (db_add_member (new_member (p_id q) u r)) (\<lambda>_. owned p) (\<lambda>_. owned p) (w\<lparr>faults := fs\<rparr>)"
      if "r = ProjectRoleOwner \<or> length (owners (p_id q) w) \<noteq> 1 \<or> u \<notin> m_user ` set (owners (p_id q) w)" for q fs
      unfolding db_add_member_def key
      using ok that by (intro wp_db_callI) (auto simp: wp_simps new split: option.split intro!: step)
    show ?thesis
    proof (cases "r = ProjectRoleOwner")
      case True
      note add1 = add [OF disjI1, OF True, unfolded True]
      show ?thesis using False ok unfolding pr_add_member_def wp_bind wp_wrap wp_if True
        by (auto simp: wp_simps intro!: get_project_wpI add1)
    next
      case notowner: False
      then show ?thesis using False ok unfolding pr_add_member_def wp_bind wp_wrap wp_if
        by (auto intro!: get_project_wpI wp_keep_owner add)
    qed
  qed
  then show ?thesis by (simp add: wp_def split: prod.splits sum.splits)
qed

interpretation owner_inv: invariant_steps member_step "owned p" for p
proof
  fix w x assume "owned p w"
  then show "owned p (member_step x w)"
    by (cases x) (simp_all add: owned_add_step owned_remove_step)
qed



definition demo_project :: project where
  "demo_project = \<lparr>p_id = 1, p_slug = ''p'', p_name = ''P'', p_credential = None, p_image = [], p_port = 80, p_env = [(''K'', ''v'')],
     p_form = FormFactorWeb, p_by = None, p_created = 0, p_updated = 0\<rparr>"

definition demo_task :: task where
  "demo_task = \<lparr>t_id = 2, t_project = 1, t_name = ''t'', t_description = [], t_note = [], t_image = ''nginx'',
     t_status = StatusStopped, t_dev = DevInProgress, t_form = FormFactorWeb, t_password = [], t_port = 80,
     t_container = [], t_ip = [], t_labels = [], t_env = [], t_volumes = [], t_routes = [], t_assignees = [],
     t_build = zero_build, t_revision = zero_revision, t_pending = False, t_error = [], t_created = 0, t_updated = 0\<rparr>"

definition demo_boss :: user where
  "demo_boss = demo_user\<lparr>u_id := 8, u_username := ''bob'', u_email := ''bob@x''\<rparr>"

definition demo_team :: world where
  "demo_team = demo_world\<lparr>users := [demo_user, demo_boss], projects := [demo_project], tasks := [demo_task],
     members := [new_member 1 8 ProjectRoleOwner]\<rparr>"

lemma demo_team_simps [simp]: "users demo_team = [demo_user, demo_boss]" "projects demo_team = [demo_project]"
  "tasks demo_team = [demo_task]" "members demo_team = [new_member 1 8 ProjectRoleOwner]" "faults demo_team = []"
  "grants demo_team = []" "ext demo_team = demo_ext"
  by (simp_all add: demo_team_def demo_world_def)

definition demo_member_ops :: "member_op list" where
  "demo_member_ops = [RemoveMember ''p'' 8, AddMember ''p'' 8 ProjectRoleViewer, AddMember ''p'' 7 ProjectRoleOwner, RemoveMember ''p'' 8]"

lemma demo_ops_run: "map m_user (members (run_ops member_step demo_member_ops demo_team)) = [7]"
  by code_simp


section \<open>Access\<close>

text \<open>A user's own role in a project and a grant's role on a task, read from the tables.\<close>

definition role_in :: "uuid \<Rightarrow> uuid \<Rightarrow> world \<Rightarrow> project_role option" where
  "role_in p u w = (case member_of p u (members w) of [] \<Rightarrow> None | m # _ \<Rightarrow> Some (m_role m))"

definition role_on :: "uuid \<Rightarrow> string \<Rightarrow> uuid \<Rightarrow> world \<Rightarrow> project_role" where
  "role_on p name u w = (case filter (\<lambda>g. g_user g = u \<and>
      list_ex (\<lambda>t. t_id t = g_task g \<and> t_project t = p \<and> t_name t = name) (tasks w)) (grants w) of [] \<Rightarrow> no_role | g # _ \<Rightarrow> g_role g)"

text \<open>The keys of the schema, and the role checks on members and grants.\<close>

definition team_ok :: "world \<Rightarrow> bool" where
  "team_ok w \<longleftrightarrow> faults w = [] \<and> unique_key u_id (users w) \<and> unique_key p_slug (projects w) \<and> unique_key p_id (projects w) \<and>
     unique_key t_id (tasks w) \<and> unique_key (\<lambda>t. (t_project t, t_name t)) (tasks w) \<and>
     unique_key (\<lambda>m. (m_project m, m_user m)) (members w) \<and> unique_key (\<lambda>g. (g_task g, g_user g)) (grants w) \<and>
     (\<forall>m \<in> set (members w). 1 \<le> role_rank (m_role m) \<and> m_user m \<in> u_id ` set (users w)) \<and>
     (\<forall>g \<in> set (grants w). 1 \<le> role_rank (g_role g) \<and> role_rank (g_role g) \<le> 3) \<and>
     (\<forall>t \<in> set (tasks w). match_task_name (t_name t)) \<and>
     (\<forall>p \<in> set (projects w). validate_project_slug (p_slug p) = None)"

lemma get_project_run:
  assumes "faults w = []" "unique_key p_slug (projects w)" "p \<in> set (projects w)" "validate_project_slug (p_slug p) = None"
  shows "get_project (p_slug p) w = (Inr p, w)"
  using rows_mem [OF assms(2,3)] assms
  by (simp add: get_project_def io_defs db_projects_by_slug_def query_one_fail del: validate_project_slug_None)

lemma get_member_run:
  assumes "team_ok w"
  shows "db_get_member p u w = (case member_of p u (members w) of [] \<Rightarrow> (Inl (err_sentinel ErrNotFound), w)
     | m # _ \<Rightarrow> (Inr (with_user w m), w))"
proof -
  have "filter (\<lambda>m. joined w (m_user m)) (member_of p u (members w)) = member_of p u (members w)"
    using assms by (intro filter_True) (auto simp: member_of_def joined_def rows_has_iff team_ok_def)
  moreover have "member_of p u (members w) = [] \<or> (\<exists>m. member_of p u (members w) = [m])"
    unfolding member_of_def using assms by (intro rows_opt) (simp add: team_ok_def)
  ultimately show ?thesis
    using assms by (auto simp: db_get_member_def query_one_fail team_ok_def)
qed

lemma grant_rows_one:
  assumes "team_ok w"
  shows "filter (\<lambda>g. g_user g = u \<and> list_ex (\<lambda>t. t_id t = g_task g \<and> t_project t = p \<and> t_name t = name) (tasks w)) (grants w) =
    (case task_named p name (tasks w) of [] \<Rightarrow> [] | t # _ \<Rightarrow> rows_with (\<lambda>g. (g_task g, g_user g)) (t_id t, u) (grants w))"
proof -
  have opt: "task_named p name (tasks w) = [] \<or> (\<exists>t. task_named p name (tasks w) = [t])"
    unfolding task_named_def using assms by (intro rows_opt) (simp add: team_ok_def)
  have mem: "(\<exists>t \<in> set (tasks w). t_id t = i \<and> t_project t = p \<and> t_name t = name) \<longleftrightarrow> (\<exists>t \<in> set (task_named p name (tasks w)). t_id t = i)" for i
    by (auto simp: task_named_def)
  from opt show ?thesis
    by (elim disjE exE) (auto simp: list_ex_iff mem rows_with_def intro!: filter_cong)
qed


lemma task_named_of: "team_ok w \<Longrightarrow> t \<in> set (tasks w) \<Longrightarrow> task_named (t_project t) (t_name t) (tasks w) = [t]"
  unfolding task_named_def team_ok_def using rows_mem [of "\<lambda>t. (t_project t, t_name t)" "tasks w" t] by simp

lemma grants_role_run:
  assumes "team_ok w"
  shows "db_grants_role p u name w = (Inr (role_on p name u w), w)"
proof -
  have "rows_with (\<lambda>g. (g_task g, g_user g)) k (grants w) = [] \<or> (\<exists>g. rows_with (\<lambda>g. (g_task g, g_user g)) k (grants w) = [g])" for k
    using assms by (intro rows_opt) (simp add: team_ok_def)
  then have "filter (\<lambda>g. g_user g = u \<and> list_ex (\<lambda>t. t_id t = g_task g \<and> t_project t = p \<and> t_name t = name) (tasks w)) (grants w) = [] \<or>
      (\<exists>g. filter (\<lambda>g. g_user g = u \<and> list_ex (\<lambda>t. t_id t = g_task g \<and> t_project t = p \<and> t_name t = name) (tasks w)) (grants w) = [g])"
    unfolding grant_rows_one [OF assms] by (simp split: list.split)
  then show ?thesis
    using assms by (auto simp: db_grants_role_def role_on_def io_defs query_one_fail team_ok_def)
qed

definition role_or_none :: "project_role option \<Rightarrow> project_role" where
  "role_or_none r = (case r of None \<Rightarrow> no_role | Some r \<Rightarrow> r)"

lemma pr_access_run:
  assumes "team_ok w" "p \<in> set (projects w)"
  shows "pr_access actor (p_slug p) name w = (let u = u_id actor; own = role_in (p_id p) u w;
      via = (if name \<noteq> [] then role_on (p_id p) name u w else if granted_in (p_id p) u w then ProjectRoleViewer else no_role);
      r = role_max (role_or_none own) via in
    if is_admin actor then (Inr \<lparr>acc_project = p, acc_user = u, acc_role = ProjectRoleOwner, acc_all = True\<rparr>, w)
    else if r = no_role then (Inl (err_sentinel ErrNotFound), w)
    else (Inr \<lparr>acc_project = p, acc_user = u, acc_role = r, acc_all = own \<noteq> None\<rparr>, w))"
proof -
  have ok: "faults w = []" "unique_key p_slug (projects w)" "validate_project_slug (p_slug p) = None"
    using assms unfolding team_ok_def by blast+
  have granted: "granted_role (p_id p) (u_id actor) name w =
      (Inr (if name \<noteq> [] then role_on (p_id p) name (u_id actor) w
        else if granted_in (p_id p) (u_id actor) w then ProjectRoleViewer else no_role), w)"
    by (simp add: granted_role_def io_defs grants_role_run [OF assms(1)] db_grants_any_def db_call_healthy [OF ok(1)])
  show ?thesis
    unfolding pr_access_def Let_def
    by (cases "member_of (p_id p) (u_id actor) (members w)")
      (simp_all add: io_bind_def get_project_run [OF ok(1,2) assms(2) ok(3)] ret_def fail_def io_try_def get_member_run [OF assms(1)]
        granted role_in_def role_or_none_def)
qed



end
