(* ===== verification/Notify.thy ===== *)
theory Notify
  imports Projects
begin

text \<open>
  Delivering a notification: the notifier of cmd/boreas/main.go, push over FCM
  (internal/infra/fcm) and the team's Apprise service (internal/infra/apprise). The posts of one
  send run eight at a time; they are in the order of the tokens here, and only the set of those
  FCM has forgotten matters.
\<close>

section \<open>Push messages\<close>

fun notification_status_str :: "notification_status \<Rightarrow> string" where
  "notification_status_str NotificationSuccess = ''success''"
| "notification_status_str NotificationFailure = ''failure''"
| "notification_status_str NotificationInfo = ''info''"

definition push_ttl :: int where "push_ttl = 86400"
definition max_push_body :: nat where "max_push_body = 1000"

definition push_message_for :: "string \<Rightarrow> notification \<Rightarrow> time \<Rightarrow> push_message" where
  "push_message_for token n t = (let urgent = (n_status n = NotificationFailure) in
     \<lparr>pm_token = token, pm_title = n_title n, pm_body = concat (take max_push_body (runes (n_body n))),
      pm_type = notification_status_str (n_status n), pm_android = (if urgent then ''HIGH'' else ''NORMAL''),
      pm_android_ttl = int_str push_ttl @ ''s'', pm_apns_priority = (if urgent then ''10'' else ''5''),
      pm_apns_expiration = int_str (unix t + push_ttl), pm_web_ttl = int_str push_ttl,
      pm_urgency = (if urgent then ''high'' else ''normal'')\<rparr>)"

lemma push_token [simp]: "pm_token (push_message_for k n t) = k"
  by (simp add: push_message_for_def Let_def)

text \<open>The error FCM answers: per detail its code and the fields it blames.\<close>

record fcm_status =
  fs_message :: string
  fs_details :: "(string \<times> string list) list"

definition forgotten :: "fcm_status \<Rightarrow> bool" where
  "forgotten st \<longleftrightarrow> list_ex (\<lambda>(code, fields). code = ''UNREGISTERED'' \<or> code = ''SENDER_ID_MISMATCH'' \<or> ''message.token'' \<in> set fields)
     (fs_details st)"

text \<open>Whether push is set up, the reading of an error's JSON, and the address of the team's service.\<close>

record notifiers =
  nt_push :: bool
  nt_status :: "string \<Rightarrow> fcm_status"
  nt_team :: string

text \<open>\<open>post\<close>: whether FCM has forgotten the token; \<open>Some False\<close> is a delivery.\<close>

definition fcm_post :: "notifiers \<Rightarrow> string \<Rightarrow> notification \<Rightarrow> (world, bool option) io" where
  "fcm_post nt token n = io_bind (io_get now) (\<lambda>t. io_bind (p_call (PushPost (push_message_for token n t))) (\<lambda>r. ret (case r of
       NoReply _ \<Rightarrow> None
     | HttpReply st _ content \<Rightarrow> if st = 200 then Some False else if forgotten (nt_status nt content) then Some True else None)))"

fun fcm_posts :: "notifiers \<Rightarrow> notification \<Rightarrow> string list \<Rightarrow> (world, string list) io" where
  "fcm_posts nt n [] = ret []"
| "fcm_posts nt n (k # ks) = io_bind (fcm_post nt k n) (\<lambda>r. io_bind (fcm_posts nt n ks) (\<lambda>gone.
     ret (if r = Some True then k # gone else gone)))"

definition fcm_send :: "notifiers \<Rightarrow> notification \<Rightarrow> (world, unit) io" where
  "fcm_send nt n = (if \<not> nt_push nt then ret () else io_bind (db_push_tokens n) (\<lambda>ks. io_bind (fcm_posts nt n ks) (\<lambda>gone.
     if gone \<noteq> [] then db_push_delete_tokens gone else ret ())))"

section \<open>The team\<close>

definition team_send :: "notifiers \<Rightarrow> notification \<Rightarrow> (world, unit) io" where
  "team_send nt n = (if nt_team nt = [] \<or> n_user n \<noteq> None then ret ()
     else io_bind (p_call (TeamPost (nt_team nt) (n_title n) (n_body n) (notification_status_str (n_status n)))) (\<lambda>r. case r of
         NoReply e \<Rightarrow> fail (err_wrap ''post notification'' (err_new e))
       | HttpReply st _ _ \<Rightarrow> if st \<ge> 300 then fail (err_new (''post notification: '' @ nat_str st)) else ret ()))"

section \<open>The notifier\<close>

text \<open>What the goroutine of one notification does; its errors go to the log.\<close>

definition deliver :: "notifiers \<Rightarrow> notification \<Rightarrow> (world, unit) io" where
  "deliver nt n = io_bind (io_try (db_notifications_create n)) (\<lambda>_. io_bind publish_events (\<lambda>_.
     io_bind (io_try (fcm_send nt n)) (\<lambda>_. io_bind (io_try (team_send nt n)) (\<lambda>_. ret ()))))"

text \<open>The scheduler runs any of the notifications waiting.\<close>

definition deliver_waiting :: "notifiers \<Rightarrow> nat \<Rightarrow> (world, unit) io" where
  "deliver_waiting nt i = io_bind (io_get outbox) (\<lambda>ns. if i < length ns
     then io_bind (io_mod (\<lambda>w. w\<lparr>outbox := take i ns @ drop (Suc i) ns\<rparr>)) (\<lambda>_. deliver nt (ns ! i)) else ret ())"

section \<open>Who is reached\<close>

definition pushes :: "notification \<Rightarrow> time \<Rightarrow> string list \<Rightarrow> post_call list" where
  "pushes n t ks = map (\<lambda>k. PushPost (push_message_for k n t)) ks"

text \<open>The tokens FCM answers it has forgotten, each post seeing the posts before it.\<close>

fun gone_tokens :: "notifiers \<Rightarrow> (post_call list \<Rightarrow> http_reply) \<Rightarrow> notification \<Rightarrow> time \<Rightarrow> post_call list \<Rightarrow> string list \<Rightarrow> string list" where
  "gone_tokens nt answer n t h [] = []"
| "gone_tokens nt answer n t h (k # ks) = (let h' = h @ [PushPost (push_message_for k n t)]; rest = gone_tokens nt answer n t h' ks in
     case answer h' of HttpReply st _ content \<Rightarrow> if st \<noteq> 200 \<and> forgotten (nt_status nt content) then k # rest else rest | NoReply _ \<Rightarrow> rest)"

lemma gone_subset: "set (gone_tokens nt answer n t h ks) \<subseteq> set ks"
  by (induction ks arbitrary: h) (auto simp: Let_def split: http_reply.splits if_splits)

lemma fcm_posts_run: "fcm_posts nt n ks w = (Inr (gone_tokens nt (poster w) n (now w) (plog w) ks), w\<lparr>plog := plog w @ pushes n (now w) ks\<rparr>)"
proof (induction ks arbitrary: w)
  case Nil
  then show ?case by (simp add: ret_def pushes_def)
next
  case (Cons k ks)
  show ?case
    by (simp add: io_defs fcm_post_def p_call_def Let_def Cons pushes_def split: http_reply.split)
qed

lemma created_run:
  assumes "faults w = []" "x_uuid (ext w) (seed w) \<notin> n_id ` set (notifications w)" "n_project n \<in> p_id ` set (projects w)" "user_ref (n_user n) w"
  shows "db_notifications_create n w = (Inr (n\<lparr>n_id := x_uuid (ext w) (seed w), n_created := now w\<rparr>),
    w\<lparr>seed := Suc (seed w), notifications := notifications w @ [n\<lparr>n_id := x_uuid (ext w) (seed w), n_created := now w\<rparr>]\<rparr>)"
  using assms by (cases "n_user n") (simp_all add: db_notifications_create_def db_call_healthy fresh_id_def io_defs Let_def constraint_def rows_has_iff user_ref_def)

text \<open>The devices a push goes to, and the team's post.\<close>

definition devices :: "notification \<Rightarrow> world \<Rightarrow> string list" where
  "devices n w = map fst (filter (\<lambda>(k, i). list_ex (push_reaches w n) (rows_with u_id i (users w))) (push w))"

definition team_posts :: "notifiers \<Rightarrow> notification \<Rightarrow> post_call list" where
  "team_posts nt n = (if nt_team nt = [] \<or> n_user n \<noteq> None then []
     else [TeamPost (nt_team nt) (n_title n) (n_body n) (notification_status_str (n_status n))])"

lemma fcm_send_run:
  assumes "faults w = []"
  shows "let ks = devices n w; gone = gone_tokens nt (poster w) n (now w) (plog w) ks in
    fcm_send nt n w = (Inr (), if nt_push nt then w\<lparr>plog := plog w @ pushes n (now w) ks, push := filter (\<lambda>(k, _). k \<notin> set gone) (push w)\<rparr> else w)"
proof -
  have tokens: "db_push_tokens n w = (Inr (devices n w), w)"
    using assms by (simp add: db_push_tokens_def query_many_def db_call_healthy io_get_def devices_def)
  show ?thesis
    using assms by (cases "gone_tokens nt (poster w) n (now w) (plog w) (devices n w)")
      (simp_all add: fcm_send_def io_defs tokens fcm_posts_run db_push_delete_tokens_def exec_any_def db_call_healthy Let_def)
qed

lemma team_send_run: "snd (team_send nt n w) = w\<lparr>plog := plog w @ team_posts nt n\<rparr>"
  by (simp add: team_send_def team_posts_def io_defs p_call_def Let_def split: http_reply.split)

lemma team_sendD: "team_send nt n w = (r, w') \<Longrightarrow> w' = w\<lparr>plog := plog w @ team_posts nt n\<rparr>"
  by (metis snd_conv team_send_run)

lemma deliver_run:
  fixes nt :: notifiers
  assumes "faults w = []" "x_uuid (ext w) (seed w) \<notin> n_id ` set (notifications w)" "n_project n \<in> p_id ` set (projects w)" "user_ref (n_user n) w"
  defines "row \<equiv> n\<lparr>n_id := x_uuid (ext w) (seed w), n_created := now w\<rparr>" and "ks \<equiv> devices n w"
  defines "gone \<equiv> gone_tokens nt (poster w) n (now w) (plog w) ks"
  shows "snd (deliver nt n w) = w\<lparr>seed := Suc (seed w), notifications := notifications w @ [row], hub := Option.bind (hub w) publish,
    plog := plog w @ (if nt_push nt then pushes n (now w) ks else []) @ team_posts nt n,
    push := (if nt_push nt then filter (\<lambda>(k, _). k \<notin> set gone) (push w) else push w)\<rparr>"
proof -
  let ?w2 = "w\<lparr>seed := Suc (seed w), notifications := notifications w @ [row], hub := Option.bind (hub w) publish\<rparr>"
  have same: "devices n ?w2 = ks"
    by (simp add: devices_def ks_def push_reaches_def [abs_def] granted_task_def)
  have send: "fcm_send nt n ?w2 = (Inr (), if nt_push nt then ?w2\<lparr>plog := plog w @ pushes n (now w) ks,
      push := filter (\<lambda>(k, _). k \<notin> set gone) (push w)\<rparr> else ?w2)"
    using fcm_send_run [of ?w2 n nt] assms(1) by (simp add: same gone_def Let_def)
  have split: "snd (io_bind (io_try m) f w) = snd (f (fst (m w)) (snd (m w)))" for m :: "(world, 'a) io" and f :: "goerr + 'a \<Rightarrow> (world, unit) io" and w
    by (simp add: io_bind_def io_try_def split: prod.splits)
  show ?thesis
    unfolding deliver_def split created_run [OF assms(1-4)]
    by (auto simp: io_bind_def publish_events_def io_mod_def io_try_def row_def [symmetric] send ret_def split: prod.splits
        dest!: team_sendD)
qed

lemma deliver_plog:
  assumes "faults w = []" "x_uuid (ext w) (seed w) \<notin> n_id ` set (notifications w)" "n_project n \<in> p_id ` set (projects w)" "user_ref (n_user n) w"
  shows "plog (snd (deliver nt n w)) = plog w @ (if nt_push nt then pushes n (now w) (devices n w) else []) @ team_posts nt n"
  by (simp add: deliver_run [OF assms])

lemma rows_with_mem: "unique_key u_id (users w) \<Longrightarrow> list_ex P (rows_with u_id i (users w)) \<longleftrightarrow> (\<exists>u \<in> set (users w). u_id u = i \<and> P u)"
  by (auto simp: list_ex_iff)

text \<open>
  C26: A notification reaches the devices of exactly those who can read it: once recorded, a push goes out
  for a token just when it belongs to a user, not disabled, whose feed shows the new row; the team's
  service gets it only when it is addressed to nobody.
\<close>

theorem push_matches_feed:
  assumes "faults w = []" "unique_key u_id (users w)" "x_uuid (ext w) (seed w) \<notin> n_id ` set (notifications w)"
    "n_project n \<in> p_id ` set (projects w)" "case n_user n of None \<Rightarrow> True | Some i \<Rightarrow> i \<in> u_id ` set (users w)"
    "nt_push nt" "snd (deliver nt n w) = w'"
  shows "\<exists>row new. notifications w' = notifications w @ [row] \<and> n_project row = n_project n \<and> n_task row = n_task n \<and>
    plog w' = plog w @ new \<and>
    (\<forall>token. (\<exists>m. PushPost m \<in> set new \<and> pm_token m = token) \<longleftrightarrow>
       (\<exists>u \<in> set (users w). (token, u_id u) \<in> set (push w) \<and> \<not> disabled u \<and> row \<in> set (select_notifications (u_id u) (is_admin u) w'))) \<and>
    (\<forall>url title content kind. TeamPost url title content kind \<in> set new \<longrightarrow> n_user n = None)"
proof -
  let ?row = "n\<lparr>n_id := x_uuid (ext w) (seed w), n_created := now w\<rparr>" and ?ks = "devices n w"
  have ref: "user_ref (n_user n) w" using assms(5) by (auto simp: user_ref_def rows_has_iff split: option.splits)
  note run = deliver_run [OF assms(1,3,4) ref, of nt, unfolded assms(7)]
  have new: "plog w' = plog w @ pushes n (now w) ?ks @ team_posts nt n" and rows: "notifications w' = notifications w @ [?row]"
    using assms(6) by (simp_all add: run)
  have readable: "?row \<in> set (select_notifications (u_id u) (is_admin u) w') \<longleftrightarrow> push_reaches w n u" if "\<not> disabled u" for u
    using that assms(4) by (auto simp: select_notifications_def rows rows_has_iff run visible_def push_reaches_def granted_task_def)
  have dev: "token \<in> set ?ks \<longleftrightarrow> (\<exists>u \<in> set (users w). (token, u_id u) \<in> set (push w) \<and> push_reaches w n u)" for token
    by (force simp: devices_def rows_with_mem [OF assms(2)])
  have "(\<exists>m. PushPost m \<in> set (pushes n (now w) ?ks @ team_posts nt n) \<and> pm_token m = token) \<longleftrightarrow> token \<in> set ?ks" for token
    by (auto simp: pushes_def team_posts_def)
  moreover have "push_reaches w n u \<longleftrightarrow> \<not> disabled u \<and> ?row \<in> set (select_notifications (u_id u) (is_admin u) w')" for u
    using readable [of u] by (auto simp: push_reaches_def)
  moreover have "n_user n = None" if "TeamPost url title content kind \<in> set (pushes n (now w) ?ks @ team_posts nt n)" for url title content kind
    using that by (auto simp: pushes_def team_posts_def split: if_splits)
  ultimately show ?thesis using new rows dev
    by (intro exI [of _ ?row] exI [of _ "pushes n (now w) ?ks @ team_posts nt n"]) simp
qed

definition demo_notifiers :: notifiers where
  "demo_notifiers = \<lparr>nt_push = True, nt_status = (\<lambda>s. \<lparr>fs_message = s, fs_details = [(s, [])]\<rparr>), nt_team = ''http://team''\<rparr>"

definition demo_phones :: world where
  "demo_phones = demo_team\<lparr>push := [(''a'', 7), (''b'', 8)], poster := (\<lambda>h. if length h = 1 then HttpReply 404 [] ''UNREGISTERED'' else HttpReply 200 [] [])\<rparr>"

definition demo_notice :: notification where
  "demo_notice = new_notification demo_project ''t'' NotificationDeployed ''Deploy'' ''done''"

lemma demo_phones_simps: "faults demo_phones = []" "users demo_phones = [demo_user, demo_boss]" "notifications demo_phones = []"
  "projects demo_phones = [demo_project]" "plog demo_phones = []" "push demo_phones = [(''a'', 7), (''b'', 8)]"
  by (simp_all add: demo_phones_def demo_team_def demo_world_def)

lemma demo_phones_ok: "faults demo_phones = []" "unique_key u_id (users demo_phones)" "nt_push demo_notifiers"
  "x_uuid (ext demo_phones) (seed demo_phones) \<notin> n_id ` set (notifications demo_phones)"
  "n_project demo_notice \<in> p_id ` set (projects demo_phones)"
  "case n_user demo_notice of None \<Rightarrow> True | Some i \<Rightarrow> i \<in> u_id ` set (users demo_phones)"
  by (simp_all add: demo_phones_simps unique_key_def demo_user_def demo_boss_def demo_notifiers_def demo_notice_def new_notification_def)

lemma demo_devices: "devices demo_notice demo_phones = [''b'']"
  by code_simp

theorem push_matches_feed_witness:
  "\<exists>row. (\<exists>m. PushPost m \<in> set (plog (snd (deliver demo_notifiers demo_notice demo_phones))) \<and> pm_token m = ''b'') \<and>
     row \<in> set (select_notifications 8 False (snd (deliver demo_notifiers demo_notice demo_phones)))"
proof -
  let ?w' = "snd (deliver demo_notifiers demo_notice demo_phones)"
  note empty = demo_phones_simps(5)
  obtain row new where new: "plog ?w' = plog demo_phones @ new" and iff: "\<And>token. (\<exists>m. PushPost m \<in> set new \<and> pm_token m = token) \<longleftrightarrow>
       (\<exists>u \<in> set (users demo_phones). (token, u_id u) \<in> set (push demo_phones) \<and> \<not> disabled u \<and> row \<in> set (select_notifications (u_id u) (is_admin u) ?w'))"
    using push_matches_feed [OF demo_phones_ok(1,2,4,5,6,3) refl] by blast
  have ref: "user_ref (n_user demo_notice) demo_phones" by (simp add: user_ref_def demo_notice_def new_notification_def)
  have "plog ?w' = plog demo_phones @ pushes demo_notice (now demo_phones) [''b''] @ team_posts demo_notifiers demo_notice"
    by (simp only: deliver_plog [OF demo_phones_ok(1,4,5) ref] demo_phones_ok(3) demo_devices if_True)
  then have "new = pushes demo_notice (now demo_phones) [''b''] @ team_posts demo_notifiers demo_notice"
    using new by (metis same_append_eq)
  then have post: "\<exists>m. PushPost m \<in> set new \<and> pm_token m = ''b''"
    by (auto simp: pushes_def)
  with iff [of "''b''"] obtain u where "u \<in> set (users demo_phones)" "(''b'', u_id u) \<in> set (push demo_phones)"
    "row \<in> set (select_notifications (u_id u) (is_admin u) ?w')" by blast
  then have "row \<in> set (select_notifications 8 False ?w')"
    by (auto simp: demo_phones_simps demo_user_def demo_boss_def is_admin_def)
  with post new empty show ?thesis by auto
qed

text \<open>
  Delivering forgets exactly the devices FCM has forgotten: the tokens taken from the store are those
  whose post was answered with an error that names them unregistered, of another sender or malformed;
  no other error, reply or silence removes one, and the users' other devices stay.
\<close>

lemma forgotten_pruned:
  assumes "faults w = []" "nt_push nt" "fcm_send nt n w = (r, w')"
  shows "r = Inr () \<and> (\<exists>ks. plog w' = plog w @ pushes n (now w) ks \<and>
    push w' = filter (\<lambda>(token, _). \<not> (\<exists>i < length ks. ks ! i = token \<and>
      (case poster w (plog w @ pushes n (now w) (take (Suc i) ks)) of NoReply _ \<Rightarrow> False
       | HttpReply st _ content \<Rightarrow> st \<noteq> 200 \<and> forgotten (nt_status nt content)))) (push w))"
proof -
  let ?ks = "devices n w"
  have gone: "token \<in> set (gone_tokens nt answer n t h ks) \<longleftrightarrow> (\<exists>i < length ks. ks ! i = token \<and>
      (case answer (h @ pushes n t (take (Suc i) ks)) of NoReply _ \<Rightarrow> False
       | HttpReply st _ content \<Rightarrow> st \<noteq> 200 \<and> forgotten (nt_status nt content)))" for token answer t h ks
  proof (induction ks arbitrary: h)
    case (Cons k ks)
    have idx: "(\<exists>i < Suc m. P i) \<longleftrightarrow> P 0 \<or> (\<exists>i < m. P (Suc i))" for m and P :: "nat \<Rightarrow> bool"
      by (auto simp: less_Suc_eq_0_disj)
    show ?case
      by (auto simp: idx Let_def Cons pushes_def split: http_reply.splits)
  qed simp
  have run: "fcm_send nt n w = (Inr (), w\<lparr>plog := plog w @ pushes n (now w) ?ks,
      push := filter (\<lambda>(k, _). k \<notin> set (gone_tokens nt (poster w) n (now w) (plog w) ?ks)) (push w)\<rparr>)"
    using fcm_send_run [OF assms(1), of n nt] assms(2) by (simp add: Let_def)
  with assms(3) have r: "r = Inr ()" and w': "w' = w\<lparr>plog := plog w @ pushes n (now w) ?ks,
      push := filter (\<lambda>(k, _). k \<notin> set (gone_tokens nt (poster w) n (now w) (plog w) ?ks)) (push w)\<rparr>"
    by simp_all
  show ?thesis unfolding r w' gone by (intro conjI refl exI [of _ ?ks]) simp_all
qed

lemma demo_pruning: "map fst (push (snd (fcm_send demo_notifiers demo_notice demo_phones))) = [''a'']"
proof -
  have "poster demo_phones = (\<lambda>h. if length h = 1 then HttpReply 404 [] ''UNREGISTERED'' else HttpReply 200 [] [])"
    by (simp add: demo_phones_def)
  then have "gone_tokens demo_notifiers (poster demo_phones) demo_notice (now demo_phones) (plog demo_phones) [''b''] = [''b'']"
    by (simp add: demo_phones_simps Let_def demo_notifiers_def forgotten_def)
  then show ?thesis
    using fcm_send_run [OF demo_phones_ok(1), of demo_notice demo_notifiers]
    by (simp add: demo_devices Let_def demo_phones_ok(3) demo_phones_simps)
qed

lemma forgotten_pruned_witness:
  "\<exists>ks. plog (snd (fcm_send demo_notifiers demo_notice demo_phones)) = pushes demo_notice (now demo_phones) ks \<and>
     map fst (push (snd (fcm_send demo_notifiers demo_notice demo_phones))) = [''a'']"
  using forgotten_pruned [OF demo_phones_ok(1,3) surjective_pairing, of demo_notice] demo_pruning
  by (auto simp: demo_phones_simps)

end
