(* ===== verification/Json.thy ===== *)
theory Json
  imports World "HOL-Library.AList"
begin

text \<open>
  Request bodies: JSON values and what encoding/json, with unknown fields refused, makes of an
  object for a Go struct. A struct type is a list of fields; each field has the name of its tag,
  and decodes a value onto what the field holds. The syntax of JSON text, which the standard
  library parses, is the parameter \<open>h_json\<close>, like the parsers of UUIDs and times.
\<close>

section \<open>Values\<close>

text \<open>A number is an integer literal or, as its text, one with a fraction or an exponent.\<close>

datatype json = JNull | JBool bool | JInt int | JFrac string | JStr string | JArr "json list"
  | JObj "(string \<times> json) list"

text \<open>
  \<open>h_json\<close>: the value of a text holding one JSON value and white space. \<open>h_json_time\<close> and
  \<open>h_rfc_time\<close> are \<open>time.Time\<close>'s \<open>UnmarshalJSON\<close> and \<open>time.Parse\<close> of RFC 3339; \<open>h_mime\<close> is
  \<open>http.DetectContentType\<close>.
\<close>

record http_lib =
  h_json :: "string \<Rightarrow> json option"
  h_uuid :: "string \<Rightarrow> uuid option"
  h_json_time :: "string \<Rightarrow> time option"
  h_rfc_time :: "string \<Rightarrow> time option"
  h_mime :: "string \<Rightarrow> string"

section \<open>Names\<close>

text \<open>
  Names match exactly or under case folding: letters fold to upper case, and the long s and the
  Kelvin sign fold to S and K.
\<close>

definition upper :: "char \<Rightarrow> char" where
  "upper c = (if is_lower c then char_of (c_nat c - 32) else c)"

fun fold_name :: "string \<Rightarrow> string" where
  "fold_name [] = []"
| "fold_name (c # cs) =
     (if c = CHR 0xC5 \<and> take 1 cs = [CHR 0xBF] then CHR ''S'' # fold_name (drop 1 cs)
      else if c = CHR 0xE2 \<and> take 2 cs = [CHR 0x84, CHR 0xAA] then CHR ''K'' # fold_name (drop 2 cs)
      else upper c # fold_name cs)"

section \<open>Fields\<close>

text \<open>A decoder: what the place holds and the value give what it holds next, or an error.\<close>

type_synonym 'v dec = "'v \<Rightarrow> json \<Rightarrow> 'v option"

type_synonym 'r field = "string \<times> 'r dec"

definition field :: "string \<Rightarrow> ('r \<Rightarrow> 'v) \<Rightarrow> (('v \<Rightarrow> 'v) \<Rightarrow> 'r \<Rightarrow> 'r) \<Rightarrow> 'v dec \<Rightarrow> 'r field" where
  "field name get upd d = (name, \<lambda>r j. map_option (\<lambda>v. upd (\<lambda>_. v) r) (d (get r) j))"

definition field_named :: "string \<Rightarrow> 'r field list \<Rightarrow> 'r field option" where
  "field_named k fs = (case List.find (\<lambda>f. fst f = k) fs of Some f \<Rightarrow> Some f
     | None \<Rightarrow> List.find (\<lambda>f. fold_name (fst f) = fold_name k) fs)"

fun decode_fields :: "'r field list \<Rightarrow> (string \<times> json) list \<Rightarrow> 'r \<Rightarrow> 'r option" where
  "decode_fields fs [] r = Some r"
| "decode_fields fs ((k, j) # kvs) r = (case field_named k fs of None \<Rightarrow> None
     | Some f \<Rightarrow> (case snd f r j of None \<Rightarrow> None | Some r' \<Rightarrow> decode_fields fs kvs r'))"

definition d_struct :: "'r field list \<Rightarrow> 'r dec" where
  "d_struct fs r j = (case j of JNull \<Rightarrow> Some r | JObj kvs \<Rightarrow> decode_fields fs kvs r | _ \<Rightarrow> None)"

section \<open>Decoders of Go's types\<close>

definition d_str :: "string dec" where
  "d_str old j = (case j of JNull \<Rightarrow> Some old | JStr s \<Rightarrow> Some s | _ \<Rightarrow> None)"

text \<open>A named string type, through its constructors.\<close>

definition d_named :: "(string \<Rightarrow> 'v) \<Rightarrow> 'v dec" where
  "d_named of_str old j = (case j of JNull \<Rightarrow> Some old | JStr s \<Rightarrow> Some (of_str s) | _ \<Rightarrow> None)"

definition d_int :: "int dec" where
  "d_int old j = (case j of JNull \<Rightarrow> Some old
     | JInt n \<Rightarrow> if - (2 ^ 63) \<le> n \<and> n < 2 ^ 63 then Some n else None
     | _ \<Rightarrow> None)"

definition d_bool :: "bool dec" where
  "d_bool old j = (case j of JNull \<Rightarrow> Some old | JBool b \<Rightarrow> Some b | _ \<Rightarrow> None)"

text \<open>A type that unmarshals text; a null leaves it alone.\<close>

definition d_text :: "(string \<Rightarrow> 'v option) \<Rightarrow> 'v dec" where
  "d_text parse old j = (case j of JNull \<Rightarrow> Some old | JStr s \<Rightarrow> parse s | _ \<Rightarrow> None)"

text \<open>A pointer: null clears it, anything else is decoded into what it points to, or a new zero.\<close>

definition d_opt :: "'v \<Rightarrow> 'v dec \<Rightarrow> 'v option dec" where
  "d_opt zero d old j = (case j of JNull \<Rightarrow> Some None
     | _ \<Rightarrow> map_option Some (d (case old of None \<Rightarrow> zero | Some v \<Rightarrow> v) j))"

text \<open>A map of strings: null clears it, an object adds its entries.\<close>

fun put_entries :: "(string \<times> json) list \<Rightarrow> strmap \<Rightarrow> strmap option" where
  "put_entries [] m = Some m"
| "put_entries ((k, j) # kvs) m = (case d_str [] j of None \<Rightarrow> None
     | Some v \<Rightarrow> put_entries kvs (AList.update k v m))"

definition d_map :: "strmap dec" where
  "d_map old j = (case j of JNull \<Rightarrow> Some [] | JObj kvs \<Rightarrow> put_entries kvs old | _ \<Rightarrow> None)"

fun all_some :: "'v option list \<Rightarrow> 'v list option" where
  "all_some [] = Some []"
| "all_some (x # xs) = (case x of None \<Rightarrow> None | Some v \<Rightarrow> map_option ((#) v) (all_some xs))"

text \<open>A slice, nil until an array was read: null clears it, an array replaces it.\<close>

definition d_list :: "'v \<Rightarrow> 'v dec \<Rightarrow> 'v list option dec" where
  "d_list zero d old j = (case j of JNull \<Rightarrow> Some None
     | JArr js \<Rightarrow> map_option Some (all_some (map (d zero) js))
     | _ \<Rightarrow> None)"

text \<open>A slice where nil and empty mean the same.\<close>

definition d_elems :: "'v \<Rightarrow> 'v dec \<Rightarrow> 'v list dec" where
  "d_elems zero d old j = map_option (\<lambda>r. case r of None \<Rightarrow> [] | Some vs \<Rightarrow> vs) (d_list zero d (Some old) j)"

section \<open>Enumerations read from text\<close>

definition user_role_of :: "string \<Rightarrow> user_role" where
  "user_role_of s = (if s = ''admin'' then RoleAdmin else if s = ''user'' then RoleUser else OtherUserRole s)"

definition dev_of :: "string \<Rightarrow> dev_status" where
  "dev_of s = (if s = ''in_progress'' then DevInProgress else if s = ''blocked'' then DevBlocked
     else if s = ''ready'' then DevReady else OtherDev s)"

definition form_of :: "string \<Rightarrow> form_factor" where
  "form_of s = (if s = ''web'' then FormFactorWeb else if s = ''mobile'' then FormFactorMobile else OtherForm s)"

definition registry_of :: "string \<Rightarrow> registry_kind" where
  "registry_of s = (if s = ''ghcr'' then RegistryGHCR else if s = ''dockerhub'' then RegistryDockerHub else OtherRegistry s)"

definition build_of :: "string \<Rightarrow> build_state" where
  "build_of s = (if s = ''running'' then BuildRunning else if s = ''success'' then BuildSuccess
     else if s = ''failure'' then BuildFailure else if s = ''canceled'' then BuildCanceled else OtherBuild s)"

section \<open>Facts\<close>

lemma all_some_length: "all_some xs = Some ys \<Longrightarrow> length ys = length xs"
  by (induction xs arbitrary: ys) (auto split: option.splits)

lemma field_named_in: "field_named k fs = Some f \<Longrightarrow> f \<in> set fs"
  by (auto simp: field_named_def find_Some_iff split: option.splits)

text \<open>What every field keeps, decoding an object keeps.\<close>

lemma decode_fields_keeps:
  assumes "decode_fields fs kvs r = Some r'" "P r"
    "\<And>f r j r'. f \<in> set fs \<Longrightarrow> snd f r j = Some r' \<Longrightarrow> P r \<Longrightarrow> P r'"
  shows "P r'"
  using assms(1,2)
proof (induction kvs arbitrary: r)
  case (Cons kv kvs)
  obtain k j where kv: "kv = (k, j)" by (cases kv)
  with Cons.prems obtain f r1 where f: "field_named k fs = Some f" "snd f r j = Some r1"
    and rest: "decode_fields fs kvs r1 = Some r'"
    by (auto split: option.splits)
  from assms(3) [OF field_named_in [OF f(1)] f(2) Cons.prems(2)] show ?case
    by (rule Cons.IH [OF rest])
qed simp

lemma put_entries_keyed: "put_entries kvs m = Some m' \<Longrightarrow> distinct (map fst m) \<Longrightarrow> distinct (map fst m')"
proof (induction kvs m rule: put_entries.induct)
  case (2 k j kvs m)
  then show ?case by (auto simp: distinct_update split: option.splits)
qed simp

lemma d_map_keyed: "d_map old j = Some m \<Longrightarrow> distinct (map fst old) \<Longrightarrow> distinct (map fst m)"
  by (auto simp: d_map_def put_entries_keyed split: json.splits)

end
