(* ===== verification/Streams.thy ===== *)
theory Streams
  imports Json
begin

text \<open>
  Event streams (internal/transport/http/logs.go): the loop of \<open>sse\<close> and its frames, and the
  writers that cut a container's log into entries. What \<open>stdcopy\<close> makes of the daemon's bytes is a
  list of writes, each to standard output or error; the encoding of an event is the caller's.
\<close>

section \<open>Frames\<close>

text \<open>
  What \<open>sse\<close> sees: an event, the closing of the channel, the heartbeat and the end of the request.
  Each comes with whether the client takes the frame written for it.
\<close>

datatype 'a tick = Tick 'a | ChannelClosed | Heartbeat | RequestDone

definition event_frame :: "string \<Rightarrow> string \<Rightarrow> string" where
  "event_frame name payload = (if name \<noteq> [] then ''event: '' @ name @ nl else []) @ ''data: '' @ payload @ nl @ nl"

definition heartbeat_frame :: string where
  "heartbeat_frame = '': heartbeat'' @ nl @ nl"

text \<open>The frames sent, and whether the events closed; \<open>None\<close> while the stream is open.\<close>

fun sse_loop :: "('a \<Rightarrow> string \<times> string) \<Rightarrow> ('a tick \<times> bool) list \<Rightarrow> string \<times> bool option" where
  "sse_loop encode [] = ([], None)"
| "sse_loop encode ((ChannelClosed, _) # ts) = ([], Some True)"
| "sse_loop encode ((RequestDone, _) # ts) = ([], Some False)"
| "sse_loop encode ((Heartbeat, taken) # ts) = (if taken
     then (case sse_loop encode ts of (out, r) \<Rightarrow> (heartbeat_frame @ out, r)) else ([], Some False))"
| "sse_loop encode ((Tick e, taken) # ts) = (if taken
     then (case sse_loop encode ts of (out, r) \<Rightarrow> ((case encode e of (name, payload) \<Rightarrow> event_frame name payload) @ out, r))
     else ([], Some False))"

text \<open>The events the client takes before the stream ends.\<close>

fun taken_events :: "('a tick \<times> bool) list \<Rightarrow> 'a list" where
  "taken_events [] = []"
| "taken_events ((ChannelClosed, _) # ts) = []"
| "taken_events ((RequestDone, _) # ts) = []"
| "taken_events ((Heartbeat, taken) # ts) = (if taken then taken_events ts else [])"
| "taken_events ((Tick e, taken) # ts) = (if taken then e # taken_events ts else [])"

section \<open>An event source\<close>

text \<open>
  The reader of the HTML standard: lines end at a line feed, a carriage return or both; a blank line
  dispatches what the data lines before it hold, a colon starts a comment.
\<close>

definition breaks :: "char \<Rightarrow> bool" where
  "breaks c \<longleftrightarrow> c = CHR 0x0A \<or> c = CHR 0x0D"

fun source_lines :: "string \<Rightarrow> string \<Rightarrow> string list" where
  "source_lines l [] = []"
| "source_lines l (c # cs) = (if breaks c
     then l # source_lines [] (if c = CHR 0x0D \<and> take 1 cs = [CHR 0x0A] then drop 1 cs else cs)
     else source_lines (l @ [c]) cs)"

definition field_of :: "string \<Rightarrow> string \<times> string" where
  "field_of l = (case cut_at (CHR '':'') l of (name, val, _) \<Rightarrow> (name, trim_prefix val '' ''))"

fun source_events :: "string \<Rightarrow> string \<Rightarrow> string list \<Rightarrow> (string \<times> string) list" where
  "source_events name data [] = []"
| "source_events name data (l # ls) =
     (if l = [] then (if data = [] then [] else [(name, butlast data)]) @ source_events [] [] ls
      else (case field_of l of (fld, val) \<Rightarrow>
        if fld = ''event'' then source_events val data ls
        else if fld = ''data'' then source_events name (data @ val @ nl) ls
        else source_events name data ls))"

definition source_read :: "string \<Rightarrow> (string \<times> string) list" where
  "source_read text = source_events [] [] (source_lines [] text)"

section \<open>Log entries\<close>

record log_entry =
  le_time :: time
  le_stream :: string
  le_message :: string

text \<open>
  The channel: the entries sent on it, how many are still taken before the request is done
  (\<open>None\<close>: it never is) and the clock read for each entry.
\<close>

record outlet =
  oc_sent :: "log_entry list"
  oc_room :: "nat option"
  oc_clock :: "nat \<Rightarrow> time"

definition cr :: string where "cr = [CHR 0x0D]"

text \<open>A line's entry: Docker's timestamp, when the line starts with one, or the time it was read.\<close>

definition line_entry :: "http_lib \<Rightarrow> string \<Rightarrow> time \<Rightarrow> string \<Rightarrow> log_entry" where
  "line_entry lib stream t line = (let message = trim_suffix line cr in case cut_at (CHR '' '') message of (first, rest, found) \<Rightarrow>
     (case (if found then h_rfc_time lib first else None) of
        Some parsed \<Rightarrow> \<lparr>le_time = parsed, le_stream = stream, le_message = rest\<rparr>
      | None \<Rightarrow> \<lparr>le_time = t, le_stream = stream, le_message = message\<rparr>))"

definition emit :: "http_lib \<Rightarrow> string \<Rightarrow> string \<Rightarrow> outlet \<Rightarrow> bool \<times> outlet" where
  "emit lib stream line o' = (let e = line_entry lib stream (oc_clock o' (length (oc_sent o'))) line in
     case oc_room o' of
       None \<Rightarrow> (True, o'\<lparr>oc_sent := oc_sent o' @ [e]\<rparr>)
     | Some 0 \<Rightarrow> (False, o')
     | Some (Suc k) \<Rightarrow> (True, o'\<lparr>oc_sent := oc_sent o' @ [e], oc_room := Some k\<rparr>))"

lemma cut_shorter: "c \<in> set s \<Longrightarrow> (x, rest, found) = cut_at c s \<Longrightarrow> length rest < length s"
  by (auto simp: cut_at_def dest!: split_list_first simp: dropWhile_sep)

text \<open>The loop of \<open>Write\<close>: whether every entry was taken, what stays buffered.\<close>

function write_lines :: "http_lib \<Rightarrow> string \<Rightarrow> string \<Rightarrow> outlet \<Rightarrow> bool \<times> string \<times> outlet" where
  "write_lines lib stream buffer o' = (if CHR 0x0A \<notin> set buffer then (True, buffer, o')
     else (case cut_at (CHR 0x0A) buffer of (line, rest, _) \<Rightarrow> (case emit lib stream line o' of
         (False, o2) \<Rightarrow> (False, rest, o2)
       | (True, o2) \<Rightarrow> write_lines lib stream rest o2)))"
  by pat_completeness auto

termination
  by (relation "measure (\<lambda>(lib, stream, buffer, o'). length buffer)") (auto elim: cut_shorter)

declare write_lines.simps [simp del]

definition line_write :: "http_lib \<Rightarrow> string \<Rightarrow> string \<Rightarrow> string \<Rightarrow> outlet \<Rightarrow> bool \<times> string \<times> outlet" where
  "line_write lib stream buffer p o' = write_lines lib stream (buffer @ p) o'"

definition line_flush :: "http_lib \<Rightarrow> string \<Rightarrow> string \<Rightarrow> outlet \<Rightarrow> outlet" where
  "line_flush lib stream buffer o' = (if buffer \<noteq> [] then snd (emit lib stream buffer o') else o')"

text \<open>The writes of \<open>StdCopy\<close>, to standard error when marked, which stops at the first that fails.\<close>

fun copy_writes :: "http_lib \<Rightarrow> (bool \<times> string) list \<Rightarrow> string \<Rightarrow> string \<Rightarrow> outlet \<Rightarrow> string \<times> string \<times> outlet" where
  "copy_writes lib [] b1 b2 o' = (b1, b2, o')"
| "copy_writes lib ((False, p) # ps) b1 b2 o' = (case line_write lib ''stdout'' b1 p o' of (ok, b, o2) \<Rightarrow>
     if ok then copy_writes lib ps b b2 o2 else (b, b2, o2))"
| "copy_writes lib ((True, p) # ps) b1 b2 o' = (case line_write lib ''stderr'' b2 p o' of (ok, b, o2) \<Rightarrow>
     if ok then copy_writes lib ps b1 b o2 else (b1, b, o2))"

definition log_stream :: "http_lib \<Rightarrow> (bool \<times> string) list \<Rightarrow> outlet \<Rightarrow> outlet" where
  "log_stream lib ps o' = (case copy_writes lib ps [] [] o' of (b1, b2, o2) \<Rightarrow>
     line_flush lib ''stderr'' b2 (line_flush lib ''stdout'' b1 o2))"

section \<open>What a client sees of a log\<close>

text \<open>The lines of a text, the last one when it is not empty.\<close>

definition log_lines :: "string \<Rightarrow> string list" where
  "log_lines s = (let ps = split_at (CHR 0x0A) s in if last ps = [] then butlast ps else ps)"

definition bytes_of :: "bool \<Rightarrow> (bool \<times> string) list \<Rightarrow> string" where
  "bytes_of b ps = concat (map snd (filter (\<lambda>(b', _). b' = b) ps))"

definition stream_name :: "bool \<Rightarrow> string" where
  "stream_name b = (if b then ''stderr'' else ''stdout'')"

definition entries_of :: "bool \<Rightarrow> outlet \<Rightarrow> log_entry list" where
  "entries_of b o' = filter (\<lambda>e. le_stream e = stream_name b) (oc_sent o')"

lemma split_at_last: "c \<notin> set (last (split_at c s))"
  by (induction s) (auto split: list.splits)

lemma split_at_append:
  "butlast (split_at c (a @ b)) = butlast (split_at c a) @ butlast (split_at c (last (split_at c a) @ b))"
  "last (split_at c (a @ b)) = last (split_at c (last (split_at c a) @ b))"
proof (induction "length a" arbitrary: a rule: less_induct)
  case less
  show "butlast (split_at c (a @ b)) = butlast (split_at c a) @ butlast (split_at c (last (split_at c a) @ b))"
    "last (split_at c (a @ b)) = last (split_at c (last (split_at c a) @ b))"
    using less
    by (cases "c \<in> set a"; auto simp: split_no_sep split_append_sep dest!: split_list_first)+
qed

text \<open>The entries of some lines of a stream, as the clock stamps them from the \<open>n\<close>th on.\<close>

fun stamped :: "http_lib \<Rightarrow> string \<Rightarrow> (nat \<Rightarrow> time) \<Rightarrow> nat \<Rightarrow> string list \<Rightarrow> log_entry list" where
  "stamped lib stream clock n [] = []"
| "stamped lib stream clock n (l # ls) = line_entry lib stream (clock n) l # stamped lib stream clock (Suc n) ls"

lemma stamped_length [simp]: "length (stamped lib stream clock n ls) = length ls"
  by (induction ls arbitrary: n) auto

text \<open>Sending: the entries that still fit, and whether all did.\<close>

definition fits :: "nat option \<Rightarrow> nat \<Rightarrow> bool" where
  "fits room n \<longleftrightarrow> (case room of None \<Rightarrow> True | Some k \<Rightarrow> n \<le> k)"

definition send :: "log_entry list \<Rightarrow> outlet \<Rightarrow> outlet" where
  "send es o' = (case oc_room o' of None \<Rightarrow> o'\<lparr>oc_sent := oc_sent o' @ es\<rparr>
     | Some k \<Rightarrow> o'\<lparr>oc_sent := oc_sent o' @ take k es, oc_room := Some (k - length es)\<rparr>)"

lemma send_simps [simp]:
  "oc_clock (send es o') = oc_clock o'" "send [] o' = o'" "fits room 0"
  by (auto simp: send_def fits_def split: option.split)

lemma send_send: "fits (oc_room o') (length xs) \<Longrightarrow> send ys (send xs o') = send (xs @ ys) o'"
  by (auto simp: send_def fits_def split: option.splits)

lemma send_stuck: "\<not> fits (oc_room o') (length xs) \<Longrightarrow> send ys (send xs o') = send xs o' \<and> send (xs @ ys) o' = send xs o'"
  by (auto simp: send_def fits_def split: option.splits)

lemma sent_length: "fits (oc_room o') (length xs) \<Longrightarrow> length (oc_sent (send xs o')) = length (oc_sent o') + length xs"
  by (auto simp: send_def fits_def split: option.splits)

lemma emit_send: "emit lib stream l o' =
    (fits (oc_room o') 1, send [line_entry lib stream (oc_clock o' (length (oc_sent o'))) l] o')"
  by (cases o') (auto simp: emit_def fits_def send_def Let_def split: option.splits nat.splits)

lemma fits_more: "fits (oc_room o') 1 \<Longrightarrow> fits (oc_room (send [e] o')) n = fits (oc_room o') (Suc n)"
  by (auto simp: send_def fits_def split: option.splits)

lemma write_lines_send:
  "write_lines lib stream b o' = (ok, b', o2) \<Longrightarrow>
   ok = fits (oc_room o') (length (butlast (split_at (CHR 0x0A) b))) \<and>
   o2 = send (stamped lib stream (oc_clock o') (length (oc_sent o')) (butlast (split_at (CHR 0x0A) b))) o' \<and>
   (ok \<longrightarrow> b' = last (split_at (CHR 0x0A) b))"
proof (induction lib stream b o' rule: write_lines.induct)
  case (1 lib stream b o')
  show ?case
  proof (cases "CHR 0x0A \<in> set b")
    case False
    then show ?thesis using 1(2) by (simp add: write_lines.simps [of lib stream b] split_no_sep)
  next
    case True
    then obtain l rest where b: "b = l @ CHR 0x0A # rest" and l: "CHR 0x0A \<notin> set l" by (blast dest: split_list_first)
    have cut: "cut_at (CHR 0x0A) b = (l, rest, True)" by (simp add: b cut_at_sep l)
    let ?e = "line_entry lib stream (oc_clock o' (length (oc_sent o'))) l"
    show ?thesis
    proof (cases "fits (oc_room o') 1")
      case False
      then have "\<not> fits (oc_room o') (length [?e])" by simp
      note stuck = send_stuck [OF this]
      have "write_lines lib stream b o' = (False, rest, send [?e] o')"
        using False True cut by (simp add: write_lines.simps [of lib stream b] emit_send)
      moreover have "\<not> fits (oc_room o') n" if "0 < n" for n
        using False that by (auto simp: fits_def split: option.splits)
      ultimately show ?thesis using 1(2) stuck by (simp add: b split_append_sep l)
    next
      case fit: True
      with 1(2) True cut have rest: "write_lines lib stream rest (send [?e] o') = (ok, b', o2)"
        by (simp add: write_lines.simps [of lib stream b] emit_send)
      have "ok = fits (oc_room (send [?e] o')) (length (butlast (split_at (CHR 0x0A) rest))) \<and>
          o2 = send (stamped lib stream (oc_clock (send [?e] o')) (length (oc_sent (send [?e] o'))) (butlast (split_at (CHR 0x0A) rest))) (send [?e] o') \<and>
          (ok \<longrightarrow> b' = last (split_at (CHR 0x0A) rest))"
        by (rule 1(1)) (use True cut fit emit_send rest in auto)
      with fit show ?thesis
        using send_send [of o' "[?e]"] sent_length [of o' "[?e]"] by (simp add: b split_append_sep l fits_more)
    qed
  qed
qed


text \<open>All entries of a log, standard output and error in the order of the writes.\<close>

fun log_entries :: "http_lib \<Rightarrow> (nat \<Rightarrow> time) \<Rightarrow> nat \<Rightarrow> (bool \<times> string) list \<Rightarrow> string \<Rightarrow> string \<Rightarrow> log_entry list" where
  "log_entries lib clock n [] b1 b2 = (let e1 = stamped lib ''stdout'' clock n (if b1 = [] then [] else [b1]) in
     e1 @ stamped lib ''stderr'' clock (n + length e1) (if b2 = [] then [] else [b2]))"
| "log_entries lib clock n ((b, p) # ps) b1 b2 = (let ls = split_at (CHR 0x0A) ((if b then b2 else b1) @ p);
     es = stamped lib (stream_name b) clock n (butlast ls) in
     es @ log_entries lib clock (n + length es) ps (if b then b1 else last ls) (if b then last ls else b2))"

lemma flush_send: "line_flush lib stream b o' = send (stamped lib stream (oc_clock o') (length (oc_sent o')) (if b = [] then [] else [b])) o'"
  by (simp add: line_flush_def emit_send)

lemma send_flushes:
  "line_flush lib s2 b2 (line_flush lib s1 b1 o') =
   send (let e1 = stamped lib s1 (oc_clock o') (length (oc_sent o')) (if b1 = [] then [] else [b1]) in
     e1 @ stamped lib s2 (oc_clock o') (length (oc_sent o') + length e1) (if b2 = [] then [] else [b2])) o'"
proof (cases "fits (oc_room o') (length (if b1 = [] then [] else [b1]))")
  case True
  then show ?thesis by (simp add: flush_send Let_def send_send sent_length)
next
  case False
  let ?e1 = "stamped lib s1 (oc_clock o') (length (oc_sent o')) (if b1 = [] then [] else [b1])"
  from False have "\<not> fits (oc_room o') (length ?e1)" by simp
  from send_stuck [OF this] show ?thesis by (simp add: flush_send Let_def)
qed

lemma copy_send:
  "(case copy_writes lib ps b1 b2 o' of (c1, c2, o2) \<Rightarrow> line_flush lib ''stderr'' c2 (line_flush lib ''stdout'' c1 o2))
   = send (log_entries lib (oc_clock o') (length (oc_sent o')) ps b1 b2) o'"
proof (induction ps arbitrary: b1 b2 o')
  case Nil
  then show ?case by (simp add: send_flushes)
next
  case (Cons w ps)
  obtain b p where w: "w = (b, p)" by (cases w)
  let ?buf = "if b then b2 else b1"
  obtain ok b' o2 where run: "line_write lib (stream_name b) ?buf p o' = (ok, b', o2)"
    by (metis prod_cases3)
  let ?es = "stamped lib (stream_name b) (oc_clock o') (length (oc_sent o')) (butlast (split_at (CHR 0x0A) (?buf @ p)))"
  have o2: "o2 = send ?es o'" and ok: "ok = fits (oc_room o') (length ?es)" and b': "ok \<Longrightarrow> b' = last (split_at (CHR 0x0A) (?buf @ p))"
    using write_lines_send [OF run [unfolded line_write_def]] by simp_all
  have step: "copy_writes lib (w # ps) b1 b2 o' = (let c1 = (if b then b1 else b'); c2 = (if b then b' else b2) in
      if ok then copy_writes lib ps c1 c2 o2 else (c1, c2, o2))"
    using run by (cases b) (simp_all add: w stream_name_def)
  show ?case
  proof (cases ok)
    case True
    with step o2 ok b' show ?thesis
      by (cases b) (simp_all add: w Let_def Cons.IH sent_length send_send)
  next
    case False
    with ok have stuck: "send ys (send ?es o') = send ?es o'" "send (?es @ ys) o' = send ?es o'" for ys
      using send_stuck by blast+
    with step o2 False show ?thesis
      by (cases b) (simp_all add: w Let_def flush_send)
  qed
qed

lemma log_stream_send: "log_stream lib ps o' = send (log_entries lib (oc_clock o') (length (oc_sent o')) ps [] []) o'"
  by (simp add: log_stream_def copy_send)


lemma log_lines_butlast: "log_lines s = butlast (split_at (CHR 0x0A) s) @ (let l = last (split_at (CHR 0x0A) s) in if l = [] then [] else [l])"
  using append_butlast_last_id [OF split_at_not_nil, of "CHR 0x0A" s] by (auto simp: log_lines_def Let_def)

lemma log_lines_append: "log_lines (a @ b) = butlast (split_at (CHR 0x0A) a) @ log_lines (last (split_at (CHR 0x0A) a) @ b)"
  by (simp add: log_lines_butlast split_at_append [of _ a b])

lemma log_lines_single: "CHR 0x0A \<notin> set a \<Longrightarrow> log_lines a = (if a = [] then [] else [a])"
  by (simp add: log_lines_def split_no_sep)

lemma line_entry_stream [simp]: "le_stream (line_entry lib st t l) = st"
  by (simp add: line_entry_def Let_def split: option.split prod.split)

lemma stream_name_inject [simp]: "stream_name a = stream_name b \<longleftrightarrow> a = b"
  by (auto simp: stream_name_def split: if_splits)

lemma stamped_filter: "filter (\<lambda>e. le_stream e = stream_name b) (stamped lib (stream_name a) clock n ls) = (if a = b then stamped lib (stream_name a) clock n ls else [])"
  by (induction ls arbitrary: n) auto

lemma stamped_rel: "list_all2 (\<lambda>l e. \<exists>i. e = line_entry lib st (clock i) l) ls (stamped lib st clock n ls)"
  by (induction ls arbitrary: n) auto

lemma stream_names: "''stdout'' = stream_name False" "''stderr'' = stream_name True"
  by (simp_all add: stream_name_def)

lemma bytes_of_simps [simp]: "bytes_of b [] = []" "bytes_of b ((a, p) # ps) = (if a = b then p else []) @ bytes_of b ps"
  by (auto simp: bytes_of_def)

lemma log_entries_lines:
  assumes "CHR 0x0A \<notin> set b1" "CHR 0x0A \<notin> set b2"
  shows "list_all2 (\<lambda>l e. \<exists>i. e = line_entry lib (stream_name b) (clock i) l) (log_lines ((if b then b2 else b1) @ bytes_of b ps))
    (filter (\<lambda>e. le_stream e = stream_name b) (log_entries lib clock n ps b1 b2))"
  using assms
proof (induction ps arbitrary: n b1 b2)
  case Nil
  then show ?case
    unfolding stream_names log_entries.simps Let_def filter_append stamped_filter
    by (cases b) (auto simp: log_lines_single)
next
  case (Cons w ps)
  obtain a p where w: "w = (a, p)" by (cases w)
  let ?ls = "split_at (CHR 0x0A) ((if a then b2 else b1) @ p)"
  have last: "CHR 0x0A \<notin> set (last ?ls)" by (rule split_at_last)
  note IH = Cons.IH [of "if a then b1 else last ?ls" "if a then last ?ls else b2" "n + (length ?ls - 1)"]
  show ?case
  proof (cases "a = b")
    case True
    note eqs = log_lines_append [of "b1 @ p", unfolded append_assoc] log_lines_append [of "b2 @ p", unfolded append_assoc]
    show ?thesis using IH last Cons.prems True
      by (cases b) (auto simp: w Let_def stamped_filter eqs intro!: list_all2_appendI stamped_rel)
  next
    case False
    then show ?thesis using IH last Cons.prems
      by (cases b; cases a) (simp_all add: w Let_def stamped_filter)
  qed
qed


definition demo_lib :: http_lib where
  "demo_lib = \<lparr>h_json = (\<lambda>_. None), h_uuid = (\<lambda>_. None), h_json_time = (\<lambda>_. None),
     h_rfc_time = (\<lambda>s. if s = ''1Z'' then Some 1 else None), h_mime = (\<lambda>_. [])\<rparr>"

definition demo_outlet :: outlet where
  "demo_outlet = \<lparr>oc_sent = [], oc_room = None, oc_clock = (\<lambda>i. 5)\<rparr>"

definition demo_writes :: "(bool \<times> string) list" where
  "demo_writes = [(False, ''1Z a''), (True, ''oops''), (False, ''b'' @ cr @ nl @ ''c'')]"


section \<open>What an event source sees\<close>

text \<open>\<open>json.Marshal\<close> of a string: quotes, controls, the characters of HTML, the line separators and bytes that are not UTF-8.\<close>

definition json_char :: "char \<Rightarrow> string" where
  "json_char c = (let n = c_nat c in
     if n = 34 \<or> n = 92 then [CHR 0x5C, c] else if n = 8 then CHR 0x5C # ''b'' else if n = 12 then CHR 0x5C # ''f''
     else if n = 10 then CHR 0x5C # ''n'' else if n = 13 then CHR 0x5C # ''r'' else if n = 9 then CHR 0x5C # ''t''
     else if n < 32 \<or> n = 60 \<or> n = 62 \<or> n = 38 then CHR 0x5C # ''u00'' @ [hex_digit (n div 16), hex_digit (n mod 16)]
     else if n < 128 then [c] else CHR 0x5C # ''ufffd'')"

definition json_rune :: "string \<Rightarrow> string" where
  "json_rune r = (case r of [c] \<Rightarrow> json_char c
     | _ \<Rightarrow> if r = [CHR 0xE2, CHR 0x80, CHR 0xA8] then CHR 0x5C # ''u2028''
       else if r = [CHR 0xE2, CHR 0x80, CHR 0xA9] then CHR 0x5C # ''u2029'' else r)"

definition json_string :: "string \<Rightarrow> string" where
  "json_string s = CHR 0x22 # concat (map json_rune (runes s)) @ [CHR 0x22]"

text \<open>The payload of an entry; \<open>tj\<close> is the text \<open>time.Time\<close> marshals to.\<close>

definition log_payload :: "(time \<Rightarrow> string) \<Rightarrow> log_entry \<Rightarrow> string \<times> string" where
  "log_payload tj e = ([], ''{'' @ json_string ''timestamp'' @ '':'' @ tj (le_time e) @ '','' @ json_string ''stream'' @ '':'' @ json_string (le_stream e)
     @ '','' @ json_string ''message'' @ '':'' @ json_string (le_message e) @ ''}'')"

definition unbroken :: "string \<Rightarrow> bool" where
  "unbroken s \<longleftrightarrow> list_all (\<lambda>c. \<not> breaks c) s"

lemma unbroken_simps [simp]: "unbroken []" "unbroken (c # s) \<longleftrightarrow> \<not> breaks c \<and> unbroken s" "unbroken (a @ b) \<longleftrightarrow> unbroken a \<and> unbroken b"
  by (simp_all add: unbroken_def)

lemma breaks_hex [simp]: "n < 16 \<Longrightarrow> \<not> breaks (hex_digit n)"
proof -
  have "list_all (\<lambda>n. \<not> breaks (hex_digit n)) [0..<16]" by code_simp
  then show "n < 16 \<Longrightarrow> \<not> breaks (hex_digit n)" by (simp add: list_all_iff)
qed

lemma rune_wide: "length (take (rune_width (a # s)) (a # s)) = 1 \<or> list_all (\<lambda>c. 128 \<le> c_nat c) (take (rune_width (a # s)) (a # s))"
proof (cases "194 \<le> c_nat a")
  case False
  then show ?thesis by (simp add: rune_width_def)
next
  case True
  consider "s = []" | b where "s = [b]" | b c where "s = [b, c]" | b c d t where "s = b # c # d # t"
    by (metis neq_Nil_conv)
  then show ?thesis
    by cases (use True in \<open>simp_all add: rune_width_def is_cont_def\<close>)
qed

lemma rune_bytes: "r \<in> set (runes s) \<Longrightarrow> length r = 1 \<or> list_all (\<lambda>c. 128 \<le> c_nat c) r"
proof (induction s rule: runes.induct)
  case (1 s)
  show ?case
  proof (cases "r = take (rune_width s) s")
    case True
    with 1(2) show ?thesis using rune_wide by (cases s) auto
  next
    case False
    with 1 show ?thesis by (cases "s = []") (auto simp: runes.simps [of s])
  qed
qed


lemma breaks_nat: "breaks c \<longleftrightarrow> c_nat c = 10 \<or> c_nat c = 13"
proof -
  have eq: "c = d \<longleftrightarrow> c_nat c = c_nat d" for d by (simp add: c_nat_def)
  show ?thesis unfolding breaks_def eq [of "CHR 0x0A"] eq [of "CHR 0x0D"] by (simp add: c_nat_def)
qed

lemma breaks_letters [simp]: "\<not> breaks (CHR 0x5C)" "\<not> breaks (CHR ''b'')" "\<not> breaks (CHR ''f'')" "\<not> breaks (CHR ''n'')"
  "\<not> breaks (CHR ''r'')" "\<not> breaks (CHR ''t'')" "\<not> breaks (CHR ''u'')" "\<not> breaks (CHR ''0'')" "\<not> breaks (CHR ''d'')"
  by (simp_all add: breaks_def)

lemma json_rune_unbroken:
  assumes "length r = 1 \<or> list_all (\<lambda>c. 128 \<le> c_nat c) r"
  shows "unbroken (json_rune r)"
proof (cases "length r = 1")
  case True
  then obtain c where r: "r = [c]" by (cases r) auto
  have "unbroken (json_char c)"
    using nat_of_char_less_256 [of c] by (simp add: json_char_def Let_def breaks_nat [of c] c_nat_def [symmetric] less_mult_imp_div_less)
  then show ?thesis by (simp add: r json_rune_def)
next
  case False
  with assms have "unbroken r" by (auto simp: unbroken_def list_all_iff breaks_nat)
  with False show ?thesis by (auto simp: json_rune_def breaks_def split: list.splits)
qed

lemma json_string_unbroken: "unbroken (json_string s)"
proof -
  have conc: "(\<And>r. r \<in> set rs \<Longrightarrow> unbroken (json_rune r)) \<Longrightarrow> unbroken (concat (map json_rune rs))" for rs
    by (induction rs) auto
  have "unbroken (concat (map json_rune (runes s)))" by (intro conc json_rune_unbroken rune_bytes)
  then show ?thesis by (simp add: json_string_def breaks_def)
qed

text \<open>No entry's payload has a line break, whatever its message, when the text of times has none.\<close>

lemma log_payload_unbroken: "unbroken (tj (le_time e)) \<Longrightarrow> unbroken (fst (log_payload tj e)) \<and> unbroken (snd (log_payload tj e))"
  by (simp add: log_payload_def json_string_unbroken breaks_def)

lemma source_lines_line: "unbroken l \<Longrightarrow> source_lines acc (l @ nl @ rest) = (acc @ l) # source_lines [] rest"
  by (induction l arbitrary: acc) (auto simp: nl_def breaks_def)

lemma field_simps:
  "field_of (''event: '' @ v) = (''event'', v)" "field_of (''data: '' @ v) = (''data'', v)" "fst (field_of '': heartbeat'') = []"
  by (simp_all add: field_of_def cut_at_def trim_prefix_def)

lemma read_heartbeat: "source_events [] [] (source_lines [] (heartbeat_frame @ rest)) = source_events [] [] (source_lines [] rest)"
proof -
  have "source_lines [] (heartbeat_frame @ rest) = '': heartbeat'' # [] # source_lines [] rest"
    using source_lines_line [of "'': heartbeat''" "[]" "nl @ rest"] source_lines_line [of "[]" "[]" rest]
    by (simp add: heartbeat_frame_def breaks_def)
  then show ?thesis using field_simps(3) by (auto split: prod.splits)
qed

lemma read_data: "unbroken payload \<Longrightarrow>
  source_events name [] (source_lines [] (''data: '' @ payload @ nl @ nl @ rest)) = (name, payload) # source_events [] [] (source_lines [] rest)"
  using source_lines_line [of "''data: '' @ payload" "[]" "nl @ rest"] source_lines_line [of "[]" "[]" rest] field_simps(2) [of payload]
  by (simp add: breaks_def nl_def)

lemma read_frame:
  assumes "unbroken name" "unbroken payload"
  shows "source_events [] [] (source_lines [] (event_frame name payload @ rest)) = (name, payload) # source_events [] [] (source_lines [] rest)"
proof (cases "name = []")
  case True
  then show ?thesis using read_data [OF assms(2)] by (simp add: event_frame_def)
next
  case False
  have "source_lines [] (''event: '' @ name @ nl @ ''data: '' @ payload @ nl @ nl @ rest)
      = (''event: '' @ name) # source_lines [] (''data: '' @ payload @ nl @ nl @ rest)"
    using source_lines_line [of "''event: '' @ name" "[]"] assms(1) by (simp add: breaks_def)
  moreover have "source_events [] [] ((''event: '' @ name) # ls) = source_events name [] ls" for ls
    using field_simps(1) [of name] by simp
  ultimately show ?thesis using False read_data [OF assms(2), of name] by (simp add: event_frame_def)
qed

text \<open>
  C28: An event source reading a stream gets exactly the events the client took, in order, with their
  names and payloads, and nothing from heartbeats, however the stream ends; it needs only that names
  and payloads have no line break, which a payload made by \<open>json.Marshal\<close> never has.
\<close>

theorem sse_roundtrip:
  assumes "\<forall>e \<in> set (taken_events ts). unbroken (fst (encode e)) \<and> unbroken (snd (encode e))"
  shows "source_read (fst (sse_loop encode ts)) = map encode (taken_events ts)"
proof -
  have "source_events [] [] (source_lines [] (fst (sse_loop encode ts))) = map encode (taken_events ts)"
    using assms
  proof (induction ts rule: taken_events.induct)
    case (4 taken ts)
    then show ?case by (cases "sse_loop encode ts") (auto simp: read_heartbeat)
  next
    case (5 e taken ts)
    then show ?case by (cases "sse_loop encode ts"; cases "encode e") (auto simp: read_frame)
  qed auto
  then show ?thesis by (simp add: source_read_def)
qed

definition demo_ticks :: "(log_entry tick \<times> bool) list" where
  "demo_ticks = [(Tick \<lparr>le_time = 1, le_stream = ''stdout'', le_message = ''a'' @ cr @ nl @ ''data: b''\<rparr>, True),
     (Heartbeat, True), (Tick \<lparr>le_time = 2, le_stream = ''stderr'', le_message = ''c''\<rparr>, True), (ChannelClosed, True)]"

theorem sse_roundtrip_witness:
  "source_read (fst (sse_loop (log_payload (\<lambda>_. ''0'')) demo_ticks)) = map (log_payload (\<lambda>_. ''0'')) (taken_events demo_ticks) \<and>
   length (taken_events demo_ticks) = 2"
  by (rule conjI, rule sse_roundtrip) (simp_all add: log_payload_unbroken breaks_def demo_ticks_def)

end
