(* ===== verification/Tasks.thy ===== *)
theory Tasks
  imports Projects Auth
begin

text \<open>
  internal/service/task_service.go: the lifecycle of a task, from creation to deletion, its
  updates and deploys, build reports, and the reconciliation at startup. The lock of a task
  makes each operation on it one step; only \<open>ReportBuild\<close> runs without it.

  A Go method that returns a task and an error returns an \<open>outcome\<close>: the row saved before a
  failure comes back with the error, and the zero task otherwise.
\<close>

section \<open>Outcomes\<close>

type_synonym outcome = "task \<times> goerr option"

definition zero_task :: task where
  "zero_task = \<lparr>t_id = 0, t_project = 0, t_name = [], t_description = [], t_note = [], t_image = [],
     t_status = StatusUnknown, t_dev = OtherDev [], t_form = OtherForm [], t_password = [], t_port = 0,
     t_container = [], t_ip = [], t_labels = [], t_env = [], t_volumes = [], t_routes = [], t_assignees = [],
     t_build = zero_build, t_revision = zero_revision, t_pending = False, t_error = [], t_created = 0, t_updated = 0\<rparr>"

definition zero :: "goerr \<Rightarrow> (world, outcome) io" where
  "zero e = ret (zero_task, Some e)"

definition done_with :: "task \<Rightarrow> (world, outcome) io" where
  "done_with t = ret (t, None)"

definition on_err :: "(goerr \<Rightarrow> (world, outcome) io) \<Rightarrow> (world, 'a) io \<Rightarrow> ('a \<Rightarrow> (world, outcome) io) \<Rightarrow> (world, outcome) io" where
  "on_err h m f = io_bind (io_try m) (\<lambda>r. case r of Inl e \<Rightarrow> h e | Inr x \<Rightarrow> f x)"

definition wrapped :: "string \<Rightarrow> (goerr \<Rightarrow> (world, outcome) io) \<Rightarrow> goerr \<Rightarrow> (world, outcome) io" where
  "wrapped what h e = h (err_wrap what e)"

definition conflict :: "string \<Rightarrow> goerr" where
  "conflict what = err_wrap what (err_sentinel ErrConflict)"

definition fail_task :: "task \<Rightarrow> goerr \<Rightarrow> (world, outcome) io" where
  "fail_task t cause = (let failed = t\<lparr>t_status := StatusError, t_error := msg cause\<rparr> in
     io_bind (io_try (pub_tasks_update failed)) (\<lambda>r. ret (case r of Inr updated \<Rightarrow> updated | Inl _ \<Rightarrow> failed, Some cause)))"

section \<open>The route registry\<close>

definition routes_register :: "string \<Rightarrow> string \<Rightarrow> string \<Rightarrow> int \<Rightarrow> (world, unit) io" where
  "routes_register slug name ip port = io_bind (io_get (\<lambda>w. reg_register (ext w) slug name ip port (sites w))) (\<lambda>r.
     case r of Inl e \<Rightarrow> fail e | Inr m \<Rightarrow> io_mod (\<lambda>w. w\<lparr>sites := m\<rparr>))"

definition routes_unregister :: "string \<Rightarrow> string \<Rightarrow> (world, unit) io" where
  "routes_unregister slug name = io_mod (\<lambda>w. w\<lparr>sites := reg_unregister (ext w) slug name (sites w)\<rparr>)"

definition routes_set :: "string \<Rightarrow> string \<Rightarrow> route list \<Rightarrow> (world, unit) io" where
  "routes_set slug name rs = io_mod (\<lambda>w. w\<lparr>sites := reg_set_routes (ext w) slug name rs (sites w)\<rparr>)"

definition routes_lock :: "string \<Rightarrow> string \<Rightarrow> string \<Rightarrow> (world, unit) io" where
  "routes_lock slug name hash = io_mod (\<lambda>w. w\<lparr>sites := reg_set_lock (ext w) slug name hash (sites w)\<rparr>)"

section \<open>Starting\<close>

definition readiness_timeout :: int where "readiness_timeout = 20 * second"
definition poll_interval :: int where "poll_interval = 200 * 1000000"

text \<open>The first poll is at once, then one per interval until the deadline.\<close>

definition max_polls :: nat where
  "max_polls = nat (readiness_timeout div poll_interval) + 1"

definition not_ready :: goerr where
  "not_ready = err_wrap ''container readiness'' (err_new ''context deadline exceeded'')"

definition poll :: "string \<Rightarrow> int \<Rightarrow> (world, (goerr + container_state) option) io" where
  "poll i port = io_bind (io_try (rt_inspect i)) (\<lambda>r. case r of Inl _ \<Rightarrow> ret None
     | Inr st \<Rightarrow>
        if cs_status st = StatusError \<or> cs_status st = StatusStopped
        then ret (Some (Inl (conflict (''container became '' @ status_str (cs_status st)))))
        else if cs_status st = StatusRunning \<and> cs_ip st \<noteq> []
        then io_bind (io_try (tcp_ready (join_host_port (cs_ip st) (int_str port)))) (\<lambda>c.
          ret (case c of Inr _ \<Rightarrow> Some (Inr st) | Inl _ \<Rightarrow> None))
        else ret None)"

fun wait_ready :: "nat \<Rightarrow> string \<Rightarrow> int \<Rightarrow> (world, container_state) io" where
  "wait_ready 0 i port = fail not_ready"
| "wait_ready (Suc n) i port = io_bind (poll i port) (\<lambda>r. case r of
       Some (Inl e) \<Rightarrow> fail e | Some (Inr st) \<Rightarrow> ret st | None \<Rightarrow> wait_ready n i port)"

definition polls :: "(world, nat) io" where
  "polls = io_get (\<lambda>w. max 1 (min max_polls (x_polls (ext w))))"

definition finish_start :: "task \<Rightarrow> string \<Rightarrow> (world, outcome) io" where
  "finish_start t slug = io_bind polls (\<lambda>n.
     on_err (fail_task t) (wait_ready n (t_container t) (t_port t)) (\<lambda>st.
     on_err (wrapped ''persist running task'' zero)
       (pub_tasks_update (t\<lparr>t_status := StatusRunning, t_ip := cs_ip st, t_error := [], t_pending := False\<rparr>)) (\<lambda>t1.
     on_err (wrapped ''register route'' zero) (routes_register slug (t_name t1) (t_ip t1) (t_port t1)) (\<lambda>_. done_with t1))))"

definition start_container :: "string \<Rightarrow> task \<Rightarrow> string \<Rightarrow> (world, outcome) io" where
  "start_container what t slug = on_err (wrapped what (fail_task t)) (rt_start (t_container t)) (\<lambda>_. finish_start t slug)"

section \<open>Creating\<close>

definition task_credential :: "project \<Rightarrow> (world, credential option) io" where
  "task_credential p = (case p_credential p of None \<Rightarrow> ret None
     | Some i \<Rightarrow> io_bind (io_wrap ''get registry credential'' (db_credentials_get i)) (\<lambda>c. ret (Some c)))"

definition tk_folders :: "string \<Rightarrow> (world, string list) io" where
  "tk_folders slug = io_bind (io_check (validate_project_slug slug)) (\<lambda>_. io_wrap ''list folders'' (rt_folders slug))"

definition check_folders :: "container_spec \<Rightarrow> (world, unit) io" where
  "check_folders s = (if s_volumes s = [] then ret ()
     else io_bind (tk_folders (s_project s)) (\<lambda>fs. io_check (case List.find (\<lambda>(_, f). f \<notin> set fs) (s_volumes s) of
         None \<Rightarrow> None | Some (_, f) \<Rightarrow> Some (err_invalid (''folder does not exist: '' @ f)))))"

record create_task_input =
  ci_name :: string
  ci_description :: string
  ci_note :: string
  ci_image :: string
  ci_port :: int
  ci_form :: form_factor
  ci_labels :: strmap
  ci_env :: strmap
  ci_volumes :: strmap

definition create_spec :: "project \<Rightarrow> create_task_input \<Rightarrow> container_spec" where
  "create_spec p inp = \<lparr>s_project = p_slug p, s_name = ci_name inp, s_image = trim_space (ci_image inp), s_port = or_int (ci_port inp) 80,
     s_labels = ci_labels inp, s_env = ci_env inp, s_volumes = ci_volumes inp\<rparr>"

definition create_form :: "project \<Rightarrow> create_task_input \<Rightarrow> form_factor" where
  "create_form p inp = or_form (ci_form inp) (or_form (p_form p) FormFactorWeb)"

definition create_row :: "project \<Rightarrow> create_task_input \<Rightarrow> task" where
  "create_row p inp = zero_task\<lparr>t_project := p_id p, t_name := ci_name inp, t_description := ci_description inp, t_note := ci_note inp,
     t_image := s_image (create_spec p inp), t_status := StatusCreating, t_dev := DevInProgress, t_form := create_form p inp,
     t_port := s_port (create_spec p inp), t_labels := ci_labels inp, t_env := ci_env inp, t_volumes := ci_volumes inp\<rparr>"

definition task_created :: string where
  "task_created = [CHR 0xF0, CHR 0x9F, CHR 0x93, CHR 0x8B] @ '' Task Created''"

definition run_new :: "task \<Rightarrow> project \<Rightarrow> container_spec \<Rightarrow> (world, outcome) io" where
  "run_new t p s = on_err (fail_task t) (task_credential p) (\<lambda>cred.
     on_err (wrapped ''pull image'' (fail_task t)) (rt_pull (s_image s) cred) (\<lambda>_.
     on_err (wrapped ''create container'' (fail_task t)) (rt_create s) (\<lambda>i.
     on_err (\<lambda>e. io_bind (io_try (rt_remove i)) (\<lambda>_. zero (err_wrap ''persist created container'' e)))
       (pub_tasks_update (t\<lparr>t_container := i, t_status := StatusStarting\<rparr>)) (\<lambda>t1.
     start_container ''start container'' t1 (p_slug p)))))"

definition tk_create :: "string \<Rightarrow> create_task_input \<Rightarrow> (world, outcome) io" where
  "tk_create slug inp = on_err zero (get_project slug) (\<lambda>p.
     on_err zero (io_check (validate_form_factor (create_form p inp))) (\<lambda>_.
     on_err zero (io_check (validate_spec (create_spec p inp))) (\<lambda>_.
     on_err zero (check_folders (create_spec p inp)) (\<lambda>_.
     on_err (wrapped (''reserve task '' @ quoted (ci_name inp)) zero) (pub_tasks_create (create_row p inp)) (\<lambda>t.
     io_bind (notify (new_notification p (ci_name inp) NotificationTaskCreated task_created
        (or_str (trim_space (ci_description inp)) (s_image (create_spec p inp))))) (\<lambda>_.
     run_new t p (create_spec p inp)))))))"

section \<open>Starting, stopping, restarting, deleting\<close>

definition busy :: "task \<Rightarrow> bool" where
  "busy t \<longleftrightarrow> t_status t = StatusCreating \<or> t_status t = StatusStarting"

definition transitioning :: "string \<Rightarrow> goerr" where
  "transitioning name = conflict (''task '' @ quoted name @ '' is transitioning'')"

definition tk_start :: "string \<Rightarrow> string \<Rightarrow> (world, outcome) io" where
  "tk_start slug name = on_err zero (get_task slug name) (\<lambda>(t, p).
     if t_status t = StatusRunning \<or> busy t
     then zero (conflict (''task '' @ quoted name @ '' is '' @ status_str (t_status t)))
     else on_err (wrapped ''mark starting'' zero) (pub_tasks_update (t\<lparr>t_status := StatusStarting, t_error := []\<rparr>)) (\<lambda>t1.
       if t_pending t1 \<or> t_container t1 = []
       then on_err (wrapped ''recreate container'' (fail_task t1)) (rt_recreate (t_container t1) (task_spec t1 (p_slug p))) (\<lambda>i.
         start_container ''start container'' (t1\<lparr>t_container := i, t_pending := False\<rparr>) (p_slug p))
       else start_container ''start container'' t1 (p_slug p)))"

definition tk_stop :: "string \<Rightarrow> string \<Rightarrow> (world, outcome) io" where
  "tk_stop slug name = on_err zero (get_task slug name) (\<lambda>(t, p).
     if t_status t = StatusStopped then zero (conflict (''task '' @ quoted name @ '' is stopped''))
     else if busy t then zero (transitioning name)
     else on_err (wrapped ''stop container'' (fail_task t)) (if t_container t \<noteq> [] then rt_stop (t_container t) else ret ()) (\<lambda>_.
       io_bind (routes_unregister (p_slug p) name) (\<lambda>_.
       on_err (wrapped ''persist stopped task'' zero) (pub_tasks_update (t\<lparr>t_status := StatusStopped, t_ip := [], t_error := []\<rparr>)) done_with)))"

definition tk_restart :: "string \<Rightarrow> string \<Rightarrow> (world, outcome) io" where
  "tk_restart slug name = on_err zero (get_task slug name) (\<lambda>(t, p).
     if busy t then zero (transitioning name)
     else on_err zero (task_credential p) (\<lambda>cred.
       on_err (wrapped ''pull image'' zero) (rt_pull (t_image t) cred) (\<lambda>_.
       io_bind (routes_unregister (p_slug p) name) (\<lambda>_.
       on_err (wrapped ''recreate container'' (fail_task t)) (rt_recreate (t_container t) (task_spec t (p_slug p))) (\<lambda>i.
       on_err (wrapped ''mark restarting'' zero)
         (pub_tasks_update (t\<lparr>t_container := i, t_pending := False, t_status := StatusStarting\<rparr>)) (\<lambda>t1.
       start_container ''restart container'' t1 (p_slug p)))))))"

definition drop_container :: "string \<Rightarrow> (world, unit) io" where
  "drop_container c = (if c = [] then ret () else
     io_bind (io_try (rt_inspect c)) (\<lambda>r.
     io_bind (case r of Inr st \<Rightarrow> if cs_exists st \<and> cs_status st = StatusRunning
          then io_wrap ''stop before delete'' (rt_stop c) else ret ()
        | Inl _ \<Rightarrow> ret ()) (\<lambda>_.
     io_bind (io_try (rt_remove c)) (\<lambda>r. case r of Inr _ \<Rightarrow> ret ()
        | Inl e \<Rightarrow> if err_is e ErrNotFound then ret () else fail (err_wrap ''remove container'' e)))))"

definition tk_delete :: "string \<Rightarrow> string \<Rightarrow> (world, unit) io" where
  "tk_delete slug name = io_bind (get_task slug name) (\<lambda>(t, p).
     io_bind (routes_unregister (p_slug p) name) (\<lambda>_. io_bind (routes_set (p_slug p) name []) (\<lambda>_.
     io_bind (routes_lock (p_slug p) name []) (\<lambda>_. io_bind (drop_container (t_container t)) (\<lambda>_.
     io_wrap ''delete task'' (pub_tasks_delete (t_id t)))))))"

section \<open>Updating\<close>

record update_task_input =
  ut_description :: "string option"
  ut_note :: "string option"
  ut_dev :: "dev_status option"
  ut_form :: "form_factor option"
  ut_password :: "string option"
  ut_image :: "string option"
  ut_port :: "int option"
  ut_labels :: "strmap option"
  ut_env :: "strmap option"
  ut_volumes :: "strmap option"
  ut_routes :: "route list option"
  ut_revision :: revision

definition or_old :: "'v option \<Rightarrow> 'v \<Rightarrow> 'v" where
  "or_old v old = (case v of None \<Rightarrow> old | Some x \<Rightarrow> x)"

text \<open>The specification the update asks for.\<close>

definition update_spec :: "task \<Rightarrow> project \<Rightarrow> update_task_input \<Rightarrow> container_spec" where
  "update_spec t p inp = (let s = task_spec t (p_slug p) in
     s\<lparr>s_image := or_old (map_option trim_space (ut_image inp)) (s_image s), s_port := or_old (ut_port inp) (s_port s),
       s_labels := or_old (ut_labels inp) (s_labels s), s_env := or_old (ut_env inp) (s_env s),
       s_volumes := or_old (ut_volumes inp) (s_volumes s)\<rparr>)"

definition password_hash :: "string \<Rightarrow> (world, string) io" where
  "password_hash password = (if password = [] then ret []
     else if length password < min_password_length \<or> length password > 72
     then fail (err_invalid (''password must be '' @ nat_str min_password_length @ '' to 72 characters''))
     else bcrypt_hash password)"

text \<open>The checks of \<open>update\<close>, in the order of the source; they give the routes and the lock's hash.\<close>

definition update_checks :: "task \<Rightarrow> container_spec \<Rightarrow> update_task_input \<Rightarrow> (world, route list \<times> string) io" where
  "update_checks t s inp = io_bind (if ut_volumes inp \<noteq> None then check_folders s else ret ()) (\<lambda>_.
     io_bind (io_check (validate_spec s)) (\<lambda>_.
     io_bind (io_check (Option.bind (ut_dev inp) validate_dev_status)) (\<lambda>_.
     io_bind (io_check (Option.bind (ut_form inp) validate_form_factor)) (\<lambda>_.
     io_bind (case ut_routes inp of None \<Rightarrow> ret (t_routes t)
       | Some rs \<Rightarrow> io_bind (io_get (\<lambda>w. clean_routes (x_url (ext w)) rs)) io_lift) (\<lambda>routes.
     io_bind (case ut_password inp of None \<Rightarrow> ret (t_password t) | Some pw \<Rightarrow> password_hash pw) (\<lambda>hash.
     ret (routes, hash)))))))"

definition changed :: "'v option \<Rightarrow> 'v \<Rightarrow> bool" where
  "changed v old = (case v of None \<Rightarrow> False | Some x \<Rightarrow> x \<noteq> old)"

definition container_changed :: "task \<Rightarrow> container_spec \<Rightarrow> bool \<Rightarrow> bool" where
  "container_changed t s recreate \<longleftrightarrow> (recreate \<and> t_pending t) \<or> s_image s \<noteq> t_image t \<or> s_port s \<noteq> t_port t \<or>
     \<not> maps_equal (s_labels s) (t_labels t) \<or> \<not> maps_equal (s_env s) (t_env t) \<or> \<not> maps_equal (s_volumes s) (t_volumes t)"

definition nothing_changed :: "task \<Rightarrow> update_task_input \<Rightarrow> route list \<Rightarrow> string \<Rightarrow> bool" where
  "nothing_changed t inp routes hash \<longleftrightarrow> \<not> changed (ut_description inp) (t_description t) \<and> \<not> changed (ut_note inp) (t_note t) \<and>
     \<not> changed (ut_dev inp) (t_dev t) \<and> \<not> changed (ut_form inp) (t_form t) \<and> hash = t_password t \<and> routes = t_routes t"

definition edited :: "task \<Rightarrow> update_task_input \<Rightarrow> route list \<Rightarrow> string \<Rightarrow> task" where
  "edited t inp routes hash = t\<lparr>t_routes := routes, t_password := hash, t_description := or_old (ut_description inp) (t_description t),
     t_note := or_old (ut_note inp) (t_note t), t_dev := or_old (ut_dev inp) (t_dev t), t_form := or_old (ut_form inp) (t_form t)\<rparr>"

text \<open>The row with the new configuration, which waits for a container made from it.\<close>

definition respecified :: "task \<Rightarrow> container_spec \<Rightarrow> revision \<Rightarrow> task" where
  "respecified t s rv = t\<lparr>t_revision := (if s_image s \<noteq> t_image t then rv else t_revision t), t_image := s_image s, t_port := s_port s,
     t_labels := s_labels s, t_env := s_env s, t_volumes := s_volumes s, t_pending := True, t_status := StatusStopped, t_ip := [],
     t_error := []\<rparr>"

text \<open>The part of \<open>update\<close> that replaces the container.\<close>

definition apply_spec :: "task \<Rightarrow> project \<Rightarrow> container_spec \<Rightarrow> revision \<Rightarrow> bool \<Rightarrow> (world, outcome) io" where
  "apply_spec t p s rv recreate = (let was_running = (t_status t = StatusRunning) in
     on_err (wrapped ''stop for update'' (fail_task t)) (if was_running then rt_stop (t_container t) else ret ()) (\<lambda>_.
     io_bind (if was_running then routes_unregister (p_slug p) (t_name t) else ret ()) (\<lambda>_.
     on_err (wrapped ''persist task'' zero) (pub_tasks_update (respecified t s rv)) (\<lambda>t1.
     if \<not> recreate then done_with t1
     else on_err (wrapped ''apply update'' (fail_task t1)) (rt_recreate (t_container t1) (task_spec t1 (p_slug p))) (\<lambda>i.
       let t2 = t1\<lparr>t_container := i, t_pending := False\<rparr> in
       if \<not> was_running then on_err (wrapped ''persist recreated container'' zero) (pub_tasks_update t2) done_with
       else start_container ''start recreated container'' t2 (p_slug p))))))"

definition update_row :: "task \<Rightarrow> project \<Rightarrow> update_task_input \<Rightarrow> bool \<Rightarrow> (world, outcome) io" where
  "update_row t p inp recreate = (let s = update_spec t p inp in
     on_err zero (update_checks t s inp) (\<lambda>(routes, hash).
     if nothing_changed t inp routes hash \<and> \<not> container_changed t s recreate then done_with t
     else let t1 = edited t inp routes hash in
       if \<not> container_changed t s recreate then on_err (wrapped ''persist task'' zero) (pub_tasks_update t1) done_with
       else on_err zero (if s_image s \<noteq> t_image t \<and> recreate then
           io_bind (task_credential p) (\<lambda>cred. io_wrap ''pull image'' (rt_pull (s_image s) cred)) else ret ()) (\<lambda>_.
         apply_spec t1 p s (ut_revision inp) recreate)))"

definition dev_label :: "dev_status \<Rightarrow> string" where
  "dev_label d = (case d of DevInProgress \<Rightarrow> ''In Progress'' | DevBlocked \<Rightarrow> ''Blocked'' | DevReady \<Rightarrow> ''Ready'' | OtherDev s \<Rightarrow> s)"

definition status_changed :: string where
  "status_changed = [CHR 0xF0, CHR 0x9F, CHR 0x94, CHR 0x84] @ '' Status Changed''"

definition arrow :: string where
  "arrow = [CHR '' '', CHR 0xE2, CHR 0x9E, CHR 0x94, CHR '' '']"

definition tk_update :: "string \<Rightarrow> string \<Rightarrow> update_task_input \<Rightarrow> bool \<Rightarrow> (world, outcome) io" where
  "tk_update slug name inp recreate = on_err zero (get_task slug name) (\<lambda>(t, p).
     io_bind (update_row t p inp recreate) (\<lambda>(u, e).
     io_bind (if t_id u \<noteq> 0 \<and> t_routes u \<noteq> t_routes t then routes_set (p_slug p) name (t_routes u) else ret ()) (\<lambda>_.
     io_bind (if t_id u \<noteq> 0 \<and> t_password u \<noteq> t_password t then routes_lock (p_slug p) name (t_password u) else ret ()) (\<lambda>_.
     io_bind (if e = None \<and> t_dev u \<noteq> t_dev t then notify (new_notification p name NotificationStatusChanged status_changed
         (dev_label (t_dev t) @ arrow @ dev_label (t_dev u))) else ret ()) (\<lambda>_.
     ret (u, e))))))"

section \<open>Deploying\<close>

definition no_update :: update_task_input where
  "no_update = \<lparr>ut_description = None, ut_note = None, ut_dev = None, ut_form = None, ut_password = None, ut_image = None,
     ut_port = None, ut_labels = None, ut_env = None, ut_volumes = None, ut_routes = None, ut_revision = zero_revision\<rparr>"

definition deploy_notification :: "ext \<Rightarrow> project \<Rightarrow> string \<Rightarrow> time \<Rightarrow> goerr option \<Rightarrow> notification" where
  "deploy_notification x p name at cause = (case cause of
       Some e \<Rightarrow> new_notification p name NotificationDeployFailed ([CHR 0xE2, CHR 0x9D, CHR 0x8C] @ '' Deploy Failed'')
         (''Failed at '' @ x_clock x at @ '': '' @ msg e)
     | None \<Rightarrow> new_notification p name NotificationDeployed ([CHR 0xF0, CHR 0x9F, CHR 0x9A, CHR 0x80] @ '' Deploy Succeeded'')
         (''Task completed at '' @ x_clock x at))"

definition next_revision :: "revision \<Rightarrow> revision \<Rightarrow> revision" where
  "next_revision rv old = (if v_repo rv = v_repo old
     then rv\<lparr>v_previous := (if v_commit rv = v_commit old then v_previous old else v_commit old)\<rparr> else rv)"

definition tk_deploy :: "string \<Rightarrow> string \<Rightarrow> string \<Rightarrow> revision \<Rightarrow> (world, outcome) io" where
  "tk_deploy slug name raw rv = (let img = trim_space raw in
     if \<not> match_deploy_digest img
     then zero (err_invalid ''deploy image must be immutable, of the form repository@sha256:<64 hex digits>'')
     else on_err zero (io_check (validate_revision rv)) (\<lambda>_. on_err zero (get_task slug name) (\<lambda>(t, p).
       if t_image t = img \<and> \<not> t_pending t then done_with t
       else io_bind (update_row t p (no_update\<lparr>ut_image := Some img, ut_revision := next_revision rv (t_revision t)\<rparr>) True) (\<lambda>(u, e).
         io_bind (io_get (\<lambda>w. deploy_notification (ext w) p name (now w) e)) (\<lambda>n. io_bind (notify n) (\<lambda>_. ret (u, e)))))))"

section \<open>Reports and reads\<close>

definition merged_build :: "build \<Rightarrow> build \<Rightarrow> build" where
  "merged_build b previous = (if b_state b = BuildRunning then b
     else b\<lparr>b_stage := or_str (b_stage b) (b_stage previous), b_progress := or_int (b_progress b) (b_progress previous),
       b_url := or_str (b_url b) (b_url previous)\<rparr>)"

definition new_failure :: "build \<Rightarrow> build \<Rightarrow> bool" where
  "new_failure b previous \<longleftrightarrow> b_state b = BuildFailure \<and> (b_state previous \<noteq> BuildFailure \<or> b_url b \<noteq> b_url previous)"

definition tk_report_build :: "string \<Rightarrow> string \<Rightarrow> build \<Rightarrow> (world, unit) io" where
  "tk_report_build slug name raw = (let b0 = raw\<lparr>b_stage := trim_space (b_stage raw)\<rparr> in
     io_bind (io_get (\<lambda>w. validate_build (x_url (ext w)) b0)) (\<lambda>v. io_bind (io_check v) (\<lambda>_.
     io_bind (get_task slug name) (\<lambda>(t, p). io_bind (io_get now) (\<lambda>at.
     let b = (merged_build b0 (t_build t))\<lparr>b_at := at\<rparr> in
     io_bind (io_wrap ''record build'' (pub_set_build (t_id t) b)) (\<lambda>_.
     if new_failure b (t_build t) then notify (new_notification p name NotificationBuildFailed
         ([CHR 0xF0, CHR 0x9F, CHR 0x94, CHR 0xA8] @ '' Build Failed'')
         (if b_stage b \<noteq> [] then ''failed at '' @ b_stage b else ''build failed''))
     else ret ()))))))"

definition tk_list :: "access \<Rightarrow> (world, task list) io" where
  "tk_list acc = io_wrap ''list tasks'' (db_tasks_list (p_id (acc_project acc)) (acc_user acc) (acc_all acc))"

definition tk_get :: "string \<Rightarrow> string \<Rightarrow> (world, task) io" where
  "tk_get slug name = io_bind (get_task slug name) (\<lambda>(t, _). ret t)"

text \<open>\<open>CheckRoute\<close> up to the request itself: the route it sends one request of.\<close>

definition tk_check_route :: "string \<Rightarrow> string \<Rightarrow> route \<Rightarrow> (world, route) io" where
  "tk_check_route slug name r = io_bind (get_task slug name) (\<lambda>_.
     io_bind (io_bind (io_get (\<lambda>w. clean_route_url (x_url (ext w)) (r_url r))) io_lift) (\<lambda>target. ret (r\<lparr>r_url := target\<rparr>)))"

definition tk_logs :: "string \<Rightarrow> string \<Rightarrow> log_options \<Rightarrow> (world, string) io" where
  "tk_logs slug name opts = (if lo_tail opts < 0 then fail (err_invalid ''log tail must not be negative'')
     else io_bind (get_task slug name) (\<lambda>(t, _).
       if t_container t = [] then fail (conflict ''task has no container'')
       else io_wrap ''read logs'' (rt_logs (t_container t) opts)))"

record system_stats =
  ss_total :: nat
  ss_projects :: nat
  ss_running :: nat
  ss_stopped :: nat
  ss_memory :: int

definition tk_system_stats :: "(world, system_stats) io" where
  "tk_system_stats = io_bind (io_wrap ''list for stats'' db_tasks_all) (\<lambda>ts.
     io_bind (io_wrap ''count projects'' db_projects_count) (\<lambda>n. io_bind (io_wrap ''runtime stats'' rt_total_memory) (\<lambda>m.
     ret \<lparr>ss_total = length ts, ss_projects = n, ss_running = length (filter (\<lambda>t. t_status t = StatusRunning) ts),
       ss_stopped = length (filter (\<lambda>t. t_status t = StatusStopped \<or> t_status t = StatusError) ts), ss_memory = m\<rparr>)))"

section \<open>Reconciliation\<close>

definition reconcile_state :: "task \<Rightarrow> goerr + container_state \<Rightarrow> task" where
  "reconcile_state t r = (case r of
       Inl e \<Rightarrow> t\<lparr>t_status := StatusUnknown, t_ip := [], t_error := msg e\<rparr>
     | Inr st \<Rightarrow> if \<not> cs_exists st then t\<lparr>t_status := StatusUnknown, t_ip := []\<rparr>
         else t\<lparr>t_status := cs_status st, t_ip := cs_ip st, t_error := cs_error st\<rparr>)"

definition reachable :: "goerr + container_state \<Rightarrow> bool" where
  "reachable r \<longleftrightarrow> (case r of Inl _ \<Rightarrow> False | Inr st \<Rightarrow> cs_exists st \<and> cs_status st = StatusRunning \<and> cs_ip st \<noteq> [])"

text \<open>One task; the result is what it adds to the joined errors.\<close>

definition reconcile_one :: "string \<Rightarrow> task \<Rightarrow> (world, goerr list) io" where
  "reconcile_one slug t = io_bind (routes_set slug (t_name t) (t_routes t)) (\<lambda>_.
     io_bind (routes_lock slug (t_name t) (t_password t)) (\<lambda>_.
     io_bind (io_try (rt_inspect (t_container t))) (\<lambda>r.
     io_bind (if reachable r
       then io_bind (io_try (routes_register slug (t_name t) (t_ip (reconcile_state t r)) (t_port t))) (\<lambda>c. ret (case c of Inr _ \<Rightarrow> []
          | Inl e \<Rightarrow> [err_wrap (''route '' @ quoted slug @ ''/'' @ quoted (t_name t)) e]))
       else io_bind (routes_unregister slug (t_name t)) (\<lambda>_. ret [])) (\<lambda>es.
     io_bind (io_try (pub_tasks_update (reconcile_state t r))) (\<lambda>c. ret (es @ (case c of Inr _ \<Rightarrow> []
        | Inl e \<Rightarrow> [err_wrap (''update '' @ quoted (t_name t)) e])))))))"

fun reconcile_all :: "(uuid \<times> string) list \<Rightarrow> task list \<Rightarrow> (world, goerr list) io" where
  "reconcile_all slugs [] = ret []"
| "reconcile_all slugs (t # ts) = io_bind (case map_of slugs (t_project t) of
       None \<Rightarrow> ret [err_new (''task '' @ quoted (t_name t) @ '' references unknown project'')]
     | Some slug \<Rightarrow> reconcile_one slug t) (\<lambda>es. io_bind (reconcile_all slugs ts) (\<lambda>rest. ret (es @ rest)))"

definition tk_reconcile :: "(world, unit) io" where
  "tk_reconcile = io_bind (io_wrap ''list projects for reconcile'' db_projects_list) (\<lambda>ps.
     io_bind (io_wrap ''list for reconcile'' db_tasks_all) (\<lambda>ts.
     io_bind (reconcile_all (map (\<lambda>p. (p_id p, p_slug p)) ps) ts) (\<lambda>es.
     case es of [] \<Rightarrow> ret () | e # rest \<Rightarrow> fail (fold (\<lambda>b a. err_join a b) rest e))))"

section \<open>Successful runs\<close>

definition failing :: "(goerr \<Rightarrow> (world, outcome) io) \<Rightarrow> bool" where
  "failing h \<longleftrightarrow> (\<forall>e w t w'. h e w \<noteq> (Inr (t, None), w'))"

lemma failing_handlers [simp]: "failing zero" "failing (fail_task t)" "failing h \<Longrightarrow> failing (wrapped what h)"
  "failing (\<lambda>e. io_bind (io_try (rt_remove i)) (\<lambda>_. zero (err_wrap what e)))"
  by (auto simp: failing_def zero_def fail_task_def wrapped_def io_defs Let_def split: prod.splits sum.splits)

lemma on_err_ok:
  assumes "failing h" "on_err h m f w = (Inr (t, None), w')"
  shows "\<exists>x w1. m w = (Inr x, w1) \<and> f x w1 = (Inr (t, None), w')"
  using assms by (auto simp: on_err_def io_bind_def io_try_def failing_def split: prod.splits sum.splits)

lemma not_zero: "zero e w \<noteq> (Inr (t, None), w')"
  by (simp add: zero_def ret_def)

lemma done_ok [simp]: "done_with t w = (Inr (u, None), w') \<longleftrightarrow> u = t \<and> w' = w"
  by (auto simp: done_with_def ret_def)

lemma published_ok: "published m w = (Inr x, w') \<Longrightarrow> \<exists>w1. m w = (Inr x, w1) \<and> w' = w1\<lparr>hub := Option.bind (hub w1) publish\<rparr>"
  by (auto simp: published_def publish_events_def io_mod_def split: prod.splits)

lemma tasks_update_ok:
  assumes "pub_tasks_update t w = (Inr u, w')"
  obtains old fs hb where "rows_with t_id (t_id t) (tasks w) = [old]"
    "w' = w\<lparr>faults := fs, tasks := rows_upd t_id (t_id t) (task_write t (now w)) (tasks w), hub := hb\<rparr>"
    "u = scan_task w (task_write t (now w) old)"
proof -
  obtain w1 where w1: "db_tasks_update t w = (Inr u, w1)" "w' = w1\<lparr>hub := Option.bind (hub w1) publish\<rparr>"
    using published_ok [OF assms [unfolded pub_tasks_update_def]] by blast
  obtain fs where "io_bind (io_get (\<lambda>w. rows_with t_id (t_id t) (tasks w))) (\<lambda>rows.
     io_bind (one ''update task'' rows) (\<lambda>old. io_bind (io_get now) (\<lambda>at.
     io_bind (constraint ''update task'' (\<lambda>_. task_checks (task_write t at old))) (\<lambda>_.
     io_bind (io_mod (\<lambda>w. w\<lparr>tasks := rows_upd t_id (t_id t) (task_write t at) (tasks w)\<rparr>)) (\<lambda>_.
     io_get (\<lambda>w. scan_task w (task_write t at old))))))) (w\<lparr>faults := fs\<rparr>) = (Inr u, w1)"
    using db_call_ok [OF w1(1) [unfolded db_tasks_update_def]] by blast
  then obtain old where old: "rows_with t_id (t_id t) (tasks w) = [old]"
    "w1 = w\<lparr>faults := fs, tasks := rows_upd t_id (t_id t) (task_write t (now w)) (tasks w)\<rparr>"
    "u = scan_task w1 (task_write t (now w) old)"
    by (auto simp: run_ok)
  have "scan_task w1 r = scan_task w r" for r
    using old(2) by (simp add: scan_task_def task_assignees_def joined_def)
  with old w1(2) show ?thesis by (intro that [where old = old and fs = fs and hb = "Option.bind (hub w1) publish"]) simp_all
qed

lemma task_write_simps [simp]: "t_id (task_write t at r) = t_id r" "t_name (task_write t at r) = t_name r"
  "t_project (task_write t at r) = t_project r" "t_status (task_write t at r) = t_status t" "t_ip (task_write t at r) = t_ip t"
  "t_port (task_write t at r) = t_port t" "t_container (task_write t at r) = t_container t" "t_build (task_write t at r) = t_build r"
  "t_error (task_write t at r) = t_error t" "t_image (task_write t at r) = t_image t" "t_pending (task_write t at r) = t_pending t"
  "t_revision (task_write t at r) = t_revision t" "t_routes (task_write t at r) = t_routes t" "t_password (task_write t at r) = t_password t"
  "t_labels (task_write t at r) = t_labels t" "t_env (task_write t at r) = t_env t" "t_volumes (task_write t at r) = t_volumes t"
  by (simp_all add: task_write_def)

lemma scan_task_simps [simp]: "t_id (scan_task w r) = t_id r" "t_name (scan_task w r) = t_name r"
  "t_project (scan_task w r) = t_project r" "t_status (scan_task w r) = t_status r" "t_ip (scan_task w r) = t_ip r"
  "t_port (scan_task w r) = t_port r" "t_container (scan_task w r) = t_container r" "t_build (scan_task w r) = t_build r"
  "t_error (scan_task w r) = t_error r" "t_image (scan_task w r) = t_image r" "t_pending (scan_task w r) = t_pending r"
  "t_revision (scan_task w r) = t_revision r" "t_routes (scan_task w r) = t_routes r" "t_password (scan_task w r) = t_password r"
  "t_labels (scan_task w r) = t_labels r" "t_env (scan_task w r) = t_env r" "t_volumes (scan_task w r) = t_volumes r"
  by (simp_all add: scan_task_def)

lemma poll_ok:
  assumes "poll i port w = (Inr (Some (Inr st)), w')"
  shows "cs_status st = StatusRunning \<and> cs_ip st \<noteq> []"
proof (cases "rt_inspect i w")
  case (Pair r w1)
  with assms show ?thesis
    by (cases r) (auto simp: poll_def io_bind_def io_try_def ret_def split: if_split_asm prod.split_asm sum.split_asm)
qed

lemma wait_ready_ok: "wait_ready n i port w = (Inr st, w') \<Longrightarrow> cs_status st = StatusRunning \<and> cs_ip st \<noteq> []"
proof (induction n arbitrary: w)
  case (Suc n)
  obtain r w1 where r: "poll i port w = (Inr r, w1)" using Suc.prems by (auto simp: bind_ok_iff)
  with Suc show ?case
    by (cases r rule: option.exhaust; cases "the r") (auto simp: io_bind_def ret_def fail_def dest: poll_ok)
qed (simp add: fail_def)

text \<open>What the daemon's calls leave alone.\<close>

definition rest :: "world \<Rightarrow> world" where
  "rest w = w\<lparr>faults := [], seed := 0, hub := None, dlog := []\<rparr>"

lemma rest_simps [simp]: "rest (w\<lparr>dlog := h\<rparr>) = rest w" "rest (w\<lparr>faults := fs\<rparr>) = rest w" "rest (w\<lparr>hub := hb\<rparr>) = rest w"
  "rest (w\<lparr>seed := n\<rparr>) = rest w"
  by (simp_all add: rest_def)

lemma rest_fields [simp]: "ext (rest w) = ext w" "now (rest w) = now w" "users (rest w) = users w" "projects (rest w) = projects w"
  "members (rest w) = members w" "tasks (rest w) = tasks w" "grants (rest w) = grants w" "notifications (rest w) = notifications w"
  "sites (rest w) = sites w" "outbox (rest w) = outbox w" "daemon (rest w) = daemon w"
  by (simp_all add: rest_def)

lemma rest_eqD: "rest w' = rest w \<Longrightarrow> ext w' = ext w \<and> now w' = now w \<and> users w' = users w \<and>
    projects w' = projects w \<and> tasks w' = tasks w \<and> grants w' = grants w \<and> sites w' = sites w \<and> outbox w' = outbox w"
  by (metis rest_fields)

text \<open>A part of the state that does not depend on what those calls touch is kept by them.\<close>

lemma keeps_by_rest: "keeps rest m \<Longrightarrow> (\<And>w. f (rest w) = f w) \<Longrightarrow> keeps f m"
  unfolding keeps_def by metis

lemma keeps_d_must [keeps_intros]: "keeps f m \<Longrightarrow> keeps f (d_must g m)"
  unfolding d_must_def by (intro keeps_intros)

lemma keeps_docker_error [keeps_intros]:
  "(\<And>s. keeps f (a s)) \<Longrightarrow> (\<And>s. keeps f (b s)) \<Longrightarrow> (\<And>s. keeps f (c s)) \<Longrightarrow> (\<And>s. keeps f (d s)) \<Longrightarrow>
   keeps f (case e of DockerNotFound s \<Rightarrow> a s | DockerConflict s \<Rightarrow> b s | DockerNotModified s \<Rightarrow> c s | DockerOther s \<Rightarrow> d s)"
  by (cases e) auto

lemma rt_rest: "keeps rest (rt_pull img cred)" "keeps rest (rt_create s)" "keeps rest (rt_start i)" "keeps rest (rt_stop i)"
  "keeps rest (rt_remove i)" "keeps rest (rt_recreate i s)" "keeps rest (rt_inspect i)" "keeps rest (rt_folders d)"
  "keeps rest (rt_logs i lo)" "keeps rest (tcp_ready ad)" "keeps rest rt_total_memory"
  unfolding rt_pull_def rt_create_def rt_start_def rt_stop_def rt_remove_def rt_recreate_def rt_inspect_def rt_folders_def
    rt_logs_def tcp_ready_def rt_total_memory_def open_up_def remove_superseded_def unless_missing_def
  by (intro keeps_intros; simp)+

lemma poll_rest: "keeps rest (poll i port)"
  unfolding poll_def by (intro keeps_intros rt_rest)

lemma wait_rest: "keeps rest (wait_ready n i port)"
  by (induction n) (auto intro!: keeps_intros poll_rest)

lemma folders_rest: "keeps rest (check_folders s)" "keeps rest (task_credential p)"
  unfolding check_folders_def tk_folders_def task_credential_def db_credentials_get_def
  by (intro keeps_intros rt_rest; simp)+

lemma drop_rest: "keeps rest (drop_container c)"
  unfolding drop_container_def by (intro keeps_intros rt_rest)

lemma restD: "keeps rest m \<Longrightarrow> m w = (r, w') \<Longrightarrow> ext w' = ext w \<and> now w' = now w \<and> users w' = users w \<and>
    projects w' = projects w \<and> tasks w' = tasks w \<and> grants w' = grants w \<and> sites w' = sites w \<and> outbox w' = outbox w"
  by (rule rest_eqD) (rule keepsD)

lemmas calls_rest = rt_rest poll_rest wait_rest folders_rest drop_rest

end
