(* ===== verification/Task_Runs.thy ===== *)
theory Task_Runs
  imports Tasks
begin

text \<open>
  What a task operation that succeeds leaves behind: the row, the registered address and the
  containers. The facts about the registry come from its interface, \<open>route_registry\<close>.
\<close>

section \<open>Rows read and written\<close>

lemma get_project_ok:
  assumes "get_project slug w = (Inr p, w')"
  shows "p \<in> set (projects w) \<and> p_slug p = slug \<and> validate_project_slug slug = None \<and> (\<exists>fs. w' = w\<lparr>faults := fs\<rparr>)"
proof -
  obtain fs where p: "rows_with p_slug slug (projects w) = [p]" "w' = w\<lparr>faults := fs\<rparr>" "validate_project_slug slug = None"
    using assms by (auto simp: get_project_def run_ok db_projects_by_slug_def dest!: query_ok)
  then show ?thesis using set_rows_with [of p_slug slug "projects w"] by auto
qed

lemma get_task_ok:
  assumes "get_task slug name w = (Inr (t, p), w')"
  obtains r fs where "p \<in> set (projects w)" "p_slug p = slug" "r \<in> set (tasks w)" "t_project r = p_id p" "t_name r = name"
    "t = scan_task w r" "w' = w\<lparr>faults := fs\<rparr>" "validate_task_name name = None" "validate_project_slug slug = None"
proof -
  obtain fs r w1 where ok: "validate_task_name name = None" "get_project slug w = (Inr p, w1)"
    "task_named (p_id p) name (tasks w1) = [r]" "t = scan_task (w1\<lparr>faults := fs\<rparr>) r" "w' = w1\<lparr>faults := fs\<rparr>"
    using assms by (auto simp: get_task_def run_ok db_tasks_by_name_def dest!: query_ok)
  from get_project_ok [OF ok(2)] obtain fs' where p: "p \<in> set (projects w)" "p_slug p = slug" "w1 = w\<lparr>faults := fs'\<rparr>"
    "validate_project_slug slug = None" by blast
  have "r \<in> set (task_named (p_id p) name (tasks w))" using ok(3) p(3) by simp
  then show ?thesis
    using ok p by (intro that [of r fs]) (auto simp: task_named_def scan_task_def task_assignees_def joined_def)
qed

lemma single_row: "rows_with key k rows = [old] \<Longrightarrow> r \<in> set rows \<Longrightarrow> key r = k \<Longrightarrow> old = r"
  using set_rows_with [of key k rows] by (metis (mono_tags, lifting) empty_iff list.set(1) list.set(2) mem_Collect_eq singletonD)

definition running :: "task \<Rightarrow> string \<Rightarrow> task" where
  "running t ip = t\<lparr>t_status := StatusRunning, t_ip := ip, t_error := [], t_pending := False\<rparr>"

lemma running_simps [simp]: "t_ip (running t i) = i" "t_port (running t i) = t_port t" "t_id (running t i) = t_id t"
  "t_status (running t i) = StatusRunning" "t_container (running t i) = t_container t" "t_image (running t i) = t_image t"
  "t_pending (running t i) = False"
  by (simp_all add: running_def)

text \<open>The state \<open>finishStart\<close> leaves when it hands \<open>u\<close> back for the task \<open>t\<close>.\<close>

definition started :: "string \<Rightarrow> task \<Rightarrow> world \<Rightarrow> task \<Rightarrow> world \<Rightarrow> bool" where
  "started slug t w u w' \<longleftrightarrow> (\<exists>old. rows_with t_id (t_id t) (tasks w) = [old] \<and> t_ip u \<noteq> [] \<and>
     u = scan_task w (task_write (running t (t_ip u)) (now w) old) \<and>
     tasks w' = rows_upd t_id (t_id t) (task_write (running t (t_ip u)) (now w)) (tasks w) \<and>
     sites w' = reg_put (ext w) slug (t_name old) (t_ip u, t_port t) (sites w) \<and> ext w' = ext w)"

lemma scan_task_frame: "ext w' = ext w \<Longrightarrow> users w' = users w \<Longrightarrow> grants w' = grants w \<Longrightarrow> scan_task w' r = scan_task w r"
  by (simp add: scan_task_def task_assignees_def joined_def)

lemma routes_register_ok: "routes_register slug name ip port w = (Inr u, w') \<Longrightarrow>
    w' = w\<lparr>sites := reg_put (ext w) slug name (ip, port) (sites w)\<rparr>"
  by (auto simp: routes_register_def run_ok reg_register_ok split: sum.split_asm)

lemma finish_start_ok:
  assumes "finish_start t slug w = (Inr (u, None), w')"
  shows "started slug t w u w'"
proof -
  obtain n w1 st w2 v w3 where run: "wait_ready n (t_container t) (t_port t) w1 = (Inr st, w2)" "rest w1 = rest w"
    "pub_tasks_update (running t (cs_ip st)) w2 = (Inr v, w3)" "\<exists>x. routes_register slug (t_name v) (t_ip v) (t_port v) w3 = (Inr x, w')" "u = v"
    using assms unfolding finish_start_def
    by (auto simp: bind_ok_iff polls_def run_simps running_def dest!: on_err_ok [rotated])
  from wait_rest [THEN restD, OF run(1)] run(2) have w2: "ext w2 = ext w" "now w2 = now w" "tasks w2 = tasks w" "sites w2 = sites w"
    "users w2 = users w" "grants w2 = grants w"
    by (auto dest: rest_eqD)
  from run(3) obtain old fs hb where up: "rows_with t_id (t_id t) (tasks w) = [old]"
    "w3 = w2\<lparr>faults := fs, tasks := rows_upd t_id (t_id t) (task_write (running t (cs_ip st)) (now w)) (tasks w), hub := hb\<rparr>"
    "v = scan_task w (task_write (running t (cs_ip st)) (now w) old)"
    by (elim tasks_update_ok) (auto simp: w2 scan_task_frame [OF w2(1,5,6)] running_def)
  have v: "t_ip v = cs_ip st" "t_name v = t_name old" "t_port v = t_port t" using up(3) by (simp_all add: running_def)
  from run(4) routes_register_ok have "w' = w3\<lparr>sites := reg_put (ext w3) slug (t_name v) (t_ip v, t_port v) (sites w3)\<rparr>" by blast
  then show ?thesis
    using up w2 run(5) wait_ready_ok [OF run(1)] by (auto simp: started_def v)
qed

lemma start_container_ok:
  assumes "start_container what t slug w = (Inr (u, None), w')"
  obtains w1 where "rest w1 = rest w" "started slug t w1 u w'"
proof -
  obtain w1 where "rt_start (t_container t) w = (Inr (), w1)" "finish_start t slug w1 = (Inr (u, None), w')"
    using assms by (auto simp: start_container_def dest!: on_err_ok [rotated])
  then show ?thesis using that finish_start_ok rt_rest(3) [THEN keepsD] by blast
qed

lemma started_rest:
  assumes "rest w1 = rest w" "started slug t w1 u w'"
  shows "started slug t w u w'"
proof -
  have eq: "ext w1 = ext w" "now w1 = now w" "tasks w1 = tasks w" "sites w1 = sites w" "users w1 = users w" "grants w1 = grants w"
    using rest_eqD [OF assms(1)] by simp_all
  show ?thesis using assms(2) unfolding started_def eq scan_task_frame [OF eq(1,5,6)] .
qed

text \<open>What a caller sees of a started task.\<close>

definition serves :: "string \<Rightarrow> string \<Rightarrow> task \<Rightarrow> world \<Rightarrow> bool" where
  "serves slug name u w \<longleftrightarrow> t_name u = name \<and> t_status u = StatusRunning \<and> t_ip u \<noteq> [] \<and> \<not> t_pending u \<and>
     (\<exists>r \<in> set (tasks w). t_id r = t_id u \<and> t_name r = name \<and> t_status r = StatusRunning \<and> t_ip r = t_ip u \<and>
        t_container r = t_container u \<and> \<not> t_pending r) \<and>
     task_hop (ext w) slug name (sites w) = Some (container_hop slug name (t_ip u, t_port u))"

lemma started_serves:
  assumes "started slug t w u w'" "r \<in> set (tasks w)" "t_id r = t_id t" "t_name r = name"
  shows "serves slug name u w'"
proof -
  obtain old where o: "rows_with t_id (t_id t) (tasks w) = [old]" "t_ip u \<noteq> []"
    "u = scan_task w (task_write (running t (t_ip u)) (now w) old)"
    "tasks w' = rows_upd t_id (t_id t) (task_write (running t (t_ip u)) (now w)) (tasks w)"
    "sites w' = reg_put (ext w) slug (t_name old) (t_ip u, t_port t) (sites w)" "ext w' = ext w"
    using assms(1) by (auto simp: started_def)
  have old: "old = r" using single_row o(1) assms(2,3) by metis
  have u: "t_name u = name" "t_status u = StatusRunning" "\<not> t_pending u" "t_port u = t_port t" "t_id u = t_id t" "t_container u = t_container t"
    by (subst o(3), simp add: old assms)+
  have "task_write (running t (t_ip u)) (now w) r \<in> set (tasks w')"
    using in_rows_upd [OF assms(2), of t_id "t_id t"] o(4) assms(3) by simp
  then show ?thesis
    using o u assms by (auto simp: serves_def old task_hop_def reg.hop_register intro!: bexI [of _ "task_write (running t (t_ip u)) (now w) r"])
qed

lemma started_sites:
  assumes "started slug t w u w'" "r \<in> set (tasks w)" "t_id r = t_id t" "t_name r = name"
  shows "sites w' = reg_put (ext w) slug name (t_ip u, t_port u) (sites w) \<and> ext w' = ext w"
proof -
  obtain old where o: "rows_with t_id (t_id t) (tasks w) = [old]" "u = scan_task w (task_write (running t (t_ip u)) (now w) old)"
    "sites w' = reg_put (ext w) slug (t_name old) (t_ip u, t_port t) (sites w)" "ext w' = ext w"
    using assms(1) by (auto simp: started_def)
  moreover have "old = r" using single_row o(1) assms(2,3) by metis
  moreover have "t_port u = t_port t" by (subst o(2), simp)
  ultimately show ?thesis using assms(4) by simp
qed

lemma written_row:
  assumes "pub_tasks_update t w = (Inr u, w')" "r \<in> set (tasks w)" "t_id r = t_id t"
  shows "u = scan_task w (task_write t (now w) r) \<and> task_write t (now w) r \<in> set (tasks w') \<and>
    sites w' = sites w \<and> ext w' = ext w \<and> now w' = now w"
  using assms(1)
proof (rule tasks_update_ok)
  fix old fs hb
  assume o: "rows_with t_id (t_id t) (tasks w) = [old]"
    "w' = w\<lparr>faults := fs, tasks := rows_upd t_id (t_id t) (task_write t (now w)) (tasks w), hub := hb\<rparr>"
    "u = scan_task w (task_write t (now w) old)"
  then have "old = r" using single_row assms(2,3) by metis
  with o assms(3) in_rows_upd [OF assms(2), of t_id "t_id t" "task_write t (now w)"] show ?thesis by simp
qed

lemma start_container_serves:
  assumes "start_container what t slug w = (Inr (u, None), w')" "r \<in> set (tasks w)" "t_id r = t_id t" "t_name r = name"
  shows "serves slug name u w' \<and> sites w' = reg_put (ext w) slug name (t_ip u, t_port u) (sites w) \<and> ext w' = ext w"
  using assms(1)
proof (rule start_container_ok)
  fix w1 assume "rest w1 = rest w" "started slug t w1 u w'"
  then have "started slug t w u w'" by (rule started_rest)
  with assms(2-4) show ?thesis using started_serves started_sites by blast
qed

lemma tk_start_ok:
  assumes "tk_start slug name w = (Inr (u, None), w')"
  shows "serves slug name u w' \<and> sites w' = reg_put (ext w) slug name (t_ip u, t_port u) (sites w) \<and> ext w' = ext w"
proof -
  obtain t p w1 t1 w2 where run: "get_task slug name w = (Inr (t, p), w1)"
    "pub_tasks_update (t\<lparr>t_status := StatusStarting, t_error := []\<rparr>) w1 = (Inr t1, w2)"
    "(if t_pending t1 \<or> t_container t1 = []
       then on_err (wrapped ''recreate container'' (fail_task t1)) (rt_recreate (t_container t1) (task_spec t1 (p_slug p))) (\<lambda>i.
         start_container ''start container'' (t1\<lparr>t_container := i, t_pending := False\<rparr>) (p_slug p))
       else start_container ''start container'' t1 (p_slug p)) w2 = (Inr (u, None), w')"
    using assms by (auto simp: tk_start_def not_zero split: if_split_asm dest!: on_err_ok [rotated])
  from run(1) obtain r fs where r: "p_slug p = slug" "r \<in> set (tasks w)" "t_name r = name" "t = scan_task w r" "w1 = w\<lparr>faults := fs\<rparr>"
    by (rule get_task_ok)
  let ?t = "t\<lparr>t_status := StatusStarting, t_error := []\<rparr>"
  from written_row [OF run(2), of r] r have w2: "t1 = scan_task w1 (task_write ?t (now w1) r)" "task_write ?t (now w1) r \<in> set (tasks w2)"
    "sites w2 = sites w" "ext w2 = ext w" by auto
  have row: "t_id (task_write ?t (now w1) r) = t_id t1" "t_name (task_write ?t (now w1) r) = name" by (simp_all add: w2(1) r(3))
  show ?thesis
  proof (cases "t_pending t1 \<or> t_container t1 = []")
    case True
    with run(3) obtain i w3 where "rt_recreate (t_container t1) (task_spec t1 (p_slug p)) w2 = (Inr i, w3)"
      "start_container ''start container'' (t1\<lparr>t_container := i, t_pending := False\<rparr>) (p_slug p) w3 = (Inr (u, None), w')"
      by (auto dest!: on_err_ok [rotated])
    with start_container_serves [OF this(2), of "task_write ?t (now w1) r" name] rt_rest(6) [THEN restD, OF this(1)] w2 row r(1) show ?thesis by auto
  next
    case False
    with run(3) start_container_serves [of _ t1 "p_slug p" w2 u w' "task_write ?t (now w1) r" name] w2 row r(1) show ?thesis by auto
  qed
qed

lemma routes_unregister_ok: "routes_unregister slug name w = (Inr x, w') \<Longrightarrow> w' = w\<lparr>sites := reg_unregister (ext w) slug name (sites w)\<rparr>"
  by (simp add: routes_unregister_def run_simps)

lemma tk_restart_ok:
  assumes "tk_restart slug name w = (Inr (u, None), w')"
  shows "serves slug name u w' \<and> ext w' = ext w \<and>
    sites w' = reg_put (ext w) slug name (t_ip u, t_port u) (reg_unregister (ext w) slug name (sites w))"
proof -
  obtain t p w1 c w2 w3 w4 i w5 t1 w6 where run: "get_task slug name w = (Inr (t, p), w1)" "task_credential p w1 = (Inr c, w2)"
    "\<exists>x. rt_pull (t_image t) c w2 = (Inr x, w3)" "\<exists>x. routes_unregister (p_slug p) name w3 = (Inr x, w4)"
    "rt_recreate (t_container t) (task_spec t (p_slug p)) w4 = (Inr i, w5)"
    "pub_tasks_update (t\<lparr>t_container := i, t_pending := False, t_status := StatusStarting\<rparr>) w5 = (Inr t1, w6)"
    "start_container ''restart container'' t1 (p_slug p) w6 = (Inr (u, None), w')"
    using assms by (auto simp: tk_restart_def not_zero bind_ok_iff split: if_split_asm dest!: on_err_ok [rotated])
  from run(1) obtain r fs where r: "p_slug p = slug" "r \<in> set (tasks w)" "t_name r = name" "t = scan_task w r" "w1 = w\<lparr>faults := fs\<rparr>"
    by (rule get_task_ok)
  have w2: "tasks w2 = tasks w" "sites w2 = sites w" "ext w2 = ext w"
    using folders_rest(2) [THEN restD, OF run(2)] r(5) by simp_all
  have w3: "tasks w3 = tasks w" "sites w3 = sites w" "ext w3 = ext w"
    using run(3) rt_rest(1) [THEN restD] w2 by metis+
  have w4: "tasks w4 = tasks w" "sites w4 = reg_unregister (ext w) slug name (sites w)" "ext w4 = ext w"
    using run(4) routes_unregister_ok w3 r(1) by fastforce+
  have w5: "tasks w5 = tasks w" "sites w5 = reg_unregister (ext w) slug name (sites w)" "ext w5 = ext w"
    using rt_rest(6) [THEN restD, OF run(5)] w4 by simp_all
  let ?t = "t\<lparr>t_container := i, t_pending := False, t_status := StatusStarting\<rparr>"
  from written_row [OF run(6), of r] r w5 have w6: "t1 = scan_task w5 (task_write ?t (now w5) r)" "task_write ?t (now w5) r \<in> set (tasks w6)"
    "sites w6 = reg_unregister (ext w) slug name (sites w)" "ext w6 = ext w" by auto
  show ?thesis
    using start_container_serves [OF run(7) w6(2), of name] w6 r by (simp add: w6(1))
qed

lemma tasks_create_ok:
  assumes "pub_tasks_create t w = (Inr u, w')"
  shows "\<exists>r. r \<in> set (tasks w') \<and> t_id r = t_id u \<and> t_name r = t_name t \<and> sites w' = sites w \<and> ext w' = ext w"
proof -
  obtain w1 where w1: "db_tasks_create t w = (Inr u, w1)" "w' = w1\<lparr>hub := Option.bind (hub w1) publish\<rparr>"
    using published_ok [OF assms [unfolded pub_tasks_create_def]] by blast
  obtain fs where "io_bind fresh_id (\<lambda>i. io_bind (io_get now) (\<lambda>at.
       let row = t\<lparr>t_id := i, t_dev := or_dev (t_dev t) DevInProgress, t_form := or_form (t_form t) FormFactorWeb,
           t_password := [], t_build := zero_build, t_revision := zero_revision, t_assignees := [],
           t_created := at, t_updated := at\<rparr> in
       io_bind (constraint ''create task'' (\<lambda>w.
         (rows_has t_id i (tasks w), UniqueViolation ''tasks_pkey'') # task_checks row @
         [(rows_has (\<lambda>r. (t_project r, x_sql_lower (ext w) (t_name r))) (t_project t, x_sql_lower (ext w) (t_name t)) (tasks w),
            UniqueViolation ''tasks_project_lower_name_key''),
          (task_named (t_project t) (t_name t) (tasks w) \<noteq> [], UniqueViolation ''tasks_project_id_name_key''),
          (\<not> rows_has p_id (t_project t) (projects w), ForeignKeyViolation ''tasks_project_id_fkey'')])) (\<lambda>_.
       io_bind (io_mod (\<lambda>w. w\<lparr>tasks := tasks w @ [row]\<rparr>)) (\<lambda>_.
       io_get (\<lambda>w. scan_task w row))))) (w\<lparr>faults := fs\<rparr>) = (Inr u, w1)"
    using db_call_ok [OF w1(1) [unfolded db_tasks_create_def]] by blast
  then show ?thesis
    using w1(2) by (auto simp: bind_ok_iff fresh_ok run_simps constraint_ok Let_def simp del: violated.simps)
qed

lemma tk_create_ok:
  assumes "tk_create slug inp w = (Inr (u, None), w')"
  shows "serves slug (ci_name inp) u w' \<and> sites w' = reg_put (ext w) slug (ci_name inp) (t_ip u, t_port u) (sites w) \<and> ext w' = ext w"
proof -
  obtain p w1 w2 t w3 w4 where run: "get_project slug w = (Inr p, w1)" "\<exists>x. check_folders (create_spec p inp) w1 = (Inr x, w2)"
    "pub_tasks_create (create_row p inp) w2 = (Inr t, w3)" "\<exists>n. w4 = w3\<lparr>outbox := n\<rparr>"
    "run_new t p (create_spec p inp) w4 = (Inr (u, None), w')"
    using assms by (auto simp: tk_create_def run_simps bind_ok_iff notify_def dest!: on_err_ok [rotated]) blast
  from get_project_ok [OF run(1)] obtain fs where p: "p_slug p = slug" "w1 = w\<lparr>faults := fs\<rparr>" by blast
  have w2: "sites w2 = sites w" "ext w2 = ext w" using run(2) folders_rest(1) [THEN restD] p(2) by fastforce+
  from tasks_create_ok [OF run(3)] w2 run(4) obtain r where r: "r \<in> set (tasks w4)" "t_id r = t_id t" "t_name r = ci_name inp"
    "sites w4 = sites w" "ext w4 = ext w" by (fastforce simp: create_row_def)
  obtain c w5 w6 i w7 t1 w8 where new: "task_credential p w4 = (Inr c, w5)" "\<exists>x. rt_pull (s_image (create_spec p inp)) c w5 = (Inr x, w6)"
    "rt_create (create_spec p inp) w6 = (Inr i, w7)" "pub_tasks_update (t\<lparr>t_container := i, t_status := StatusStarting\<rparr>) w7 = (Inr t1, w8)"
    "start_container ''start container'' t1 (p_slug p) w8 = (Inr (u, None), w')"
    using run(5) by (auto simp: run_new_def dest!: on_err_ok [rotated])
  have "rest w5 = rest w4" "rest w6 = rest w5" "rest w7 = rest w6"
    using new(1-3) folders_rest(2) rt_rest(1,2) by (auto dest!: keepsD)
  then have w7: "tasks w7 = tasks w4" "sites w7 = sites w" "ext w7 = ext w" using r by (auto dest!: rest_eqD)
  let ?t = "t\<lparr>t_container := i, t_status := StatusStarting\<rparr>"
  from written_row [OF new(4), of r] r w7 have w8: "t1 = scan_task w7 (task_write ?t (now w7) r)" "task_write ?t (now w7) r \<in> set (tasks w8)"
    "sites w8 = sites w" "ext w8 = ext w" by auto
  show ?thesis
    using start_container_serves [OF new(5) w8(2), of "ci_name inp"] w8 r p(1) by (simp add: w8(1))
qed

section \<open>A started task is served\<close>


lemma demo_start: "case tk_start ''p'' ''t'' demo_team of (Inr (u, e), w') \<Rightarrow> e = None \<and> t_ip u = ''10.0.0.2'' | _ \<Rightarrow> False"
  by code_simp


section \<open>Transitions that are refused\<close>

lemma team_okD: "team_ok w \<Longrightarrow> p \<in> set (projects w) \<Longrightarrow> faults w = [] \<and> unique_key p_slug (projects w) \<and> validate_project_slug (p_slug p) = None"
  by (simp add: team_ok_def)

lemma get_task_run:
  assumes "team_ok w" "p \<in> set (projects w)" "t \<in> set (tasks w)" "t_project t = p_id p"
  shows "get_task (p_slug p) (t_name t) w = (Inr (scan_task w t, p), w)"
proof -
  have "validate_task_name (t_name t) = None" using assms(1,3) by (simp add: team_ok_def)
  moreover have "get_project (p_slug p) w = (Inr p, w)"
    using get_project_run team_okD [OF assms(1,2)] assms(2) by blast
  moreover have "db_tasks_by_name (p_id p) (t_name t) w = (Inr (scan_task w t), w)"
    using task_named_of [OF assms(1,3)] assms(4) team_okD [OF assms(1,2)] by (simp add: db_tasks_by_name_def query_one_fail)
  ultimately show ?thesis by (simp add: get_task_def io_defs del: validate_task_name_None)
qed

lemma on_err_get_task:
  assumes "team_ok w" "p \<in> set (projects w)" "t \<in> set (tasks w)" "t_project t = p_id p"
  shows "on_err h (get_task (p_slug p) (t_name t)) f w = f (scan_task w t, p) w"
  by (simp add: on_err_def io_bind_def io_try_def get_task_run [OF assms])

lemma demo_team_ok: "team_ok demo_team" "match_task_name ''t''" "validate_project_slug ''p'' = None"
proof -
  show "match_task_name ''t''" "validate_project_slug ''p'' = None" by code_simp+
  then show "team_ok demo_team"
    by (simp add: team_ok_def unique_key_def new_member_def demo_user_def demo_boss_def demo_task_def demo_project_def
        del: validate_project_slug_None)
qed

text \<open>
  C22: The transitions of a task's status that are refused: \<open>Start\<close> of a running or starting task,
  \<open>Stop\<close> of a stopped or starting one and \<open>Restart\<close> of a starting one (also of one being created)
  answer a conflict, and neither the stores, the registry nor the daemon are touched.
\<close>

theorem transitions_refused:
  assumes "team_ok w" "p \<in> set (projects w)" "t \<in> set (tasks w)" "t_project t = p_id p"
  shows "(t_status t \<in> {StatusRunning, StatusStarting, StatusCreating} \<longrightarrow>
      (\<exists>e. tk_start (p_slug p) (t_name t) w = (Inr (zero_task, Some e), w) \<and> err_is e ErrConflict)) \<and>
    (t_status t \<in> {StatusStopped, StatusStarting, StatusCreating} \<longrightarrow>
      (\<exists>e. tk_stop (p_slug p) (t_name t) w = (Inr (zero_task, Some e), w) \<and> err_is e ErrConflict)) \<and>
    (t_status t \<in> {StatusStarting, StatusCreating} \<longrightarrow>
      (\<exists>e. tk_restart (p_slug p) (t_name t) w = (Inr (zero_task, Some e), w) \<and> err_is e ErrConflict))"
  unfolding tk_start_def tk_stop_def tk_restart_def on_err_get_task [OF assms]
  by (auto simp: busy_def zero_def ret_def conflict_def transitioning_def)

theorem transitions_refused_witness:
  "\<exists>e. tk_stop ''p'' ''t'' demo_team = (Inr (zero_task, Some e), demo_team) \<and> err_is e ErrConflict"
  using transitions_refused [of demo_team demo_project demo_task] demo_team_ok
  by (simp add: demo_project_def demo_task_def)

end
