(* ===== verification/Task_Effects.thy ===== *)
theory Task_Effects
  imports Task_Runs
begin

text \<open>
  What the operations on a task cannot touch, and what they do to the rows: the frame of the
  lifecycle operations, retried deploys, metadata edits and build reports.
\<close>

section \<open>The frame of the lifecycle operations\<close>

lemma keeps_outcomes [keeps_intros]: "keeps f (zero e)" "keeps f (done_with t)"
  by (simp_all add: zero_def done_with_def)

lemma keeps_on_err [keeps_intros]: "(\<And>e. keeps f (h e)) \<Longrightarrow> keeps f m \<Longrightarrow> (\<And>x. keeps f (k x)) \<Longrightarrow> keeps f (on_err h m k)"
  unfolding on_err_def by (intro keeps_intros)

lemma keeps_wrapped [keeps_intros]: "(\<And>e. keeps f (h e)) \<Longrightarrow> keeps f (wrapped what h e)"
  by (simp add: wrapped_def)

text \<open>
  A part of the state that neither the daemon's calls, the registry, the notifications nor a
  write of the columns of \<open>UPDATE tasks\<close> change.
\<close>

locale lifecycle_frame =
  fixes f :: "world \<Rightarrow> 'f"
  assumes rest_frame: "f (rest w) = f w"
    and sites_frame: "f (w\<lparr>sites := m\<rparr>) = f w"
    and outbox_frame: "f (w\<lparr>outbox := ns\<rparr>) = f w"
    and write_frame: "f (w\<lparr>tasks := rows_upd t_id i (task_write t at) (tasks w)\<rparr>) = f w"
begin

lemma small_frames: "f (w\<lparr>dlog := h\<rparr>) = f w" "f (w\<lparr>faults := fs\<rparr>) = f w" "f (w\<lparr>hub := hb\<rparr>) = f w" "f (w\<lparr>seed := n\<rparr>) = f w"
  using rest_simps rest_frame by metis+

lemma by_rest: "keeps rest m \<Longrightarrow> keeps f m"
  using keeps_by_rest rest_frame by blast

lemma frame_calls: "keeps f (rt_pull img cred)" "keeps f (rt_create s)" "keeps f (rt_start i)" "keeps f (rt_stop i)"
  "keeps f (rt_remove i)" "keeps f (rt_recreate i s)" "keeps f (rt_inspect i)" "keeps f (wait_ready n i port)"
  "keeps f (check_folders s)" "keeps f (task_credential p)" "keeps f (rt_folders d)"
  by (intro by_rest calls_rest)+

lemma frame_store: "keeps f (pub_tasks_update t)" "keeps f (get_task slug name)" "keeps f (notify n)"
  "keeps f (routes_register slug name ip port)" "keeps f (routes_unregister slug name)" "keeps f (routes_set slug name rs)"
  "keeps f (routes_lock slug name hash)" "keeps f polls" "keeps f (bcrypt_hash pw)"
  unfolding pub_tasks_update_def db_tasks_update_def get_task_def get_project_def db_projects_by_slug_def db_tasks_by_name_def
    notify_def routes_register_def routes_unregister_def routes_set_def routes_lock_def polls_def
  by (intro keeps_intros; simp add: small_frames sites_frame outbox_frame write_frame)+

lemma frame_fail: "keeps f (fail_task t e)"
  unfolding fail_task_def Let_def by (intro keeps_intros frame_store)

lemma frame_start: "keeps f (start_container what t slug)"
  unfolding start_container_def finish_start_def by (intro keeps_intros frame_calls frame_store frame_fail)

lemma frame_lifecycle: "keeps f (tk_start slug name)" "keeps f (tk_stop slug name)" "keeps f (tk_restart slug name)"
  unfolding tk_start_def tk_stop_def tk_restart_def
  by (intro keeps_intros frame_calls frame_store frame_fail frame_start)+

lemma frame_update_row: "keeps f (update_row t p inp recreate)"
  unfolding update_row_def update_checks_def password_hash_def apply_spec_def Let_def
  by (intro keeps_intros frame_calls frame_store frame_fail frame_start)

lemma frame_updates: "keeps f (tk_update slug name inp recreate)" "keeps f (tk_deploy slug name img rv)"
  unfolding tk_update_def tk_deploy_def Let_def
  by (intro keeps_intros frame_store frame_update_row)+

end

text \<open>The accounts, the projects, what identifies a task and its build are such a part.\<close>

definition frame :: "world \<Rightarrow> (ext \<times> time \<times> user list \<times> project list) \<times> member list \<times> grant list \<times> (uuid \<times> uuid \<times> string \<times> build) list" where
  "frame w = ((ext w, now w, users w, projects w), members w, grants w, map (\<lambda>t. (t_id t, t_project t, t_name t, t_build t)) (tasks w))"

interpretation lc: lifecycle_frame frame
  by unfold_locales (simp_all add: frame_def rest_def map_rows_upd)

lemma frame_eqD: "frame w' = frame w \<Longrightarrow> ext w' = ext w \<and> now w' = now w \<and> users w' = users w \<and> projects w' = projects w \<and>
    members w' = members w \<and> grants w' = grants w \<and>
    map (\<lambda>t. (t_id t, t_project t, t_name t, t_build t)) (tasks w') = map (\<lambda>t. (t_id t, t_project t, t_name t, t_build t)) (tasks w)"
  by (simp add: frame_def)

lemma frame_keys:
  assumes "frame w' = frame w"
  shows "map t_id (tasks w') = map t_id (tasks w)" "map t_build (tasks w') = map t_build (tasks w)"
    "map (\<lambda>t. (t_project t, t_name t)) (tasks w') = map (\<lambda>t. (t_project t, t_name t)) (tasks w)"
    "t_name ` set (tasks w') = t_name ` set (tasks w)"
proof -
  let ?key = "\<lambda>t. (t_id t, t_project t, t_name t, t_build t)"
  have k: "map ?key (tasks w') = map ?key (tasks w)" using frame_eqD [OF assms] by blast
  have "map (g \<circ> ?key) (tasks w') = map (g \<circ> ?key) (tasks w)" for g :: "uuid \<times> uuid \<times> string \<times> build \<Rightarrow> 'z"
    unfolding map_map [symmetric] k ..
  note g = this
  show "map t_id (tasks w') = map t_id (tasks w)" using g [of fst] by (simp add: o_def)
  show "map t_build (tasks w') = map t_build (tasks w)" using g [of "\<lambda>(_, _, _, b). b"] by (simp add: o_def)
  show "map (\<lambda>t. (t_project t, t_name t)) (tasks w') = map (\<lambda>t. (t_project t, t_name t)) (tasks w)"
    using g [of "\<lambda>(_, p, n, _). (p, n)"] by (simp add: o_def)
  have "map t_name (tasks w') = map t_name (tasks w)" using g [of "\<lambda>(_, _, n, _). n"] by (simp add: o_def)
  then show "t_name ` set (tasks w') = t_name ` set (tasks w)" by (metis list.set_map)
qed

lemma team_ok_frame:
  assumes "frame w' = frame w" "faults w' = []" "team_ok w"
  shows "team_ok w'"
proof -
  have names: "(\<forall>t \<in> set (tasks w). match_task_name (t_name t)) \<longleftrightarrow> (\<forall>n \<in> t_name ` set (tasks w). match_task_name n)" for w :: world
    by simp
  show ?thesis
    using assms(2,3) frame_eqD [OF assms(1)]
    unfolding team_ok_def unique_key_def names frame_keys [OF assms(1)] by simp
qed

section \<open>A retried deploy\<close>

text \<open>\<open>u\<close> is the row of \<open>r\<close> as the store now reads it.\<close>

definition reads :: "task \<Rightarrow> task \<Rightarrow> world \<Rightarrow> bool" where
  "reads r u w \<longleftrightarrow> (\<exists>r' \<in> set (tasks w). u = scan_task w r' \<and> t_id r' = t_id r \<and> t_name r' = t_name r \<and> t_project r' = t_project r)"

lemma scan_frame: "frame w' = frame w \<Longrightarrow> scan_task w' r = scan_task w r"
  using frame_eqD [of w' w] by (intro scan_task_frame) auto

lemma written_reads:
  assumes "pub_tasks_update t w = (Inr u, w')" "r \<in> set (tasks w)" "t_id r = t_id t"
  shows "reads r u w' \<and> u = scan_task w (task_write t (now w) r) \<and> task_write t (now w) r \<in> set (tasks w')"
  using written_row [OF assms] scan_frame [OF lc.frame_store(1) [THEN keepsD, OF assms(1)]] assms(3)
  by (auto simp: reads_def intro!: bexI [of _ "task_write t (now w) r"])

lemma started_reads:
  assumes "started slug t w u w'" "frame w' = frame w" "r \<in> set (tasks w)" "t_id r = t_id t"
  shows "reads r u w' \<and> t_image u = t_image t \<and> \<not> t_pending u"
proof -
  obtain old where o: "rows_with t_id (t_id t) (tasks w) = [old]"
    "u = scan_task w (task_write (running t (t_ip u)) (now w) old)"
    "tasks w' = rows_upd t_id (t_id t) (task_write (running t (t_ip u)) (now w)) (tasks w)"
    using assms(1) by (auto simp: started_def)
  have old: "old = r" using single_row o(1) assms(3,4) by metis
  have "t_image u = t_image t" "\<not> t_pending u" by (subst o(2), simp)+
  moreover have "task_write (running t (t_ip u)) (now w) r \<in> set (tasks w')"
    using in_rows_upd [OF assms(3), of t_id "t_id t"] o(3) assms(4) by simp
  moreover have "u = scan_task w' (task_write (running t (t_ip u)) (now w) r)"
    using o(2) old scan_frame [OF assms(2)] by simp
  ultimately show ?thesis by (auto simp: reads_def intro!: bexI [of _ "task_write (running t (t_ip u)) (now w) r"])
qed

lemma start_container_reads:
  assumes "start_container what t slug w = (Inr (u, None), w')" "r \<in> set (tasks w)" "t_id r = t_id t"
  shows "reads r u w' \<and> t_image u = t_image t \<and> \<not> t_pending u"
  using assms(1)
proof (rule start_container_ok)
  fix w1 assume "rest w1 = rest w" "started slug t w1 u w'"
  then have "started slug t w u w'" by (rule started_rest)
  then show ?thesis using started_reads assms(2,3) lc.frame_start [THEN keepsD, OF assms(1)] by blast
qed

lemma trim_right_prefix: "prefix (trim_right s) s"
proof (induction s rule: trim_right.induct)
  case (1 s)
  show ?case
  proof (cases "s = [] \<or> space_suffix s = 0")
    case True
    then show ?thesis by (auto simp: trim_right.simps [of s])
  next
    case False
    with 1 have "prefix (trim_right (take (length s - space_suffix s) s)) (take (length s - space_suffix s) s)" by simp
    from prefix_order.trans [OF this take_is_prefix] False show ?thesis by (simp add: trim_right.simps [of s])
  qed
qed

lemma space_prefix_none: "space_prefix s = 0 \<longleftrightarrow> (\<forall>q \<in> set space_seqs. \<not> prefix q s)"
proof (cases "find (\<lambda>q. prefix q s) space_seqs")
  case None
  then show ?thesis using find_None_iff [THEN iffD1, OF None] by (auto simp: space_prefix_def)
next
  case (Some q)
  then have "q \<in> set space_seqs" "prefix q s" by (auto dest: find_someD)
  moreover have "q \<noteq> []" using calculation(1) by (auto simp: space_seqs_def)
  ultimately show ?thesis using Some by (auto simp: space_prefix_def)
qed

lemma trim_space_fix [simp]: "trim_space (trim_space s) = trim_space s"
proof -
  have "space_prefix (trim_space s) = 0 \<or> trim_space s = []"
    using trim_left_done [of s] trim_right_prefix [of "trim_left s"] unfolding space_prefix_none trim_space_def
    by (metis prefix_order.trans trim_right_nil)
  then have "trim_left (trim_space s) = trim_space s" by (auto simp: trim_left.simps [of "trim_space s"])
  then show ?thesis by (simp add: trim_space_def trim_right_fix)
qed

lemma apply_spec_reads:
  assumes "apply_spec t p s rv True w = (Inr (u, None), w')" "r \<in> set (tasks w)" "t_id r = t_id t"
  shows "reads r u w' \<and> t_image u = s_image s \<and> \<not> t_pending u"
proof -
  obtain w1 w2 t1 w3 i w4 where run:
    "\<exists>x. (if t_status t = StatusRunning then rt_stop (t_container t) else ret ()) w = (Inr x, w1)"
    "\<exists>x. (if t_status t = StatusRunning then routes_unregister (p_slug p) (t_name t) else ret ()) w1 = (Inr x, w2)"
    "pub_tasks_update (respecified t s rv) w2 = (Inr t1, w3)"
    "rt_recreate (t_container t1) (task_spec t1 (p_slug p)) w3 = (Inr i, w4)"
    "(if t_status t \<noteq> StatusRunning then on_err (wrapped ''persist recreated container'' zero)
         (pub_tasks_update (t1\<lparr>t_container := i, t_pending := False\<rparr>)) done_with
       else start_container ''start recreated container'' (t1\<lparr>t_container := i, t_pending := False\<rparr>) (p_slug p)) w4 = (Inr (u, None), w')"
    using assms(1) by (auto simp: apply_spec_def Let_def bind_ok_iff dest!: on_err_ok [rotated])
  have w2: "tasks w2 = tasks w"
    using run(1,2) rt_rest(4) [THEN restD] by (auto simp: ret_def routes_unregister_def run_simps split: if_split_asm)
  from written_reads [OF run(3), of r] assms(2,3) w2 have t1: "t1 = scan_task w2 (task_write (respecified t s rv) (now w2) r)"
    "task_write (respecified t s rv) (now w2) r \<in> set (tasks w3)" by (auto simp: respecified_def)
  let ?r = "task_write (respecified t s rv) (now w2) r" and ?t2 = "t1\<lparr>t_container := i, t_pending := False\<rparr>"
  have r: "?r \<in> set (tasks w4)" "t_id ?r = t_id ?t2" using t1 rt_rest(6) [THEN restD, OF run(4)] by simp_all
  have im: "t_image ?t2 = s_image s" using t1(1) by (simp add: respecified_def)
  have "reads ?r u w' \<and> t_image u = s_image s \<and> \<not> t_pending u"
  proof (cases "t_status t = StatusRunning")
    case True
    then show ?thesis using run(5) start_container_reads r im by auto
  next
    case False
    with run(5) have "pub_tasks_update ?t2 w4 = (Inr u, w')" by (auto dest!: on_err_ok [rotated])
    from written_reads [OF this r] im show ?thesis by auto
  qed
  then show ?thesis by (simp add: reads_def)
qed

lemma update_row_image:
  assumes "update_row t p (no_update\<lparr>ut_image := Some img, ut_revision := rv\<rparr>) True w = (Inr (u, None), w')"
    "trim_space img = img" "t_image t \<noteq> img \<or> t_pending t" "r \<in> set (tasks w)" "t_id r = t_id t"
  shows "reads r u w' \<and> t_image u = img \<and> \<not> t_pending u"
proof -
  let ?inp = "no_update\<lparr>ut_image := Some img, ut_revision := rv\<rparr>" and ?s = "update_spec t p (no_update\<lparr>ut_image := Some img, ut_revision := rv\<rparr>)"
  have s: "s_image ?s = img" by (simp add: update_spec_def or_old_def assms(2) Let_def)
  have changed: "container_changed t ?s True" using assms(3) by (auto simp: container_changed_def s)
  obtain routes hash w1 w2 where run: "update_checks t ?s ?inp w = (Inr (routes, hash), w1)"
    "\<exists>x. (if s_image ?s \<noteq> t_image t \<and> True then
           io_bind (task_credential p) (\<lambda>cred. io_wrap ''pull image'' (rt_pull (s_image ?s) cred)) else ret ()) w1 = (Inr x, w2)"
    "apply_spec (edited t ?inp routes hash) p ?s rv True w2 = (Inr (u, None), w')"
    using assms(1) changed by (auto simp: update_row_def Let_def dest!: on_err_ok [rotated] split: prod.split_asm)
  have "w1 = w" using run(1) by (auto simp: update_checks_def no_update_def run_ok)
  moreover have "tasks w2 = tasks w1"
    using run(2) folders_rest(2) [THEN restD] rt_rest(1) [THEN restD] by (fastforce simp: ret_def bind_ok_iff run_simps split: if_split_asm)
  ultimately show ?thesis
    using apply_spec_reads [OF run(3), of r] assms(4,5) s by (simp add: edited_def)
qed

lemma tk_deploy_ok:
  assumes "tk_deploy slug name raw rv w = (Inr (u, None), w')"
  obtains p r where "p \<in> set (projects w)" "p_slug p = slug" "r \<in> set (tasks w)" "t_project r = p_id p" "t_name r = name"
    "reads r u w'" "t_image u = trim_space raw" "\<not> t_pending u" "match_deploy_digest (trim_space raw)"
proof -
  obtain t p w1 where run: "match_deploy_digest (trim_space raw)" "get_task slug name w = (Inr (t, p), w1)"
    "(if t_image t = trim_space raw \<and> \<not> t_pending t then done_with t
       else io_bind (update_row t p (no_update\<lparr>ut_image := Some (trim_space raw), ut_revision := next_revision rv (t_revision t)\<rparr>) True) (\<lambda>(u, e).
         io_bind (io_get (\<lambda>w. deploy_notification (ext w) p name (now w) e)) (\<lambda>n. io_bind (notify n) (\<lambda>_. ret (u, e))))) w1 = (Inr (u, None), w')"
    using assms by (auto simp: tk_deploy_def not_zero Let_def run_simps split: if_split_asm prod.split_asm dest!: on_err_ok [rotated])
  from run(2) obtain r fs where r: "p \<in> set (projects w)" "p_slug p = slug" "r \<in> set (tasks w)" "t_project r = p_id p" "t_name r = name"
    "t = scan_task w r" "w1 = w\<lparr>faults := fs\<rparr>" by (rule get_task_ok)
  have "reads r u w' \<and> t_image u = trim_space raw \<and> \<not> t_pending u"
  proof (cases "t_image t = trim_space raw \<and> \<not> t_pending t")
    case True
    with run(3) have "u = t" "w' = w1" by auto
    with True r show ?thesis by (auto simp: reads_def intro!: bexI [of _ r] scan_task_frame)
  next
    case False
    from run(3) [unfolded if_not_P [OF False]] obtain w2 where up: "update_row t p (no_update\<lparr>ut_image := Some (trim_space raw), ut_revision := next_revision rv (t_revision t)\<rparr>) True w1
        = (Inr (u, None), w2)" "\<exists>n. notify n w2 = (Inr (), w')"
      by (elim bind_okE) (auto simp: bind_ok_iff run_simps split: prod.split_asm)
    then have "reads r u w2 \<and> t_image u = trim_space raw \<and> \<not> t_pending u"
      using update_row_image [OF up(1), of r] r False by auto
    moreover have "tasks w' = tasks w2" "frame w' = frame w2"
      using up(2) by (auto simp: notify_def run_simps frame_def)
    ultimately show ?thesis by (auto simp: reads_def scan_frame [of w' w2])
  qed
  with r run(1) show ?thesis by (intro that) auto
qed

text \<open>
  C17: A deploy is idempotent: after a deploy that succeeded, the same image posted again, whatever
  revision it names, answers the same task and changes nothing: no container is touched, no row
  written and no notification sent.
\<close>

theorem deploy_idempotent:
  assumes "team_ok w" "tk_deploy slug name raw rv w = (Inr (u, None), w')" "faults w' = []" "validate_revision rv2 = None"
  shows "t_image u = trim_space raw \<and> \<not> t_pending u \<and> tk_deploy slug name raw rv2 w' = (Inr (u, None), w')"
proof -
  from assms(2) obtain p r where r: "p \<in> set (projects w)" "p_slug p = slug" "r \<in> set (tasks w)" "t_project r = p_id p" "t_name r = name"
    "reads r u w'" "t_image u = trim_space raw" "\<not> t_pending u" "match_deploy_digest (trim_space raw)" by (rule tk_deploy_ok)
  from r(6) obtain r' where r': "r' \<in> set (tasks w')" "u = scan_task w' r'" "t_name r' = name" "t_project r' = p_id p"
    using r(4,5) by (auto simp: reads_def)
  have frame: "frame w' = frame w" using lc.frame_updates(2) [THEN keepsD, OF assms(2)] .
  have "team_ok w'" using team_ok_frame [OF frame assms(3,1)] .
  moreover have "p \<in> set (projects w')" using frame_eqD [OF frame] r(1) by simp
  ultimately have get: "get_task slug name w' = (Inr (u, p), w')"
    using get_task_run [of w' p r'] r' r(2) by simp
  then show ?thesis
    using r(7-9) assms(4) by (simp add: tk_deploy_def Let_def on_err_def io_bind_def io_try_def io_check_def ret_def done_with_def)
qed

definition demo_digest :: string where
  "demo_digest = ''nginx@sha256:'' @ replicate 64 (CHR ''a'')"

lemma demo_deploy: "case tk_deploy ''p'' ''t'' demo_digest zero_revision demo_team of
    (Inr (u, e), w') \<Rightarrow> e = None \<and> faults w' = [] \<and> length (outbox w') = 1 | _ \<Rightarrow> False"
  by code_simp

theorem deploy_idempotent_witness:
  "\<exists>u w'. tk_deploy ''p'' ''t'' demo_digest zero_revision demo_team = (Inr (u, None), w') \<and>
     tk_deploy ''p'' ''t'' demo_digest zero_revision w' = (Inr (u, None), w')"
proof -
  obtain u w' where run: "tk_deploy ''p'' ''t'' demo_digest zero_revision demo_team = (Inr (u, None), w')" "faults w' = []"
    using demo_deploy by (auto split: prod.splits sum.splits)
  moreover have "validate_revision zero_revision = None" by code_simp
  ultimately show ?thesis using deploy_idempotent [OF demo_team_ok(1)] by blast
qed

section \<open>What fails is recorded\<close>

text \<open>An outcome with an error is the zero task or a task marked as failed for that reason.\<close>

definition accounted :: "outcome \<Rightarrow> bool" where
  "accounted r \<longleftrightarrow> (case r of (u, e) \<Rightarrow> e = None \<or> u = zero_task \<or> (t_status u = StatusError \<and> t_error u = msg (the e)))"

definition accounts :: "(world, outcome) io \<Rightarrow> bool" where
  "accounts m \<longleftrightarrow> (\<forall>w. case fst (m w) of Inl _ \<Rightarrow> False | Inr r \<Rightarrow> accounted r)"

named_theorems account_intros "rules for outcomes"

lemma accounts_basic [account_intros]: "accounts (zero e)" "accounts (done_with t)"
  by (simp_all add: accounts_def accounted_def zero_def done_with_def ret_def)

lemma accounts_fail [account_intros]: "accounts (fail_task t e)"
proof -
  have "accounted (u, Some e)" if "pub_tasks_update (t\<lparr>t_status := StatusError, t_error := msg e\<rparr>) w = (Inr u, w')" for u w w'
    using that by (elim tasks_update_ok) (simp add: accounted_def)
  then show ?thesis
    by (auto simp: accounts_def fail_task_def io_bind_def io_try_def ret_def Let_def accounted_def split: prod.split sum.split)
qed

lemma accounts_on_err [account_intros]: "(\<And>e. accounts (h e)) \<Longrightarrow> (\<And>x. accounts (k x)) \<Longrightarrow> accounts (on_err h m k)"
  by (auto simp: accounts_def on_err_def io_bind_def io_try_def split: prod.split sum.split)

text \<open>Computations that always go on.\<close>

definition going :: "(world, 'a) io \<Rightarrow> bool" where
  "going m \<longleftrightarrow> (\<forall>w. \<exists>x w'. m w = (Inr x, w'))"

lemma goings [account_intros]: "going (io_mod g)" "going (io_get f)" "going (io_try m)" "going (ret x)" "going (notify n)"
  "going (routes_unregister slug name)" "going (routes_set slug name rs)" "going (routes_lock slug name hash)" "going polls"
  by (simp_all add: going_def io_defs notify_def routes_unregister_def routes_set_def routes_lock_def polls_def split: prod.split)

lemma going_if [account_intros]: "going m \<Longrightarrow> going m' \<Longrightarrow> going (if b then m else m')"
  by simp

lemma accounts_going: "going m \<Longrightarrow> (\<And>x. accounts (k x)) \<Longrightarrow> accounts (io_bind m k)"
  unfolding accounts_def going_def io_bind_def by (metis (no_types, lifting) old.prod.case sum.case(2))

lemma accounts_after:
  assumes "accounts m" "\<And>u e. accounted (u, e) \<Longrightarrow> accounts (k (u, e))"
  shows "accounts (io_bind m k)"
  unfolding accounts_def
proof
  fix w
  obtain r w' where m: "m w = (r, w')" by (cases "m w")
  with assms(1) have "case r of Inl _ \<Rightarrow> False | Inr r \<Rightarrow> accounted r" unfolding accounts_def by (metis fst_conv)
  then obtain u e where "r = Inr (u, e)" "accounted (u, e)" by (cases r) auto
  with m assms(2) show "case fst (io_bind m k w) of Inl _ \<Rightarrow> False | Inr r \<Rightarrow> accounted r"
    unfolding accounts_def io_bind_def by simp
qed

lemma accounts_rules [account_intros]: "(b \<Longrightarrow> accounts m) \<Longrightarrow> (\<not> b \<Longrightarrow> accounts m') \<Longrightarrow> accounts (if b then m else m')"
  "(\<And>x y. accounts (h x y)) \<Longrightarrow> accounts (case p of (x, y) \<Rightarrow> h x y)"
  "(\<And>e. accounts (f e)) \<Longrightarrow> accounts (wrapped what f e')"
  "accounted r \<Longrightarrow> accounts (ret r)"
  by (auto simp: wrapped_def accounts_def ret_def split: prod.split)

lemma accounts_start: "accounts (start_container what t slug)"
  unfolding start_container_def finish_start_def by (intro account_intros accounts_going)

lemma accounts_update_row: "accounts (update_row t p inp recreate)"
  unfolding update_row_def apply_spec_def Let_def by (intro account_intros accounts_going accounts_start)

lemma accounts_lifecycle: "accounts (tk_create slug inp)" "accounts (tk_start slug name)" "accounts (tk_stop slug name)"
  "accounts (tk_restart slug name)" "accounts (tk_update slug name upd recreate)" "accounts (tk_deploy slug name img rv)"
  unfolding tk_create_def run_new_def tk_start_def tk_stop_def tk_restart_def tk_update_def tk_deploy_def Let_def split_beta
  by (intro account_intros accounts_start accounts_after [OF accounts_update_row] accounts_going; simp)+

lemma accountsD: "accounts m \<Longrightarrow> case fst (m w) of Inl _ \<Rightarrow> False
    | Inr (u, e) \<Rightarrow> e = None \<or> u = zero_task \<or> (t_status u = StatusError \<and> t_error u = msg (the e))"
  unfolding accounts_def by (drule spec [of _ w]) (auto simp: accounted_def split: sum.splits prod.splits)

text \<open>
  C23: An operation of the task service that reports an error either returns the zero task or the task
  marked as failed for exactly that reason: its status is \<open>error\<close> and its error text is the
  message of the returned error. An operation never ends without a task and an error or none.
\<close>

theorem failures_accounted:
  "list_all (\<lambda>m. case fst (m w) of Inl _ \<Rightarrow> False
      | Inr (u, e) \<Rightarrow> e = None \<or> u = zero_task \<or> (t_status u = StatusError \<and> t_error u = msg (the e)))
    [tk_create slug inp, tk_start slug name, tk_stop slug name, tk_restart slug name, tk_update slug name upd recreate,
      tk_deploy slug name img rv]"
  by (simp add: accounts_lifecycle [THEN accountsD])

end
