(* ===== verification/Task_Edits.thy ===== *)
theory Task_Edits
  imports Task_Effects
begin

text \<open>
  Edits that do not touch the container, build reports, and the deletion of a task.
\<close>

section \<open>Metadata edits\<close>

text \<open>What of a row belongs to its container.\<close>

definition container_view :: "task \<Rightarrow> (uuid \<times> string \<times> int \<times> strmap \<times> strmap \<times> strmap) \<times> string \<times> string \<times> task_status \<times> bool \<times> revision \<times> string" where
  "container_view t = ((t_id t, t_image t, t_port t, t_labels t, t_env t, t_volumes t), t_container t, t_ip t, t_status t,
     t_pending t, t_revision t, t_error t)"

lemma container_view_write: "container_view (task_write t at r) = container_view (t\<lparr>t_id := t_id r\<rparr>)"
  by (simp add: container_view_def)

lemma scan_task_irrelevant: "scan_task (w\<lparr>faults := fs, tasks := ts\<rparr>) r = scan_task w r"
  by (rule scan_task_frame) simp_all

lemma tasks_update_wp:
  assumes "\<And>r fs hb. r \<in> set (tasks w) \<Longrightarrow> t_id r = t_id t \<Longrightarrow> Q (scan_task w (task_write t (now w) r))
      (w\<lparr>faults := fs, tasks := rows_upd t_id (t_id t) (task_write t (now w)) (tasks w), hub := hb\<rparr>)"
    "\<And>e fs hb. E e (w\<lparr>faults := fs, hub := hb\<rparr>)"
  shows "wp (pub_tasks_update t) Q E w"
  unfolding pub_tasks_update_def db_tasks_update_def wp_published
proof (rule wp_db_callI, goal_cases)
  case (1 fs)
  show ?case
  proof (cases "rows_with t_id (t_id t) (tasks w)")
    case Nil
    then show ?thesis using assms(2) by (simp add: wp_simps)
  next
    case (Cons r rs)
    then have r: "r \<in> set (tasks w)" "t_id r = t_id t"
      using set_rows_with [of t_id "t_id t" "tasks w"] by auto
    show ?thesis
      using assms(1) [OF r] assms(2) Cons by (cases rs) (simp_all add: wp_simps scan_task_irrelevant split: option.split)
  qed
qed (use assms(2) in simp)

lemma keeps_wp: "keeps f m \<Longrightarrow> (\<And>x w'. m w = (Inr x, w') \<Longrightarrow> f w' = f w \<Longrightarrow> Q x w') \<Longrightarrow> (\<And>e w'. f w' = f w \<Longrightarrow> E e w') \<Longrightarrow> wp m Q E w"
  by (rule wp_runI) (auto dest: keepsD)

lemma wp_on_err [wp_simps]: "wp (on_err h m f) Q E w = wp m (\<lambda>x. wp (f x) Q E) (\<lambda>e. wp (h e) Q E) w"
  by (simp add: on_err_def wp_simps)

lemma wp_outcomes [wp_simps]: "wp (zero e) Q E = Q (zero_task, Some e)" "wp (done_with t) Q E = Q (t, None)"
  "wp (wrapped what h e) Q E = wp (h (err_wrap what e)) Q E"
  by (auto simp: zero_def done_with_def wrapped_def wp_simps)

definition metadata_only :: "update_task_input \<Rightarrow> bool" where
  "metadata_only inp \<longleftrightarrow> ut_image inp = None \<and> ut_port inp = None \<and> ut_labels inp = None \<and> ut_env inp = None \<and> ut_volumes inp = None"

definition keyed :: "task \<Rightarrow> bool" where
  "keyed t \<longleftrightarrow> well_keyed (t_labels t) \<and> well_keyed (t_env t) \<and> well_keyed (t_volumes t)"

lemma metadata_unchanged:
  assumes "metadata_only inp" "keyed t"
  shows "update_spec t p inp = task_spec t (p_slug p)" "\<not> container_changed t (task_spec t (p_slug p)) False"
  using assms by (auto simp: metadata_only_def keyed_def update_spec_def or_old_def Let_def container_changed_def task_spec_def maps_equal_refl)

text \<open>The daemon's log, what the rows say of containers, and the address of every site.\<close>

definition containers :: "world \<Rightarrow> docker_call list \<times> ((uuid \<times> string \<times> int \<times> strmap \<times> strmap \<times> strmap) \<times> string \<times> string \<times> task_status \<times> bool \<times> revision \<times> string) list \<times> (string \<Rightarrow> hop option)" where
  "containers w = (dlog w, map container_view (tasks w), \<lambda>k. st_task (site_at (sites w) k))"

lemma containers_simps [simp]: "containers (w\<lparr>faults := fs\<rparr>) = containers w" "containers (w\<lparr>seed := n\<rparr>) = containers w"
  "containers (w\<lparr>hub := hb\<rparr>) = containers w" "containers (w\<lparr>outbox := ns\<rparr>) = containers w"
  by (simp_all add: containers_def)

lemma containers_routes: "containers (w\<lparr>sites := reg_set_routes (ext w) slug name rs (sites w)\<rparr>) = containers w"
  "containers (w\<lparr>sites := reg_set_lock (ext w) slug name h (sites w)\<rparr>) = containers w"
  by (simp_all add: containers_def reg.hop_set_routes reg.hop_set_lock)

lemma containers_write:
  assumes "\<And>r. r \<in> set (tasks w) \<Longrightarrow> t_id r = t_id t \<Longrightarrow> container_view r = container_view t"
  shows "containers (w\<lparr>faults := fs, tasks := rows_upd t_id (t_id t) (task_write t at) (tasks w), hub := hb\<rparr>) = containers w"
proof -
  have "map container_view (rows_upd t_id (t_id t) (task_write t at) (tasks w)) = map container_view (tasks w)"
    using assms by (auto simp: rows_upd_def container_view_write container_view_def)
  then show ?thesis by (simp add: containers_def)
qed

lemma keeps_checks: "ut_volumes inp = None \<Longrightarrow> keeps containers (update_checks t s inp)" "ut_volumes inp = None \<Longrightarrow> keeps tasks (update_checks t s inp)"
  unfolding update_checks_def password_hash_def by (intro keeps_intros; simp)+

lemma keeps_sets: "keeps containers (routes_set slug name rs)" "keeps containers (routes_lock slug name h)" "keeps containers (notify n)"
  "keeps containers (get_task slug name)"
  unfolding routes_set_def routes_lock_def notify_def get_task_def get_project_def db_projects_by_slug_def db_tasks_by_name_def
  by (intro keeps_intros; simp add: containers_routes)+

lemma metadata_row_containers:
  assumes "metadata_only inp" "keyed t" "\<And>r. r \<in> set (tasks w) \<Longrightarrow> t_id r = t_id t \<Longrightarrow> container_view r = container_view t"
  shows "wp (update_row t p inp False) (\<lambda>_ w'. containers w' = containers w) (\<lambda>_ w'. containers w' = containers w) w"
proof -
  note checks = keeps_checks [of inp t "task_spec t (p_slug p)"]
  have vol: "ut_volumes inp = None" using assms(1) by (simp add: metadata_only_def)
  have "wp (pub_tasks_update (edited t inp routes hash)) (\<lambda>_ w'. containers w' = containers w) (\<lambda>_ w'. containers w' = containers w) w1"
    if "tasks w1 = tasks w" "containers w1 = containers w" for routes hash w1
  proof (rule tasks_update_wp)
    have "container_view (edited t inp routes hash) = container_view t" by (simp add: container_view_def edited_def)
    with assms(3) that show "containers (w1\<lparr>faults := fs, tasks := rows_upd t_id (t_id (edited t inp routes hash))
        (task_write (edited t inp routes hash) (now w1)) (tasks w1), hub := hb\<rparr>) = containers w" for fs hb
      by (subst containers_write) (auto simp: edited_def)
  qed (use that in simp)
  then show ?thesis
    unfolding update_row_def Let_def wp_simps metadata_unchanged(1) [OF assms(1,2)]
    using keepsD [OF checks(2) [OF vol]]
    by (intro keeps_wp [OF checks(1) [OF vol]]) (auto simp: wp_simps metadata_unchanged [OF assms(1,2)] split: prod.split)
qed

text \<open>
  C18: An edit of a task's metadata (description, note, development status, form factor, password,
  routes) that asks for no new image, port, labels, variables or volumes, and not for a new
  container, makes no call to the container runtime, leaves every row's container part (image,
  specification, container id, address, status, pending flag, revision, error) as it was and
  keeps the address registered for every site. Whatever the outcome, a failing store included.
\<close>

theorem metadata_edit_quiet:
  assumes "unique_key t_id (tasks w)" "list_all keyed (tasks w)" "metadata_only inp" "tk_update slug name inp False w = (r, w')"
  shows "dlog w' = dlog w \<and> map container_view (tasks w') = map container_view (tasks w) \<and>
    (\<forall>k. st_task (site_at (sites w') k) = st_task (site_at (sites w) k))"
proof -
  have "wp (tk_update slug name inp False) (\<lambda>_ w'. containers w' = containers w) (\<lambda>_ w'. containers w' = containers w) w"
    unfolding tk_update_def wp_simps
  proof (rule keeps_wp [OF keeps_sets(4)], goal_cases)
    case (1 tp w1)
    then obtain t p where tp: "tp = (t, p)" "get_task slug name w = (Inr (t, p), w1)" by (cases tp) auto
    from tp(2) obtain r fs where r: "r \<in> set (tasks w)" "t = scan_task w r" "w1 = w\<lparr>faults := fs\<rparr>" by (rule get_task_ok)
    have "r' = r" if "r' \<in> set (tasks w)" "t_id r' = t_id t" for r'
      using that r(1,2) rows_mem [OF assms(1) r(1)] single_row by (metis scan_task_simps(1))
    moreover have "keyed t" using assms(2) r(1,2) by (auto simp: list_all_iff keyed_def)
    ultimately have row: "wp (update_row t p inp False) (\<lambda>_ w'. containers w' = containers w1) (\<lambda>_ w'. containers w' = containers w1) w1"
      using r by (intro metadata_row_containers assms(3)) (auto simp: container_view_def)
    show ?case
      unfolding tp(1) prod.case wp_simps
      by (rule wp_mono [OF row]) (auto simp: wp_simps 1 intro!: keeps_wp [OF keeps_sets(1)] keeps_wp [OF keeps_sets(2)] keeps_wp [OF keeps_sets(3)]
          split: prod.split)
  qed simp
  then have "containers w' = containers w" using assms(4) by (simp add: wp_def split: sum.splits)
  then show ?thesis by (simp add: containers_def fun_eq_iff)
qed

theorem metadata_edit_quiet_witness:
  "dlog (snd (tk_update ''p'' ''t'' (no_update\<lparr>ut_description := Some ''x''\<rparr>) False demo_team)) = dlog demo_team"
proof -
  have "unique_key t_id (tasks demo_team)" "list_all keyed (tasks demo_team)" "metadata_only (no_update\<lparr>ut_description := Some ''x''\<rparr>)"
    by (simp_all add: unique_key_def keyed_def well_keyed_def demo_task_def metadata_only_def no_update_def)
  from metadata_edit_quiet [OF this surjective_pairing] show ?thesis by blast
qed

section \<open>Build reports\<close>

text \<open>A row without what a build report writes.\<close>

definition sans_build :: "task \<Rightarrow> task" where
  "sans_build t = t\<lparr>t_build := zero_build, t_updated := 0\<rparr>"

definition besides_builds :: "world \<Rightarrow> task list \<times> sites \<times> docker_call list" where
  "besides_builds w = (map sans_build (tasks w), sites w, dlog w)"

lemma report_keeps: "keeps besides_builds (tk_report_build slug name b)"
  unfolding tk_report_build_def pub_set_build_def db_set_build_def notify_def get_task_def get_project_def db_projects_by_slug_def
    db_tasks_by_name_def Let_def
  by (intro keeps_intros; simp add: besides_builds_def sans_build_def map_rows_upd)

lemma builds_kept: "keeps frame m \<Longrightarrow> map t_build (tasks (snd (m w))) = map t_build (tasks w)"
  by (rule frame_keys(2)) (simp add: keeps_def)


definition trimmed :: "build \<Rightarrow> build" where
  "trimmed b = b\<lparr>b_stage := trim_space (b_stage b)\<rparr>"

definition set_build :: "build \<Rightarrow> time \<Rightarrow> task \<Rightarrow> task" where
  "set_build b at t = (if t_build t = b then t\<lparr>t_updated := at\<rparr> else t\<lparr>t_build := b\<rparr>)"

lemma set_build_simps [simp]: "t_id (set_build b at t) = t_id t" "t_project (set_build b at t) = t_project t"
  "t_name (set_build b at t) = t_name t" "t_build (set_build b at t) = b"
  by (auto simp: set_build_def)

lemma report_run:
  assumes "team_ok w" "p \<in> set (projects w)" "t \<in> set (tasks w)" "t_project t = p_id p"
    "validate_build (x_url (ext w)) (trimmed b) = None"
  defines "b' \<equiv> (merged_build (trimmed b) (t_build t))\<lparr>b_at := now w\<rparr>"
  shows "\<exists>n. n_type n = NotificationBuildFailed \<and> tk_report_build (p_slug p) (t_name t) b w =
    (Inr (), w\<lparr>tasks := rows_upd t_id (t_id t) (set_build b' (now w)) (tasks w), hub := Option.bind (hub w) publish,
       outbox := outbox w @ (if new_failure b' (t_build t) then [n] else [])\<rparr>)"
proof -
  have ok: "faults w = []" using assms(1) by (simp add: team_ok_def)
  have has: "rows_has t_id (t_id t) (tasks w)" using assms(3) by (auto simp: rows_has_iff)
  have set: "pub_set_build (t_id t) b' w =
      (Inr (), w\<lparr>tasks := rows_upd t_id (t_id t) (set_build b' (now w)) (tasks w), hub := Option.bind (hub w) publish\<rparr>)"
    by (simp add: pub_set_build_def published_def db_set_build_def healthy_runs(2) [OF ok] has publish_events_def io_mod_def set_build_def [abs_def])
  let ?n = "new_notification p (t_name t) NotificationBuildFailed ([CHR 0xF0, CHR 0x9F, CHR 0x94, CHR 0xA8] @ '' Build Failed'')
      (if b_stage b' \<noteq> [] then ''failed at '' @ b_stage b' else ''build failed'')"
  have "tk_report_build (p_slug p) (t_name t) b w =
    (Inr (), w\<lparr>tasks := rows_upd t_id (t_id t) (set_build b' (now w)) (tasks w), hub := Option.bind (hub w) publish,
       outbox := outbox w @ (if new_failure b' (t_build t) then [?n] else [])\<rparr>)"
    unfolding tk_report_build_def Let_def trimmed_def [symmetric]
    by (simp add: io_bind_def io_get_def io_check_def ret_def fail_def assms(5) get_task_run [OF assms(1-4)] b'_def [symmetric] io_wrap_def set
        notify_def io_mod_def)
  then show ?thesis by (intro exI [of _ ?n]) (simp add: new_notification_def)
qed

lemma team_ok_build:
  assumes "team_ok w"
  shows "team_ok (w\<lparr>tasks := rows_upd t_id i (set_build b at) (tasks w), hub := hb, outbox := ns\<rparr>)"
proof -
  have same: "map f (rows_upd t_id i (set_build b at) (tasks w)) = map f (tasks w)" if "\<And>r. f (set_build b at r) = f r" for f :: "task \<Rightarrow> 'z"
    by (rule map_rows_upd) (rule that)
  show ?thesis using assms by (auto simp: team_ok_def unique_key_def same set_rows_upd)
qed

text \<open>
  C20: A failed build is notified once: a report of a failure stores the build, with the stage, progress
  and link of the run so far where it does not name them, and queues one notification exactly when
  the task's last known build had not failed already or the report names another run; the same
  report made again (a hook that repeats itself) queues nothing.
\<close>

theorem build_failure_notified_once:
  assumes "team_ok w" "p \<in> set (projects w)" "t \<in> set (tasks w)" "t_project t = p_id p"
    "validate_build (x_url (ext w)) (b\<lparr>b_stage := trim_space (b_stage b)\<rparr>) = None" "b_state b = BuildFailure"
  shows "\<exists>w1 w2 n r. tk_report_build (p_slug p) (t_name t) b w = (Inr (), w1) \<and> tk_report_build (p_slug p) (t_name t) b w1 = (Inr (), w2) \<and>
    r \<in> set (tasks w1) \<and> t_id r = t_id t \<and> t_build r = \<lparr>b_state = BuildFailure,
       b_stage = or_str (trim_space (b_stage b)) (b_stage (t_build t)), b_progress = or_int (b_progress b) (b_progress (t_build t)),
       b_url = or_str (b_url b) (b_url (t_build t)), b_at = now w\<rparr> \<and>
    n_type n = NotificationBuildFailed \<and> outbox w2 = outbox w1 \<and>
    outbox w1 = outbox w @ (if b_state (t_build t) = BuildFailure \<and> (b_url b = [] \<or> b_url b = b_url (t_build t)) then [] else [n])"
proof -
  let ?b = "(merged_build (trimmed b) (t_build t))\<lparr>b_at := now w\<rparr>"
  have valid: "validate_build (x_url (ext w)) (trimmed b) = None" using assms(5) by (simp add: trimmed_def)
  from report_run [OF assms(1-4) valid] obtain n w1 where n: "n_type n = NotificationBuildFailed"
    and w1: "tk_report_build (p_slug p) (t_name t) b w = (Inr (), w1)" "w1 = w\<lparr>tasks := rows_upd t_id (t_id t) (set_build ?b (now w)) (tasks w),
      hub := Option.bind (hub w) publish, outbox := outbox w @ (if new_failure ?b (t_build t) then [n] else [])\<rparr>" by blast
  let ?r = "set_build ?b (now w) t"
  have r: "?r \<in> set (tasks w1)" using in_rows_upd [OF assms(3), of t_id "t_id t"] w1(2) by simp
  have "team_ok w1" unfolding w1(2) by (rule team_ok_build) (rule assms(1))
  moreover have "p \<in> set (projects w1)" "t_project ?r = p_id p" "validate_build (x_url (ext w1)) (trimmed b) = None"
    using assms(2,4) valid by (simp_all add: w1(2))
  ultimately obtain w2 n2 where w2: "tk_report_build (p_slug p) (t_name t) b w1 = (Inr (), w2)"
    "outbox w2 = outbox w1 @ (if new_failure ((merged_build (trimmed b) (t_build ?r))\<lparr>b_at := now w1\<rparr>) (t_build ?r) then [n2] else [])"
    using report_run [of w1 p ?r b] r by fastforce
  have b: "?b = \<lparr>b_state = BuildFailure, b_stage = or_str (trim_space (b_stage b)) (b_stage (t_build t)),
      b_progress = or_int (b_progress b) (b_progress (t_build t)), b_url = or_str (b_url b) (b_url (t_build t)), b_at = now w\<rparr>"
    using assms(6) by (simp add: merged_build_def trimmed_def)
  have "outbox w2 = outbox w1" using w2(2) assms(6) unfolding set_build_simps(4) b
    by (simp add: new_failure_def merged_build_def trimmed_def or_str_def split: if_splits)
  moreover have "new_failure ?b (t_build t) \<longleftrightarrow> \<not> (b_state (t_build t) = BuildFailure \<and> (b_url b = [] \<or> b_url b = b_url (t_build t)))"
    unfolding b by (auto simp: new_failure_def or_str_def)
  ultimately show ?thesis
    using w1 w2(1) n r b by (intro exI [of _ w1] exI [of _ w2] exI [of _ n] exI [of _ ?r]) auto
qed

definition demo_build :: build where
  "demo_build = \<lparr>b_state = BuildFailure, b_stage = ''test'', b_progress = 40, b_url = [], b_at = 0\<rparr>"

theorem build_failure_notified_once_witness:
  "\<exists>w1 w2. tk_report_build ''p'' ''t'' demo_build demo_team = (Inr (), w1) \<and> length (outbox w1) = 1 \<and>
     tk_report_build ''p'' ''t'' demo_build w1 = (Inr (), w2) \<and> outbox w2 = outbox w1"
proof -
  have demo: "demo_project \<in> set (projects demo_team)" "demo_task \<in> set (tasks demo_team)" "t_project demo_task = p_id demo_project"
    "p_slug demo_project = ''p''" "t_name demo_task = ''t''" "t_build demo_task = zero_build" "outbox demo_team = []" "b_state demo_build = BuildFailure"
    by (simp_all add: demo_task_def demo_project_def demo_team_def demo_world_def demo_build_def)
  have "validate_build (x_url demo_ext) (demo_build\<lparr>b_stage := trim_space (b_stage demo_build)\<rparr>) = None"
    by code_simp
  with build_failure_notified_once [OF demo_team_ok(1) demo(1-3), of demo_build] demo show ?thesis
    by (auto simp: zero_build_def demo_build_def)
qed

section \<open>Deleting\<close>

lemma delete_site: "site_at (reg_set_lock x slug name [] (reg_set_routes x slug name [] (reg_unregister x slug name m))) k =
    (if k = route_key x slug name then zero_site else site_at m k)"
  by (simp add: reg_set_lock_def reg_set_routes_def reg_unregister_def site_at_update route_hops_def site_empty_def zero_site_def map_filter_simps)

text \<open>
  C21: Deleting a task that ends without an error removes its row and the grants on it, and forgets its
  site: its address, its routes and its lock are gone, so nothing of it is left for a task that
  later takes the name. Every other row, grant and site is as before.
\<close>

theorem delete_forgets:
  assumes "team_ok w" "tk_delete slug name w = (Inr (), w')"
  shows "\<exists>t p. t \<in> set (tasks w) \<and> p \<in> set (projects w) \<and> p_slug p = slug \<and> t_project t = p_id p \<and> t_name t = name \<and>
    tasks w' = filter (\<lambda>r. t_id r \<noteq> t_id t) (tasks w) \<and> task_named (p_id p) name (tasks w') = [] \<and>
    grants w' = filter (\<lambda>g. g_task g \<noteq> t_id t) (grants w) \<and>
    site_at (sites w') (route_key (ext w) slug name) = zero_site \<and>
    (\<forall>k. k \<noteq> route_key (ext w) slug name \<longrightarrow> site_at (sites w') k = site_at (sites w) k)"
proof -
  obtain t p w1 w2 w3 where run: "get_task slug name w = (Inr (t, p), w1)"
    "w2 = w1\<lparr>sites := reg_set_lock (ext w1) (p_slug p) name [] (reg_set_routes (ext w1) (p_slug p) name []
       (reg_unregister (ext w1) (p_slug p) name (sites w1)))\<rparr>"
    "drop_container (t_container t) w2 = (Inr (), w3)" "pub_tasks_delete (t_id t) w3 = (Inr (), w')"
    using assms(2) by (auto simp: tk_delete_def routes_unregister_def routes_set_def routes_lock_def bind_ok_iff run_simps)
  from run(1) obtain r fs where r: "p \<in> set (projects w)" "p_slug p = slug" "r \<in> set (tasks w)" "t_project r = p_id p" "t_name r = name"
    "t = scan_task w r" "w1 = w\<lparr>faults := fs\<rparr>" by (rule get_task_ok)
  have w3: "tasks w3 = tasks w" "grants w3 = grants w" "sites w3 = sites w2" "ext w2 = ext w"
    using drop_rest [THEN restD, OF run(3)] r(7) run(2) by simp_all
  from published_ok [OF run(4) [unfolded pub_tasks_delete_def]] obtain w4 where
    w4: "db_tasks_delete (t_id t) w3 = (Inr (), w4)" "w' = w4\<lparr>hub := Option.bind (hub w4) publish\<rparr>" by blast
  from exec_row_ok [OF w4(1) [unfolded db_tasks_delete_def]] w4(2) w3
  have w': "tasks w' = rows_del t_id (t_id t) (tasks w)" "grants w' = rows_del g_task (t_id t) (grants w)" "sites w' = sites w2" by auto
  have "task_named (p_id p) name (tasks w) = [r]" using task_named_of [OF assms(1) r(3)] r(4,5) by simp
  then have gone: "task_named (p_id p) name (tasks w') = []"
    unfolding w' task_named_def rows_with_nil_iff
    using single_row [of "\<lambda>t. (t_project t, t_name t)"] by (fastforce simp: task_named_def rows_has_iff r(6))
  have "site_at (sites w') k = (if k = route_key (ext w) slug name then zero_site else site_at (sites w) k)" for k
    using w'(3) run(2) r(2,7) delete_site by simp
  then show ?thesis
    using r w' gone by (intro exI [of _ r] exI [of _ p]) (auto simp: rows_del_def)
qed

lemma demo_delete: "fst (tk_delete ''p'' ''t'' demo_team) = Inr ()"
  by code_simp

theorem delete_forgets_witness:
  "tasks (snd (tk_delete ''p'' ''t'' demo_team)) = []"
proof -
  obtain w' where run: "tk_delete ''p'' ''t'' demo_team = (Inr (), w')" using demo_delete by (cases "tk_delete ''p'' ''t'' demo_team") auto
  with delete_forgets [OF demo_team_ok(1) run] show ?thesis by (auto simp: demo_task_def)
qed

end
