(* ===== verification/Task_Calls.thy ===== *)
theory Task_Calls
  imports Task_Effects
begin

text \<open>
  Which containers the operations on a task touch. The argument is over the daemon's log: an id is the
  task's own when its row held it when the operation began, or when the daemon gave it out
  for a container created under the task's name.
\<close>

section \<open>The calls a task's operation may make\<close>

text \<open>The ids given out in the history \<open>h\<close> for containers of the name \<open>n\<close>.\<close>

definition given :: "daemon \<Rightarrow> docker_call list \<Rightarrow> string \<Rightarrow> string \<Rightarrow> bool" where
  "given d h n i \<longleftrightarrow> (\<exists>k < length h. (case h ! k of ContainerCreate cfg n' \<Rightarrow> n' = n | _ \<Rightarrow> False) \<and> d_id d (take (Suc k) h) = i)"

definition own :: "string \<Rightarrow> string set \<Rightarrow> daemon \<Rightarrow> docker_call list \<Rightarrow> string \<Rightarrow> bool" where
  "own n ids d h i \<longleftrightarrow> i \<in> ids \<or> given d h n i"

definition box :: "string \<Rightarrow> string \<Rightarrow> string" where
  "box proj name = ''boreas-'' @ proj @ ''-'' @ name"

text \<open>A container that carries the name and the labels of the task.\<close>

definition labelled :: "string \<Rightarrow> string \<Rightarrow> inspect_info \<Rightarrow> bool" where
  "labelled proj name info \<longleftrightarrow> (case if_labels info of None \<Rightarrow> False
     | Some ls \<Rightarrow> map_of ls ''managed-by'' = Some ''boreas'' \<and> map_of ls ''project'' = Some proj \<and> map_of ls ''task'' = Some name)"

definition task_may :: "string \<Rightarrow> string \<Rightarrow> string set \<Rightarrow> daemon \<Rightarrow> docker_call list \<Rightarrow> docker_call \<Rightarrow> bool" where
  "task_may proj name ids d h c = (let n = box proj name in case c of
       ContainerStart i \<Rightarrow> own n ids d h i
     | ContainerStop i \<Rightarrow> own n ids d h i
     | ContainerRemove i \<Rightarrow> own n ids d h i \<or> (h \<noteq> [] \<and> last h = ContainerInspect n \<and> labelled proj name (d_inspect d h) \<and> i = if_id (d_inspect d h))
     | ContainerInspect i \<Rightarrow> own n ids d h i \<or> i = n
     | ContainerCreate cfg n' \<Rightarrow> n' = n \<and> map_of (cc_labels cfg) ''project'' = Some proj \<and> map_of (cc_labels cfg) ''task'' = Some name
     | ImagePull _ _ \<Rightarrow> True
     | DialTCP _ \<Rightarrow> True
     | OpenRoot root \<Rightarrow> root = appdata_mount
     | ReadDir dir \<Rightarrow> dir = folder_path proj
     | ChmodFolder f \<Rightarrow> prefix (proj @ ''/'') f
     | _ \<Rightarrow> False)"

lemma given_append: "given d h n i \<Longrightarrow> given d (h @ h') n i"
proof -
  assume "given d h n i"
  then obtain k where "k < length h" "case h ! k of ContainerCreate cfg n' \<Rightarrow> n' = n | _ \<Rightarrow> False" "d_id d (take (Suc k) h) = i"
    by (auto simp: given_def)
  then show ?thesis unfolding given_def by (intro exI [of _ k]) (simp add: nth_append)
qed

lemma own_append: "own n ids d h i \<Longrightarrow> own n ids d (h @ h') i"
  using given_append by (auto simp: own_def)

section \<open>Triples over the log\<close>

text \<open>
  The task an argument is about: its project's slug, its name, its row, and the ids its row held.
  \<open>acts a I m R\<close>: when the ids of \<open>I\<close> are the task's own, \<open>m\<close> makes only calls the task may make
  and keeps the frame, and the ids \<open>R x\<close> of a result \<open>x\<close> are its own as well.
\<close>

record actor =
  a_proj :: string
  a_name :: string
  a_row :: uuid
  a_ids :: "string set"

definition may :: "actor \<Rightarrow> daemon \<Rightarrow> docker_call list \<Rightarrow> docker_call \<Rightarrow> bool" where
  "may a = task_may (a_proj a) (a_name a) (a_ids a)"

definition step :: "actor \<Rightarrow> world \<Rightarrow> world \<Rightarrow> bool" where
  "step a w w' \<longleftrightarrow> daemon w' = daemon w \<and> (\<exists>cs. dlog w' = dlog w @ cs \<and>
     (\<forall>k < length cs. may a (daemon w) (dlog w @ take k cs) (cs ! k)))"

definition owns :: "actor \<Rightarrow> string set \<Rightarrow> world \<Rightarrow> bool" where
  "owns a I w \<longleftrightarrow> (\<forall>i \<in> I. own (box (a_proj a) (a_name a)) (a_ids a) (daemon w) (dlog w) i)"

definition named_row :: "actor \<Rightarrow> world \<Rightarrow> bool" where
  "named_row a w \<longleftrightarrow> (\<forall>r \<in> set (tasks w). t_id r = a_row a \<longrightarrow> t_name r = a_name a)"

definition acts :: "actor \<Rightarrow> string set \<Rightarrow> (world, 'a) io \<Rightarrow> ('a \<Rightarrow> string set) \<Rightarrow> bool" where
  "acts a I m R \<longleftrightarrow> (\<forall>w. owns a I w \<and> named_row a w \<longrightarrow> step a w (snd (m w)) \<and> frame (snd (m w)) = frame w \<and>
     (\<forall>x. fst (m w) = Inr x \<longrightarrow> owns a (R x) (snd (m w))))"

lemma named_row_frame:
  assumes "frame w' = frame w" "named_row a w"
  shows "named_row a w'"
proof -
  have *: "named_row a w \<longleftrightarrow> (\<forall>(i, _, n, _) \<in> set (map (\<lambda>t. (t_id t, t_project t, t_name t, t_build t)) (tasks w)). i = a_row a \<longrightarrow> n = a_name a)" for w
    by (auto simp: named_row_def)
  show ?thesis using assms frame_eqD [OF assms(1)] unfolding * by simp
qed

lemma step_refl: "step a w w"
  by (simp add: step_def)

lemma step_trans:
  assumes "step a w1 w2" "step a w2 w3"
  shows "step a w1 w3"
proof -
  obtain cs ds where "daemon w2 = daemon w1" "dlog w2 = dlog w1 @ cs" "daemon w3 = daemon w2" "dlog w3 = dlog w2 @ ds"
    "\<forall>k < length cs. may a (daemon w1) (dlog w1 @ take k cs) (cs ! k)"
    "\<forall>k < length ds. may a (daemon w2) (dlog w2 @ take k ds) (ds ! k)"
    using assms by (auto simp: step_def)
  then show ?thesis
    using logs_append [of cs "may a" "daemon w1" "dlog w1" ds] by (auto simp: step_def)
qed

lemma owns_step: "owns a I w \<Longrightarrow> step a w w' \<Longrightarrow> owns a I w'"
  using own_append by (fastforce simp: owns_def step_def)

lemma owns_Un [simp]: "owns a (I \<union> J) w \<longleftrightarrow> owns a I w \<and> owns a J w"
  by (auto simp: owns_def)

lemma owns_empty [simp]: "owns a {} w"
  by (simp add: owns_def)

named_theorems act_intros "rules for triples over the log"

lemma acts_bind_if:
  assumes "acts a I m R" "\<And>x. (\<exists>w w'. named_row a w \<and> m w = (Inr x, w')) \<Longrightarrow> acts a (I \<union> R x) (f x) R'"
  shows "acts a I (io_bind m f) R'"
  unfolding acts_def
proof (intro allI impI)
  fix w assume own: "owns a I w \<and> named_row a w"
  obtain r w1 where m: "m w = (r, w1)" by (cases "m w")
  have s: "step a w w1" "frame w1 = frame w" and R: "\<And>x. r = Inr x \<Longrightarrow> owns a (R x) w1"
    using assms(1) own m unfolding acts_def by (metis fst_conv snd_conv)+
  show "step a w (snd (io_bind m f w)) \<and> frame (snd (io_bind m f w)) = frame w \<and>
      (\<forall>x. fst (io_bind m f w) = Inr x \<longrightarrow> owns a (R' x) (snd (io_bind m f w)))"
  proof (cases r)
    case (Inl e)
    with m s show ?thesis by (simp add: io_bind_def)
  next
    case (Inr x)
    have "owns a (I \<union> R x) w1" using owns_step [OF conjunct1 [OF own] s(1)] R [OF Inr] by simp
    moreover have "named_row a w1" using named_row_frame [OF s(2)] own by blast
    moreover have "acts a (I \<union> R x) (f x) R'" using assms(2) own m Inr by blast
    ultimately show ?thesis using m Inr step_trans [OF s(1)] s(2) by (simp add: acts_def io_bind_def)
  qed
qed

lemma acts_bind: "acts a I m R \<Longrightarrow> (\<And>x. acts a (I \<union> R x) (f x) R') \<Longrightarrow> acts a I (io_bind m f) R'"
  by (rule acts_bind_if)

lemma acts_mono: "acts a J m R \<Longrightarrow> J \<subseteq> I \<Longrightarrow> (\<And>x. R' x \<subseteq> R x) \<Longrightarrow> acts a I m R'"
  unfolding acts_def owns_def by (meson subsetD)

lemma acts_logs: "logs (may a) m \<Longrightarrow> keeps frame m \<Longrightarrow> acts a I m (\<lambda>_. {})"
  by (simp add: acts_def logs_def step_def keeps_def)

lemma acts_then: "acts a I m (\<lambda>_. {}) \<Longrightarrow> (\<And>x. acts a I (f x) R) \<Longrightarrow> acts a I (io_bind m f) R"
  by (erule acts_bind) simp

lemma acts_basic [act_intros]: "R x \<subseteq> I \<Longrightarrow> acts a I (ret x) R" "acts a I (fail e) R" "acts a I (io_check c) (\<lambda>_. {})"
  "acts a I (io_get f) (\<lambda>_. {})" "acts a I (io_lift r) (\<lambda>_. {})"
  by (auto simp: acts_def io_defs step_refl owns_def split: option.split)

lemma acts_if [act_intros]: "(b \<Longrightarrow> acts a I m R) \<Longrightarrow> (\<not> b \<Longrightarrow> acts a I m' R) \<Longrightarrow> acts a I (if b then m else m') R"
  by simp

lemma acts_prod [act_intros]: "(\<And>x y. q = (x, y) \<Longrightarrow> acts a I (k x y) R) \<Longrightarrow> acts a I (case q of (x, y) \<Rightarrow> k x y) R"
  by (cases q) auto

lemma acts_sum [act_intros]: "(\<And>e. r = Inl e \<Longrightarrow> acts a I (h e) R) \<Longrightarrow> (\<And>x. r = Inr x \<Longrightarrow> acts a I (k x) R) \<Longrightarrow>
    acts a I (case r of Inl e \<Rightarrow> h e | Inr x \<Rightarrow> k x) R"
  by (cases r) auto

lemma acts_option [act_intros]: "(v = None \<Longrightarrow> acts a I m R) \<Longrightarrow> (\<And>x. v = Some x \<Longrightarrow> acts a I (k x) R) \<Longrightarrow>
    acts a I (case v of None \<Rightarrow> m | Some x \<Rightarrow> k x) R"
  by (cases v) auto

lemma acts_docker_error [act_intros]:
  "(\<And>s. acts a I (m1 s) R) \<Longrightarrow> (\<And>s. acts a I (m2 s) R) \<Longrightarrow> (\<And>s. acts a I (m3 s) R) \<Longrightarrow> (\<And>s. acts a I (m4 s) R) \<Longrightarrow>
   acts a I (case e of DockerNotFound s \<Rightarrow> m1 s | DockerConflict s \<Rightarrow> m2 s | DockerNotModified s \<Rightarrow> m3 s | DockerOther s \<Rightarrow> m4 s) R"
  by (cases e) auto

lemma acts_try: "acts a I m R \<Longrightarrow> acts a I (io_try m) (\<lambda>r. case r of Inl _ \<Rightarrow> {} | Inr x \<Rightarrow> R x)"
  by (auto simp: acts_def io_try_def split: prod.split sum.split)

lemma acts_try_quiet [act_intros]: "acts a I m (\<lambda>_. {}) \<Longrightarrow> acts a I (io_try m) (\<lambda>_. {})"
  by (auto simp: acts_def io_try_def split: prod.split)

lemma acts_wrap [act_intros]: "acts a I m R \<Longrightarrow> acts a I (io_wrap what m) R"
  by (auto simp: acts_def io_wrap_def split: prod.split sum.split)

lemma acts_call: "(\<And>w. owns a I w \<Longrightarrow> may a (daemon w) (dlog w) c) \<Longrightarrow> acts a I (d_call c f) (\<lambda>_. {})"
  by (auto simp: acts_def d_call_def Let_def step_def frame_def)

lemma acts_must [act_intros]: "acts a I m (\<lambda>_. {}) \<Longrightarrow> acts a I (d_must f m) (\<lambda>_. {})"
  unfolding d_must_def by (rule acts_then) (auto intro: act_intros)

section \<open>The runtime's operations\<close>

lemma acts_on_container [act_intros]:
  assumes "i \<in> I"
  shows "acts a I (rt_start i) (\<lambda>_. {})" "acts a I (rt_stop i) (\<lambda>_. {})" "acts a I (rt_remove i) (\<lambda>_. {})"
    "acts a I (rt_inspect i) (\<lambda>_. {})"
proof -
  have own: "own (box (a_proj a) (a_name a)) (a_ids a) (daemon w) (dlog w) i" if "owns a I w" for w
    using that assms by (simp add: owns_def)
  show "acts a I (rt_start i) (\<lambda>_. {})" "acts a I (rt_remove i) (\<lambda>_. {})"
    unfolding rt_start_def rt_remove_def by (intro act_intros acts_call; simp add: may_def task_may_def own)+
  show "acts a I (rt_stop i) (\<lambda>_. {})"
    unfolding rt_stop_def by (rule acts_then) (intro act_intros acts_call; simp add: may_def task_may_def own)+
  show "acts a I (rt_inspect i) (\<lambda>_. {})"
    unfolding rt_inspect_def by (rule acts_then) (intro act_intros acts_call; simp add: may_def task_may_def own)+
qed

lemma acts_unless_missing [act_intros]: "acts a I m (\<lambda>_. {}) \<Longrightarrow> acts a I (unless_missing m) (\<lambda>_. {})"
  unfolding unless_missing_def by (rule acts_then) (auto intro: act_intros)

lemma acts_own_name [act_intros]: "acts a I (d_call (ContainerInspect (box (a_proj a) (a_name a))) f) (\<lambda>_. {})"
  by (rule acts_call) (simp add: may_def task_may_def)

text \<open>A task's specification names its project and itself.\<close>

definition spec_of :: "string \<Rightarrow> string \<Rightarrow> container_spec \<Rightarrow> bool" where
  "spec_of p n s \<longleftrightarrow> s_project s = p \<and> s_name s = n"

lemma created_labels:
  assumes "validate_spec s = None" "spec_of p n s"
  shows "map_of (container_labels s) ''project'' = Some p \<and> map_of (container_labels s) ''task'' = Some n"
proof -
  have free: "validate_labels (s_labels s) = None" using assms(1) by (auto simp: validate_spec_None)
  have "map_of (container_labels s) k = map_of [(''managed-by'', ''boreas''), (''project'', p), (''task'', n)] k"
    if "k \<in> set reserved_labels" for k
    using free that assms(2) unfolding container_labels_def spec_of_def
    by (subst map_of_labels_other) (auto simp: validate_labels_None)
  then show ?thesis by (simp add: reserved_labels_def)
qed

lemma acts_create_call:
  assumes "validate_spec s = None" "spec_of (a_proj a) (a_name a) s"
  shows "acts a I (d_call (create_request s) d_id) (\<lambda>r. case r of Inl _ \<Rightarrow> {} | Inr i \<Rightarrow> {i})"
proof -
  have name: "container_name s = box (a_proj a) (a_name a)" using assms(2) by (simp add: container_name_def box_def spec_of_def)
  have "may a d h (create_request s)" for d h
    using created_labels [OF assms] by (simp add: may_def task_may_def create_request_def name)
  moreover have "given d (h @ [create_request s]) (box (a_proj a) (a_name a)) (d_id d (h @ [create_request s]))" for d h
    unfolding given_def by (intro exI [of _ "length h"]) (simp add: create_request_def name)
  ultimately show ?thesis
    by (auto simp: acts_def d_call_def Let_def step_def owns_def own_def frame_def split: option.split)
qed

lemma acts_remove_superseded:
  assumes "spec_of (a_proj a) (a_name a) s"
  shows "acts a I (remove_superseded (box (a_proj a) (a_name a)) s) (\<lambda>_. {})"
proof (rule acts_logs)
  show "logs (may a) (remove_superseded (box (a_proj a) (a_name a)) s)"
  proof (rule logs_removal)
    fix d :: daemon and h info
    assume "info = d_inspect d (h @ [ContainerInspect (box (a_proj a) (a_name a))])" "owned_by info s"
    then show "may a d (h @ [ContainerInspect (box (a_proj a) (a_name a))]) (ContainerRemove (if_id info))"
      using assms by (auto simp: may_def task_may_def owned_by_def labelled_def spec_of_def split: option.split_asm)
  qed (simp add: may_def task_may_def)
  have "keeps rest (remove_superseded (box (a_proj a) (a_name a)) s)"
    unfolding remove_superseded_def unless_missing_def rt_remove_def by (intro keeps_intros; simp)
  then show "keeps frame (remove_superseded (box (a_proj a) (a_name a)) s)" by (rule lc.by_rest)
qed

lemma acts_create [act_intros]:
  assumes "spec_of (a_proj a) (a_name a) s"
  shows "acts a I (rt_create s) (\<lambda>i. {i})"
proof (cases "validate_spec s")
  case (Some e)
  have "rt_create s = fail e"
    by (rule ext) (simp add: rt_create_def Some io_bind_def io_check_def fail_def)
  then show ?thesis by (simp add: act_intros)
next
  case None
  have name: "container_name s = box (a_proj a) (a_name a)" using assms by (simp add: container_name_def box_def spec_of_def)
  have each: "acts a J (io_each k xs) (\<lambda>_. {})" if "\<And>x. x \<in> set xs \<Longrightarrow> acts a J (k x) (\<lambda>_. {})" for J xs and k :: "string \<times> string \<Rightarrow> (world, unit) io"
    using that by (induction xs) (auto intro: act_intros acts_then)
  have open_ok: "acts a J (open_up (s_project s) (s_volumes s)) (\<lambda>_. {})" for J
    unfolding open_up_def using assms
    by (intro acts_then act_intros each acts_call) (auto simp: may_def task_may_def spec_of_def)
  let ?R = "\<lambda>r. case r of Inl (_ :: docker_error) \<Rightarrow> {} | Inr i \<Rightarrow> {i}"
  have second: "acts a J (io_bind (remove_superseded (container_name s) s) (\<lambda>_. d_call (create_request s) d_id)) ?R" for J
    unfolding name by (intro acts_then acts_remove_superseded acts_create_call assms None)
  have mid: "acts a (J \<union> ?R r1) (case r1 of
         Inl (DockerConflict _) \<Rightarrow> io_bind (remove_superseded (container_name s) s) (\<lambda>_. d_call (create_request s) d_id)
       | _ \<Rightarrow> ret r1) ?R" for J r1
    by (cases r1; (cases "projl r1")?) (auto intro!: act_intros second)
  show ?thesis
    unfolding rt_create_def
    by (rule acts_then [OF acts_basic(3)], rule acts_then [OF open_ok], rule acts_bind [OF acts_create_call [OF None assms]], rule acts_bind [OF mid])
      (auto intro!: act_intros)
qed

lemma acts_recreate [act_intros]:
  assumes "old \<in> I" "spec_of (a_proj a) (a_name a) s"
  shows "acts a I (rt_recreate old s) (\<lambda>i. {i})"
proof -
  have "acts a I (if old \<noteq> [] then io_bind (unless_missing (rt_stop old)) (\<lambda>_. unless_missing (rt_remove old)) else ret ()) (\<lambda>_. {})"
    using assms(1) by (intro act_intros acts_then) simp_all
  then show ?thesis unfolding rt_recreate_def by (rule acts_then) (rule acts_create [OF assms(2)])
qed

lemma acts_pull [act_intros]: "acts a I (rt_pull img cred) (\<lambda>_. {})"
  unfolding rt_pull_def by (intro act_intros acts_then acts_call) (simp_all add: may_def task_may_def)

lemma acts_folders [act_intros]: "s_project s = a_proj a \<Longrightarrow> acts a I (check_folders s) (\<lambda>_. {})"
  unfolding check_folders_def tk_folders_def rt_folders_def by (intro act_intros acts_then acts_call) (simp_all add: may_def task_may_def)

lemma acts_dial [act_intros]: "acts a I (tcp_ready addr) (\<lambda>_. {})"
  unfolding tcp_ready_def by (intro act_intros acts_call) (simp_all add: may_def task_may_def)

section \<open>The operations of the service\<close>

lemma acts_on_err:
  assumes "acts a I m R" "\<And>e. acts a I (h e) R'" "\<And>x. acts a (I \<union> R x) (f x) R'"
  shows "acts a I (on_err h m f) R'"
  unfolding on_err_def
proof (rule acts_bind [OF acts_try [OF assms(1)]])
  fix r show "acts a (I \<union> (case r of Inl _ \<Rightarrow> {} | Inr x \<Rightarrow> R x)) (case r of Inl e \<Rightarrow> h e | Inr x \<Rightarrow> f x) R'"
    using assms(2,3) by (cases r) simp_all
qed

lemma acts_on_err_quiet:
  assumes "acts a I m (\<lambda>_. {})" "\<And>e. acts a I (h e) R'" "\<And>x. acts a I (f x) R'"
  shows "acts a I (on_err h m f) R'"
  using acts_on_err [OF assms(1,2)] assms(3) by simp

lemma acts_outcomes [act_intros]: "acts a I (zero e) (\<lambda>_. {})" "acts a I (done_with t) (\<lambda>_. {})"
  "(\<And>e. acts a I (h e) R) \<Longrightarrow> acts a I (wrapped what h e') R"
  by (simp_all add: zero_def done_with_def wrapped_def act_intros)

lemma acts_store [act_intros]: "acts a I (get_task slug name) (\<lambda>_. {})" "acts a I (task_credential pr) (\<lambda>_. {})"
  "acts a I (notify ns) (\<lambda>_. {})" "acts a I (routes_register slug name ip port) (\<lambda>_. {})"
  "acts a I (routes_unregister slug name) (\<lambda>_. {})" "acts a I (routes_set slug name rs) (\<lambda>_. {})"
  "acts a I (routes_lock slug name hash) (\<lambda>_. {})" "acts a I polls (\<lambda>_. {})" "acts a I (bcrypt_hash pw) (\<lambda>_. {})"
  by (intro acts_logs lc.frame_store lc.frame_calls;
      (unfold get_task_def get_project_def task_credential_def routes_register_def routes_unregister_def routes_set_def routes_lock_def polls_def)?;
      intro log_intros; simp)+

lemma acts_save_quiet: "acts a I (pub_tasks_update t) (\<lambda>_. {})"
  by (intro acts_logs lc.frame_store) (unfold pub_tasks_update_def, intro log_intros)

text \<open>A saved row of the task comes back under its name, with the container it was saved with.\<close>

lemma acts_save [act_intros]:
  assumes "t_container t \<in> I" "t_id t = a_row a" "\<And>e. acts a I (h e) R"
    "\<And>u. t_container u \<in> I \<Longrightarrow> t_id u = a_row a \<Longrightarrow> t_name u = a_name a \<Longrightarrow> acts a I (f u) R"
  shows "acts a I (on_err h (pub_tasks_update t) f) R"
  unfolding on_err_def
proof (rule acts_bind_if [OF acts_try_quiet [OF acts_save_quiet]], unfold Un_empty_right)
  fix r assume "\<exists>w w'. named_row a w \<and> io_try (pub_tasks_update t) w = (Inr r, w')"
  then obtain w w' where w: "named_row a w" "pub_tasks_update t w = (r, w')" by (auto simp: run_simps)
  show "acts a I (case r of Inl e \<Rightarrow> h e | Inr x \<Rightarrow> f x) R"
  proof (cases r)
    case (Inr u)
    with w(2) obtain old where "rows_with t_id (t_id t) (tasks w) = [old]" "u = scan_task w (task_write t (now w) old)"
      by (auto elim: tasks_update_ok)
    moreover from this(1) have "old \<in> set (tasks w)" "t_id old = t_id t"
      using set_rows_with [of t_id "t_id t" "tasks w"] by auto
    ultimately show ?thesis using assms Inr w(1) by (simp add: named_row_def)
  qed (simp add: assms(3))
qed

lemma acts_fail_task [act_intros]: "acts a I (fail_task t e) (\<lambda>_. {})"
  unfolding fail_task_def Let_def by (rule acts_then) (intro act_intros acts_save_quiet; simp)+

lemma acts_poll: "i \<in> I \<Longrightarrow> acts a I (poll i port) (\<lambda>_. {})"
  unfolding poll_def by (rule acts_then) (intro act_intros acts_then; simp)+

lemma acts_wait: "i \<in> I \<Longrightarrow> acts a I (wait_ready k i port) (\<lambda>_. {})"
proof (induction k)
  case (Suc k)
  show ?case unfolding wait_ready.simps by (rule acts_then [OF acts_poll [OF Suc.prems]]) (intro act_intros Suc; simp)
qed (simp add: act_intros)

lemma acts_start [act_intros]: "t_container t \<in> I \<Longrightarrow> acts a I (start_container what t slug) (\<lambda>_. {})"
  unfolding start_container_def finish_start_def
  by (intro acts_on_err_quiet acts_then act_intros acts_wait acts_save_quiet; simp)

lemma spec_of_task: "t_name t = a_name a \<Longrightarrow> slug = a_proj a \<Longrightarrow> spec_of (a_proj a) (a_name a) (task_spec t slug)"
  by (simp add: spec_of_def task_spec_def)

lemma acts_recreate_start:
  assumes "t_container t \<in> I" "t_name t = a_name a" "slug = a_proj a" "\<And>i J. i \<in> J \<Longrightarrow> acts a J (f i) (\<lambda>_. {})"
  shows "acts a I (on_err (wrapped what (fail_task t)) (rt_recreate (t_container t) (task_spec t slug)) f) (\<lambda>_. {})"
  by (intro acts_on_err [OF acts_recreate] act_intros spec_of_task) (use assms in simp_all)

text \<open>A call of the runtime or the store in front of the rest of an operation.\<close>

lemmas acts_calls = acts_on_err_quiet [OF acts_on_container(2)] acts_on_err_quiet [OF acts_pull] acts_on_err_quiet [OF acts_store(2)]
  acts_on_err_quiet [OF acts_basic(3)]

text \<open>From a triple to a run.\<close>

lemma acts_run: "acts a I m (\<lambda>_. {}) \<Longrightarrow> owns a I w \<Longrightarrow> named_row a w \<Longrightarrow> step a w (snd (m w))"
  by (simp add: acts_def)

lemma acts_apply_spec:
  assumes "t_container t \<in> I" "t_name t = a_name a" "t_id t = a_row a" "p_slug p = a_proj a"
  shows "acts a I (apply_spec t p s rv recreate) (\<lambda>_. {})"
  unfolding apply_spec_def Let_def
  by (rule acts_on_err_quiet) (intro acts_then act_intros acts_recreate_start acts_on_err_quiet [OF acts_save_quiet]; use assms in \<open>simp add: respecified_def\<close>)+

lemma acts_checks: "s_project s = a_proj a \<Longrightarrow> acts a I (update_checks t s inp) (\<lambda>_. {})"
  unfolding update_checks_def password_hash_def by (intro acts_then act_intros; simp)

lemma acts_update_row:
  assumes "t_container t \<in> I" "t_name t = a_name a" "t_id t = a_row a" "p_slug p = a_proj a"
  shows "acts a I (update_row t p inp recreate) (\<lambda>_. {})"
proof -
  have "s_project (update_spec t p inp) = a_proj a" using assms(4) by (simp add: update_spec_def Let_def task_spec_def)
  then show ?thesis
    unfolding update_row_def Let_def
    by (intro acts_on_err_quiet [OF acts_checks] act_intros acts_on_err_quiet acts_then acts_apply_spec acts_save_quiet)
      (use assms in \<open>simp_all add: edited_def\<close>)
qed

lemma on_err_check: "on_err h (io_check c) f w = (case c of None \<Rightarrow> f () w | Some e \<Rightarrow> h e w)"
  by (simp add: on_err_def io_defs split: option.split)

text \<open>The runs of the operations on a stored task.\<close>

lemma tk_runs:
  assumes "team_ok w" "p \<in> set (projects w)" "t \<in> set (tasks w)" "t_project t = p_id p"
  defines "a \<equiv> \<lparr>a_proj = p_slug p, a_name = t_name t, a_row = t_id t, a_ids = {t_container t}\<rparr>"
  shows "step a w (snd (tk_start (p_slug p) (t_name t) w))" "step a w (snd (tk_stop (p_slug p) (t_name t) w))"
    "step a w (snd (tk_restart (p_slug p) (t_name t) w))" "step a w (snd (tk_update (p_slug p) (t_name t) inp recreate w))"
    "step a w (snd (tk_deploy (p_slug p) (t_name t) img rv w))"
proof -
  have sim [simp]: "a_proj a = p_slug p" "a_name a = t_name t" "a_row a = t_id t" by (simp_all add: a_def)
  have start: "owns a {t_container t} w" "named_row a w"
    using assms(1,3) by (auto simp: owns_def own_def a_def named_row_def team_ok_def dest: single_row [OF rows_mem])
  define u where "u = scan_task w t"
  have u [simp]: "t_container u = t_container t" "t_id u = t_id t" "t_name u = t_name t" by (simp_all add: u_def)
  note get = on_err_get_task [OF assms(1-4), folded u_def]
  show "step a w (snd (tk_start (p_slug p) (t_name t) w))"
    unfolding tk_start_def get prod.case
    by (rule acts_run [OF _ start]) (intro act_intros acts_recreate_start; simp)
  show "step a w (snd (tk_stop (p_slug p) (t_name t) w))"
    unfolding tk_stop_def get prod.case
    by (rule acts_run [OF _ start], cases "t_container u = []") (intro act_intros acts_on_err_quiet acts_then; simp)+
  show "step a w (snd (tk_restart (p_slug p) (t_name t) w))"
    unfolding tk_restart_def get prod.case
    by (rule acts_run [OF _ start]) (intro act_intros acts_calls acts_then acts_recreate_start; simp)
  show "step a w (snd (tk_update (p_slug p) (t_name t) inp recreate w))"
    unfolding tk_update_def get prod.case
    by (rule acts_run [OF _ start]) (intro acts_then [OF acts_update_row] act_intros acts_then; simp)
  have deploy: "acts a {t_container t} (if t_image u = trim_space img \<and> \<not> t_pending u then done_with u
       else io_bind (update_row u p upd True) (\<lambda>(v, e).
         io_bind (io_get (\<lambda>w. deploy_notification (ext w) p (t_name t) (now w) e)) (\<lambda>n. io_bind (notify n) (\<lambda>_. ret (v, e))))) (\<lambda>_. {})" for upd
    by (intro acts_then [OF acts_update_row] act_intros acts_then; simp)
  show "step a w (snd (tk_deploy (p_slug p) (t_name t) img rv w))"
    unfolding tk_deploy_def Let_def if_distribR on_err_check get prod.case
    using acts_run [OF deploy [of "no_update\<lparr>ut_image := Some (trim_space img), ut_revision := next_revision rv (t_revision u)\<rparr>"] start]
    by (auto simp: zero_def ret_def step_refl split: option.split)
qed

text \<open>
  C16: An operation on a task touches only that task's containers. Every call \<open>Start\<close>, \<open>Stop\<close>,
  \<open>Restart\<close>, \<open>Update\<close> and \<open>Deploy\<close> make to the runtime is allowed by \<open>task_may\<close>: a container is
  started, stopped or removed only by an id the task's row held when the operation began or
  that the runtime gave out since for a container of the task's own name, or, to be replaced, the
  container found under that name when it carries the task's labels; what is created carries
  the name and labels of the task; and no network, policy or folder of another project is touched.
\<close>

theorem task_calls_confined:
  assumes "team_ok w" "p \<in> set (projects w)" "t \<in> set (tasks w)" "t_project t = p_id p"
    "w' \<in> {snd (tk_start (p_slug p) (t_name t) w), snd (tk_stop (p_slug p) (t_name t) w), snd (tk_restart (p_slug p) (t_name t) w),
       snd (tk_update (p_slug p) (t_name t) inp recreate w), snd (tk_deploy (p_slug p) (t_name t) img rv w)}"
    "c \<in> set (new_calls w w')"
  shows "\<exists>h. prefix (h @ [c]) (dlog w') \<and> prefix (dlog w) h \<and> task_may (p_slug p) (t_name t) {t_container t} (daemon w) h c"
proof -
  let ?a = "\<lparr>a_proj = p_slug p, a_name = t_name t, a_row = t_id t, a_ids = {t_container t}\<rparr>"
  have "step ?a w w'" using assms(5) tk_runs [OF assms(1-4)] by auto
  then obtain cs where cs: "dlog w' = dlog w @ cs" "\<forall>k < length cs. may ?a (daemon w) (dlog w @ take k cs) (cs ! k)"
    by (auto simp: step_def)
  with assms(6) obtain k where k: "k < length cs" "c = cs ! k" by (auto simp: new_calls_def in_set_conv_nth)
  have "cs = take k cs @ [cs ! k] @ drop (Suc k) cs" using k by (simp add: id_take_nth_drop)
  then have "dlog w' = ((dlog w @ take k cs) @ [c]) @ drop (Suc k) cs" using cs k by simp
  then have "prefix ((dlog w @ take k cs) @ [c]) (dlog w')" by (rule prefixI)
  with cs k show ?thesis by (intro exI [of _ "dlog w @ take k cs"]) (auto simp: may_def)
qed

lemma demo_restart: "list_ex (\<lambda>c. case c of ContainerStart i \<Rightarrow> True | _ \<Rightarrow> False) (new_calls demo_team (snd (tk_start ''p'' ''t'' demo_team)))"
  by code_simp

theorem task_calls_confined_witness:
  "\<exists>i h. ContainerStart i \<in> set (new_calls demo_team (snd (tk_start ''p'' ''t'' demo_team))) \<and>
     task_may ''p'' ''t'' {[]} (daemon demo_team) h (ContainerStart i)"
proof -
  let ?w = "snd (tk_start (p_slug demo_project) (t_name demo_task) demo_team)"
  have demo: "demo_project \<in> set (projects demo_team)" "demo_task \<in> set (tasks demo_team)" "t_project demo_task = p_id demo_project"
    "p_slug demo_project = ''p''" "t_name demo_task = ''t''" "t_container demo_task = []"
    by (simp_all add: demo_task_def demo_project_def)
  obtain c where c: "c \<in> set (new_calls demo_team ?w)" "case c of ContainerStart i \<Rightarrow> True | _ \<Rightarrow> False"
    using demo_restart unfolding demo by (auto simp: list_ex_iff)
  from c(2) obtain i where "c = ContainerStart i" by (cases c) simp_all
  with c(1) have i: "ContainerStart i \<in> set (new_calls demo_team ?w)" by simp
  have "?w \<in> {?w, snd (tk_stop (p_slug demo_project) (t_name demo_task) demo_team), snd (tk_restart (p_slug demo_project) (t_name demo_task) demo_team),
       snd (tk_update (p_slug demo_project) (t_name demo_task) no_update False demo_team),
       snd (tk_deploy (p_slug demo_project) (t_name demo_task) [] zero_revision demo_team)}" by simp
  from task_calls_confined [OF demo_team_ok(1) demo(1-3) this i] i show ?thesis unfolding demo by blast
qed

end
