(* ===== verification/Metrics.thy ===== *)
theory Metrics
  imports Tasks
begin

text \<open>
  Metrics (internal/service/task_service.go): the hub that shares one Docker stream per container
  and keeps its last minute, and the sources of a metrics stream. The mutex makes each method one
  step; a panic or a send that blocks for ever under the lock is \<open>None\<close>. A sample is whatever
  Docker's stream carries: its figures are floating-point numbers, of which the hub makes nothing.
\<close>

section \<open>The hub\<close>

definition metrics_history :: nat where "metrics_history = 60"
definition metrics_linger :: int where "metrics_linger = 5 * minute"

text \<open>
  \<open>mf_done\<close>: \<open>pump\<close> has returned; \<open>mf_stopped\<close>: the stream's context is cancelled. Timers are
  numbered as they are made. What the code does not keep is \<open>mf_seen\<close>, every sample of the stream,
  and of a channel \<open>mc_got\<close> and \<open>mc_missed\<close>, what its viewer has received and how many samples it missed.
\<close>

record 'm metrics_feed =
  mf_container :: string
  mf_recent :: "'m list"
  mf_subs :: "nat list"
  mf_idle :: "nat option"
  mf_stopped :: bool
  mf_done :: bool
  mf_seen :: "'m list"

record 'm metrics_chan =
  mc_buf :: "'m list"
  mc_closed :: bool
  mc_got :: "'m list"
  mc_missed :: nat

record 'm metrics_hub =
  mh_open :: "string \<rightharpoonup> nat"
  mh_feeds :: "'m metrics_feed list"
  mh_chans :: "'m metrics_chan list"
  mh_timers :: nat

definition new_metrics :: "'m metrics_hub" where
  "new_metrics = \<lparr>mh_open = Map.empty, mh_feeds = [], mh_chans = [], mh_timers = 0\<rparr>"

definition chan_cap :: nat where "chan_cap = 2 * metrics_history"

text \<open>A send that does not wait, and the closing of a channel.\<close>

definition chan_put :: "'m \<Rightarrow> 'm metrics_chan \<Rightarrow> 'm metrics_chan option" where
  "chan_put m c = (if mc_closed c then None
     else if length (mc_buf c) < chan_cap then Some (c\<lparr>mc_buf := mc_buf c @ [m]\<rparr>) else Some (c\<lparr>mc_missed := Suc (mc_missed c)\<rparr>))"

definition chan_close :: "'m metrics_chan \<Rightarrow> 'm metrics_chan option" where
  "chan_close c = (if mc_closed c then None else Some (c\<lparr>mc_closed := True\<rparr>))"

fun for_each :: "('c \<Rightarrow> 'c option) \<Rightarrow> nat list \<Rightarrow> 'c list \<Rightarrow> 'c list option" where
  "for_each f [] cs = Some cs"
| "for_each f (i # is) cs = (case f (cs ! i) of None \<Rightarrow> None | Some c \<Rightarrow> for_each f is (cs[i := c]))"

definition set_feed :: "nat \<Rightarrow> ('m metrics_feed \<Rightarrow> 'm metrics_feed) \<Rightarrow> 'm metrics_hub \<Rightarrow> 'm metrics_hub" where
  "set_feed i f h = h\<lparr>mh_feeds := (mh_feeds h)[i := f (mh_feeds h ! i)]\<rparr>"

text \<open>\<open>watch\<close>, the opening answering an error or not: the feed, the viewer's channel and the hub.\<close>

definition mh_watch :: "goerr option \<Rightarrow> string \<Rightarrow> 'm metrics_hub \<Rightarrow> (goerr + nat \<times> nat \<times> 'm metrics_hub) option" where
  "mh_watch refused c h = (let opened = (case mh_open h c of
         Some i \<Rightarrow> Inr (i, h)
       | None \<Rightarrow> (case refused of Some e \<Rightarrow> Inl e
           | None \<Rightarrow> let i = length (mh_feeds h) in Inr (i, h\<lparr>mh_open := (mh_open h)(c \<mapsto> i),
               mh_feeds := mh_feeds h @ [\<lparr>mf_container = c, mf_recent = [], mf_subs = [], mf_idle = None, mf_stopped = False, mf_done = False, mf_seen = []\<rparr>]\<rparr>)))
     in case opened of Inl e \<Rightarrow> Some (Inl e)
     | Inr (i, h1) \<Rightarrow> let recent = mf_recent (mh_feeds h1 ! i); ch = length (mh_chans h1) in
         if length recent > chan_cap then None
         else Some (Inr (i, ch, (set_feed i (\<lambda>f. f\<lparr>mf_idle := None, mf_subs := mf_subs f @ [ch]\<rparr>) h1)
           \<lparr>mh_chans := mh_chans h1 @ [\<lparr>mc_buf = recent, mc_closed = False, mc_got = [], mc_missed = 0\<rparr>]\<rparr>)))"

text \<open>\<open>pump\<close>: a sample, and the end of the samples.\<close>

definition last_minute :: "'m list \<Rightarrow> 'm list" where
  "last_minute ms = drop (length ms - metrics_history) ms"

definition mh_sample :: "nat \<Rightarrow> 'm \<Rightarrow> 'm metrics_hub \<Rightarrow> 'm metrics_hub option" where
  "mh_sample i m h = map_option (\<lambda>cs. (set_feed i (\<lambda>f. f\<lparr>mf_recent := last_minute (mf_recent f @ [m]), mf_seen := mf_seen f @ [m]\<rparr>) h)\<lparr>mh_chans := cs\<rparr>)
     (for_each (chan_put m) (mf_subs (mh_feeds h ! i)) (mh_chans h))"

definition mh_ended :: "nat \<Rightarrow> 'm metrics_hub \<Rightarrow> 'm metrics_hub option" where
  "mh_ended i h = (let f = mh_feeds h ! i; c = mf_container f in
     map_option (\<lambda>cs. (set_feed i (\<lambda>f. f\<lparr>mf_subs := [], mf_stopped := True, mf_done := True\<rparr>) h)
         \<lparr>mh_open := (if mh_open h c = Some i then (mh_open h)(c := None) else mh_open h), mh_chans := cs\<rparr>)
       (for_each chan_close (mf_subs f) (mh_chans h)))"

definition mh_leave :: "nat \<Rightarrow> nat \<Rightarrow> 'm metrics_hub \<Rightarrow> 'm metrics_hub option" where
  "mh_leave i ch h = (let f = mh_feeds h ! i; rest = removeAll ch (mf_subs f) in
     if ch \<notin> set (mf_subs f) then Some h
     else map_option (\<lambda>cs. let h' = (set_feed i (\<lambda>f. f\<lparr>mf_subs := rest\<rparr>) h)\<lparr>mh_chans := cs\<rparr> in
         if rest \<noteq> [] then h'
         else (set_feed i (\<lambda>f. f\<lparr>mf_idle := Some (mh_timers h)\<rparr>) h')\<lparr>mh_timers := Suc (mh_timers h)\<rparr>)
       (for_each chan_close [ch] (mh_chans h)))"

text \<open>The timer of \<open>leave\<close>, \<open>metrics_linger\<close> later.\<close>

definition mh_expire :: "nat \<Rightarrow> nat \<Rightarrow> 'm metrics_hub \<Rightarrow> 'm metrics_hub" where
  "mh_expire i t h = (let f = mh_feeds h ! i; c = mf_container f in
     if mf_idle f = Some t \<and> mh_open h c = Some i
     then (set_feed i (\<lambda>f. f\<lparr>mf_stopped := True\<rparr>) h)\<lparr>mh_open := (mh_open h)(c := None)\<rparr> else h)"

text \<open>The viewer takes the next sample.\<close>

definition mh_take :: "nat \<Rightarrow> 'm metrics_hub \<Rightarrow> 'm metrics_hub" where
  "mh_take ch h = (let c = mh_chans h ! ch in case mc_buf c of [] \<Rightarrow> h
     | m # ms \<Rightarrow> h\<lparr>mh_chans := (mh_chans h)[ch := c\<lparr>mc_buf := ms, mc_got := mc_got c @ [m]\<rparr>]\<rparr>)"

section \<open>Steps\<close>

text \<open>Samples and the end come while \<open>pump\<close> runs, also after the stream was stopped.\<close>

inductive mh_step :: "'m metrics_hub \<Rightarrow> 'm metrics_hub \<Rightarrow> bool" where
  step_watch: "mh_watch refused c h = Some (Inr (i, ch, h')) \<Longrightarrow> mh_step h h'"
| step_sample: "i < length (mh_feeds h) \<Longrightarrow> \<not> mf_done (mh_feeds h ! i) \<Longrightarrow> mh_sample i m h = Some h' \<Longrightarrow> mh_step h h'"
| step_ended: "i < length (mh_feeds h) \<Longrightarrow> \<not> mf_done (mh_feeds h ! i) \<Longrightarrow> mh_ended i h = Some h' \<Longrightarrow> mh_step h h'"
| step_leave: "i < length (mh_feeds h) \<Longrightarrow> mh_leave i ch h = Some h' \<Longrightarrow> mh_step h h'"
| step_expire: "i < length (mh_feeds h) \<Longrightarrow> mh_step h (mh_expire i t h)"
| step_take: "ch < length (mh_chans h) \<Longrightarrow> mh_step h (mh_take ch h)"

inductive mh_reachable :: "'m metrics_hub \<Rightarrow> bool" where
  reach_new: "mh_reachable new_metrics"
| reach_step: "mh_reachable h \<Longrightarrow> mh_step h h' \<Longrightarrow> mh_reachable h'"

section \<open>The invariant\<close>

lemma for_each_run:
  assumes "distinct is" "\<forall>i \<in> set is. i < length cs \<and> f (cs ! i) = Some (g (cs ! i))"
  shows "for_each f is cs = Some (map (\<lambda>i. if i \<in> set is then g (cs ! i) else cs ! i) [0..<length cs])"
  using assms
proof (induction "is" arbitrary: cs)
  case Nil
  then show ?case by (simp add: map_nth)
next
  case (Cons i js)
  let ?cs = "cs[i := g (cs ! i)]"
  have "for_each f js ?cs = Some (map (\<lambda>k. if k \<in> set js then g (?cs ! k) else ?cs ! k) [0..<length ?cs])"
    by (rule Cons.IH) (use Cons.prems in \<open>auto simp: nth_list_update\<close>)
  with Cons.prems show ?case by (auto simp: nth_list_update intro!: map_cong)
qed

definition viewer_ok :: "'m list \<Rightarrow> 'm metrics_chan \<Rightarrow> bool" where
  "viewer_ok ms c \<longleftrightarrow> \<not> mc_closed c \<and> length (mc_buf c) \<le> chan_cap \<and>
     (mc_missed c = 0 \<longrightarrow> suffix (mc_got c @ mc_buf c) ms \<and> min metrics_history (length ms) \<le> length (mc_got c @ mc_buf c))"

definition feed_ok :: "'m metrics_hub \<Rightarrow> nat \<Rightarrow> bool" where
  "feed_ok h i \<longleftrightarrow> (let f = mh_feeds h ! i in distinct (mf_subs f) \<and> mf_recent f = last_minute (mf_seen f) \<and>
     (\<forall>ch \<in> set (mf_subs f). ch < length (mh_chans h) \<and> viewer_ok (mf_seen f) (mh_chans h ! ch)) \<and>
     (if mh_open h (mf_container f) = Some i then \<not> mf_stopped f \<and> \<not> mf_done f \<and> (mf_subs f = [] \<longleftrightarrow> mf_idle f \<noteq> None)
      else mf_subs f = [] \<and> mf_stopped f))"

definition metrics_inv :: "'m metrics_hub \<Rightarrow> bool" where
  "metrics_inv h \<longleftrightarrow> (\<forall>i < length (mh_feeds h). feed_ok h i) \<and>
     (\<forall>c i. mh_open h c = Some i \<longrightarrow> i < length (mh_feeds h) \<and> mf_container (mh_feeds h ! i) = c) \<and>
     (\<forall>i < length (mh_feeds h). \<forall>j < length (mh_feeds h). i \<noteq> j \<longrightarrow> set (mf_subs (mh_feeds h ! i)) \<inter> set (mf_subs (mh_feeds h ! j)) = {})"

lemma last_minute_length: "length (last_minute ms) \<le> metrics_history"
  by (simp add: last_minute_def)

lemma last_minute_snoc: "last_minute (last_minute ms @ [m]) = last_minute (ms @ [m])"
  by (cases "length ms \<le> metrics_history") (auto simp: last_minute_def Suc_diff_le)


lemma feed_okD:
  assumes "metrics_inv h" "i < length (mh_feeds h)"
  shows "distinct (mf_subs (mh_feeds h ! i))" "mf_recent (mh_feeds h ! i) = last_minute (mf_seen (mh_feeds h ! i))"
    "\<forall>ch \<in> set (mf_subs (mh_feeds h ! i)). ch < length (mh_chans h) \<and> viewer_ok (mf_seen (mh_feeds h ! i)) (mh_chans h ! ch)"
  using assms by (auto simp: metrics_inv_def feed_ok_def Let_def)

lemma set_feed_simps [simp]:
  "mh_feeds (set_feed i f h) = (mh_feeds h)[i := f (mh_feeds h ! i)]" "mh_open (set_feed i f h) = mh_open h"
  "mh_chans (set_feed i f h) = mh_chans h" "mh_timers (set_feed i f h) = mh_timers h"
  by (simp_all add: set_feed_def)

text \<open>A step of one feed that touches only its own channels: what is left to show of it.\<close>

lemma inv_feed_step:
  assumes inv: "metrics_inv h" and i: "i < length (mh_feeds h)"
    and feeds: "mh_feeds h' = (mh_feeds h)[i := F]" and cont: "mf_container F = mf_container (mh_feeds h ! i)"
    and subs: "set (mf_subs F) \<subseteq> set (mf_subs (mh_feeds h ! i))"
    and opens: "mh_open h' = mh_open h \<or> mh_open h (mf_container F) = Some i \<and> mh_open h' = (mh_open h)(mf_container F := None)"
    and len: "length (mh_chans h') = length (mh_chans h)"
    and chans: "\<And>ch. ch < length (mh_chans h) \<Longrightarrow> ch \<notin> set (mf_subs (mh_feeds h ! i)) \<Longrightarrow> mh_chans h' ! ch = mh_chans h ! ch"
    and own: "feed_ok h' i"
  shows "metrics_inv h'"
proof -
  have other: "feed_ok h' j" if j: "j < length (mh_feeds h)" "j \<noteq> i" for j
  proof -
    let ?f = "mh_feeds h ! j"
    have same: "mh_feeds h' ! j = ?f" using j feeds by simp
    have dis: "set (mf_subs ?f) \<inter> set (mf_subs (mh_feeds h ! i)) = {}" using inv i j by (auto simp: metrics_inv_def)
    have opn: "mh_open h' (mf_container ?f) = Some j \<longleftrightarrow> mh_open h (mf_container ?f) = Some j"
      using opens j by (auto split: if_splits)
    have fj: "feed_ok h j" using inv j by (simp add: metrics_inv_def)
    have "\<forall>ch \<in> set (mf_subs ?f). ch < length (mh_chans h') \<and> viewer_ok (mf_seen ?f) (mh_chans h' ! ch)"
      using feed_okD(3) [OF inv j(1)] dis chans len by fastforce
    with fj same opn show ?thesis by (auto simp: feed_ok_def Let_def)
  qed
  have "\<forall>c j. mh_open h' c = Some j \<longrightarrow> j < length (mh_feeds h) \<and> mf_container (mh_feeds h' ! j) = c"
  proof (intro allI impI)
    fix c j
    assume "mh_open h' c = Some j"
    with opens have "mh_open h c = Some j" by (auto split: if_splits)
    then have "j < length (mh_feeds h)" "mf_container (mh_feeds h ! j) = c" using inv by (simp_all add: metrics_inv_def)
    then show "j < length (mh_feeds h) \<and> mf_container (mh_feeds h' ! j) = c"
      using feeds cont by (cases "j = i") simp_all
  qed
  moreover have "\<forall>j < length (mh_feeds h). \<forall>k < length (mh_feeds h). j \<noteq> k \<longrightarrow> set (mf_subs (mh_feeds h' ! j)) \<inter> set (mf_subs (mh_feeds h' ! k)) = {}"
  proof (intro allI impI)
    fix j k
    assume jk: "j < length (mh_feeds h)" "k < length (mh_feeds h)" "j \<noteq> k"
    have sub: "set (mf_subs (mh_feeds h' ! l)) \<subseteq> set (mf_subs (mh_feeds h ! l))" if "l < length (mh_feeds h)" for l
      using that subs feeds i by (cases "l = i") simp_all
    have "set (mf_subs (mh_feeds h ! j)) \<inter> set (mf_subs (mh_feeds h ! k)) = {}" using inv jk by (simp add: metrics_inv_def)
    with sub [OF jk(1)] sub [OF jk(2)] show "set (mf_subs (mh_feeds h' ! j)) \<inter> set (mf_subs (mh_feeds h' ! k)) = {}" by blast
  qed
  moreover have "feed_ok h' j" if "j < length (mh_feeds h)" for j
    using that other own by (cases "j = i") simp_all
  ultimately show ?thesis using feeds by (simp add: metrics_inv_def)
qed

lemma viewer_put:
  assumes "viewer_ok ms c"
  shows "\<exists>c'. chan_put m c = Some c' \<and> viewer_ok (ms @ [m]) c'"
  using assms by (auto simp: viewer_ok_def chan_put_def suffix_def)

lemma sample_inv:
  assumes inv: "metrics_inv h" and i: "i < length (mh_feeds h)"
  shows "\<exists>h'. mh_sample i m h = Some h' \<and> (\<not> mf_done (mh_feeds h ! i) \<longrightarrow> metrics_inv h')"
proof -
  let ?f = "mh_feeds h ! i" and ?g = "\<lambda>c. the (chan_put m c)"
  let ?cs = "map (\<lambda>k. if k \<in> set (mf_subs ?f) then ?g (mh_chans h ! k) else mh_chans h ! k) [0..<length (mh_chans h)]"
  have put: "chan_put m (mh_chans h ! ch) = Some (?g (mh_chans h ! ch)) \<and> viewer_ok (mf_seen ?f @ [m]) (?g (mh_chans h ! ch)) \<and> ch < length (mh_chans h)"
    if "ch \<in> set (mf_subs ?f)" for ch
    using viewer_put [of "mf_seen ?f" "mh_chans h ! ch" m] feed_okD(3) [OF inv i] that by auto
  have "for_each (chan_put m) (mf_subs ?f) (mh_chans h) = Some ?cs"
    by (rule for_each_run [OF feed_okD(1) [OF inv i]]) (use put in blast)
  then have run: "mh_sample i m h = Some ((set_feed i (\<lambda>f. f\<lparr>mf_recent := last_minute (mf_recent f @ [m]), mf_seen := mf_seen f @ [m]\<rparr>) h)\<lparr>mh_chans := ?cs\<rparr>)"
    by (simp add: mh_sample_def)
  let ?h' = "(set_feed i (\<lambda>f. f\<lparr>mf_recent := last_minute (mf_recent f @ [m]), mf_seen := mf_seen f @ [m]\<rparr>) h)\<lparr>mh_chans := ?cs\<rparr>"
  have "feed_ok h i" using inv i by (simp add: metrics_inv_def)
  then have own: "feed_ok ?h' i"
    using i put by (simp add: feed_ok_def Let_def last_minute_snoc)
  have feeds: "mh_feeds ?h' = (mh_feeds h)[i := ?f\<lparr>mf_recent := last_minute (mf_recent ?f @ [m]), mf_seen := mf_seen ?f @ [m]\<rparr>]" by simp
  have "metrics_inv ?h'"
    by (rule inv_feed_step [OF inv i feeds _ _ _ _ _ own]) simp_all
  with run show ?thesis by blast
qed

lemma close_run:
  assumes inv: "metrics_inv h" and i: "i < length (mh_feeds h)" and ds: "distinct ds" "set ds \<subseteq> set (mf_subs (mh_feeds h ! i))"
  shows "for_each chan_close ds (mh_chans h) = Some (map (\<lambda>k. if k \<in> set ds then (mh_chans h ! k)\<lparr>mc_closed := True\<rparr> else mh_chans h ! k) [0..<length (mh_chans h)])"
  by (rule for_each_run) (use ds feed_okD(3) [OF inv i] in \<open>auto simp: chan_close_def viewer_ok_def\<close>)

lemma ended_inv:
  assumes inv: "metrics_inv h" and i: "i < length (mh_feeds h)"
  shows "\<exists>h'. mh_ended i h = Some h' \<and> metrics_inv h'"
proof -
  note run = close_run [OF inv i feed_okD(1) [OF inv i] subset_refl]
  let ?f = "mh_feeds h ! i"
  let ?h' = "(set_feed i (\<lambda>f. f\<lparr>mf_subs := [], mf_stopped := True, mf_done := True\<rparr>) h)
     \<lparr>mh_open := (if mh_open h (mf_container ?f) = Some i then (mh_open h)(mf_container ?f := None) else mh_open h),
      mh_chans := map (\<lambda>k. if k \<in> set (mf_subs ?f) then (mh_chans h ! k)\<lparr>mc_closed := True\<rparr> else mh_chans h ! k) [0..<length (mh_chans h)]\<rparr>"
  have run': "mh_ended i h = Some ?h'" by (simp add: mh_ended_def Let_def run)
  have own: "feed_ok ?h' i" using i feed_okD(2) [OF inv i] by (simp add: feed_ok_def)
  have feeds: "mh_feeds ?h' = (mh_feeds h)[i := ?f\<lparr>mf_subs := [], mf_stopped := True, mf_done := True\<rparr>]" by simp
  have "metrics_inv ?h'"
    by (rule inv_feed_step [OF inv i feeds _ _ _ _ _ own]) simp_all
  with run' show ?thesis by blast
qed

lemma leave_inv:
  assumes inv: "metrics_inv h" and i: "i < length (mh_feeds h)"
  shows "\<exists>h'. mh_leave i ch h = Some h' \<and> metrics_inv h'"
proof (cases "ch \<in> set (mf_subs (mh_feeds h ! i))")
  case False
  with inv show ?thesis by (simp add: mh_leave_def Let_def)
next
  case True
  let ?f = "mh_feeds h ! i" and ?rest = "removeAll ch (mf_subs (mh_feeds h ! i))"
  have run: "for_each chan_close [ch] (mh_chans h) = Some (map (\<lambda>k. if k \<in> set [ch] then (mh_chans h ! k)\<lparr>mc_closed := True\<rparr> else mh_chans h ! k) [0..<length (mh_chans h)])"
    by (rule close_run [OF inv i]) (use True in auto)
  let ?cs = "map (\<lambda>k. if k = ch then (mh_chans h ! k)\<lparr>mc_closed := True\<rparr> else mh_chans h ! k) [0..<length (mh_chans h)]"
  have reg: "mh_open h (mf_container ?f) = Some i" "\<not> mf_stopped ?f" "\<not> mf_done ?f" "mf_idle ?f = None"
    using inv i True by (auto simp: metrics_inv_def feed_ok_def Let_def split: if_splits)
  let ?F = "?f\<lparr>mf_subs := ?rest, mf_idle := (if ?rest = [] then Some (mh_timers h) else None)\<rparr>"
  have leave: "mh_leave i ch h = Some (let h' = (set_feed i (\<lambda>f. f\<lparr>mf_subs := ?rest\<rparr>) h)\<lparr>mh_chans := ?cs\<rparr> in
      if ?rest \<noteq> [] then h' else (set_feed i (\<lambda>f. f\<lparr>mf_idle := Some (mh_timers h)\<rparr>) h')\<lparr>mh_timers := Suc (mh_timers h)\<rparr>)"
    using True run by (simp add: mh_leave_def Let_def del: for_each.simps)
  then obtain h' where h': "mh_leave i ch h = Some h'" and h'_def: "h' = (let h' = (set_feed i (\<lambda>f. f\<lparr>mf_subs := ?rest\<rparr>) h)\<lparr>mh_chans := ?cs\<rparr> in
      if ?rest \<noteq> [] then h' else (set_feed i (\<lambda>f. f\<lparr>mf_idle := Some (mh_timers h)\<rparr>) h')\<lparr>mh_timers := Suc (mh_timers h)\<rparr>)"
    by blast
  have idle: "?f\<lparr>mf_subs := ?rest\<rparr> = ?f\<lparr>mf_subs := ?rest, mf_idle := None\<rparr>" using reg(4) by (cases ?f) simp
  have parts: "mh_feeds h' = (mh_feeds h)[i := ?F]" "mh_open h' = mh_open h" "mh_chans h' = ?cs"
    using i idle by (simp_all add: h'_def Let_def)
  have own: "feed_ok h' i"
    using i reg feed_okD [OF inv i] by (simp add: feed_ok_def parts distinct_removeAll)
  have "metrics_inv h'"
    by (rule inv_feed_step [OF inv i parts(1) _ _ _ _ _ own]) (use parts True in auto)
  with h' show ?thesis by blast
qed


lemma expire_inv:
  assumes inv: "metrics_inv h" and i: "i < length (mh_feeds h)"
  shows "metrics_inv (mh_expire i t h)"
proof (cases "mf_idle (mh_feeds h ! i) = Some t \<and> mh_open h (mf_container (mh_feeds h ! i)) = Some i")
  case False
  then have "mh_expire i t h = h" by (auto simp: mh_expire_def Let_def)
  with inv show ?thesis by simp
next
  case True
  let ?f = "mh_feeds h ! i"
  let ?h' = "(set_feed i (\<lambda>f. f\<lparr>mf_stopped := True\<rparr>) h)\<lparr>mh_open := (mh_open h)(mf_container ?f := None)\<rparr>"
  have "mf_subs ?f = []" using inv i True by (auto simp: metrics_inv_def feed_ok_def Let_def)
  then have own: "feed_ok ?h' i" using i feed_okD(2) [OF inv i] by (simp add: feed_ok_def)
  have feeds: "mh_feeds ?h' = (mh_feeds h)[i := ?f\<lparr>mf_stopped := True\<rparr>]" by simp
  have "metrics_inv ?h'"
    by (rule inv_feed_step [OF inv i feeds _ _ _ _ _ own]) (use True in simp_all)
  with True show ?thesis by (simp add: mh_expire_def Let_def)
qed

lemma take_inv:
  assumes inv: "metrics_inv h" and ch: "ch < length (mh_chans h)"
  shows "metrics_inv (mh_take ch h)"
proof (cases "mc_buf (mh_chans h ! ch)")
  case Nil
  with inv show ?thesis by (simp add: mh_take_def)
next
  case (Cons m ms)
  let ?c = "(mh_chans h ! ch)\<lparr>mc_buf := ms, mc_got := mc_got (mh_chans h ! ch) @ [m]\<rparr>"
  have take: "mh_take ch h = h\<lparr>mh_chans := (mh_chans h)[ch := ?c]\<rparr>" using Cons by (simp add: mh_take_def Let_def)
  have "viewer_ok seen' (mh_chans h ! ch) \<Longrightarrow> viewer_ok seen' ?c" for seen'
    using Cons by (simp add: viewer_ok_def)
  then have "viewer_ok seen' (mh_chans h ! k) \<Longrightarrow> viewer_ok seen' ((mh_chans h)[ch := ?c] ! k)" for seen' k
    using ch by (cases "k = ch") simp_all
  then have "feed_ok h i \<Longrightarrow> feed_ok (mh_take ch h) i" for i
    by (auto simp: feed_ok_def take Let_def split: if_splits)
  with inv show ?thesis by (simp add: metrics_inv_def take)
qed

lemma watch_registered:
  assumes inv: "metrics_inv h" and reg: "mh_open h c = Some i"
  shows "\<exists>h'. mh_watch refused c h = Some (Inr (i, length (mh_chans h), h')) \<and> metrics_inv h'"
proof -
  let ?f = "mh_feeds h ! i" and ?ch = "length (mh_chans h)"
  have i: "i < length (mh_feeds h)" and c: "mf_container ?f = c" using inv reg by (simp_all add: metrics_inv_def)
  note ok = feed_okD [OF inv i]
  have recent: "length (mf_recent ?f) \<le> chan_cap" using ok(2) last_minute_length [of "mf_seen ?f"] by (simp add: chan_cap_def)
  let ?new = "\<lparr>mc_buf = mf_recent ?f, mc_closed = False, mc_got = [], mc_missed = 0\<rparr>"
  let ?h' = "(set_feed i (\<lambda>f. f\<lparr>mf_idle := None, mf_subs := mf_subs f @ [?ch]\<rparr>) h)\<lparr>mh_chans := mh_chans h @ [?new]\<rparr>"
  have run: "mh_watch refused c h = Some (Inr (i, ?ch, ?h'))"
    using reg recent by (simp add: mh_watch_def Let_def)
  have new: "viewer_ok (mf_seen ?f) ?new"
    using recent ok(2) by (simp add: viewer_ok_def last_minute_def suffix_drop min_def)
  have fresh: "k < length (mh_feeds h) \<Longrightarrow> ?ch \<notin> set (mf_subs (mh_feeds h ! k))" for k
    using feed_okD(3) [OF inv] by fastforce
  have "feed_ok ?h' k" if k: "k < length (mh_feeds h)" for k
  proof (cases "k = i")
    case True
    moreover have "feed_ok h i" using inv i by (simp add: metrics_inv_def)
    ultimately show ?thesis using i new fresh [OF i] reg c
      by (auto simp: feed_ok_def Let_def nth_append)
  next
    case False
    moreover have "feed_ok h k" using inv k by (simp add: metrics_inv_def)
    ultimately show ?thesis by (auto simp: feed_ok_def Let_def nth_append split: if_splits)
  qed
  moreover have "set (mf_subs (mh_feeds ?h' ! j)) \<inter> set (mf_subs (mh_feeds ?h' ! k)) = {}"
    if "j < length (mh_feeds h)" "k < length (mh_feeds h)" "j \<noteq> k" for j k
  proof -
    have "set (mf_subs (mh_feeds h ! j)) \<inter> set (mf_subs (mh_feeds h ! k)) = {}" using inv that by (simp add: metrics_inv_def)
    then show ?thesis using that i fresh by (cases "j = i"; cases "k = i") auto
  qed
  moreover have "mh_open ?h' c' = Some j \<Longrightarrow> j < length (mh_feeds h) \<and> mf_container (mh_feeds ?h' ! j) = c'" for c' j
    using inv i by (cases "j = i") (simp_all add: metrics_inv_def)
  ultimately have "metrics_inv ?h'" by (simp add: metrics_inv_def)
  with run show ?thesis by blast
qed

text \<open>A stream just opened, with an idle timer that never fires, is a feed like any other.\<close>

definition fresh_feed :: "string \<Rightarrow> 'm metrics_hub \<Rightarrow> 'm metrics_hub" where
  "fresh_feed c h = h\<lparr>mh_open := (mh_open h)(c \<mapsto> length (mh_feeds h)),
     mh_feeds := mh_feeds h @ [\<lparr>mf_container = c, mf_recent = [], mf_subs = [], mf_idle = Some 0, mf_stopped = False, mf_done = False, mf_seen = []\<rparr>]\<rparr>"

lemma fresh_feed_inv:
  assumes inv: "metrics_inv h" and c: "mh_open h c = None"
  shows "metrics_inv (fresh_feed c h)"
proof -
  let ?h' = "fresh_feed c h" and ?n = "length (mh_feeds h)"
  have nth: "mh_feeds ?h' ! k = mh_feeds h ! k" if "k < ?n" for k using that by (simp add: fresh_feed_def nth_append)
  have "feed_ok ?h' k" if k: "k < ?n" for k
  proof -
    have "feed_ok h k" using inv k by (simp add: metrics_inv_def)
    moreover have "mh_open ?h' (mf_container (mh_feeds h ! k)) = Some k \<longleftrightarrow> mh_open h (mf_container (mh_feeds h ! k)) = Some k"
      using k c by (auto simp: fresh_feed_def)
    moreover have "mh_chans ?h' = mh_chans h" by (simp add: fresh_feed_def)
    ultimately show ?thesis using nth [OF k] by (auto simp: feed_ok_def Let_def)
  qed
  moreover have "feed_ok ?h' ?n"
    by (simp add: feed_ok_def fresh_feed_def last_minute_def)
  moreover have "mh_open ?h' c' = Some j \<Longrightarrow> j < Suc ?n \<and> mf_container (mh_feeds ?h' ! j) = c'" for c' j
    using inv by (auto simp: metrics_inv_def fresh_feed_def nth_append less_Suc_eq split: if_splits)
  moreover have "set (mf_subs (mh_feeds ?h' ! j)) \<inter> set (mf_subs (mh_feeds ?h' ! k)) = {}"
    if "j < Suc ?n" "k < Suc ?n" "j \<noteq> k" for j k
  proof (cases "j = ?n \<or> k = ?n")
    case True
    then show ?thesis by (auto simp: fresh_feed_def)
  next
    case False
    then show ?thesis using inv that nth by (simp add: metrics_inv_def less_Suc_eq)
  qed
  moreover have "length (mh_feeds ?h') = Suc ?n" by (simp add: fresh_feed_def)
  ultimately show ?thesis by (simp add: metrics_inv_def less_Suc_eq)
qed

lemma watch_fresh: "mh_open h c = None \<Longrightarrow> mh_watch None c h = mh_watch None c (fresh_feed c h)"
  by (simp add: mh_watch_def fresh_feed_def Let_def set_feed_def list_update_append)

lemma watch_inv:
  assumes "metrics_inv h"
  shows "(\<exists>i ch h'. mh_watch refused c h = Some (Inr (i, ch, h')) \<and> metrics_inv h') \<or>
    mh_open h c = None \<and> (\<exists>e. refused = Some e \<and> mh_watch refused c h = Some (Inl e))"
proof (cases "mh_open h c")
  case None
  show ?thesis
  proof (cases refused)
    case (Some e)
    with None show ?thesis by (simp add: mh_watch_def)
  next
    case r: None
    have "mh_open (fresh_feed c h) c = Some (length (mh_feeds h))" by (simp add: fresh_feed_def)
    from watch_registered [OF fresh_feed_inv [OF assms None] this, of None] r None show ?thesis
      by (auto simp: watch_fresh)
  qed
next
  case (Some i)
  from watch_registered [OF assms this] show ?thesis by blast
qed

lemma metrics_reachable_inv: "mh_reachable h \<Longrightarrow> metrics_inv h"
proof (induction rule: mh_reachable.induct)
  case reach_new
  then show ?case by (simp add: metrics_inv_def new_metrics_def)
next
  case (reach_step h h')
  from reach_step(2,3) show ?case
  proof (cases rule: mh_step.cases)
    case (step_watch refused c i ch)
    then show ?thesis using watch_inv [OF reach_step(3), of refused c] by auto
  next
    case (step_sample i m)
    then show ?thesis using sample_inv [OF reach_step(3), of i m] by auto
  next
    case (step_ended i)
    then show ?thesis using ended_inv [OF reach_step(3), of i] by auto
  next
    case (step_leave i ch)
    then show ?thesis using leave_inv [OF reach_step(3), of i ch] by auto
  qed (auto intro: expire_inv take_inv reach_step(3))
qed


text \<open>
  C29: However viewers of metrics come, leave and come back, and whenever timers fire or streams end, a
  container has at most one Docker stream that is not stopped; such a stream has a viewer or a pending
  timer that stops it, and one with a viewer is not stopped; each feed keeps exactly the last minute;
  and a viewer's channel is open, holds at most 120 samples, and as long as none was missed has got a
  gapless end of the stream's samples, from no later than a minute before it came.
\<close>

theorem metrics_shared:
  assumes "mh_reachable h" "i < length (mh_feeds h)"
  shows "(\<forall>j < length (mh_feeds h). \<not> mf_stopped (mh_feeds h ! i) \<and> \<not> mf_stopped (mh_feeds h ! j) \<and>
        mf_container (mh_feeds h ! i) = mf_container (mh_feeds h ! j) \<longrightarrow> i = j) \<and>
    (mf_stopped (mh_feeds h ! i) \<or> mf_subs (mh_feeds h ! i) \<noteq> [] \<or> (\<exists>t. mf_idle (mh_feeds h ! i) = Some t \<and> mf_stopped (mh_feeds (mh_expire i t h) ! i))) \<and>
    (mf_subs (mh_feeds h ! i) \<noteq> [] \<longrightarrow> \<not> mf_stopped (mh_feeds h ! i)) \<and>
    mf_recent (mh_feeds h ! i) = drop (length (mf_seen (mh_feeds h ! i)) - 60) (mf_seen (mh_feeds h ! i)) \<and>
    (\<forall>ch \<in> set (mf_subs (mh_feeds h ! i)). let c = mh_chans h ! ch in \<not> mc_closed c \<and> length (mc_buf c) \<le> 120 \<and>
       (mc_missed c = 0 \<longrightarrow> suffix (mc_got c @ mc_buf c) (mf_seen (mh_feeds h ! i)) \<and> min 60 (length (mf_seen (mh_feeds h ! i))) \<le> length (mc_got c @ mc_buf c)))"
proof -
  have inv: "metrics_inv h" using assms(1) by (rule metrics_reachable_inv)
  have ok: "feed_ok h j" if "j < length (mh_feeds h)" for j using inv that by (simp add: metrics_inv_def)
  have reg: "mh_open h (mf_container (mh_feeds h ! j)) = Some j \<longleftrightarrow> \<not> mf_stopped (mh_feeds h ! j)" if "j < length (mh_feeds h)" for j
    using ok [OF that] by (auto simp: feed_ok_def Let_def split: if_splits)
  have "i = j" if "j < length (mh_feeds h)" "\<not> mf_stopped (mh_feeds h ! i)" "\<not> mf_stopped (mh_feeds h ! j)"
      "mf_container (mh_feeds h ! i) = mf_container (mh_feeds h ! j)" for j
    using reg [OF assms(2)] reg [OF that(1)] that by simp
  moreover have "mf_stopped (mh_feeds (mh_expire i t h) ! i)" if "\<not> mf_stopped (mh_feeds h ! i)" "mf_idle (mh_feeds h ! i) = Some t" for t
    using that reg [OF assms(2)] assms(2) by (simp add: mh_expire_def Let_def)
  ultimately show ?thesis
    using ok [OF assms(2)] reg [OF assms(2)] feed_okD [OF inv assms(2)]
    by (auto simp: feed_ok_def Let_def last_minute_def metrics_history_def chan_cap_def viewer_ok_def split: if_splits)
qed

text \<open>Two viewers, a sample, the first leaves.\<close>

definition demo_metrics :: "nat metrics_hub" where
  "demo_metrics = (let h1 = (case mh_watch None ''c'' new_metrics of Some (Inr (_, _, h)) \<Rightarrow> h | _ \<Rightarrow> new_metrics);
     h2 = (case mh_watch None ''c'' h1 of Some (Inr (_, _, h)) \<Rightarrow> h | _ \<Rightarrow> h1);
     h3 = (case mh_sample 0 7 h2 of Some h \<Rightarrow> h | None \<Rightarrow> h2) in (case mh_leave 0 0 h3 of Some h \<Rightarrow> h | None \<Rightarrow> h3))"

lemma stay: "(\<And>h'. r = Some h' \<Longrightarrow> mh_reachable h') \<Longrightarrow> mh_reachable h \<Longrightarrow> mh_reachable (case r of Some h' \<Rightarrow> h' | None \<Rightarrow> h)"
  by (cases r) auto

lemma demo_metrics_reachable: "mh_reachable demo_metrics"
proof -
  define h1 where "h1 = (case mh_watch None ''c'' (new_metrics :: nat metrics_hub) of Some (Inr (_, _, h)) \<Rightarrow> h | _ \<Rightarrow> new_metrics)"
  define h2 where "h2 = (case mh_watch None ''c'' h1 of Some (Inr (_, _, h)) \<Rightarrow> h | _ \<Rightarrow> h1)"
  define h3 where "h3 = (case mh_sample 0 7 h2 of Some h \<Rightarrow> h | None \<Rightarrow> h2)"
  have r1: "mh_reachable h1"
    unfolding h1_def by (auto split: option.split sum.split intro: reach_new reach_step step_watch)
  have r2: "mh_reachable h2"
    unfolding h2_def by (auto split: option.split sum.split intro: r1 reach_step step_watch)
  have one: "length (mh_feeds h2) = 1" "\<not> mf_done (mh_feeds h2 ! 0)" unfolding h2_def h1_def by code_simp+
  have r3: "mh_reachable h3"
    unfolding h3_def by (rule stay [OF reach_step [OF r2 step_sample [of 0]] r2]) (use one in auto)
  have "length (mh_feeds h3) = 1" unfolding h3_def h2_def h1_def by code_simp
  then have "mh_reachable (case mh_leave 0 0 h3 of Some h \<Rightarrow> h | None \<Rightarrow> h3)"
    by (intro stay [OF reach_step [OF r3 step_leave [of 0]] r3]) auto
  then show ?thesis unfolding demo_metrics_def Let_def h3_def h2_def h1_def .
qed

lemma demo_metrics_feed: "length (mh_feeds demo_metrics) = 1" "mf_subs (mh_feeds demo_metrics ! 0) = [1]" "mc_missed (mh_chans demo_metrics ! 1) = 0"
  "mf_seen (mh_feeds demo_metrics ! 0) = [7]"
  by code_simp+

theorem metrics_shared_witness:
  "mf_recent (mh_feeds demo_metrics ! 0) = [7] \<and> \<not> mf_stopped (mh_feeds demo_metrics ! 0) \<and>
   1 \<le> length (mc_got (mh_chans demo_metrics ! 1) @ mc_buf (mh_chans demo_metrics ! 1))"
  using metrics_shared [OF demo_metrics_reachable, of 0] by (simp add: demo_metrics_feed [unfolded One_nat_def] Let_def)

text \<open>
  Whatever viewers, timers and streams have done, no operation of the metrics hub closes a channel
  twice, sends on a closed one or waits for ever under the lock, and watching fails only with the
  error of a container without a stream yet, whose stream is refused.
\<close>

lemma metrics_never_panics:
  assumes "mh_reachable h" "i < length (mh_feeds h)"
  shows "mh_sample i m h \<noteq> None \<and> mh_ended i h \<noteq> None \<and> mh_leave i ch h \<noteq> None \<and>
    (case mh_watch refused c h of None \<Rightarrow> False | Some (Inl e) \<Rightarrow> refused = Some e \<and> mh_open h c = None | Some (Inr _) \<Rightarrow> True)"
proof -
  have inv: "metrics_inv h" using assms(1) by (rule metrics_reachable_inv)
  from sample_inv [OF inv assms(2), of m] ended_inv [OF inv assms(2)] leave_inv [OF inv assms(2), of ch] watch_inv [OF inv, of refused c]
  show ?thesis by auto
qed

lemma metrics_never_panics_witness: "mh_ended 0 demo_metrics \<noteq> None \<and> mh_leave 0 0 demo_metrics \<noteq> None"
  using metrics_never_panics [OF demo_metrics_reachable, of 0] by (simp add: demo_metrics_feed)

section \<open>The sources of a stream\<close>

definition metrics_sources :: "access \<Rightarrow> string \<Rightarrow> (world, task list) io" where
  "metrics_sources acc name = (if name \<noteq> []
     then io_bind (get_task (p_slug (acc_project acc)) name) (\<lambda>(t, _).
       if t_container t = [] then fail (conflict ''task has no container'') else ret [t])
     else io_bind (io_wrap ''list tasks for metrics'' (db_tasks_list (p_id (acc_project acc)) (acc_user acc) (acc_all acc))) (\<lambda>ts.
       ret (filter (\<lambda>t. \<not> (t_container t = [] \<or> t_status t \<noteq> StatusRunning)) ts)))"

text \<open>Each source's name and channel; \<open>opens\<close> is how Docker answers for a container.\<close>

fun watch_sources :: "(string \<Rightarrow> goerr option) \<Rightarrow> bool \<Rightarrow> task list \<Rightarrow> 'm metrics_hub \<Rightarrow> ((goerr + (string \<times> nat) list) \<times> 'm metrics_hub) option" where
  "watch_sources opens single [] h = Some (Inr [], h)"
| "watch_sources opens single (t # ts) h = (case mh_watch (opens (t_container t)) (t_container t) h of
     None \<Rightarrow> None
   | Some (Inl e) \<Rightarrow> if single then Some (Inl (err_wrap ''stream metrics'' e), h) else watch_sources opens single ts h
   | Some (Inr (_, ch, h1)) \<Rightarrow> map_option (\<lambda>(r, h2). (map_sum id (\<lambda>cs. (t_name t, ch) # cs) r, h2)) (watch_sources opens single ts h1))"

end
