(* ===== verification/Messages.thy ===== *)
theory Messages
  imports Complex_Main Json Tasks
begin

text \<open>
  The messages of internal/transport/http: the requests of dto.go with the fields a body may set,
  the objects answers are made of and their conversions from the domain types, the errors of
  render.go, and responses. Field names and omissions of the JSON an answer is written as follow
  from the struct tags and are not modelled; what is in an answer is.
\<close>

section \<open>Answers\<close>

datatype api_token_status = ApiTokenScheduled | ApiTokenActive | ApiTokenExpired | ApiTokenRevoked

record api_token_dto =
  kd_id :: uuid
  kd_name :: string
  kd_from :: time
  kd_to :: time
  kd_created :: time
  kd_revoked :: "time option"
  kd_status :: api_token_status

definition api_token_from_core :: "auth_token \<Rightarrow> time \<Rightarrow> api_token_dto" where
  "api_token_from_core k t = \<lparr>kd_id = k_id k, kd_name = k_name k, kd_from = k_from k, kd_to = k_expires k,
     kd_created = k_created k, kd_revoked = k_revoked k,
     kd_status = (if k_revoked k \<noteq> None then ApiTokenRevoked else if \<not> k_expires k > t then ApiTokenExpired
       else if k_from k > t then ApiTokenScheduled else ApiTokenActive)\<rparr>"

record task_dto =
  td_id :: uuid
  td_project :: uuid
  td_name :: string
  td_description :: string
  td_note :: string
  td_image :: string
  td_status :: task_status
  td_dev :: dev_status
  td_form :: form_factor
  td_has_password :: bool
  td_port :: int
  td_container :: string
  td_ip :: string
  td_created :: time
  td_updated :: time
  td_labels :: strmap
  td_env :: strmap
  td_volumes :: strmap
  td_routes :: "route list"
  td_assignees :: "assignee list"
  td_error :: string
  td_pending :: bool
  td_build :: build
  td_role :: project_role

text \<open>Maps and lists that are nil in Go are empty here already.\<close>

definition task_from_core :: "task \<Rightarrow> project_role \<Rightarrow> task_dto" where
  "task_from_core t r = \<lparr>td_id = t_id t, td_project = t_project t, td_name = t_name t, td_description = t_description t,
     td_note = t_note t, td_image = t_image t, td_status = t_status t, td_dev = t_dev t, td_form = t_form t,
     td_has_password = (t_password t \<noteq> []), td_port = t_port t, td_container = t_container t, td_ip = t_ip t,
     td_created = t_created t, td_updated = t_updated t, td_labels = t_labels t, td_env = t_env t,
     td_volumes = t_volumes t, td_routes = t_routes t, td_assignees = t_assignees t, td_error = t_error t,
     td_pending = t_pending t, td_build = t_build t, td_role = r\<rparr>"

record project_dto =
  pd_id :: uuid
  pd_slug :: string
  pd_name :: string
  pd_credential :: "uuid option"
  pd_image :: string
  pd_port :: int
  pd_env :: strmap
  pd_form :: form_factor
  pd_created :: time
  pd_updated :: time
  pd_role :: project_role

definition project_from_core :: "project \<Rightarrow> project_role \<Rightarrow> project_dto" where
  "project_from_core p r = \<lparr>pd_id = p_id p, pd_slug = p_slug p, pd_name = p_name p, pd_credential = p_credential p,
     pd_image = p_image p, pd_port = p_port p, pd_env = p_env p, pd_form = p_form p, pd_created = p_created p,
     pd_updated = p_updated p, pd_role = r\<rparr>"

record member_dto =
  md_user :: uuid
  md_username :: string
  md_role :: project_role
  md_avatar :: "time option"
  md_created :: time

definition member_from_core :: "member \<Rightarrow> member_dto" where
  "member_from_core m = \<lparr>md_user = m_user m, md_username = m_username m, md_role = m_role m, md_avatar = m_avatar m,
     md_created = m_created m\<rparr>"

record public_build_dto =
  bd_state :: build_state
  bd_stage :: string
  bd_progress :: int
  bd_at :: time

record public_revision_dto =
  vd_commit :: string
  vd_previous :: string

record last_deploy_dto =
  ld_status :: notification_status
  ld_at :: time

record public_task_dto =
  xd_name :: string
  xd_description :: string
  xd_note :: string
  xd_status :: task_status
  xd_dev :: dev_status
  xd_updated :: time
  xd_assignees :: "string list"
  xd_build :: public_build_dto
  xd_deploy :: "last_deploy_dto option"
  xd_revision :: "public_revision_dto option"
  xd_form :: form_factor
  xd_has_password :: bool

definition last_deploy_from :: "notification option \<Rightarrow> last_deploy_dto option" where
  "last_deploy_from d = map_option (\<lambda>n. \<lparr>ld_status = n_status n, ld_at = n_created n\<rparr>) d"

definition public_task :: "fleet_task \<Rightarrow> public_task_dto" where
  "public_task ft = (let t = ft_task ft; b = t_build t; rv = t_revision t;
     dto = \<lparr>xd_name = t_name t, xd_description = t_description t, xd_note = [], xd_status = t_status t, xd_dev = t_dev t,
       xd_updated = t_updated t, xd_assignees = [],
       xd_build = \<lparr>bd_state = b_state b, bd_stage = b_stage b, bd_progress = b_progress b, bd_at = b_at b\<rparr>,
       xd_deploy = last_deploy_from (ft_deploy ft),
       xd_revision = (if v_commit rv \<noteq> [] then Some \<lparr>vd_commit = v_commit rv, vd_previous = v_previous rv\<rparr> else None),
       xd_form = t_form t, xd_has_password = (t_password t \<noteq> [])\<rparr>
     in if xd_has_password dto then dto
        else dto\<lparr>xd_note := t_note t,
          xd_assignees := map a_username (filter (\<lambda>a. a_role a = ProjectRoleMember) (t_assignees t))\<rparr>)"

record public_project_dto =
  zd_slug :: string
  zd_name :: string
  zd_tasks :: "public_task_dto list"

record fleet_task_dto =
  fd_name :: string
  fd_description :: string
  fd_image :: string
  fd_status :: task_status
  fd_dev :: dev_status
  fd_role :: project_role
  fd_deploy :: "last_deploy_dto option"
  fd_build :: build
  fd_assignees :: "assignee list"

text \<open>The tasks of \<open>listProjects\<close>.\<close>

definition fleet_task_from :: "fleet_task \<Rightarrow> fleet_task_dto" where
  "fleet_task_from ft = (let t = ft_task ft in \<lparr>fd_name = t_name t, fd_description = t_description t, fd_image = t_image t,
     fd_status = t_status t, fd_dev = t_dev t, fd_role = ft_role ft, fd_deploy = last_deploy_from (ft_deploy ft),
     fd_build = t_build t, fd_assignees = t_assignees t\<rparr>)"

record fleet_project_dto =
  jd_project :: project_dto
  jd_tasks :: "fleet_task_dto list"
  jd_bora :: bool
  jd_images :: bool

record grant_dto =
  gd_user :: uuid
  gd_username :: string
  gd_role :: project_role
  gd_created :: time

definition grant_from_core :: "grant \<Rightarrow> grant_dto" where
  "grant_from_core g = \<lparr>gd_user = g_user g, gd_username = g_username g, gd_role = g_role g, gd_created = g_created g\<rparr>"

record notification_dto =
  nd_id :: uuid
  nd_project :: string
  nd_task :: string
  nd_type :: notification_type
  nd_status :: notification_status
  nd_title :: string
  nd_body :: string
  nd_seen :: bool
  nd_created :: time

definition notification_from_core :: "notification \<Rightarrow> notification_dto" where
  "notification_from_core n = \<lparr>nd_id = n_id n, nd_project = n_slug n, nd_task = n_task n, nd_type = n_type n,
     nd_status = n_status n, nd_title = n_title n, nd_body = n_body n, nd_seen = n_seen n, nd_created = n_created n\<rparr>"

record user_dto =
  ud_id :: uuid
  ud_username :: string
  ud_email :: string
  ud_role :: user_role
  ud_disabled :: bool
  ud_avatar :: "time option"
  ud_created :: time
  ud_updated :: time

definition user_from_core :: "user \<Rightarrow> user_dto" where
  "user_from_core u = \<lparr>ud_id = u_id u, ud_username = u_username u, ud_email = u_email u, ud_role = u_role u,
     ud_disabled = disabled u, ud_avatar = u_avatar u, ud_created = u_created u, ud_updated = u_updated u\<rparr>"

record credential_dto =
  cd_id :: uuid
  cd_name :: string
  cd_registry :: registry_kind
  cd_username :: string
  cd_created :: time

definition credential_from_core :: "credential \<Rightarrow> credential_dto" where
  "credential_from_core c = \<lparr>cd_id = c_id c, cd_name = c_name c, cd_registry = c_registry c, cd_username = c_username c,
     cd_created = c_created c\<rparr>"

text \<open>\<open>total_memory_mb\<close> is the exact quotient; a float64 holds it below 2 ^ 53 bytes.\<close>

record system_stats_dto =
  qd_tasks :: nat
  qd_running :: nat
  qd_stopped :: nat
  qd_projects :: nat
  qd_memory_mb :: rat

definition stats_from :: "system_stats \<Rightarrow> system_stats_dto" where
  "stats_from s = \<lparr>qd_tasks = ss_total s, qd_running = ss_running s, qd_stopped = ss_stopped s,
     qd_projects = ss_projects s, qd_memory_mb = of_int (ss_memory s) / (1024 * 1024)\<rparr>"

section \<open>Trying an address\<close>

text \<open>What the error of a request to an address is, as the error's types tell.\<close>

record net_error =
  ne_refused :: bool
  ne_timeout :: bool
  ne_not_found :: bool
  ne_certificate :: bool

datatype probe = BadRequest net_error | NoAnswer net_error time | Answered int time

definition error_name :: "net_error \<Rightarrow> string" where
  "error_name e = (if ne_refused e then ''refused'' else if ne_timeout e then ''timeout''
     else if ne_not_found e then ''not_found'' else if ne_certificate e then ''certificate'' else ''unreachable'')"

record route_check =
  rc_status :: int
  rc_error :: string
  rc_took :: time

definition check_route :: "probe \<Rightarrow> route_check" where
  "check_route p = (case p of BadRequest e \<Rightarrow> \<lparr>rc_status = 0, rc_error = error_name e, rc_took = 0\<rparr>
     | NoAnswer e took \<Rightarrow> \<lparr>rc_status = 0, rc_error = error_name e, rc_took = took\<rparr>
     | Answered st took \<Rightarrow> \<lparr>rc_status = st, rc_error = [], rc_took = took\<rparr>)"

text \<open>\<open>time.Duration.Milliseconds\<close> truncates.\<close>

record route_check_dto =
  rd_status :: int
  rd_error :: string
  rd_ms :: int

definition check_from :: "route_check \<Rightarrow> route_check_dto" where
  "check_from c = \<lparr>rd_status = rc_status c, rd_error = rc_error c, rd_ms = rc_took c div 1000000\<rparr>"

section \<open>Responses\<close>

text \<open>Where the events of a stream come from.\<close>

datatype event_source = HubEvents nat | PairingEvents string time | LogEvents string

datatype body = NoBody | ErrorBody string | SuccessBody | DeletedBody string
  | HealthBody string string string | StatsBody system_stats_dto
  | LoginBody string user_dto | PairingBody string time | UserBody user_dto | UsersBody "user_dto list" nat
  | TokenBody string api_token_dto | TokensBody "api_token_dto list" nat
  | CredentialBody credential_dto | CredentialsBody "credential_dto list" nat
  | ProjectBody project_dto | ProjectsBody "fleet_project_dto list" nat bool | PublicBody "public_project_dto list" nat
  | MembersBody "member_dto list" nat | GrantsBody "grant_dto list" nat
  | NotificationsBody "notification_dto list" nat | FoldersBody "string list" nat
  | TaskBody task_dto | TasksBody "task_dto list" nat | StateBody bool task_dto | CheckBody route_check_dto
  | BytesBody string | ImageBody uuid | EventsBody event_source

record response =
  rs_status :: nat
  rs_headers :: "(string \<times> string) list"
  rs_body :: body

definition json_type :: string where
  "json_type = ''application/json; charset=utf-8''"

definition write_json :: "nat \<Rightarrow> body \<Rightarrow> response" where
  "write_json st v = \<lparr>rs_status = st, rs_headers = [(''Content-Type'', json_type)], rs_body = v\<rparr>"

section \<open>Errors\<close>

text \<open>\<open>errors.Join\<close> puts the text of a sentinel on the first line; the answer leaves it out.\<close>

definition error_status :: "goerr \<Rightarrow> nat \<times> string" where
  "error_status e =
     (if err_is e ErrInvalidInput then (400, trim_prefix (sentinel_text ErrInvalidInput @ nl) (msg e))
      else if err_is e ErrUnauthorized then (401, ''unauthorized'')
      else if err_is e ErrForbidden then (403, ''forbidden'')
      else if err_is e ErrNotFound then (404, ''not found'')
      else if err_is e ErrAlreadyExists \<or> err_is e ErrConflict then (409, ''conflict'')
      else if err_is e ErrTooMany then (429, ''too many requests'')
      else (500, ''internal server error''))"

definition write_service_error :: "goerr \<Rightarrow> response" where
  "write_service_error e = (case error_status e of (st, m) \<Rightarrow>
     (write_json st (ErrorBody m))
       \<lparr>rs_headers := (if st = 401 then [(''WWW-Authenticate'', ''Bearer realm='' @ [CHR 0x22] @ ''Boreas'' @ [CHR 0x22])] else [])
          @ [(''Content-Type'', json_type)]\<rparr>)"

definition bad_request :: response where
  "bad_request = write_json 400 (ErrorBody ''invalid request body'')"

definition no_content :: response where
  "no_content = \<lparr>rs_status = 204, rs_headers = [], rs_body = NoBody\<rparr>"

text \<open>\<open>reply\<close>: the error of \<open>m\<close> or its value as \<open>v\<close> makes it.\<close>

definition reply :: "nat \<Rightarrow> ('a \<Rightarrow> body) \<Rightarrow> (world, 'a) io \<Rightarrow> (world, response) io" where
  "reply st v m = io_bind (io_try m) (\<lambda>r. ret (case r of Inl e \<Rightarrow> write_service_error e
     | Inr x \<Rightarrow> write_json st (v x)))"

text \<open>The same for an operation that returns a task with its error.\<close>

definition reply_outcome :: "nat \<Rightarrow> (task \<Rightarrow> body) \<Rightarrow> (world, outcome) io \<Rightarrow> (world, response) io" where
  "reply_outcome st v m = io_bind (io_try m) (\<lambda>r. ret (case r of Inl e \<Rightarrow> write_service_error e
     | Inr (_, Some e) \<Rightarrow> write_service_error e
     | Inr (t, None) \<Rightarrow> write_json st (v t)))"

section \<open>Bodies\<close>

definition max_request_bytes :: nat where "max_request_bytes = 1048576"
definition max_image_bytes :: nat where "max_image_bytes = 5242880"

definition decode :: "http_lib \<Rightarrow> 'r field list \<Rightarrow> 'r \<Rightarrow> string \<Rightarrow> 'r option" where
  "decode lib fs r content = (if length content > max_request_bytes then None
     else Option.bind (h_json lib content) (d_struct fs r))"

section \<open>Requests\<close>

record login_request = lq_username :: string lq_password :: string

definition login_fields :: "login_request field list" where
  "login_fields = [field ''username'' lq_username lq_username_update d_str, field ''password'' lq_password lq_password_update d_str]"

definition zero_login :: login_request where "zero_login = \<lparr>lq_username = [], lq_password = []\<rparr>"

record create_user_request =
  cq_username :: string
  cq_email :: string
  cq_password :: string
  cq_role :: user_role

definition create_user_fields :: "create_user_request field list" where
  "create_user_fields = [field ''username'' cq_username cq_username_update d_str, field ''email'' cq_email cq_email_update d_str,
     field ''password'' cq_password cq_password_update d_str, field ''role'' cq_role cq_role_update (d_named user_role_of)]"

definition zero_create_user :: create_user_request where
  "zero_create_user = \<lparr>cq_username = [], cq_email = [], cq_password = [], cq_role = OtherUserRole []\<rparr>"

record update_user_request =
  uq_email :: "string option"
  uq_password :: "string option"
  uq_role :: "user_role option"
  uq_disabled :: "bool option"

definition update_user_fields :: "update_user_request field list" where
  "update_user_fields = [field ''email'' uq_email uq_email_update (d_opt [] d_str),
     field ''password'' uq_password uq_password_update (d_opt [] d_str),
     field ''role'' uq_role uq_role_update (d_opt (OtherUserRole []) (d_named user_role_of)),
     field ''disabled'' uq_disabled uq_disabled_update (d_opt False d_bool)]"

definition zero_update_user :: update_user_request where
  "zero_update_user = \<lparr>uq_email = None, uq_password = None, uq_role = None, uq_disabled = None\<rparr>"

record pairing_code_request = hq_code :: string

definition pairing_code_fields :: "pairing_code_request field list" where
  "pairing_code_fields = [field ''code'' hq_code hq_code_update d_str]"

record create_api_token_request =
  kq_name :: string
  kq_from :: time
  kq_to :: time

definition create_api_token_fields :: "http_lib \<Rightarrow> create_api_token_request field list" where
  "create_api_token_fields lib = [field ''name'' kq_name kq_name_update d_str,
     field ''valid_from'' kq_from kq_from_update (d_text (h_json_time lib)),
     field ''valid_to'' kq_to kq_to_update (d_text (h_json_time lib))]"

definition zero_create_api_token :: create_api_token_request where
  "zero_create_api_token = \<lparr>kq_name = [], kq_from = zero_time, kq_to = zero_time\<rparr>"

record push_request = wq_token :: string

definition push_fields :: "push_request field list" where
  "push_fields = [field ''token'' wq_token wq_token_update d_str]"

record create_credential_request =
  eq_name :: string
  eq_registry :: registry_kind
  eq_username :: string
  eq_token :: string

definition create_credential_fields :: "create_credential_request field list" where
  "create_credential_fields = [field ''name'' eq_name eq_name_update d_str,
     field ''registry'' eq_registry eq_registry_update (d_named registry_of),
     field ''username'' eq_username eq_username_update d_str, field ''token'' eq_token eq_token_update d_str]"

definition zero_create_credential :: create_credential_request where
  "zero_create_credential = \<lparr>eq_name = [], eq_registry = OtherRegistry [], eq_username = [], eq_token = []\<rparr>"

text \<open>Projects: the input record of the service has the request's fields.\<close>

definition d_uuid :: "http_lib \<Rightarrow> uuid dec" where
  "d_uuid lib = d_text (h_uuid lib)"

record create_project_request =
  jq_slug :: string
  jq_name :: string
  jq_credential :: "uuid option"
  jq_image :: string
  jq_port :: int
  jq_env :: strmap
  jq_form :: form_factor

definition create_project_fields :: "http_lib \<Rightarrow> create_project_request field list" where
  "create_project_fields lib = [field ''slug'' jq_slug jq_slug_update d_str, field ''name'' jq_name jq_name_update d_str,
     field ''registry_credential_id'' jq_credential jq_credential_update (d_opt 0 (d_uuid lib)),
     field ''default_image'' jq_image jq_image_update d_str, field ''default_port'' jq_port jq_port_update d_int,
     field ''default_env'' jq_env jq_env_update d_map,
     field ''default_form_factor'' jq_form jq_form_update (d_named form_of)]"

definition zero_create_project :: create_project_request where
  "zero_create_project = \<lparr>jq_slug = [], jq_name = [], jq_credential = None, jq_image = [], jq_port = 0, jq_env = [],
     jq_form = OtherForm []\<rparr>"

text \<open>\<open>nullableUUID\<close>: whether the field was sent, and its value; its own decoder sees the null.\<close>

record nullable_uuid =
  nu_set :: bool
  nu_value :: "uuid option"

definition d_nullable :: "http_lib \<Rightarrow> nullable_uuid dec" where
  "d_nullable lib old j = map_option (\<lambda>v. \<lparr>nu_set = True, nu_value = v\<rparr>) (d_opt 0 (d_uuid lib) (nu_value old) j)"

record update_project_request =
  vq_name :: "string option"
  vq_credential :: nullable_uuid
  vq_image :: "string option"
  vq_port :: "int option"
  vq_env :: "strmap option"
  vq_form :: "form_factor option"

definition update_project_fields :: "http_lib \<Rightarrow> update_project_request field list" where
  "update_project_fields lib = [field ''name'' vq_name vq_name_update (d_opt [] d_str),
     field ''registry_credential_id'' vq_credential vq_credential_update (d_nullable lib),
     field ''default_image'' vq_image vq_image_update (d_opt [] d_str),
     field ''default_port'' vq_port vq_port_update (d_opt 0 d_int),
     field ''default_env'' vq_env vq_env_update (d_opt [] d_map),
     field ''default_form_factor'' vq_form vq_form_update (d_opt (OtherForm []) (d_named form_of))]"

definition zero_update_project :: update_project_request where
  "zero_update_project = \<lparr>vq_name = None, vq_credential = \<lparr>nu_set = False, nu_value = None\<rparr>, vq_image = None, vq_port = None,
     vq_env = None, vq_form = None\<rparr>"

text \<open>\<open>addMemberRequest\<close> and \<open>grantRequest\<close> have the same fields.\<close>

record add_member_request = mq_user :: uuid mq_role :: project_role

definition add_member_fields :: "http_lib \<Rightarrow> add_member_request field list" where
  "add_member_fields lib = [field ''user_id'' mq_user mq_user_update (d_uuid lib),
     field ''role'' mq_role mq_role_update (d_named role_of_str)]"

record grant_request = gq_user :: uuid gq_role :: project_role

definition grant_fields :: "http_lib \<Rightarrow> grant_request field list" where
  "grant_fields lib = [field ''user_id'' gq_user gq_user_update (d_uuid lib),
     field ''role'' gq_role gq_role_update (d_named role_of_str)]"

record mark_seen_request = sq_ids :: "uuid list"

definition mark_seen_fields :: "http_lib \<Rightarrow> mark_seen_request field list" where
  "mark_seen_fields lib = [field ''ids'' sq_ids sq_ids_update (d_elems 0 (d_uuid lib))]"

text \<open>Tasks.\<close>

record create_task_request =
  tq_name :: string
  tq_description :: string
  tq_note :: string
  tq_image :: string
  tq_port :: int
  tq_form :: form_factor
  tq_labels :: strmap
  tq_env :: strmap
  tq_volumes :: strmap
  tq_assignees :: "uuid list"

definition create_task_fields :: "http_lib \<Rightarrow> create_task_request field list" where
  "create_task_fields lib = [field ''name'' tq_name tq_name_update d_str, field ''description'' tq_description tq_description_update d_str,
     field ''note'' tq_note tq_note_update d_str, field ''image'' tq_image tq_image_update d_str,
     field ''port'' tq_port tq_port_update d_int, field ''form_factor'' tq_form tq_form_update (d_named form_of),
     field ''labels'' tq_labels tq_labels_update d_map, field ''env'' tq_env tq_env_update d_map,
     field ''volumes'' tq_volumes tq_volumes_update d_map,
     field ''assignees'' tq_assignees tq_assignees_update (d_elems 0 (d_uuid lib))]"

definition zero_create_task :: create_task_request where
  "zero_create_task = \<lparr>tq_name = [], tq_description = [], tq_note = [], tq_image = [], tq_port = 0, tq_form = OtherForm [],
     tq_labels = [], tq_env = [], tq_volumes = [], tq_assignees = []\<rparr>"

text \<open>\<open>None\<close> is a nil slice: absent or null.\<close>

definition max_assignees :: nat where "max_assignees = 50"

record assignees_request = aq_ids :: "uuid list option"

definition assignees_fields :: "http_lib \<Rightarrow> assignees_request field list" where
  "assignees_fields lib = [field ''user_ids'' aq_ids aq_ids_update (d_list 0 (d_uuid lib))]"

definition zero_route :: route where "zero_route = \<lparr>r_path = [], r_url = [], r_anycert = False\<rparr>"

definition route_fields :: "route field list" where
  "route_fields = [field ''path'' r_path r_path_update d_str, field ''url'' r_url r_url_update d_str,
     field ''any_cert'' r_anycert r_anycert_update d_bool]"

record update_task_request =
  yq_description :: "string option"
  yq_note :: "string option"
  yq_dev :: "dev_status option"
  yq_form :: "form_factor option"
  yq_password :: "string option"
  yq_image :: "string option"
  yq_port :: "int option"
  yq_labels :: "strmap option"
  yq_env :: "strmap option"
  yq_volumes :: "strmap option"
  yq_routes :: "route list option"
  yq_restart :: "bool option"

definition update_task_fields :: "update_task_request field list" where
  "update_task_fields = [field ''description'' yq_description yq_description_update (d_opt [] d_str),
     field ''note'' yq_note yq_note_update (d_opt [] d_str),
     field ''dev_status'' yq_dev yq_dev_update (d_opt (OtherDev []) (d_named dev_of)),
     field ''form_factor'' yq_form yq_form_update (d_opt (OtherForm []) (d_named form_of)),
     field ''password'' yq_password yq_password_update (d_opt [] d_str),
     field ''image'' yq_image yq_image_update (d_opt [] d_str),
     field ''port'' yq_port yq_port_update (d_opt 0 d_int),
     field ''labels'' yq_labels yq_labels_update (d_opt [] d_map),
     field ''env'' yq_env yq_env_update (d_opt [] d_map),
     field ''volumes'' yq_volumes yq_volumes_update (d_opt [] d_map),
     field ''routes'' yq_routes yq_routes_update (d_opt [] (d_elems zero_route (d_struct route_fields))),
     field ''auto_restart'' yq_restart yq_restart_update (d_opt False d_bool)]"

definition zero_update_task :: update_task_request where
  "zero_update_task = \<lparr>yq_description = None, yq_note = None, yq_dev = None, yq_form = None, yq_password = None,
     yq_image = None, yq_port = None, yq_labels = None, yq_env = None, yq_volumes = None, yq_routes = None, yq_restart = None\<rparr>"

record check_route_request = oq_url :: string oq_any :: bool

definition check_route_fields :: "check_route_request field list" where
  "check_route_fields = [field ''url'' oq_url oq_url_update d_str, field ''any_cert'' oq_any oq_any_update d_bool]"

record report_build_request =
  bq_state :: build_state
  bq_stage :: string
  bq_progress :: int
  bq_url :: string

definition report_build_fields :: "report_build_request field list" where
  "report_build_fields = [field ''state'' bq_state bq_state_update (d_named build_of),
     field ''stage'' bq_stage bq_stage_update d_str, field ''progress'' bq_progress bq_progress_update d_int,
     field ''url'' bq_url bq_url_update d_str]"

definition zero_report_build :: report_build_request where
  "zero_report_build = \<lparr>bq_state = OtherBuild [], bq_stage = [], bq_progress = 0, bq_url = []\<rparr>"

record deploy_task_request =
  dq_image :: string
  dq_repository :: string
  dq_revision :: string

definition deploy_task_fields :: "deploy_task_request field list" where
  "deploy_task_fields = [field ''image'' dq_image dq_image_update d_str,
     field ''repository'' dq_repository dq_repository_update d_str, field ''revision'' dq_revision dq_revision_update d_str]"

definition zero_deploy_task :: deploy_task_request where
  "zero_deploy_task = \<lparr>dq_image = [], dq_repository = [], dq_revision = []\<rparr>"

record update_state_request = iq_action :: string

definition update_state_fields :: "update_state_request field list" where
  "update_state_fields = [field ''action'' iq_action iq_action_update d_str]"

end
