(* ===== verification/Rewriting.thy ===== *)
theory Rewriting
  imports Messages Task_Effects
begin

text \<open>
  What the proxy changes of the requests and answers of a hop (internal/infra/proxy/registry.go and
  the lock's cookie in lock.go): the request sent on, redirects, cookies, the base of an HTML page, and
  the answer when the hop fails. Regular expressions are matched by hand; the parsing and printing of
  URLs and cookies is net/http's, a parameter.
\<close>

section \<open>Headers\<close>

text \<open>The values of a header, by its canonical name; a missing one has none.\<close>

type_synonym headers = "string \<Rightarrow> string list"

definition hget :: "headers \<Rightarrow> string \<Rightarrow> string" where
  "hget h k = (case h k of [] \<Rightarrow> [] | v # _ \<Rightarrow> v)"

definition hset :: "string \<Rightarrow> string \<Rightarrow> headers \<Rightarrow> headers" where
  "hset k v h = h(k := [v])"

definition hdel :: "string \<Rightarrow> headers \<Rightarrow> headers" where
  "hdel k h = h(k := [])"

text \<open>
  \<open>EscapedPath\<close> of a parsed URL, \<open>strings.EqualFold\<close> where a string is not ASCII, \<open>ParseSetCookie\<close>
  and a cookie's \<open>String\<close>.
\<close>

record set_cookie =
  sk_name :: string
  sk_value :: string
  sk_path :: string
  sk_domain :: string
  sk_rest :: "string list"

record proxy_lib =
  px_escaped :: "url \<Rightarrow> string"
  px_fold :: "string \<Rightarrow> string \<Rightarrow> bool"
  px_cookie :: "string \<Rightarrow> set_cookie option"
  px_cookie_string :: "set_cookie \<Rightarrow> string"

definition equal_fold :: "proxy_lib \<Rightarrow> string \<Rightarrow> string \<Rightarrow> bool" where
  "equal_fold px a b = (if list_all is_ascii a \<and> list_all is_ascii b then map ascii_lower a = map ascii_lower b else px_fold px a b)"

section \<open>The lock's cookie\<close>

definition lock_cookie :: string where "lock_cookie = ''boreas_lock''"

definition contains_sub :: "string \<Rightarrow> string \<Rightarrow> bool" where
  "contains_sub s p \<longleftrightarrow> list_ex (\<lambda>i. prefix p (drop i s)) [0..<Suc (length s)]"

definition drop_lock_cookie :: "headers \<Rightarrow> headers" where
  "drop_lock_cookie h = (let line = join_with ''; '' (h ''Cookie'') in
     if \<not> contains_sub line (lock_cookie @ ''='') then h
     else let pairs = filter (\<lambda>pair. \<not> (trim_space pair = [] \<or> prefix (lock_cookie @ ''='') (trim_space pair))) (split_at (CHR '';'') line);
       h' = hdel ''Cookie'' h in
       if pairs \<noteq> [] then hset ''Cookie'' (trim_space (join_with '';'' pairs)) h' else h')"

section \<open>Requests\<close>

text \<open>
  The request that came in: \<open>pi_escaped\<close> is the escaped path of its URL, \<open>pi_remote\<close> the client's
  host when the address has one. \<open>pi_out\<close> are the headers \<open>ReverseProxy\<close> starts the outgoing one with.
\<close>

record proxied_in =
  pi_path :: string
  pi_escaped :: string
  pi_host :: string
  pi_remote :: "string option"
  pi_tls :: bool
  pi_headers :: headers
  pi_out :: headers

record proxied_out =
  po_scheme :: string
  po_host :: string
  po_path :: string
  po_rawpath :: string
  po_host_header :: string
  po_headers :: headers

definition set_x_forwarded :: "proxied_in \<Rightarrow> headers \<Rightarrow> headers" where
  "set_x_forwarded q h = (let h1 = (case pi_remote q of None \<Rightarrow> hdel ''X-Forwarded-For'' h
         | Some ip \<Rightarrow> hset ''X-Forwarded-For'' (let prior = h ''X-Forwarded-For'' in if prior \<noteq> [] then join_with '', '' prior @ '', '' @ ip else ip) h)
     in hset ''X-Forwarded-Proto'' (if pi_tls q then ''https'' else ''http'') (hset ''X-Forwarded-Host'' (pi_host q) h1))"

definition loop_header :: string where "loop_header = ''X-Boreas-Route''"

definition hop_rewrite :: "proxy_lib \<Rightarrow> hop \<Rightarrow> proxied_in \<Rightarrow> proxied_out" where
  "hop_rewrite px h q = (let h1 = (drop_lock_cookie (pi_out q))(''X-Forwarded-For'' := pi_headers q ''X-Forwarded-For'');
     h2 = set_x_forwarded q h1; proto = hget (pi_headers q) ''X-Forwarded-Proto'';
     h3 = (if proto \<noteq> [] then hset ''X-Forwarded-Proto'' proto h2 else h2);
     h4 = hset ''X-Boreas-Task'' (h_task h) (hset ''X-Boreas-Project'' (h_project h) (hset ''X-Forwarded-Prefix'' (h_public h @ ''/'') h3)) in
     \<lparr>po_scheme = ul_scheme (h_target h), po_host = ul_host (h_target h),
      po_path = ul_path (h_target h) @ trim_prefix (pi_path q) (h_public h),
      po_rawpath = px_escaped px (h_target h) @ trim_prefix (pi_escaped q) (h_public h),
      po_host_header = [],
      po_headers = (if h_path h \<noteq> [] then hset loop_header (h_path h) h4 else hset ''Accept-Encoding'' ''identity'' h4)\<rparr>)"

section \<open>Redirects and cookies\<close>

definition rewrite_location :: "url_lib \<Rightarrow> proxy_lib \<Rightarrow> hop \<Rightarrow> headers \<Rightarrow> headers" where
  "rewrite_location ul px h hs = (case url_parse ul (hget hs ''Location'') of None \<Rightarrow> hs
     | Some u \<Rightarrow> if ul_host u \<noteq> [] \<and> \<not> equal_fold px (ul_host u) (ul_host (h_target h)) then hs
       else if \<not> prefix (ul_path (h_target h)) (ul_path u) then hs
       else let remain = drop (length (ul_path (h_target h))) (ul_path u) in
         if \<not> prefix ''/'' (ul_path u) \<or> under (ul_path u) (h_public h) \<or> remain \<noteq> [] \<and> remain ! 0 \<noteq> slash then hs
         else hset ''Location'' (url_string ul (u\<lparr>ul_scheme := [], ul_host := [], ul_path := h_public h @ remain\<rparr>)) hs)"

definition scope_cookie :: "proxy_lib \<Rightarrow> hop \<Rightarrow> string \<Rightarrow> string" where
  "scope_cookie px h line = (case px_cookie px line of None \<Rightarrow> line
     | Some c \<Rightarrow> let rewritten = px_cookie_string px (c\<lparr>sk_path := ''/'' @ h_project h @ ''/'' @ h_task h @ ''/'', sk_domain := []\<rparr>) in
         if rewritten \<noteq> [] then rewritten else line)"

definition rewrite_cookies :: "proxy_lib \<Rightarrow> hop \<Rightarrow> headers \<Rightarrow> headers" where
  "rewrite_cookies px h hs = hs(''Set-Cookie'' := map (scope_cookie px h) (hs ''Set-Cookie''))"

section \<open>HTML pages\<close>

definition is_html :: "proxy_lib \<Rightarrow> string \<Rightarrow> bool" where
  "is_html px ct = equal_fold px (trim_space (fst (cut_at (CHR '';'') ct))) ''text/html''"

text \<open>A word of lower-case letters as \<open>(?i)\<close> matches it, the long s being an s; the remain.\<close>

fun match_ci :: "string \<Rightarrow> string \<Rightarrow> string option" where
  "match_ci [] s = Some s"
| "match_ci (p # ps) [] = None"
| "match_ci (p # ps) (c # cs) = (if ascii_lower c = p then match_ci ps cs
     else if p = CHR ''s'' \<and> c = CHR 0xC5 \<and> take 1 cs = [CHR 0xBF] then match_ci ps (drop 1 cs) else None)"

text \<open>\<open><name\b[^>]*>\<close> at the start of a text: the tag and what follows it.\<close>

definition tag_at :: "string \<Rightarrow> string \<Rightarrow> (string \<times> string) option" where
  "tag_at name s = (case match_ci (CHR ''<'' # name) s of None \<Rightarrow> None
     | Some r \<Rightarrow> if r = [] \<or> is_word (hd r) \<or> CHR ''>'' \<notin> set r then None
       else let remain = drop 1 (dropWhile (\<lambda>c. c \<noteq> CHR ''>'') r) in Some (take (length s - length remain) s, remain))"

lemma match_ci_shorter: "match_ci ps s = Some r \<Longrightarrow> length r + length ps \<le> length s"
  by (induction ps s rule: match_ci.induct) (auto split: if_splits)

lemma tag_at_shorter: "tag_at name s = Some (tag, remain) \<Longrightarrow> length remain < length s"
proof -
  assume "tag_at name s = Some (tag, remain)"
  then obtain r where r: "match_ci (CHR ''<'' # name) s = Some r" "remain = drop 1 (dropWhile (\<lambda>c. c \<noteq> CHR ''>'') r)"
    by (auto simp: tag_at_def Let_def split: option.splits if_splits)
  have "length (dropWhile (\<lambda>c. c \<noteq> CHR ''>'') r) \<le> length r" by (rule length_dropWhile_le)
  with r(2) have "length remain \<le> length r" by simp
  with match_ci_shorter [OF r(1)] show ?thesis by simp
qed

text \<open>\<open>ReplaceAllFunc\<close> of the base tags.\<close>

function replace_base :: "(string \<Rightarrow> string) \<Rightarrow> string \<Rightarrow> string" where
  "replace_base f s = (case tag_at ''base'' s of Some (tag, remain) \<Rightarrow> f tag @ replace_base f remain
     | None \<Rightarrow> (case s of [] \<Rightarrow> [] | c # cs \<Rightarrow> c # replace_base f cs))"
  by pat_completeness auto
termination
  by (relation "measure (\<lambda>(f, s). length s)") (auto dest: tag_at_shorter)

declare replace_base.simps [simp del]

text \<open>The first head tag, with the shim after it.\<close>

definition device_shim :: string where
  "device_shim = ''<script src='' @ [CHR 0x22] @ ''/_device/shim.js'' @ [CHR 0x22] @ ''></script>''"

fun insert_shim :: "string \<Rightarrow> string option" where
  "insert_shim [] = None"
| "insert_shim (c # cs) = (case tag_at ''head'' (c # cs) of Some (tag, remain) \<Rightarrow> Some (tag @ device_shim @ remain)
     | None \<Rightarrow> map_option (\<lambda>s. c # s) (insert_shim cs))"

text \<open>\<open>\bhref\s*=\s*["']([^"']*)["']\<close>: the first match's group, the flag telling whether a word character came before.\<close>

definition is_quote :: "char \<Rightarrow> bool" where
  "is_quote c \<longleftrightarrow> c = CHR 0x22 \<or> c = CHR 0x27"

definition href_at :: "string \<Rightarrow> string option" where
  "href_at s = (case match_ci ''href'' s of None \<Rightarrow> None
     | Some r \<Rightarrow> (case dropWhile is_re_space r of [] \<Rightarrow> None
       | c # cs \<Rightarrow> if c \<noteq> CHR ''='' then None else (case dropWhile is_re_space cs of [] \<Rightarrow> None
         | q # t \<Rightarrow> if is_quote q \<and> list_ex is_quote t then Some (takeWhile (\<lambda>c. \<not> is_quote c) t) else None)))"

fun href_in :: "bool \<Rightarrow> string \<Rightarrow> string option" where
  "href_in word [] = None"
| "href_in word (c # cs) = (case (if word then None else href_at (c # cs)) of Some v \<Rightarrow> Some v | None \<Rightarrow> href_in (is_word c) cs)"

definition base_href :: "hop \<Rightarrow> string \<Rightarrow> string" where
  "base_href h tag = (let href = (case href_in False tag of Some v \<Rightarrow> if prefix ''/'' v \<and> \<not> prefix ''//'' v then v else ''/'' | None \<Rightarrow> ''/'') in
     if under href (h_public h) then href else h_public h @ href)"

definition base_tag :: "hop \<Rightarrow> string \<Rightarrow> string" where
  "base_tag h tag = ''<base href='' @ [CHR 0x22] @ base_href h tag @ [CHR 0x22] @ ''>''"

text \<open>\<open>modifyResponse\<close>: the target's headers and body, whose reading or closing may fail.\<close>

definition modify_response :: "url_lib \<Rightarrow> proxy_lib \<Rightarrow> bool \<Rightarrow> hop \<Rightarrow> headers \<Rightarrow> goerr + string \<Rightarrow> goerr + headers \<times> (goerr + string)" where
  "modify_response ul px mobile h hs content = (let hd1 = rewrite_cookies px h (rewrite_location ul px h hs) in
     if h_path h \<noteq> [] \<or> \<not> is_html px (hget hd1 ''Content-Type'') \<or> hget hd1 ''Content-Encoding'' \<noteq> [] then Inr (hd1, content)
     else (case content of Inl e \<Rightarrow> Inl e
       | Inr text \<Rightarrow> let based = replace_base (base_tag h) text;
           page = (if mobile then (case insert_shim based of Some s \<Rightarrow> s | None \<Rightarrow> based) else based) in
           Inr (hdel ''Content-Md5'' (hdel ''Etag'' (hset ''Content-Length'' (nat_str (length page)) hd1)), Inr page)))"

section \<open>A hop that fails\<close>

datatype fail_answer = FailJson (fj_error: string) (fj_route: "string option")
  | FailPage (fp_project: string) (fp_task: string) (fp_route: string) (fp_reason: string) (fp_running: bool)

definition fail_reason :: "string \<Rightarrow> string" where
  "fail_reason k = (if k = ''refused'' then ''The connection was refused.'' else if k = ''timeout'' then ''It didn'' @ [CHR 0xE2, CHR 0x80, CHR 0x99] @ ''t answer in time.''
     else if k = ''not_found'' then ''Its name couldn'' @ [CHR 0xE2, CHR 0x80, CHR 0x99] @ ''t be found.''
     else if k = ''certificate'' then ''Its certificate isn'' @ [CHR 0xE2, CHR 0x80, CHR 0x99] @ ''t trusted.''
     else if k = ''unreachable'' then ''It couldn'' @ [CHR 0xE2, CHR 0x80, CHR 0x99] @ ''t be reached.'' else [])"

definition hop_fail :: "ext \<Rightarrow> sites \<Rightarrow> headers \<Rightarrow> hop \<Rightarrow> net_error \<Rightarrow> nat \<times> fail_answer" where
  "hop_fail x m hs h e = (502, if hget hs ''Sec-Fetch-Mode'' \<noteq> ''navigate''
     then (if h_path h \<noteq> [] then FailJson ''route_unreachable'' (Some (h_path h)) else FailJson ''task_unreachable'' None)
     else FailPage (h_project h) (h_task h) (h_path h) (fail_reason (error_name e))
       (h_path h \<noteq> [] \<and> st_task (site_at m (route_key x (h_project h) (h_task h))) \<noteq> None))"


section \<open>Trimming white space\<close>

lemma space_seqs_heads: "q \<in> set space_seqs \<Longrightarrow> q \<noteq> [] \<and> \<not> is_cont (c_nat (hd q)) \<and> (\<forall>c \<in> set (tl q). is_cont (c_nat c))"
proof -
  have "list_all (\<lambda>q. q \<noteq> [] \<and> \<not> is_cont (c_nat (hd q)) \<and> list_all (\<lambda>c. is_cont (c_nat c)) (tl q)) space_seqs" by code_simp
  then show "q \<in> set space_seqs \<Longrightarrow> q \<noteq> [] \<and> \<not> is_cont (c_nat (hd q)) \<and> (\<forall>c \<in> set (tl q). is_cont (c_nat c))"
    by (simp add: list_all_iff)
qed

lemma space_seqs_prefix: "p \<in> set space_seqs \<Longrightarrow> q \<in> set space_seqs \<Longrightarrow> prefix p q \<Longrightarrow> p = q"
proof -
  have "list_all (\<lambda>p. list_all (\<lambda>q. prefix p q \<longrightarrow> p = q) space_seqs) space_seqs" by code_simp
  then show "p \<in> set space_seqs \<Longrightarrow> q \<in> set space_seqs \<Longrightarrow> prefix p q \<Longrightarrow> p = q" by (simp add: list_all_iff)
qed

lemma space_seqs_separators: "q \<in> set space_seqs \<Longrightarrow> CHR '';'' \<notin> set q"
proof -
  have "list_all (\<lambda>q. CHR '';'' \<notin> set q) space_seqs" by code_simp
  then show "q \<in> set space_seqs \<Longrightarrow> CHR '';'' \<notin> set q" by (simp add: list_all_iff)
qed

lemma space_seq_suffix:
  assumes p: "p \<in> set space_seqs" and q: "q \<in> set space_seqs" and t: "t \<noteq> []" and suf: "suffix q (p @ t)"
  shows "suffix q t"
proof -
  from suf consider "suffix q t" | u where "q = u @ t" "suffix u p" by (auto simp: suffix_append)
  then show ?thesis
  proof cases
    case (2 u)
    show ?thesis
    proof (cases u)
      case (Cons c cs)
      obtain v where v: "p = v @ u" using 2(2) by (auto simp: suffix_def)
      have "\<not> is_cont (c_nat c)" using space_seqs_heads [OF q] 2(1) Cons by simp
      moreover have "v \<noteq> [] \<Longrightarrow> is_cont (c_nat c)" using space_seqs_heads [OF p] v Cons by (cases v) auto
      ultimately have "p = u" using v by auto
      with 2(1) space_seqs_prefix [OF p q] t show ?thesis by simp
    qed (use 2 in simp)
  qed
qed

lemma find_same: "(\<And>x. x \<in> set xs \<Longrightarrow> P x = Q x) \<Longrightarrow> find P xs = find Q xs"
  by (induction xs) auto

lemma space_suffix_append: "p \<in> set space_seqs \<Longrightarrow> t \<noteq> [] \<Longrightarrow> space_suffix (p @ t) = space_suffix t"
  unfolding space_suffix_def
  by (subst find_same [where Q = "\<lambda>q. suffix q t"]) (auto intro: space_seq_suffix suffix_appendI)

lemma find_space: "find P space_seqs = Some q \<Longrightarrow> q \<in> set space_seqs \<and> P q"
  by (auto simp: find_Some_iff in_set_conv_nth)

lemma trim_right_seq:
  assumes p: "p \<in> set space_seqs"
  shows "trim_right p = []"
proof -
  obtain q where q: "find (\<lambda>q. suffix q p) space_seqs = Some q"
    using p find_None_iff [of "\<lambda>q. suffix q p" space_seqs] by (cases "find (\<lambda>q. suffix q p) space_seqs") auto
  from find_space [OF q] obtain u where u: "p = u @ q" and qs: "q \<in> set space_seqs" by (auto simp: suffix_def)
  have "u = []"
  proof (rule ccontr)
    assume "u \<noteq> []"
    then have "hd q \<in> set (tl p)" using u space_seqs_heads [OF qs] by (cases u) auto
    then show False using space_seqs_heads [OF p] space_seqs_heads [OF qs] by blast
  qed
  with u q have "space_suffix p = length p" by (simp add: space_suffix_def)
  then show ?thesis by (subst trim_right.simps) simp
qed

lemma trim_right_append:
  assumes p: "p \<in> set space_seqs"
  shows "trim_right (p @ t) = (if trim_right t = [] then [] else p @ trim_right t)"
proof (induction t rule: trim_right.induct)
  case (1 t)
  show ?case
  proof (cases "t = [] \<or> space_suffix t = 0")
    case True
    then show ?thesis using p space_suffix_append [OF p, of t] trim_right_seq [OF p]
      by (cases "t = []") (simp_all add: trim_right.simps [of t] trim_right.simps [of "p @ t"])
  next
    case False
    have le: "space_suffix t \<le> length t"
      by (auto simp: space_suffix_def split: option.split dest!: find_space suffix_length_le)
    have "trim_right (p @ t) = trim_right (p @ take (length t - space_suffix t) t)"
      using False le p space_suffix_append [OF p, of t] by (simp add: trim_right.simps [of "p @ t"])
    with 1 [OF False] False show ?thesis by (simp add: trim_right.simps [of t])
  qed
qed

lemma trim_left_append:
  assumes p: "p \<in> set space_seqs"
  shows "trim_left (p @ t) = trim_left t"
proof -
  obtain q where q: "find (\<lambda>q. prefix q (p @ t)) space_seqs = Some q"
    using p find_None_iff [of "\<lambda>q. prefix q (p @ t)" space_seqs] by (cases "find (\<lambda>q. prefix q (p @ t)) space_seqs") auto
  from find_space [OF q] have "q = p"
    using space_seqs_prefix p prefix_same_cases [of q "p @ t" p] by auto
  with q have "space_prefix (p @ t) = length p" by (simp add: space_prefix_def)
  then show ?thesis using space_seqs_heads [OF p] by (subst trim_left.simps) simp
qed

lemma trim_commute: "trim_left (trim_right s) = trim_right (trim_left s)"
proof (induction s rule: trim_left.induct)
  case (1 s)
  show ?case
  proof (cases "s = [] \<or> space_prefix s = 0")
    case True
    then have "space_prefix (trim_right s) = 0 \<or> trim_right s = []"
      using trim_right_prefix [of s] unfolding space_prefix_none by (metis prefix_order.trans trim_right_nil)
    then have "trim_left (trim_right s) = trim_right s" by (auto simp: trim_left.simps [of "trim_right s"])
    with True show ?thesis by (auto simp: trim_left.simps [of s])
  next
    case False
    then obtain p where p: "find (\<lambda>q. prefix q s) space_seqs = Some p" by (auto simp: space_prefix_def split: option.splits)
    then have len: "space_prefix s = length p" and ps: "p \<in> set space_seqs" and pre: "prefix p s"
      using find_space [OF p] by (simp_all add: space_prefix_def)
    obtain t where t: "s = p @ t" using pre by (auto simp: prefix_def)
    have "trim_left (trim_right t) = trim_right (trim_left t)" using 1 [OF False] len t by simp
    then show ?thesis
      by (cases "trim_right t = []") (simp_all add: t trim_right_append [OF ps] trim_left_append [OF ps])
  qed
qed

lemma trim_space_sides: "trim_space (trim_left s) = trim_space s" "trim_space (trim_right s) = trim_space s"
  by (simp_all add: trim_space_def trim_left_fix trim_right_fix trim_commute)


text \<open>Trimming reaches only the outermost pairs of a line.\<close>

lemma split_trim_left: "map trim_space (split_at (CHR '';'') (trim_left s)) = map trim_space (split_at (CHR '';'') s)"
proof (induction s rule: trim_left.induct)
  case (1 s)
  show ?case
  proof (cases "s = [] \<or> space_prefix s = 0")
    case True
    then show ?thesis by (auto simp: trim_left.simps [of s])
  next
    case False
    then obtain p where p: "find (\<lambda>q. prefix q s) space_seqs = Some p" by (auto simp: space_prefix_def split: option.splits)
    then have len: "space_prefix s = length p" and ps: "p \<in> set space_seqs" and pre: "prefix p s"
      using find_space [OF p] by (simp_all add: space_prefix_def)
    obtain t where t: "s = p @ t" using pre by (auto simp: prefix_def)
    have "split_at (CHR '';'') (u @ t) = (u @ hd (split_at (CHR '';'') t)) # tl (split_at (CHR '';'') t)" if "CHR '';'' \<notin> set u" for u
      using that by (induction u) (auto split: list.splits)
    from this [OF space_seqs_separators [OF ps]]
    have "map trim_space (split_at (CHR '';'') (p @ t)) = map trim_space (split_at (CHR '';'') t)"
      by (cases "split_at (CHR '';'') t") (simp_all add: trim_space_def trim_left_append [OF ps])
    with 1 [OF False] len t show ?thesis by (simp add: trim_left_append [OF ps])
  qed
qed

lemma split_at_end: "c \<notin> set b \<Longrightarrow> split_at c (a @ b) = butlast (split_at c a) @ [last (split_at c a) @ b]"
  by (induction a) (auto simp: split_no_sep split: list.splits)

lemma split_trim_right: "map trim_space (split_at (CHR '';'') (trim_right s)) = map trim_space (split_at (CHR '';'') s)"
proof (induction s rule: trim_right.induct)
  case (1 s)
  show ?case
  proof (cases "s = [] \<or> space_suffix s = 0")
    case True
    then show ?thesis by (auto simp: trim_right.simps [of s])
  next
    case False
    then obtain p where p: "find (\<lambda>q. suffix q s) space_seqs = Some p" by (auto simp: space_suffix_def split: option.splits)
    then have len: "space_suffix s = length p" and ps: "p \<in> set space_seqs" and suf: "suffix p s"
      using find_space [OF p] by (simp_all add: space_suffix_def)
    obtain t where t: "s = t @ p" using suf by (auto simp: suffix_def)
    have "trim_space (u @ p) = trim_space u" for u
    proof -
      have "trim_right (u @ p) = trim_right u"
      proof -
        obtain q where q: "find (\<lambda>q. suffix q (u @ p)) space_seqs = Some q"
          using ps find_None_iff [of "\<lambda>q. suffix q (u @ p)" space_seqs] by (cases "find (\<lambda>q. suffix q (u @ p)) space_seqs") (auto simp: suffix_def)
        have same: "a = b" if ab: "a \<in> set space_seqs" "b \<in> set space_seqs" "suffix a b" for a b
        proof -
          obtain v where v: "b = v @ a" using ab(3) by (auto simp: suffix_def)
          have "v = []"
          proof (rule ccontr)
            assume "v \<noteq> []"
            then have "hd a \<in> set (tl b)" using v space_seqs_heads [OF ab(1)] by (cases v) auto
            then show False using space_seqs_heads [OF ab(1)] space_seqs_heads [OF ab(2)] by blast
          qed
          with v show ?thesis by simp
        qed
        from find_space [OF q] have "q = p"
          using same ps suffix_same_cases [of q "u @ p" p] by (auto simp: suffix_def)
        with q have "space_suffix (u @ p) = length p" by (simp add: space_suffix_def)
        then show ?thesis using space_seqs_heads [OF ps] by (subst trim_right.simps) simp
      qed
      then show ?thesis by (metis trim_space_sides(2))
    qed
    then have "map trim_space (split_at (CHR '';'') (t @ p)) = map trim_space (split_at (CHR '';'') t)"
      by (cases "split_at (CHR '';'') t" rule: rev_cases) (simp_all add: split_at_end [OF space_seqs_separators [OF ps]])
    with 1 [OF False] len t False show ?thesis by (simp add: trim_right.simps [of "t @ p"])
  qed
qed

lemma split_trim: "map trim_space (split_at (CHR '';'') (trim_space s)) = map trim_space (split_at (CHR '';'') s)"
  by (simp add: trim_space_def [of s] split_trim_right split_trim_left)

section \<open>The lock's cookie stays here\<close>

text \<open>The pairs of the cookie headers, trimmed, without empty ones.\<close>

definition cookie_pairs :: "headers \<Rightarrow> string list" where
  "cookie_pairs h = filter (\<lambda>p. p \<noteq> []) (map trim_space (split_at (CHR '';'') (join_with ''; '' (h ''Cookie''))))"

lemma split_at_part: "g \<in> set (split_at c s) \<Longrightarrow> \<exists>x y. s = x @ g @ y"
proof (induction s arbitrary: g)
  case (Cons a s)
  obtain p ps where ps: "split_at c s = p # ps" by (cases "split_at c s") auto
  show ?case
  proof (cases "a = c")
    case True
    with Cons show ?thesis by (metis append_Cons append_Nil set_ConsD split_at.simps(2))
  next
    case False
    with Cons.prems ps consider "g = a # p" | "g \<in> set ps" by auto
    then show ?thesis
    proof cases
      case 1
      have "prefix p s" using ps
      proof (induction s arbitrary: p ps)
        case (Cons b s)
        then show ?case by (cases "split_at c s") (auto split: if_splits)
      qed simp
      then obtain y where "s = p @ y" by (auto simp: prefix_def)
      with 1 show ?thesis by (intro exI [of _ "[]"] exI [of _ y]) simp
    next
      case 2
      with Cons.IH [of g] ps obtain x y where "s = x @ g @ y" by auto
      then show ?thesis by (intro exI [of _ "a # x"] exI [of _ y]) simp
    qed
  qed
qed simp

lemma contains_subI: "contains_sub (x @ p @ y) p"
  by (auto simp: contains_sub_def list_ex_iff intro!: bexI [of _ "length x"])

lemma trim_left_suffix: "suffix (trim_left s) s"
proof (induction s rule: trim_left.induct)
  case (1 s)
  show ?case
  proof (cases "s = [] \<or> space_prefix s = 0")
    case True
    then show ?thesis by (auto simp: trim_left.simps [of s])
  next
    case False
    with 1 show ?thesis by (auto simp: trim_left.simps [of s] intro: suffix_order.trans suffix_drop)
  qed
qed

lemma trim_part: "prefix p (trim_space s) \<Longrightarrow> \<exists>x y. s = x @ p @ y"
proof -
  assume "prefix p (trim_space s)"
  then have "prefix p (trim_left s)" using trim_right_prefix [of "trim_left s"] by (auto simp: trim_space_def intro: prefix_order.trans)
  then obtain y where y: "trim_left s = p @ y" by (auto simp: prefix_def)
  obtain x where "s = x @ trim_left s" using trim_left_suffix [of s] by (auto simp: suffix_def)
  with y show ?thesis by metis
qed

lemma drop_lock_pairs: "cookie_pairs (drop_lock_cookie h) = filter (\<lambda>p. \<not> prefix ''boreas_lock='' p) (cookie_pairs h)"
proof -
  let ?line = "join_with ''; '' (h ''Cookie'')" and ?lock = "''boreas_lock=''"
  let ?keep = "\<lambda>pair. \<not> (trim_space pair = [] \<or> prefix ?lock (trim_space pair))"
  let ?pairs = "filter ?keep (split_at (CHR '';'') ?line)"
  have kept: "filter (\<lambda>p. \<not> prefix ?lock p) (cookie_pairs h) = map trim_space ?pairs"
    by (simp add: cookie_pairs_def filter_map o_def conj_ac)
  show ?thesis
  proof (cases "contains_sub ?line ?lock")
    case False
    have "\<not> prefix ?lock (trim_space g)" if gs: "g \<in> set (split_at (CHR '';'') ?line)" for g
    proof
      assume "prefix ?lock (trim_space g)"
      then obtain x y where g: "g = x @ ?lock @ y" using trim_part by blast
      obtain x' y' where "?line = x' @ g @ y'" using split_at_part [OF gs] by blast
      with g have "?line = (x' @ x) @ ?lock @ (y @ y')" by simp
      with False contains_subI show False by metis
    qed
    with False show ?thesis by (auto simp: drop_lock_cookie_def lock_cookie_def Let_def cookie_pairs_def intro!: filter_cong)
  next
    case True
    have sep: "\<forall>p \<in> set ?pairs. CHR '';'' \<notin> set p" using split_at_segs by fastforce
    have "cookie_pairs (drop_lock_cookie h) = map trim_space ?pairs"
    proof (cases "?pairs = []")
      case True
      with \<open>contains_sub ?line ?lock\<close> show ?thesis
        by (simp add: drop_lock_cookie_def lock_cookie_def Let_def cookie_pairs_def hdel_def)
    next
      case False
      have "cookie_pairs (drop_lock_cookie h) = filter (\<lambda>p. p \<noteq> []) (map trim_space (split_at (CHR '';'') (trim_space (join_with '';'' ?pairs))))"
        using True False by (simp add: drop_lock_cookie_def lock_cookie_def Let_def cookie_pairs_def hset_def hdel_def)
      also have "\<dots> = filter (\<lambda>p. p \<noteq> []) (map trim_space ?pairs)"
        by (simp only: split_trim split_join [OF False sep])
      also have "\<dots> = map trim_space ?pairs" by (rule filter_True) auto
      finally show ?thesis .
    qed
    with kept show ?thesis by simp
  qed
qed

text \<open>
  The lock's cookie never reaches a task or a route: the request a hop sends on has exactly the
  cookies of the incoming one but those named \<open>boreas_lock\<close>, in their order, trimmed, whatever its
  cookie headers look like.
\<close>

lemma lock_cookie_stripped:
  "cookie_pairs (po_headers (hop_rewrite px h q)) = filter (\<lambda>p. \<not> prefix ''boreas_lock='' p) (cookie_pairs (pi_out q))"
proof -
  have "po_headers (hop_rewrite px h q) ''Cookie'' = drop_lock_cookie (pi_out q) ''Cookie''"
    by (simp add: hop_rewrite_def Let_def hset_def hdel_def set_x_forwarded_def loop_header_def split: option.split)
  then show ?thesis using drop_lock_pairs [of "pi_out q"] by (simp add: cookie_pairs_def)
qed


section \<open>Redirects come back\<close>

text \<open>A location on the target's own host, or without one, under the path it is served from: what follows that path.\<close>

definition own_location :: "proxy_lib \<Rightarrow> hop \<Rightarrow> url \<Rightarrow> string \<Rightarrow> bool" where
  "own_location px h u remain \<longleftrightarrow> (ul_host u = [] \<or> equal_fold px (ul_host u) (ul_host (h_target h))) \<and>
     ul_path u = ul_path (h_target h) @ remain \<and> (remain = [] \<or> prefix ''/'' remain) \<and> \<not> under (ul_path u) (h_public h)"

lemma rewrite_location_own:
  assumes "url_parse ul (hget hs ''Location'') = Some u" "prefix ''/'' (ul_path u)"
  shows "own_location px h u remain \<Longrightarrow> rewrite_location ul px h hs =
      hset ''Location'' (url_string ul (u\<lparr>ul_scheme := [], ul_host := [], ul_path := h_public h @ remain\<rparr>)) hs"
    and "\<forall>remain. \<not> own_location px h u remain \<Longrightarrow> rewrite_location ul px h hs = hs"
proof -
  show "own_location px h u remain \<Longrightarrow> rewrite_location ul px h hs =
      hset ''Location'' (url_string ul (u\<lparr>ul_scheme := [], ul_host := [], ul_path := h_public h @ remain\<rparr>)) hs"
    using assms by (cases remain) (auto simp: own_location_def rewrite_location_def Let_def slash_def)
next
  assume none: "\<forall>remain. \<not> own_location px h u remain"
  let ?r = "drop (length (ul_path (h_target h))) (ul_path u)"
  have "prefix (ul_path (h_target h)) (ul_path u) \<Longrightarrow> ul_path u = ul_path (h_target h) @ ?r" by (auto simp: prefix_def)
  moreover have "?r = [] \<or> ?r ! 0 \<noteq> slash \<or> prefix ''/'' ?r" by (cases ?r) (auto simp: slash_def)
  ultimately show "rewrite_location ul px h hs = hs"
    using none [rule_format, of ?r] assms unfolding own_location_def rewrite_location_def Let_def by (simp split: if_split) blast
qed

text \<open>
  C30: A target's redirect to itself leads back through the proxy: when the target answers with a
  location on its own host, or without one, under the path it is served from and not under the public
  path already, the client gets that location moved under the public path, without scheme and host,
  and a request for it is sent on to the path the target named; every other location stays as it is.
\<close>

theorem redirect_roundtrip:
  assumes "url_parse ul (hget hs ''Location'') = Some u" "prefix ''/'' (ul_path u)"
  shows "(\<exists>remain. own_location px h u remain \<and> (let v = u\<lparr>ul_scheme := [], ul_host := [], ul_path := h_public h @ remain\<rparr> in
         rewrite_location ul px h hs = hset ''Location'' (url_string ul v) hs \<and> under (ul_path v) (h_public h) \<and>
         (\<forall>q. pi_path q = ul_path v \<longrightarrow> po_path (hop_rewrite px h q) = ul_path u \<and> po_host (hop_rewrite px h q) = ul_host (h_target h)))) \<or>
     rewrite_location ul px h hs = hs \<and> (\<forall>remain. \<not> own_location px h u remain)"
proof (cases "\<exists>remain. own_location px h u remain")
  case True
  then obtain remain where r: "own_location px h u remain" by blast
  let ?v = "u\<lparr>ul_scheme := [], ul_host := [], ul_path := h_public h @ remain\<rparr>"
  have "under (ul_path ?v) (h_public h)" using r by (auto simp: own_location_def under_def prefix_def)
  moreover have "po_path (hop_rewrite px h q) = ul_path u \<and> po_host (hop_rewrite px h q) = ul_host (h_target h)" if "pi_path q = ul_path ?v" for q
    using that r by (simp add: own_location_def hop_rewrite_def Let_def trim_prefix_def)
  ultimately show ?thesis using rewrite_location_own(1) [OF assms r] r by (intro disjI1 exI [of _ remain]) (simp add: Let_def)
next
  case False
  with rewrite_location_own(2) [OF assms] show ?thesis by blast
qed

definition demo_hop :: hop where
  "demo_hop = new_hop ''p'' ''t'' ''/api'' (http_url ''h:80'') False"

theorem redirect_roundtrip_witness:
  "rewrite_location demo_url_lib \<lparr>px_escaped = ul_path, px_fold = (=), px_cookie = (\<lambda>_. None), px_cookie_string = sk_name\<rparr>
     (demo_hop\<lparr>h_target := http_url ''H:80''\<rparr>) ((\<lambda>_. [])(''Location'' := [''h:80''])) ''Location'' = [''/p/t/api/'']"
proof -
  let ?hs = "(\<lambda>_. [])(''Location'' := [''h:80''])" and ?px = "\<lparr>px_escaped = ul_path, px_fold = (=), px_cookie = (\<lambda>_. None), px_cookie_string = sk_name\<rparr>"
  let ?h = "demo_hop\<lparr>h_target := http_url ''H:80''\<rparr>"
  obtain u where u: "url_parse demo_url_lib (hget ?hs ''Location'') = Some u" "ul_path u = ''/''" "ul_host u = ''h:80''"
    by (simp add: demo_url_lib_def hget_def)
  have fold: "equal_fold ?px (ul_host u) (ul_host (h_target ?h))" unfolding u(3) by code_simp
  have out: "\<not> under (ul_path u) (h_public ?h)" unfolding u(2) by code_simp
  have "ul_path (h_target ?h) = []" by (simp add: http_url_def)
  with redirect_roundtrip [OF u(1), of ?px ?h] fold out u(2)
  have "rewrite_location demo_url_lib ?px ?h ?hs = hset ''Location'' (url_string demo_url_lib (u\<lparr>ul_scheme := [], ul_host := [], ul_path := h_public ?h @ ''/''\<rparr>)) ?hs"
    by (auto simp: Let_def own_location_def)
  then show ?thesis by (simp add: hset_def demo_url_lib_def demo_hop_def new_hop_def)
qed

section \<open>The base of a page\<close>

lemma href_at_none: "ascii_lower c \<noteq> CHR ''h'' \<Longrightarrow> href_at (c # s) = None"
  by (simp add: href_at_def)

lemma href_of_base:
  assumes "\<forall>c \<in> set v. \<not> is_quote c"
  shows "href_in False (''<base href='' @ [CHR 0x22] @ v @ [CHR 0x22] @ ''>'') = Some v"
proof -
  have low: "ascii_lower (CHR ''<'') = CHR ''<''" "ascii_lower (CHR ''b'') = CHR ''b''" "ascii_lower (CHR ''a'') = CHR ''a''"
    "ascii_lower (CHR ''s'') = CHR ''s''" "ascii_lower (CHR ''e'') = CHR ''e''" "ascii_lower (CHR '' '') = CHR '' ''"
    "ascii_lower (CHR ''h'') = CHR ''h''" "ascii_lower (CHR ''r'') = CHR ''r''" "ascii_lower (CHR ''f'') = CHR ''f''"
    by code_simp+
  have sp: "\<not> is_re_space (CHR ''='')" "\<not> is_re_space (CHR 0x22)" "is_quote (CHR 0x22)" "\<not> is_word (CHR '' '')" by code_simp+
  have take: "takeWhile (\<lambda>c. \<not> is_quote c) (v @ CHR 0x22 # ''>'') = v" using assms sp(3) by (simp add: takeWhile_append2)
  have "href_at (''href='' @ [CHR 0x22] @ v @ [CHR 0x22] @ ''>'') = Some v"
    using take by (simp add: href_at_def low sp)
  then show ?thesis by (simp add: href_at_none low sp)
qed

lemma name_unquoted: "match_task_name s \<Longrightarrow> c \<in> set s \<Longrightarrow> \<not> is_quote c"
  by (auto simp: match_task_name_def task_char_def list_all_iff is_quote_def char_class_defs split: list.splits)

lemma href_unquoted: "href_in w s = Some v \<Longrightarrow> c \<in> set v \<Longrightarrow> \<not> is_quote c"
  by (induction w s rule: href_in.induct)
    (auto simp: href_at_def dest: set_takeWhileD split: option.splits list.splits if_splits)

text \<open>
  The base of a task's page is under the task, whatever the application declared, and rewriting it
  again changes nothing: the new tag's \<open>href\<close> is the task's public path or below it, is what the
  pattern reads from the new tag, and keeps the application's own path when that was absolute.
\<close>

lemma base_under_task:
  assumes "match_task_name p" "match_task_name t" "h = new_hop p t [] target anycert"
  shows "under (base_href h tag) (''/'' @ p @ ''/'' @ t) \<and> base_tag h (base_tag h tag) = base_tag h tag \<and>
    (\<forall>v. href_in False tag = Some (''/'' @ v) \<and> \<not> prefix ''/'' v \<longrightarrow> suffix (''/'' @ v) (base_href h tag))"
proof -
  have public: "h_public h = ''/'' @ p @ ''/'' @ t" by (simp add: assms(3) new_hop_def)
  obtain c cs where p: "p = c # cs" using assms(1) by (cases p) (simp_all add: match_task_name_def)
  have "c \<noteq> slash" using task_name_no_slash [OF assms(1)] p by auto
  then have single: "\<not> prefix ''//'' (''/'' @ p @ z)" for z by (simp add: p slash_def)
  have head: "\<exists>z. base_href h tag = ''/'' @ z \<and> under (base_href h tag) (h_public h) \<and> \<not> prefix ''//'' (base_href h tag)"
  proof -
    let ?v = "case href_in False tag of Some v \<Rightarrow> if prefix ''/'' v \<and> \<not> prefix ''//'' v then v else ''/'' | None \<Rightarrow> ''/''"
    have v: "prefix ''/'' ?v" "\<not> prefix ''//'' ?v" by (auto split: option.split)
    show ?thesis
    proof (cases "under ?v (h_public h)")
      case True
      then have "base_href h tag = ?v" by (simp add: base_href_def Let_def)
      with True v show ?thesis by (auto simp: prefix_def)
    next
      case False
      then have eq: "base_href h tag = h_public h @ ?v" by (simp only: base_href_def Let_def if_False)
      then have "under (base_href h tag) (h_public h)" using v(1) by (auto simp: under_def prefix_def)
      with eq show ?thesis using single [of "''/'' @ t @ ?v"] by (simp add: public)
    qed
  qed
  have noquote: "\<not> is_quote c" if "c \<in> set (base_href h tag)" for c
  proof -
    have "\<not> is_quote slash" by (simp add: is_quote_def slash_def)
    then have pub: "c \<in> set (h_public h) \<Longrightarrow> \<not> is_quote c" using name_unquoted [OF assms(1)] name_unquoted [OF assms(2)]
      by (auto simp: public slash_def)
    let ?v = "case href_in False tag of Some v \<Rightarrow> if prefix ''/'' v \<and> \<not> prefix ''//'' v then v else ''/'' | None \<Rightarrow> ''/''"
    have "c \<in> set ?v \<Longrightarrow> \<not> is_quote c"
      using href_unquoted [of False tag _ c] \<open>\<not> is_quote slash\<close> by (auto simp: slash_def split: option.splits if_splits)
    moreover have "c \<in> set (h_public h) \<or> c \<in> set ?v"
      using that unfolding base_href_def Let_def by (auto split: if_splits)
    ultimately show ?thesis using pub by blast
  qed
  have "href_in False (base_tag h tag) = Some (base_href h tag)"
    using href_of_base [of "base_href h tag"] noquote by (simp add: base_tag_def)
  moreover have "base_href h t' = v" if "href_in False t' = Some v" "prefix ''/'' v" "\<not> prefix ''//'' v" "under v (h_public h)" for t' v
    using that by (simp add: base_href_def Let_def)
  ultimately have again: "base_href h (base_tag h tag) = base_href h tag" using head by (metis prefixI)
  have "suffix (''/'' @ v) (base_href h tag)" if "href_in False tag = Some (''/'' @ v)" "\<not> prefix ''/'' v" for v
    using that by (auto simp: base_href_def Let_def suffix_def)
  with head again show ?thesis by (auto simp: public base_tag_def)
qed

lemma base_under_task_witness:
  "under (base_href (new_hop ''p'' ''t'' [] (http_url ''h'') False) (''<BASE HREF='' @ [CHR 0x27] @ ''/client/'' @ [CHR 0x27] @ ''>'')) ''/p/t''"
proof -
  have "match_task_name ''p''" "match_task_name ''t''" by code_simp+
  from base_under_task [OF this refl] show ?thesis by simp
qed

end
