(* ===== verification/Bora_Store.thy ===== *)
theory Bora_Store
  imports Projects
begin

text \<open>
  Bora's conversations: the types of internal/core/core.go and the store of
  internal/infra/postgres/bora.go over the two tables of migration 15. A conversation goes with its
  user and its project, as the schema's cascades have it: one whose user or project is gone is not a
  row any more. Searching is Postgres's text search, a parameter.
\<close>

section \<open>Types\<close>

record bora_about =
  ab_kind :: string
  ab_project :: string
  ab_task :: string
  ab_id :: uuid
  ab_at :: string
  ab_line :: string

record code_source =
  so_repo :: string
  so_path :: string
  so_url :: string

text \<open>A change Bora proposes; a nil map or list is one without entries, as its JSON leaves both out.\<close>

record bora_action =
  ac_op :: string
  ac_project :: string
  ac_task :: string
  ac_reason :: string
  ac_user :: uuid
  ac_username :: string
  ac_role :: project_role
  ac_name :: string
  ac_description :: string
  ac_note :: string
  ac_dev :: dev_status
  ac_image :: string
  ac_port :: int
  ac_restart :: "bool option"
  ac_volumes :: strmap
  ac_set :: strmap
  ac_unset :: "string list"
  ac_default_image :: string
  ac_default_port :: int
  ac_default_set :: "strmap option"
  ac_default_unset :: "string list option"
  ac_credential :: "uuid option"

datatype chat_role = ChatUser | ChatAssistant

record bora_message =
  bm_index :: nat
  bm_role :: chat_role
  bm_content :: string
  bm_say :: string
  bm_actions :: "bora_action list"
  bm_choices :: "string list"
  bm_sources :: "code_source list"
  bm_ran :: "string list"
  bm_images :: "uuid list"
  bm_at :: time

record bora_pending =
  pd_question :: string
  pd_images :: "uuid list"
  pd_since :: time

record conversation =
  cv_id :: uuid
  cv_user :: uuid
  cv_project :: "uuid option"
  cv_about :: bora_about
  cv_projects :: "uuid list"
  cv_title :: string
  cv_snippet :: string
  cv_messages :: "bora_message list"
  cv_answering :: "bora_pending option"
  cv_created :: time
  cv_updated :: time

text \<open>The zero cursor is \<open>None\<close>.\<close>

record bora_cursor =
  cu_at :: time
  cu_id :: uuid

section \<open>State\<close>

text \<open>
  The tables beside the process's state. \<open>bt_letter\<close> tells the letters and numbers among the runes
  that are not ASCII; \<open>bt_search\<close> is the text search, \<open>bt_snippet\<close> the passage around a word.
\<close>

record bora_tables =
  bt_world :: world
  bt_conversations :: "conversation list"
  bt_messages :: "(uuid \<times> bora_message) list"
  bt_letter :: "string \<Rightarrow> bool"
  bt_search :: "string \<Rightarrow> string \<Rightarrow> bool"
  bt_snippet :: "string \<Rightarrow> string \<Rightarrow> string"

definition in_world :: "(world, 'a) io \<Rightarrow> ('b bora_tables_scheme, 'a) io" where
  "in_world m s = (case m (bt_world s) of (r, w) \<Rightarrow> (r, s\<lparr>bt_world := w\<rparr>))"

text \<open>A statement or a transaction: it may fail before it does anything.\<close>

definition bora_call :: "string \<Rightarrow> ('b bora_tables_scheme, 'a) io \<Rightarrow> ('b bora_tables_scheme, 'a) io" where
  "bora_call operation m = io_bind (in_world (db_call operation (ret ()))) (\<lambda>_. m)"

definition live :: "'b bora_tables_scheme \<Rightarrow> conversation \<Rightarrow> bool" where
  "live s c \<longleftrightarrow> rows_has u_id (cv_user c) (users (bt_world s)) \<and>
     (case cv_project c of None \<Rightarrow> True | Some p \<Rightarrow> rows_has p_id p (projects (bt_world s)))"

definition conversations :: "'b bora_tables_scheme \<Rightarrow> conversation list" where
  "conversations s = filter (live s) (bt_conversations s)"

text \<open>\<open>visibleConversation\<close>: the user's own, unless it has read a project they have left, but for an administrator.\<close>

definition visible_conversation :: "'b bora_tables_scheme \<Rightarrow> uuid \<Rightarrow> bool \<Rightarrow> conversation \<Rightarrow> bool" where
  "visible_conversation s user admin c \<longleftrightarrow> cv_user c = user \<and> (admin \<or>
     \<not> list_ex (\<lambda>p. p_id p \<in> set (cv_projects c) \<and> \<not> rows_has (\<lambda>m. (m_project m, m_user m)) (p_id p, user) (members (bt_world s)))
         (projects (bt_world s)))"

section \<open>Statements\<close>

text \<open>\<open>Save\<close>: both statements of the transaction, or none.\<close>

definition conv_save :: "conversation \<Rightarrow> bora_message list \<Rightarrow> ('b bora_tables_scheme, unit) io" where
  "conv_save c turn = bora_call ''save conversation'' (io_bind (io_get (\<lambda>s. s)) (\<lambda>s.
     let t = now (bt_world s); old = rows_with cv_id (cv_id c) (conversations s) in
     if old = [] \<and> \<not> live s c then pg_fail ''save conversation'' (ForeignKeyViolation ''bora_conversations'')
     else if \<not> distinct (map bm_index turn) \<or> list_ex (\<lambda>m. rows_has (\<lambda>(i, m). (i, bm_index m)) (cv_id c, bm_index m) (bt_messages s)) turn
     then pg_fail ''save conversation'' (UniqueViolation ''bora_messages_pkey'')
     else io_mod (\<lambda>s. s\<lparr>bt_conversations := (if old = []
            then bt_conversations s @ [c\<lparr>cv_created := t, cv_updated := t, cv_snippet := [], cv_messages := [], cv_answering := None\<rparr>]
            else rows_upd cv_id (cv_id c) (\<lambda>o'. o'\<lparr>cv_projects := cv_projects c, cv_updated := t\<rparr>) (bt_conversations s)),
          bt_messages := bt_messages s @ map (\<lambda>m. (cv_id c, m)) turn\<rparr>)))"

definition conv_messages :: "uuid \<Rightarrow> 'b bora_tables_scheme \<Rightarrow> bora_message list" where
  "conv_messages i s = sort_key bm_index (map snd (rows_with fst i (bt_messages s)))"

definition conv_get :: "uuid \<Rightarrow> bool \<Rightarrow> uuid \<Rightarrow> ('b bora_tables_scheme, conversation) io" where
  "conv_get user admin i = io_bind (bora_call ''get conversation'' (io_bind (io_get (\<lambda>s.
       filter (\<lambda>c. visible_conversation s user admin c \<and> cv_id c = i) (conversations s))) (one ''get conversation''))) (\<lambda>c.
     io_bind (bora_call ''list messages'' (io_get (conv_messages i))) (\<lambda>ms. ret (c\<lparr>cv_messages := ms\<rparr>)))"

text \<open>Newest first, from the cursor on.\<close>

definition conv_page :: "bora_cursor option \<Rightarrow> nat \<Rightarrow> conversation list \<Rightarrow> conversation list" where
  "conv_page before limit cs = take limit (rev (sort_key (\<lambda>c. (cv_updated c, uint (cv_id c)))
     (filter (\<lambda>c. case before of None \<Rightarrow> True
        | Some b \<Rightarrow> cv_updated c < cu_at b \<or> cv_updated c = cu_at b \<and> uint (cv_id c) < uint (cu_id b)) cs)))"

text \<open>\<open>strings.FieldsFunc\<close> at the runes that are no letters or numbers.\<close>

definition word_rune :: "(string \<Rightarrow> bool) \<Rightarrow> string \<Rightarrow> bool" where
  "word_rune letter r = (case r of [c] \<Rightarrow> is_alnum c | _ \<Rightarrow> letter r)"

fun words_of :: "(string \<Rightarrow> bool) \<Rightarrow> string \<Rightarrow> string list \<Rightarrow> string list" where
  "words_of letter acc [] = (if acc = [] then [] else [acc])"
| "words_of letter acc (r # rs) = (if word_rune letter r then words_of letter (acc @ r) rs
     else (if acc = [] then [] else [acc]) @ words_of letter [] rs)"

definition conv_search :: "string list \<Rightarrow> 'b bora_tables_scheme \<Rightarrow> conversation \<Rightarrow> conversation option" where
  "conv_search ws s c = (case rev (filter (\<lambda>m. bt_search s (join_with '':* & '' ws @ '':*'') (bm_content m)) (conv_messages (cv_id c) s)) of
       [] \<Rightarrow> None | m # _ \<Rightarrow> Some (c\<lparr>cv_snippet := bt_snippet s (hd ws) (bm_content m)\<rparr>))"

definition conv_list :: "uuid \<Rightarrow> bool \<Rightarrow> string \<Rightarrow> bora_cursor option \<Rightarrow> nat \<Rightarrow> ('b bora_tables_scheme, conversation list) io" where
  "conv_list user admin query before limit = (if query = []
     then bora_call ''list conversations'' (io_get (\<lambda>s. conv_page before limit (filter (visible_conversation s user admin) (conversations s))))
     else io_bind (io_get (\<lambda>s. words_of (bt_letter s) [] (runes query))) (\<lambda>ws. if ws = [] then ret []
       else bora_call ''search conversations'' (io_get (\<lambda>s.
         conv_page before limit (List.map_filter (conv_search ws s) (filter (visible_conversation s user admin) (conversations s)))))))"

definition ran_room :: "uuid \<Rightarrow> nat \<Rightarrow> uuid \<times> bora_message \<Rightarrow> bool" where
  "ran_room i index = (\<lambda>(j, m). j = i \<and> bm_index m = index \<and> bm_role m = ChatAssistant \<and> length (bm_ran m) < 10)"

definition conv_add_ran :: "uuid \<Rightarrow> nat \<Rightarrow> string \<Rightarrow> ('b bora_tables_scheme, unit) io" where
  "conv_add_ran i index line = bora_call ''add ran'' (io_bind (io_get (\<lambda>s. list_ex (ran_room i index) (bt_messages s))) (\<lambda>hit.
     if \<not> hit then fail (err_invalid ''index must be an answer holding fewer than 10 ran lines'')
     else io_mod (\<lambda>s. s\<lparr>bt_messages := map (\<lambda>(j, m). if ran_room i index (j, m) then (j, m\<lparr>bm_ran := bm_ran m @ [line]\<rparr>) else (j, m)) (bt_messages s)\<rparr>)))"

definition conv_delete :: "uuid \<Rightarrow> bool \<Rightarrow> uuid option \<Rightarrow> ('b bora_tables_scheme, uuid list) io" where
  "conv_delete user admin i = bora_call ''delete conversations'' (io_bind (io_get (\<lambda>s. s)) (\<lambda>s.
     let hit = (\<lambda>c. case i of None \<Rightarrow> cv_user c = user | Some j \<Rightarrow> visible_conversation s user admin c \<and> cv_id c = j);
       gone = map cv_id (filter hit (conversations s));
       images = concat (map (\<lambda>(j, m). if j \<in> set gone then bm_images m else []) (bt_messages s)) in
     if i \<noteq> None \<and> gone = [] then fail (err_wrap ''delete conversations'' (err_sentinel ErrNotFound))
     else io_bind (io_mod (\<lambda>s. s\<lparr>bt_conversations := filter (\<lambda>c. cv_id c \<notin> set gone) (bt_conversations s),
         bt_messages := filter (\<lambda>(j, _). j \<notin> set gone) (bt_messages s)\<rparr>)) (\<lambda>_. ret images)))"

end
