(* ===== verification/Regexp.thy ===== *)
theory Regexp
  imports Prelude
begin

text \<open>
  The part of the standard library's regexp that the program uses: patterns over runes, matched leftmost
  and, among the matches from one place, by the priority of the alternatives, with groups. A text is the
  list of its runes; an invalid byte is one rune, which only negated classes and the dot take. None of the
  patterns used matches the empty text.
\<close>

section \<open>Patterns\<close>

datatype re = Cls "string \<Rightarrow> bool" | Emp | Cat re re | Alt re re | Many bool re | Grp nat re | TextStart | LineStart | TextEnd | Edge

type_synonym groups = "(nat \<times> nat \<times> nat) list"

text \<open>A class of ASCII runes, the runes outside one, and a class that ignores case.\<close>

definition one_of :: "(char \<Rightarrow> bool) \<Rightarrow> string \<Rightarrow> bool" where
  "one_of p r = (case r of [c] \<Rightarrow> c_nat c < 128 \<and> p c | _ \<Rightarrow> False)"

definition none_of :: "(char \<Rightarrow> bool) \<Rightarrow> string \<Rightarrow> bool" where
  "none_of p r = (\<not> one_of p r)"

definition other_case :: "char \<Rightarrow> char" where
  "other_case c = (if 65 \<le> c_nat c \<and> c_nat c \<le> 90 then char_of (c_nat c + 32) else if 97 \<le> c_nat c \<and> c_nat c \<le> 122 then char_of (c_nat c - 32) else c)"

text \<open>The Kelvin sign folds to k and the long s to s.\<close>

definition folded :: "(char \<Rightarrow> bool) \<Rightarrow> string \<Rightarrow> bool" where
  "folded p r = (one_of (\<lambda>c. p c \<or> p (other_case c)) r \<or> (r = [CHR 0xE2, CHR 0x84, CHR 0xAA] \<and> (p (CHR ''k'') \<or> p (CHR ''K'')))
     \<or> (r = [CHR 0xC5, CHR 0xBF] \<and> (p (CHR ''s'') \<or> p (CHR ''S''))))"

definition space_char :: "char \<Rightarrow> bool" where
  "space_char c \<longleftrightarrow> c_nat c \<in> {9, 10, 12, 13, 32}"

definition newline :: "char \<Rightarrow> bool" where
  "newline c \<longleftrightarrow> c_nat c = 10"

fun cats :: "re list \<Rightarrow> re" where
  "cats [] = Emp"
| "cats [r] = r"
| "cats (r # rs) = Cat r (cats rs)"

fun alts :: "re list \<Rightarrow> re" where
  "alts [] = Emp"
| "alts [r] = r"
| "alts (r # rs) = Alt r (alts rs)"

definition lit :: "string \<Rightarrow> re" where
  "lit s = cats (map (\<lambda>c. Cls (one_of ((=) c))) s)"

definition lit_fold :: "string \<Rightarrow> re" where
  "lit_fold s = cats (map (\<lambda>c. Cls (folded ((=) c))) s)"

definition opt :: "re \<Rightarrow> re" where "opt r = Alt r Emp"

definition star :: "re \<Rightarrow> re" where "star r = Many True r"

definition lazy :: "re \<Rightarrow> re" where "lazy r = Many False r"

definition some :: "re \<Rightarrow> re" where "some r = Cat r (Many True r)"

definition times :: "nat \<Rightarrow> re \<Rightarrow> re" where "times n r = cats (replicate n r)"

definition at_least :: "nat \<Rightarrow> re \<Rightarrow> re" where "at_least n r = cats (replicate n r @ [star r])"

fun up_to :: "nat \<Rightarrow> re \<Rightarrow> re" where
  "up_to 0 r = Emp"
| "up_to (Suc n) r = opt (Cat r (up_to n r))"

definition class_of :: "string \<Rightarrow> re" where "class_of s = Cls (one_of (\<lambda>c. c \<in> set s))"

definition not_class :: "(char \<Rightarrow> bool) \<Rightarrow> re" where "not_class p = Cls (none_of p)"

section \<open>Matches\<close>

definition word_at :: "string list \<Rightarrow> nat \<Rightarrow> bool" where
  "word_at t i \<longleftrightarrow> i < length t \<and> one_of is_word (t ! i)"

text \<open>The ends of the matches from a place, in the order of their priority, each with its groups.\<close>

function paths :: "re \<Rightarrow> string list \<Rightarrow> nat \<Rightarrow> groups \<Rightarrow> (nat \<times> groups) list" where
  "paths (Cls p) t i g = (if i < length t \<and> p (t ! i) then [(Suc i, g)] else [])"
| "paths Emp t i g = [(i, g)]"
| "paths (Cat r q) t i g = concat (map (\<lambda>jh. paths q t (fst jh) (snd jh)) (paths r t i g))"
| "paths (Alt r q) t i g = paths r t i g @ paths q t i g"
| "paths (Many greedy r) t i g = (let more = concat (map (\<lambda>jh. if i < fst jh \<and> fst jh \<le> length t then paths (Many greedy r) t (fst jh) (snd jh) else [])
       (paths r t i g)) in if greedy then more @ [(i, g)] else (i, g) # more)"
| "paths (Grp n r) t i g = map (\<lambda>(j, h). (j, (n, i, j) # h)) (paths r t i g)"
| "paths TextStart t i g = (if i = 0 then [(i, g)] else [])"
| "paths LineStart t i g = (if i = 0 \<or> i \<le> length t \<and> t ! (i - 1) = nl then [(i, g)] else [])"
| "paths TextEnd t i g = (if i = length t then [(i, g)] else [])"
| "paths Edge t i g = (if (0 < i \<and> word_at t (i - 1)) \<noteq> word_at t i then [(i, g)] else [])"
  by pat_completeness auto
termination
  by (relation "measures [\<lambda>(r, t, i, g). size r, \<lambda>(r, t, i, g). length t - i]") auto

declare paths.simps(5) [simp del]

text \<open>The first match from a place on: where it starts, where it ends and its groups.\<close>

function match_from :: "re \<Rightarrow> string list \<Rightarrow> nat \<Rightarrow> (nat \<times> nat \<times> groups) option" where
  "match_from r t i = (if length t < i then None else case paths r t i [] of (j, g) # _ \<Rightarrow> Some (i, j, g)
     | [] \<Rightarrow> match_from r t (Suc i))"
  by pat_completeness auto
termination
  by (relation "measure (\<lambda>(r, t, i). Suc (length t) - i)") auto

declare match_from.simps [simp del]

definition slice :: "string list \<Rightarrow> nat \<Rightarrow> nat \<Rightarrow> string" where
  "slice t i j = concat (take (j - i) (drop i t))"

definition group_of :: "string list \<Rightarrow> groups \<Rightarrow> nat \<Rightarrow> string" where
  "group_of t g n = (case map_of g n of None \<Rightarrow> [] | Some (i, j) \<Rightarrow> slice t i j)"

text \<open>\<open>ReplaceAllStringFunc\<close>: \<open>f\<close> makes the text of a match from its groups.\<close>

function replace_from :: "re \<Rightarrow> ((nat \<Rightarrow> string) \<Rightarrow> string) \<Rightarrow> string list \<Rightarrow> nat \<Rightarrow> string" where
  "replace_from r f t i = (case match_from r t i of None \<Rightarrow> slice t i (length t)
     | Some (j, k, g) \<Rightarrow> slice t i j @ (if k \<le> i \<or> length t < k then slice t j (length t)
         else f (\<lambda>n. if n = 0 then slice t j k else group_of t g n) @ replace_from r f t k))"
  by pat_completeness auto
termination
  by (relation "measure (\<lambda>(r, f, t, i). length t - i)") auto

declare replace_from.simps [simp del]

definition replace_all :: "re \<Rightarrow> ((nat \<Rightarrow> string) \<Rightarrow> string) \<Rightarrow> string \<Rightarrow> string" where
  "replace_all r f s = replace_from r f (runes s) 0"

text \<open>\<open>FindStringSubmatch\<close>.\<close>

definition match_groups :: "re \<Rightarrow> string \<Rightarrow> (nat \<Rightarrow> string) option" where
  "match_groups r s = (let t = runes s in case match_from r t 0 of None \<Rightarrow> None
     | Some (j, k, g) \<Rightarrow> Some (\<lambda>n. if n = 0 then slice t j k else group_of t g n))"

section \<open>Facts\<close>

text \<open>The fewest runes a pattern takes.\<close>

fun least_runes :: "re \<Rightarrow> nat" where
  "least_runes (Cls p) = 1"
| "least_runes (Cat r q) = least_runes r + least_runes q"
| "least_runes (Alt r q) = min (least_runes r) (least_runes q)"
| "least_runes (Grp n r) = least_runes r"
| "least_runes _ = 0"

lemma paths_bounds: "(j, h) \<in> set (paths r t i g) \<Longrightarrow> i \<le> length t \<Longrightarrow> i + least_runes r \<le> j \<and> j \<le> length t"
proof (induction r t i g arbitrary: j h rule: paths.induct)
  case (3 r q t i g)
  from 3(3) obtain k gk where k: "(k, gk) \<in> set (paths r t i g)" "(j, h) \<in> set (paths q t k gk)" by auto
  have "i + least_runes r \<le> k \<and> k \<le> length t" using 3(1) [OF k(1) 3(4)] .
  with 3(2) [OF k(1), of j h] k(2) show ?case by auto
next
  case (4 r q t i g)
  then show ?case by fastforce
next
  case (5 greedy r t i g)
  then have "(j, h) = (i, g) \<or> (\<exists>x \<in> set (paths r t i g). i < fst x \<and> fst x \<le> length t \<and> (j, h) \<in> set (paths (Many greedy r) t (fst x) (snd x)))"
    by (simp add: paths.simps(5) [of greedy r t i g] Let_def split: if_split_asm) auto
  then show ?case
  proof (elim disjE bexE conjE)
    fix x assume x: "x \<in> set (paths r t i g)" "i < fst x" "fst x \<le> length t" "(j, h) \<in> set (paths (Many greedy r) t (fst x) (snd x))"
    have "i < fst x \<and> fst x \<le> length t" using x(2,3) ..
    from 5(2) [OF x(1) this x(4)] x(2,3) show ?thesis by simp
  qed (use 5(4) in simp)
next
  case (6 n r t i g)
  then show ?case by auto
qed (auto split: if_split_asm)

lemma match_from_Some:
  "match_from r t i = Some (j, k, g) \<Longrightarrow> i \<le> j \<and> j \<le> length t \<and> (k, g) = hd (paths r t j []) \<and> paths r t j [] \<noteq> [] \<and>
     (\<forall>p \<in> {i..<j}. paths r t p [] = [])"
proof (induction r t i rule: match_from.induct)
  case (1 r t i)
  show ?case
  proof (cases "length t < i \<or> paths r t i [] \<noteq> []")
    case True
    then show ?thesis using 1(2) by (subst (asm) match_from.simps) (auto split: if_split_asm list.split_asm)
  next
    case False
    then have "match_from r t (Suc i) = Some (j, k, g)" using 1(2) by (subst (asm) match_from.simps) simp
    from 1(1) [OF _ _ this] False show ?thesis by (auto simp: Ball_def Suc_le_eq) (metis le_neq_implies_less)
  qed
qed

lemma match_from_None: "match_from r t i = None \<Longrightarrow> p \<in> {i..length t} \<Longrightarrow> paths r t p [] = []"
proof (induction r t i rule: match_from.induct)
  case (1 r t i)
  then have "\<not> length t < i" "paths r t i [] = []" by (auto simp: match_from.simps [of r t i] split: list.split_asm)
  then have "match_from r t (Suc i) = None" using 1(2) by (simp add: match_from.simps [of r t i])
  from 1(1) [OF \<open>\<not> length t < i\<close> \<open>paths r t i [] = []\<close> this] 1(3) \<open>paths r t i [] = []\<close> show ?case
    by (cases "p = i") auto
qed

text \<open>
  What replacing does to a text from a place on: kept stretches, in which no match begins, and matches,
  each replaced by what its groups make.
\<close>

inductive replaced :: "re \<Rightarrow> ((nat \<Rightarrow> string) \<Rightarrow> string) \<Rightarrow> string list \<Rightarrow> nat \<Rightarrow> string \<Rightarrow> bool" for r f t where
  rest: "\<forall>p \<in> {i..length t}. paths r t p [] = [] \<Longrightarrow> replaced r f t i (slice t i (length t))"
| hit: "i \<le> j \<Longrightarrow> j < k \<Longrightarrow> k \<le> length t \<Longrightarrow> \<forall>p \<in> {i..<j}. paths r t p [] = [] \<Longrightarrow> paths r t j [] = (k, g) # more \<Longrightarrow>
     replaced r f t k s \<Longrightarrow> replaced r f t i (slice t i j @ f (\<lambda>n. if n = 0 then slice t j k else group_of t g n) @ s)"

lemma replace_from_replaced:
  assumes "0 < least_runes r" "i \<le> length t"
  shows "replaced r f t i (replace_from r f t i)"
  using assms(2)
proof (induction "length t - i" arbitrary: i rule: less_induct)
  case less
  show ?case
  proof (cases "match_from r t i")
    case None
    then show ?thesis using rest [of i t r f] match_from_None [OF None] by (simp add: replace_from.simps [of r f t i])
  next
    case (Some m)
    obtain j k g where m: "m = (j, k, g)" by (cases m)
    note found = match_from_Some [OF Some [unfolded m]]
    then obtain more where more: "paths r t j [] = (k, g) # more" by (cases "paths r t j []") auto
    have "(k, g) \<in> set (paths r t j [])" using more by simp
    from paths_bounds [OF this] have k: "j < k" "k \<le> length t" using found assms(1) by linarith+
    have tail: "replaced r f t k (replace_from r f t k)" by (rule less.hyps) (use found k in linarith)+
    have step: "replace_from r f t i = slice t i j @ f (\<lambda>n. if n = 0 then slice t j k else group_of t g n) @ replace_from r f t k"
      unfolding replace_from.simps [of r f t i] Some m using k conjunct1 [OF found] by simp
    show ?thesis unfolding step by (rule hit [OF _ k _ more tail]) (use found in blast)+
  qed
qed

text \<open>\<open>gets r t i j\<close>: among the matches of \<open>r\<close> from \<open>i\<close> is one that ends at \<open>j\<close>.\<close>

definition gets :: "re \<Rightarrow> string list \<Rightarrow> nat \<Rightarrow> nat \<Rightarrow> bool" where
  "gets r t i j \<longleftrightarrow> (\<forall>g. \<exists>h. (j, h) \<in> set (paths r t i g))"

lemma gets_Cat: "gets r t i k \<Longrightarrow> gets q t k j \<Longrightarrow> gets (Cat r q) t i j"
  unfolding gets_def by (fastforce simp: Bex_def)

lemma gets_Emp: "gets Emp t i i"
  by (simp add: gets_def)

lemma gets_cats: "gets r t i k \<Longrightarrow> gets (cats rs) t k j \<Longrightarrow> gets (cats (r # rs)) t i j"
  by (cases rs) (simp add: gets_def, metis gets_Cat cats.simps(3))

lemma gets_Grp: "gets r t i j \<Longrightarrow> gets (Grp n r) t i j"
  by (force simp: gets_def)

lemma gets_Cls: "i < length t \<Longrightarrow> p (t ! i) \<Longrightarrow> gets (Cls p) t i (Suc i)"
  by (simp add: gets_def)

lemma gets_Many:
  "i \<le> j \<Longrightarrow> j \<le> length t \<Longrightarrow> (\<And>k. i \<le> k \<Longrightarrow> k < j \<Longrightarrow> p (t ! k)) \<Longrightarrow> gets (Many b (Cls p)) t i j"
proof (induction "j - i" arbitrary: i)
  case 0
  then have "j = i" by simp
  then show ?case by (subst gets_def, subst paths.simps(5)) (auto simp: Let_def)
next
  case (Suc n)
  then have "gets (Many b (Cls p)) t (Suc i) j" by (intro Suc.hyps(1)) simp_all
  moreover have "i < length t" "p (t ! i)" using Suc by simp_all
  ultimately have "\<exists>h. (j, h) \<in> set (paths (Many b (Cls p)) t i g)" for g
    by (subst paths.simps(5)) (cases b; fastforce simp: Let_def gets_def)
  then show ?case by (simp add: gets_def)
qed

lemma gets_some: "i < j \<Longrightarrow> j \<le> length t \<Longrightarrow> (\<And>k. i \<le> k \<Longrightarrow> k < j \<Longrightarrow> p (t ! k)) \<Longrightarrow> gets (some (Cls p)) t i j"
  unfolding some_def by (rule gets_Cat [OF gets_Cls gets_Many]) auto

text \<open>The runes of an ASCII text.\<close>

definition ascii_runes :: "string \<Rightarrow> string list" where
  "ascii_runes s = map (\<lambda>c. [c]) s"

lemma gets_lit:
  "i + length s \<le> length t \<Longrightarrow> take (length s) (drop i t) = ascii_runes s \<Longrightarrow> list_all (\<lambda>c. c_nat c < 128) s \<Longrightarrow> gets (lit s) t i (i + length s)"
proof (induction s arbitrary: i)
  case Nil
  then show ?case by (simp add: lit_def gets_Emp)
next
  case (Cons c s)
  have "t ! i = [c]" "take (length s) (drop (Suc i) t) = ascii_runes s"
    using Cons.prems(1,2) by (auto simp: ascii_runes_def take_Suc_conv_app_nth Cons_nth_drop_Suc [symmetric] simp flip: Cons_nth_drop_Suc)
  then show ?case
    using gets_cats [OF gets_Cls [of i t "one_of ((=) c)"], of "map (\<lambda>c. Cls (one_of ((=) c))) s"] Cons.IH [of "Suc i"] Cons.prems
    by (simp add: lit_def one_of_def)
qed

text \<open>The same over a text in pieces.\<close>

lemma gets_lit_at: "t = pre @ ascii_runes s @ post \<Longrightarrow> list_all (\<lambda>c. c_nat c < 128) s \<Longrightarrow> gets (lit s) t (length pre) (length (pre @ ascii_runes s))"
  using gets_lit [of "length pre" s t] by (simp add: ascii_runes_def)

lemma gets_Many_at: "t = pre @ xs @ post \<Longrightarrow> list_all p xs \<Longrightarrow> gets (Many b (Cls p)) t (length pre) (length (pre @ xs))"
  by (rule gets_Many) (auto simp: nth_append list_all_length)

lemma gets_some_at: "t = pre @ xs @ post \<Longrightarrow> list_all p xs \<Longrightarrow> xs \<noteq> [] \<Longrightarrow> gets (some (Cls p)) t (length pre) (length (pre @ xs))"
  by (rule gets_some) (auto simp: nth_append list_all_length)

lemma gets_found: "gets r t i j \<Longrightarrow> paths r t i [] \<noteq> []"
  unfolding gets_def by (drule spec [of _ "[]"]) auto

end
