(* ===== verification/Redact.thy ===== *)
theory Redact
  imports Regexp
begin

text \<open>
  The redaction of secrets in what the assistant reads and writes (\<open>secrets\<close> and \<open>Redact\<close> of
  internal/core/core.go): ten patterns replaced one after the other.
\<close>

section \<open>Patterns\<close>

definition redacted :: string where "redacted = ''[redacted]''"

abbreviation quot :: char where "quot \<equiv> CHR 0x22"
abbreviation apos :: char where "apos \<equiv> CHR 0x27"

definition name_part :: re where
  "name_part = star (Cls (folded (\<lambda>c. is_word c \<or> c = CHR ''.'' \<or> c = CHR ''-'')))"

definition quote_mark :: re where "quote_mark = class_of [quot, apos]"
definition spaces :: re where "spaces = star (Cls (one_of space_char))"
definition blanks :: re where "blanks = class_of [CHR '' '', CHR 0x09]"

definition quoted_text :: re where
  "quoted_text = Alt (cats [lit [quot], star (not_class (\<lambda>c. c = quot \<or> newline c)), lit [quot]])
     (cats [lit [apos], star (not_class (\<lambda>c. c = apos \<or> newline c)), lit [apos]])"

definition secret_name :: "string list \<Rightarrow> re" where
  "secret_name names = cats [name_part, alts (map lit_fold names), name_part]"

definition secret_names :: "string list" where
  "secret_names = [''password'', ''passwd'', ''pwd'', ''secret'', ''token'', ''key'']"

definition key_text :: "string \<Rightarrow> re" where
  "key_text s = cats [lit (''-----'' @ s @ '' ''), star (Cls (one_of (\<lambda>c. is_upper c \<or> c = CHR '' ''))), lit ''PRIVATE KEY-----'']"

definition key_block :: re where
  "key_block = cats [key_text ''BEGIN'', lazy (Cls (\<lambda>_. True)), key_text ''END'']"

definition not_space :: re where "not_space = not_class space_char"

text \<open>A key whose first line a log cut off; lines may start with a time.\<close>

definition key_tail :: re where
  "key_tail = (let stamp = opt (cats [some not_space, lit '' '']) in
     cats [some (cats [LineStart, stamp, some (Cls (one_of (\<lambda>c. is_alnum c \<or> c \<in> {CHR ''+'', CHR ''/'', CHR ''=''}))), opt (lit [CHR 0x0D]), lit nl]),
       stamp, key_text ''END''])"

definition quoted_value :: re where
  "quoted_value = cats [Grp 1 (cats [secret_name (secret_names @ [''credential'']), opt quote_mark, spaces,
       alts [lit '':='', lit ''=>'', class_of '':=''], spaces]), quoted_text]"

definition plain_value :: re where
  "plain_value = cats [Edge, Grp 1 (cats [secret_name secret_names, Alt (cats [star blanks, lit ''='', star blanks]) (cats [lit '':'', star blanks])]),
     not_class (\<lambda>c. space_char c \<or> c = quot \<or> c = apos \<or> c = CHR ''=''), star (not_class (\<lambda>c. space_char c \<or> c = CHR '','' \<or> c = CHR '';''))]"

definition flag_value :: re where
  "flag_value = cats [Grp 1 (cats [lit ''-'', opt (lit ''-''), secret_name secret_names,
       Alt (some blanks) (cats [quote_mark, spaces, lit '','', spaces])]),
     Alt quoted_text (cats [not_class (\<lambda>c. space_char c \<or> c = quot \<or> c = apos \<or> c = CHR ''-''), star not_space])]"

definition header_value :: re where
  "header_value = cats [Grp 1 (cats [lit_fold ''authorization'', opt quote_mark, spaces, class_of '':='', spaces, opt quote_mark,
       opt (cats [alts (map lit_fold [''basic'', ''bearer'', ''digest'', ''token'']), some (Cls (one_of space_char))])]),
     some (not_class (\<lambda>c. space_char c \<or> c = quot \<or> c = apos \<or> c = CHR '','' \<or> c = CHR '';''))]"

definition bearer_value :: re where
  "bearer_value = cats [Edge, Grp 1 (cats [lit_fold ''bearer'', some (Cls (one_of space_char))]),
     at_least 16 (Cls (folded (\<lambda>c. is_word c \<or> c \<in> {CHR ''.'', CHR ''~'', CHR ''+'', CHR ''/'', CHR ''='', CHR ''-''})))]"

definition dsn_value :: re where
  "dsn_value = cats [Grp 1 (cats [class_of [CHR '';'', quot, apos], spaces, alts (map lit_fold [''password'', ''pwd'']), spaces, lit ''='', spaces]),
     some (not_class (\<lambda>c. c = CHR '';'' \<or> c = quot \<or> c = apos \<or> newline c))]"

definition url_password :: re where
  "url_password = cats [Grp 1 (cats [lit ''://'',
       star (not_class (\<lambda>c. space_char c \<or> c = CHR '':'' \<or> c = CHR ''/'' \<or> c = quot \<or> c = apos \<or> c = CHR ''@'')), lit '':'']),
     some (not_class (\<lambda>c. space_char c \<or> c = CHR ''@'' \<or> c = CHR ''/'' \<or> c = quot \<or> c = apos)), lit ''@'']"

definition known_token :: re where
  "known_token = (let dashed = Cls (one_of (\<lambda>c. is_word c \<or> c = CHR ''-'')); alnum = Cls (one_of is_alnum) in
     cats [Edge, alts [cats [lit ''AKIA'', times 16 (Cls (one_of (\<lambda>c. is_digit c \<or> is_upper c)))],
       cats [class_of ''sr'', lit ''k_'', Alt (lit ''live'') (lit ''test''), lit ''_'', at_least 16 alnum],
       cats [lit ''sk-'', at_least 20 dashed],
       cats [lit ''gh'', class_of ''pousr'', lit ''_'', at_least 36 alnum],
       cats [lit ''xox'', class_of ''abprs'', lit ''-'', at_least 10 dashed],
       cats [lit ''AIza'', times 35 dashed],
       cats [lit ''eyJ'', at_least 10 dashed, lit ''.eyJ'', at_least 10 dashed, lit ''.'', at_least 10 dashed]]])"

section \<open>Redaction\<close>

definition secrets :: "(re \<times> ((nat \<Rightarrow> string) \<Rightarrow> string)) list" where
  "secrets = [(key_block, \<lambda>_. redacted), (key_tail, \<lambda>_. redacted), (quoted_value, \<lambda>g. g 1 @ [quot] @ redacted @ [quot]),
     (plain_value, \<lambda>g. g 1 @ redacted), (flag_value, \<lambda>g. g 1 @ redacted), (header_value, \<lambda>g. g 1 @ redacted),
     (bearer_value, \<lambda>g. g 1 @ redacted), (dsn_value, \<lambda>g. g 1 @ redacted), (url_password, \<lambda>g. g 1 @ redacted @ ''@''),
     (known_token, \<lambda>_. redacted)]"

definition redact :: "string \<Rightarrow> string" where
  "redact text = fold (\<lambda>(r, with) t. replace_all r with t) secrets text"

section \<open>Facts\<close>

lemma secrets_long: "list_all (\<lambda>(r, f). 0 < least_runes r) secrets"
  by code_simp

text \<open>A private key and a URL with a password are found where they begin.\<close>

lemma ascii_texts: "list_all (\<lambda>c. c_nat c < 128) ''://''" "list_all (\<lambda>c. c_nat c < 128) '':''" "list_all (\<lambda>c. c_nat c < 128) ''@''"
  "list_all (\<lambda>c. c_nat c < 128) (''-----'' @ ''BEGIN'' @ '' '')" "list_all (\<lambda>c. c_nat c < 128) (''-----'' @ ''END'' @ '' '')"
  "list_all (\<lambda>c. c_nat c < 128) ''PRIVATE KEY-----''"
  by (simp_all add: c_nat_def)

lemma gets_last: "gets r t i j \<Longrightarrow> gets (cats [r]) t i j"
  by simp

lemma url_password_found:
  assumes t: "t = pre @ ascii_runes ''://'' @ us @ ascii_runes '':'' @ ps @ ascii_runes ''@'' @ post"
    and us: "list_all (none_of (\<lambda>c. space_char c \<or> c = CHR '':'' \<or> c = CHR ''/'' \<or> c = quot \<or> c = apos \<or> c = CHR ''@'')) us"
    and ps: "list_all (none_of (\<lambda>c. space_char c \<or> c = CHR ''@'' \<or> c = CHR ''/'' \<or> c = quot \<or> c = apos)) ps" "ps \<noteq> []"
  shows "paths url_password t (length pre) [] \<noteq> []"
proof -
  note one = gets_lit_at [OF t ascii_texts(1), unfolded append_assoc]
  note two = gets_Many_at [of t "pre @ ascii_runes ''://''" us _ _ True, OF _ us, unfolded append_assoc]
  note three = gets_lit_at [of t "pre @ ascii_runes ''://'' @ us" "'':''", OF _ ascii_texts(2), unfolded append_assoc]
  note four = gets_some_at [of t "pre @ ascii_runes ''://'' @ us @ ascii_runes '':''" ps, OF _ ps, unfolded append_assoc]
  note five = gets_lit_at [of t "pre @ ascii_runes ''://'' @ us @ ascii_runes '':'' @ ps" "''@''", OF _ ascii_texts(3), unfolded append_assoc]
  have "gets url_password t (length pre) (length (pre @ ascii_runes ''://'' @ us @ ascii_runes '':'' @ ps @ ascii_runes ''@''))"
    unfolding url_password_def star_def not_class_def
    by (rule gets_cats [OF gets_Grp [OF gets_cats [OF one gets_cats [OF two gets_last [OF three]]]] gets_cats [OF four gets_last [OF five]]])
      (simp_all add: t)
  then show ?thesis by (rule gets_found)
qed

lemma key_text_gets:
  assumes t: "t = pre @ ascii_runes (''-----'' @ s @ '' '') @ xs @ ascii_runes ''PRIVATE KEY-----'' @ post"
    and s: "list_all (\<lambda>c. c_nat c < 128) (''-----'' @ s @ '' '')" and xs: "list_all (one_of (\<lambda>c. is_upper c \<or> c = CHR '' '')) xs"
  shows "gets (key_text s) t (length pre) (length (pre @ ascii_runes (''-----'' @ s @ '' '') @ xs @ ascii_runes ''PRIVATE KEY-----''))"
proof -
  note one = gets_lit_at [OF t s]
  note two = gets_Many_at [of t "pre @ ascii_runes (''-----'' @ s @ '' '')" xs _ _ True, OF _ xs, unfolded append_assoc]
  note three = gets_lit_at [of t "pre @ ascii_runes (''-----'' @ s @ '' '') @ xs" "''PRIVATE KEY-----''", OF _ ascii_texts(6), unfolded append_assoc]
  show ?thesis unfolding key_text_def star_def
    by (rule gets_cats [OF one gets_cats [OF two gets_last [OF three]]]) (simp_all add: t)
qed

lemma key_block_found:
  assumes t: "t = pre @ ascii_runes (''-----'' @ ''BEGIN'' @ '' '') @ as @ ascii_runes ''PRIVATE KEY-----'' @ body @
      ascii_runes (''-----'' @ ''END'' @ '' '') @ bs @ ascii_runes ''PRIVATE KEY-----'' @ post"
    and as: "list_all (one_of (\<lambda>c. is_upper c \<or> c = CHR '' '')) (as @ bs)"
  shows "paths key_block t (length pre) [] \<noteq> []"
proof -
  let ?b = "ascii_runes (''-----'' @ ''BEGIN'' @ '' '') @ as @ ascii_runes ''PRIVATE KEY-----''"
  have ab: "list_all (one_of (\<lambda>c. is_upper c \<or> c = CHR '' '')) as" "list_all (one_of (\<lambda>c. is_upper c \<or> c = CHR '' '')) bs" using as by simp_all
  note one = key_text_gets [OF t ascii_texts(4) ab(1)]
  note two = gets_Many_at [of t "pre @ ?b" body _ "\<lambda>_. True" False, unfolded append_assoc]
  note three = key_text_gets [of t "pre @ ?b @ body" "''END''" bs post, OF _ ascii_texts(5) ab(2), unfolded append_assoc]
  have "gets key_block t (length pre) (length (pre @ ?b @ body @ ascii_runes (''-----'' @ ''END'' @ '' '') @ bs @ ascii_runes ''PRIVATE KEY-----''))"
    unfolding key_block_def lazy_def append_assoc by (rule gets_cats [OF one gets_cats [OF two gets_last [OF three]]]) (simp_all add: t list_all_iff)
  then show ?thesis by (rule gets_found)
qed

text \<open>A private key with its two lines, and a URL's user and password, at a place of a text.\<close>

definition key_at :: "string list \<Rightarrow> nat \<Rightarrow> bool" where
  "key_at t i \<longleftrightarrow> (\<exists>pre as body bs post. t = pre @ ascii_runes ''-----BEGIN '' @ as @ ascii_runes ''PRIVATE KEY-----'' @ body @
     ascii_runes ''-----END '' @ bs @ ascii_runes ''PRIVATE KEY-----'' @ post \<and> length pre = i \<and>
     list_all (one_of (\<lambda>c. is_upper c \<or> c = CHR '' '')) (as @ bs))"

definition login_at :: "string list \<Rightarrow> nat \<Rightarrow> bool" where
  "login_at t i \<longleftrightarrow> (\<exists>pre us ps post. t = pre @ ascii_runes ''://'' @ us @ ascii_runes '':'' @ ps @ ascii_runes ''@'' @ post \<and> length pre = i \<and> ps \<noteq> [] \<and>
     list_all (none_of (\<lambda>c. space_char c \<or> c = CHR '':'' \<or> c = CHR ''/'' \<or> c = quot \<or> c = apos \<or> c = CHR ''@'')) us \<and>
     list_all (none_of (\<lambda>c. space_char c \<or> c = CHR ''@'' \<or> c = CHR ''/'' \<or> c = quot \<or> c = apos)) ps)"

lemma redact_steps:
  "\<exists>ts. length ts = Suc (length secrets) \<and> ts ! 0 = text \<and> ts ! length secrets = redact text \<and>
     list_all (\<lambda>n. replaced (fst (secrets ! n)) (snd (secrets ! n)) (runes (ts ! n)) 0 (ts ! Suc n)) [0..<length secrets]"
proof -
  define steps where "steps = (\<lambda>n. fold (\<lambda>(r, f) t. replace_all r f t) (take n secrets) text)"
  have "steps (Suc n) = replace_all (fst (secrets ! n)) (snd (secrets ! n)) (steps n)" if "n < length secrets" for n
    using that by (simp add: steps_def take_Suc_conv_app_nth case_prod_beta)
  moreover have "0 < least_runes (fst (secrets ! n))" if "n < length secrets" for n
    using secrets_long that by (auto simp: list_all_length case_prod_beta)
  ultimately have "replaced (fst (secrets ! n)) (snd (secrets ! n)) (runes (steps n)) 0 (steps (Suc n))" if "n < length secrets" for n
    using that replace_from_replaced by (simp add: replace_all_def)
  then show ?thesis
    by (intro exI [of _ "map steps [0..<Suc (length secrets)]"]) (auto simp: list_all_iff nth_append steps_def redact_def simp del: upt_Suc)
qed



end
