(* ===== verification/Speech.thy ===== *)
theory Speech
  imports Redact Registry
begin

text \<open>
  The line the phone reads aloud (internal/service/bora.go): the sayer that streams it ahead of an answer,
  its plain sentences, and for the Vietnamese voice the digits and joined names written as words. Texts are
  UTF-8 bytes; \<open>letter\<close> tells the letters among the runes that are not ASCII.
\<close>

section \<open>Text\<close>

definition vietnamese :: string where
  "vietnamese = map char_of [195, 160, 195, 161, 225, 186, 161, 225, 186, 163, 195, 163, 195, 162, 225, 186, 167, 225, 186, 165, 225, 186, 173, 225, 186, 169, 225, 186, 171, 196, 131, 225, 186, 177, 225, 186, 175, 225, 186, 183, 225, 186, 179, 225, 186, 181, 195, 168, 195, 169, 225, 186, 185, 225, 186, 187, 225, 186, 189, 195, 170, 225, 187, 129, 225, 186, 191, 225, 187, 135, 225, 187, 131, 225, 187, 133, 195, 172, 195, 173, 225, 187, 139, 225, 187, 137, 196, 169, 195, 178, 195, 179, 225, 187, 141, 225, 187, 143, 195, 181, 195, 180, 225, 187, 147, 225, 187, 145, 225, 187, 153, 225, 187, 149, 225, 187, 151, 198, 161, 225, 187, 157, 225, 187, 155, 225, 187, 163, 225, 187, 159, 225, 187, 161, 195, 185, 195, 186, 225, 187, 165, 225, 187, 167, 197, 169, 198, 176, 225, 187, 171, 225, 187, 169, 225, 187, 177, 225, 187, 173, 225, 187, 175, 225, 187, 179, 195, 189, 225, 187, 181, 225, 187, 183, 225, 187, 185, 196, 145 :: nat]"

definition any_rune :: "string \<Rightarrow> string \<Rightarrow> bool" where
  "any_rune s cs \<longleftrightarrow> list_ex (\<lambda>r. r \<in> set (runes cs)) (runes s)"

text \<open>\<open>strings.Fields\<close> and \<open>oneLine\<close>; \<open>truncate\<close> keeps whole runes.\<close>

fun word_length :: "string \<Rightarrow> nat" where
  "word_length [] = 0"
| "word_length (c # cs) = (if space_prefix (c # cs) > 0 then 0 else Suc (word_length cs))"

lemma trim_left_length: "length (trim_left s) \<le> length s"
proof (induction s rule: trim_left.induct)
  case (1 s)
  then show ?case by (cases "s = [] \<or> space_prefix s = 0") (auto simp: trim_left.simps [of s] intro: order.trans)
qed

lemma fields_shorter: "0 < n \<Longrightarrow> trim_left s \<noteq> [] \<Longrightarrow> length (trim_left s) - n < length s"
  using trim_left_length [of s] by (cases "trim_left s") auto

function fields_of :: "string \<Rightarrow> string list" where
  "fields_of s = (let t = trim_left s; n = word_length t in
     if t = [] \<or> n = 0 then [] else take n t # fields_of (drop n t))"
  by pat_completeness auto
termination
  by (relation "measure length") (auto dest: fields_shorter)

declare fields_of.simps [simp del]

definition one_line :: "string \<Rightarrow> string" where
  "one_line s = join_with '' '' (fields_of s)"

definition truncate_runes :: "string \<Rightarrow> nat \<Rightarrow> string" where
  "truncate_runes s n = concat (take n (runes s))"

section \<open>Patterns\<close>

definition digit :: re where "digit = Cls (one_of is_digit)"

definition letter_of :: "(string \<Rightarrow> bool) \<Rightarrow> re" where
  "letter_of letter = Cls (\<lambda>r. one_of (\<lambda>c. is_lower c \<or> is_upper c) r \<or> length r > 1 \<and> letter r)"

definition say_open :: string where "say_open = ''<say>''"

definition say_tag :: re where
  "say_tag = cats [TextStart, spaces, lit say_open, Grp 1 (lazy (Cls (\<lambda>_. True))), lit ''</say>'', spaces]"

definition markdown :: re where
  "markdown = alts [cats [opt (lit ''!''), lit ''['', Grp 1 (star (not_class (\<lambda>c. c = CHR '']''))), lit ''](''  , star (not_class (\<lambda>c. c = CHR '')'')), lit '')''],
     cats [LineStart, spaces, Alt (class_of ''-+>'') (cats [some digit, lit ''.'']), some (Cls (one_of space_char))],
     some (class_of (''*#'' @ [CHR 0x60]))]"

definition sentence_end :: re where
  "sentence_end = cats [class_of ''.!?'', Alt (Cls (one_of space_char)) TextEnd]"

definition joined_name :: "(string \<Rightarrow> bool) \<Rightarrow> re" where
  "joined_name letter = cats [Grp 1 (letter_of letter), some (class_of ''-_'')]"

definition version :: re where
  "version = cats [opt (Grp 1 (cats [class_of ''bB'', Cls ((=) [CHR 0xE1, CHR 0xBA, CHR 0xA3]), lit ''n ''])), Edge, class_of ''vV'',
     Grp 2 (cats [some digit, star (cats [lit ''.'', some digit])]), Edge]"

definition iso_date :: re where
  "iso_date = cats [Edge, Grp 1 (times 4 digit), lit ''-'', Grp 2 (cats [digit, opt digit]), lit ''-'', Grp 3 (cats [digit, opt digit]), Edge]"

definition clock :: re where
  "clock = cats [Edge, Grp 1 (cats [digit, opt digit]), class_of '':h'', Grp 2 (times 2 digit), Edge]"

definition time_unit :: re where "time_unit = Alt (lit ''ms'') (class_of ''hmps'')"

definition time_span :: re where
  "time_span = cats [Edge, some (cats [some digit, time_unit]), Edge]"

definition span_part :: re where
  "span_part = cats [Grp 1 (some digit), Grp 2 time_unit]"

definition letter_num :: "(string \<Rightarrow> bool) \<Rightarrow> re" where
  "letter_num letter = cats [Grp 1 (letter_of letter), Grp 2 digit]"

definition num_letter :: "(string \<Rightarrow> bool) \<Rightarrow> re" where
  "num_letter letter = cats [Grp 1 digit, Grp 2 (letter_of letter)]"

definition figure :: re where
  "figure = cats [Grp 1 (cats [some digit, star (cats [lit ''.'', some digit]), opt (cats [lit '','', some digit])]),
     opt (Grp 2 (cats [opt (lit '' ''), lit ''%'']))]"

definition thousands :: re where
  "thousands = cats [TextStart, cats [digit, up_to 2 digit], some (cats [lit ''.'', times 3 digit]), TextEnd]"

section \<open>Numbers in words\<close>

definition w_tram :: string where "w_tram = ''tr'' @ [CHR 0xC4, CHR 0x83] @ ''m''"

definition w_muoi1 :: string where "w_muoi1 = ''m'' @ [CHR 0xC6, CHR 0xB0, CHR 0xE1, CHR 0xBB, CHR 0x9D] @ ''i''"

definition w_muoi :: string where "w_muoi = ''m'' @ [CHR 0xC6, CHR 0xB0, CHR 0xC6, CHR 0xA1] @ ''i''"

definition w_linh :: string where "w_linh = ''linh''"

definition w_mot :: string where "w_mot = ''m'' @ [CHR 0xE1, CHR 0xBB, CHR 0x91] @ ''t''"

definition w_lam :: string where "w_lam = ''l'' @ [CHR 0xC4, CHR 0x83] @ ''m''"

definition w_cham :: string where "w_cham = ''ch'' @ [CHR 0xE1, CHR 0xBA, CHR 0xA5] @ ''m''"

definition w_phay :: string where "w_phay = ''ph'' @ [CHR 0xE1, CHR 0xBA, CHR 0xA9] @ ''y''"

definition w_ngay :: string where "w_ngay = ''ng'' @ [CHR 0xC3, CHR 0xA0] @ ''y''"

definition w_thang :: string where "w_thang = ''th'' @ [CHR 0xC3, CHR 0xA1] @ ''ng''"

definition w_nam :: string where "w_nam = ''n'' @ [CHR 0xC4, CHR 0x83] @ ''m''"

definition w_tu :: string where "w_tu = ''t'' @ [CHR 0xC6, CHR 0xB0]"

definition w_gio :: string where "w_gio = ''gi'' @ [CHR 0xE1, CHR 0xBB, CHR 0x9D]"

definition w_phut :: string where "w_phut = ''ph'' @ [CHR 0xC3, CHR 0xBA] @ ''t''"

definition w_giay :: string where "w_giay = ''gi'' @ [CHR 0xC3, CHR 0xA2] @ ''y''"

definition w_phienban :: string where "w_phienban = ''phi'' @ [CHR 0xC3, CHR 0xAA] @ ''n b'' @ [CHR 0xE1, CHR 0xBA, CHR 0xA3] @ ''n''"

definition w_phantram :: string where "w_phantram = ''ph'' @ [CHR 0xE1, CHR 0xBA, CHR 0xA7] @ ''n tr'' @ [CHR 0xC4, CHR 0x83] @ ''m''"

definition digit_words :: "string list" where
  "digit_words = [''kh'' @ [CHR 0xC3, CHR 0xB4] @ ''ng'', ''m'' @ [CHR 0xE1, CHR 0xBB, CHR 0x99] @ ''t'', ''hai'', ''ba'', ''b'' @ [CHR 0xE1, CHR 0xBB, CHR 0x91] @ ''n'', ''n'' @ [CHR 0xC4, CHR 0x83] @ ''m'', ''s'' @ [CHR 0xC3, CHR 0xA1] @ ''u'', ''b'' @ [CHR 0xE1, CHR 0xBA, CHR 0xA3] @ ''y'', ''t'' @ [CHR 0xC3, CHR 0xA1] @ ''m'', ''ch'' @ [CHR 0xC3, CHR 0xAD] @ ''n'']"

definition scales :: "string list" where
  "scales = [[], ''ngh'' @ [CHR 0xC3, CHR 0xAC] @ ''n'', ''tri'' @ [CHR 0xE1, CHR 0xBB, CHR 0x87] @ ''u'', ''t'' @ [CHR 0xE1, CHR 0xBB, CHR 0xB7], ''ngh'' @ [CHR 0xC3, CHR 0xAC] @ ''n t'' @ [CHR 0xE1, CHR 0xBB, CHR 0xB7], ''tri'' @ [CHR 0xE1, CHR 0xBB, CHR 0x87] @ ''u t'' @ [CHR 0xE1, CHR 0xBB, CHR 0xB7], ''t'' @ [CHR 0xE1, CHR 0xBB, CHR 0xB7] @ '' t'' @ [CHR 0xE1, CHR 0xBB, CHR 0xB7]]"

definition digit_word :: "nat \<Rightarrow> string" where
  "digit_word n = digit_words ! n"

definition hundreds :: "nat \<Rightarrow> bool \<Rightarrow> string" where
  "hundreds n full = (let h = n div 100; t = n div 10 mod 10; u = n mod 10; w = (if h > 0 \<or> full then [digit_word h, w_tram] else []) in
     join_with '' '' (w @ (if t > 1 then [digit_word t, w_muoi] else if t = 1 then [w_muoi1] else if u > 0 \<and> w \<noteq> [] then [w_linh] else [])
       @ (if u = 1 \<and> t > 1 then [w_mot] else if u = 5 \<and> t > 0 then [w_lam] else if u > 0 then [digit_word u] else [])))"

fun vi_groups :: "nat \<Rightarrow> nat \<Rightarrow> string list" where
  "vi_groups n i = (if n = 0 then [] else vi_groups (n div 1000) (Suc i) @
     (if n mod 1000 > 0 then [trim_space (hundreds (n mod 1000) (n div 1000 > 0) @ '' '' @ scales ! i)] else []))"

declare vi_groups.simps [simp del]

definition vi_number :: "nat \<Rightarrow> string" where
  "vi_number n = (if n = 0 then digit_word 0 else join_with '' '' (vi_groups n 0))"

fun digits_value :: "string \<Rightarrow> nat \<Rightarrow> nat" where
  "digits_value [] acc = acc"
| "digits_value (c # cs) acc = digits_value cs (acc * 10 + (c_nat c - 48))"

text \<open>Digits only: a leading zero, or what is too long to be a quantity, is read digit by digit.\<close>

definition spell :: "string \<Rightarrow> string" where
  "spell n = (if n \<noteq> [] \<and> length n \<le> 12 \<and> (hd n \<noteq> CHR ''0'' \<or> length n = 1) then vi_number (digits_value n 0)
     else join_with '' '' (map (\<lambda>c. digit_word (c_nat c - 48)) n))"

definition dotted :: "string \<Rightarrow> string" where
  "dotted n = join_with ('' '' @ w_cham @ '' '') (map spell (split_at (CHR ''.'') n))"

definition spoken_number :: "string \<Rightarrow> string" where
  "spoken_number n = (case cut_at (CHR '','') n of (whole, frac, comma) \<Rightarrow>
     let w = (if match_groups thousands whole \<noteq> None then filter (\<lambda>c. c \<noteq> CHR ''.'') whole else whole) in
     if comma then dotted w @ '' '' @ w_phay @ '' '' @ spell frac else dotted w)"

definition trim_zeros :: "string \<Rightarrow> string" where
  "trim_zeros = dropWhile (\<lambda>c. c = CHR ''0'')"

text \<open>What a pattern's function makes of the text it matched, read again by the pattern.\<close>

definition reread :: "re \<Rightarrow> ((nat \<Rightarrow> string) \<Rightarrow> string) \<Rightarrow> string \<Rightarrow> string" where
  "reread r f = replace_all r (\<lambda>g. case match_groups r (g 0) of None \<Rightarrow> [] | Some m \<Rightarrow> f m)"

definition date_words :: "(nat \<Rightarrow> string) \<Rightarrow> string" where
  "date_words m = (let month = digits_value (m 2) 0; day = digits_value (m 3) 0 in
     if month < 1 \<or> month > 12 \<or> day < 1 \<or> day > 31 then m 0
     else w_ngay @ '' '' @ spell (trim_zeros (m 3)) @ '' '' @ w_thang @ '' '' @ (if month = 4 then w_tu else spell (trim_zeros (m 2)))
       @ '' '' @ w_nam @ '' '' @ spell (m 1))"

definition unit_word :: "string \<Rightarrow> string" where
  "unit_word u = (if u = ''h'' then w_gio else if u = ''m'' \<or> u = ''p'' then w_phut else if u = ''s'' then w_giay
     else if u = ''ms'' then ''mi li '' @ w_giay else [])"

definition clock_words :: "(nat \<Rightarrow> string) \<Rightarrow> string" where
  "clock_words m = (let h = digits_value (m 1) 0; mins = digits_value (m 2) 0 in
     if h > 23 \<or> mins > 59 then m 0
     else if mins = 0 then vi_number h @ '' '' @ w_gio
     else if mins < 10 then vi_number h @ '' '' @ w_gio @ '' '' @ vi_number mins @ '' '' @ w_phut
     else vi_number h @ '' '' @ w_gio @ '' '' @ vi_number mins)"

text \<open>\<open>FindAllStringSubmatch\<close> and \<open>FindAllStringIndex\<close>, with a bound on the matches.\<close>

fun find_all :: "re \<Rightarrow> string list \<Rightarrow> nat \<Rightarrow> nat \<Rightarrow> (nat \<times> nat \<times> groups) list" where
  "find_all r t i 0 = []"
| "find_all r t i (Suc n) = (case match_from r t i of None \<Rightarrow> [] | Some (j, k, g) \<Rightarrow> (j, k, g) # find_all r t k n)"

definition span_words :: "string \<Rightarrow> string" where
  "span_words s = (let t = runes s in join_with '' '' (concat (map (\<lambda>(_, _, g). let n = trim_zeros (group_of t g 1) in
     [spell (if n = [] then ''0'' else n), unit_word (group_of t g 2)]) (find_all span_part t 0 (length t)))))"

section \<open>The line read aloud\<close>

definition aloud :: "ext \<Rightarrow> (string \<Rightarrow> bool) \<Rightarrow> string \<Rightarrow> string" where
  "aloud x letter line = (if \<not> any_rune (to_lower x line) vietnamese then line
     else let l1 = replace_all (joined_name letter) (\<lambda>g. g 1 @ '' '') line;
       l2 = reread version (\<lambda>m. (if m 1 = [] then w_phienban @ '' '' else m 1) @ dotted (m 2)) l1;
       l3 = reread iso_date date_words l2;
       l4 = reread clock clock_words l3;
       l5 = replace_all time_span (\<lambda>g. span_words (g 0)) l4;
       l6 = replace_all (num_letter letter) (\<lambda>g. g 1 @ '' '' @ g 2) (replace_all (letter_num letter) (\<lambda>g. g 1 @ '' '' @ g 2) l5) in
     reread figure (\<lambda>m. if m 2 \<noteq> [] then spoken_number (m 1) @ '' '' @ w_phantram else spoken_number (m 1)) l6)"

definition say_runes :: nat where "say_runes = 300"
definition say_hold :: nat where "say_hold = 1000"

text \<open>The first one or two sentences that fit, or whole words of the first.\<close>

fun sentences_end :: "(nat \<times> nat \<times> groups) list \<Rightarrow> nat \<Rightarrow> nat" where
  "sentences_end [] end_at = end_at"
| "sentences_end ((j, _) # ms) end_at = (if Suc j > say_runes then end_at else sentences_end ms (Suc j))"

definition last_space :: "string \<Rightarrow> nat" where
  "last_space s = length (dropWhile (\<lambda>c. c \<noteq> CHR '' '') (rev s)) - 1"

definition spoken :: "ext \<Rightarrow> (string \<Rightarrow> bool) \<Rightarrow> string \<Rightarrow> string" where
  "spoken x letter text = (let line = one_line (replace_all markdown (\<lambda>g. g 1) (redact text)); t = runes line;
       n = sentences_end (find_all sentence_end t 0 2) 0 in
     if n > 0 then aloud x letter (slice t 0 n)
     else let cut = truncate_runes line say_runes; i = last_space cut in
       aloud x letter (if i > 0 \<and> length cut < length line then take i cut else cut))"

definition answer_in :: "ext \<Rightarrow> string \<Rightarrow> string" where
  "answer_in x question = nl @ ''- Write the answer, its say and the title in '' @
     (if any_rune (to_lower x question) vietnamese then ''Vietnamese'' else ''English'') @ '', whatever language the data is in.''"

section \<open>The sayer\<close>

text \<open>What a turn publishes while it is answered: what Bora does, the line, the answer's text and that it starts again.\<close>

datatype turn_event = Step string | Say string | Delta string | Reset

record sayer =
  sy_head :: string
  sy_open :: bool
  sy_said :: bool

definition new_sayer :: sayer where
  "new_sayer = \<lparr>sy_head = [], sy_open = False, sy_said = False\<rparr>"

text \<open>A piece of the answer: the events it publishes and the sayer after it.\<close>

definition sayer_write :: "ext \<Rightarrow> (string \<Rightarrow> bool) \<Rightarrow> string \<Rightarrow> sayer \<Rightarrow> turn_event list \<times> sayer" where
  "sayer_write x letter text w = (if sy_open w then ([Delta text], w)
     else let all = sy_head w @ text; w1 = w\<lparr>sy_head := all\<rparr>; head = dropWhile (\<lambda>c. c_nat c \<in> {9, 10, 13, 32}) all in
       let opened = (\<lambda>evs said h. let h1 = trim_prefix h say_open in
         (evs @ (if h1 \<noteq> [] then [Delta h1] else []), w1\<lparr>sy_open := True, sy_said := said\<rparr>)) in
       (case match_groups say_tag all of Some m \<Rightarrow> let say = spoken x letter (m 1) in
           opened (if say \<noteq> [] then [Say say] else []) (sy_said w \<or> say \<noteq> []) (drop (length (m 0)) all)
         | None \<Rightarrow> if prefix head say_open \<or> prefix say_open head \<and> rune_count head < say_hold then ([], w1) else opened [] (sy_said w) head))"

definition sayer_reset :: "turn_event list \<times> sayer" where
  "sayer_reset = ([Reset], new_sayer)"

end
