(* ===== verification/Handlers.thy ===== *)
theory Handlers
  imports Messages
begin

text \<open>
  The handlers of internal/transport/http: what each reads of the request, the operation of the
  services it calls and the answer. A stream's answer is its head and where its events come from;
  those of Bora's conversations are in Bora_Requests, and the stream of metrics is not modelled.
\<close>

section \<open>Calls\<close>

text \<open>
  What a handler sees of a request: the decoded query, the Authorization header, the body, the
  values of the path's wildcards, and what \<open>authorize\<close> put into its context.
\<close>

record call =
  cl_query :: "(string \<times> string) list"
  cl_auth :: string
  cl_content :: string
  cl_vars :: "(string \<times> string) list"
  cl_user :: user
  cl_access :: access

text \<open>
  The server: the version it reports, the request an address is tried with, whether it has an
  assistant, and, with code search, the projects Sourcebot has a context for.
\<close>

record server = http_lib +
  sv_version :: string
  sv_probe :: "time \<Rightarrow> route \<Rightarrow> probe"
  sv_assist :: bool
  sv_code :: "(time \<Rightarrow> string list \<Rightarrow> bool list) option"

definition var :: "string \<Rightarrow> (string \<times> string) list \<Rightarrow> string" where
  "var k kvs = (case map_of kvs k of None \<Rightarrow> [] | Some v \<Rightarrow> v)"

abbreviation slug_of :: "call \<Rightarrow> string" where
  "slug_of c \<equiv> var ''project'' (cl_vars c)"

abbreviation name_of :: "call \<Rightarrow> string" where
  "name_of c \<equiv> var ''name'' (cl_vars c)"

type_synonym handler = "server \<Rightarrow> call \<Rightarrow> (world, response) io"

text \<open>\<open>decode\<close> and \<open>pathID\<close> answer 400 themselves.\<close>

definition with_body :: "server \<Rightarrow> 'r field list \<Rightarrow> 'r \<Rightarrow> call \<Rightarrow> ('r \<Rightarrow> (world, response) io) \<Rightarrow> (world, response) io" where
  "with_body sv fs r0 c k = (case decode (http_lib.truncate sv) fs r0 (cl_content c) of None \<Rightarrow> ret bad_request | Some r \<Rightarrow> k r)"

definition with_uuid :: "server \<Rightarrow> string \<Rightarrow> call \<Rightarrow> (uuid \<Rightarrow> (world, response) io) \<Rightarrow> (world, response) io" where
  "with_uuid sv v c k = (case h_uuid sv (var v (cl_vars c)) of None \<Rightarrow> ret bad_request | Some i \<Rightarrow> k i)"

definition path_id :: "server \<Rightarrow> call \<Rightarrow> (uuid \<Rightarrow> (world, response) io) \<Rightarrow> (world, response) io" where
  "path_id sv = with_uuid sv ''id''"

definition bearer_token :: "string \<Rightarrow> string" where
  "bearer_token header = (if take 7 header = ''Bearer '' then trim_space (drop 7 header) else [])"

definition success :: "unit \<Rightarrow> body" where
  "success _ = SuccessBody"

section \<open>System and sign-in\<close>

definition h_health :: handler where
  "h_health sv c = ret (write_json 200 (HealthBody ''boreas'' ''healthy'' (sv_version sv)))"

definition h_stats :: handler where
  "h_stats sv c = reply 200 (\<lambda>s. StatsBody (stats_from s)) tk_system_stats"

definition h_login :: handler where
  "h_login sv c = with_body sv login_fields zero_login c (\<lambda>r.
     reply 200 (\<lambda>(token, u). LoginBody token (user_from_core u)) (auth_login (lq_username r) (lq_password r)))"

definition h_start_pairing :: handler where
  "h_start_pairing sv c = reply 201 (\<lambda>(code, t). PairingBody code t) (auth_start_pairing (cl_user c))"

definition h_claim_pairing :: handler where
  "h_claim_pairing sv c = with_body sv pairing_code_fields \<lparr>hq_code = []\<rparr> c (\<lambda>r.
     reply 200 (\<lambda>(token, u). LoginBody token (user_from_core u)) (auth_claim_pairing (hq_code r)))"

text \<open>The head of a stream of events.\<close>

definition sse :: "event_source \<Rightarrow> response" where
  "sse src = \<lparr>rs_status = 200, rs_headers = [(''Content-Type'', ''text/event-stream''), (''Cache-Control'', ''no-cache''),
     (''Connection'', ''keep-alive''), (''X-Accel-Buffering'', ''no'')], rs_body = EventsBody src\<rparr>"

definition h_watch_pairing :: handler where
  "h_watch_pairing sv c = with_body sv pairing_code_fields \<lparr>hq_code = []\<rparr> c (\<lambda>r.
     io_bind (io_try (auth_watch_pairing (cl_user c) (hq_code r))) (\<lambda>a. ret (case a of
         Inl e \<Rightarrow> write_service_error e
       | Inr (h, expires) \<Rightarrow> sse (PairingEvents h expires))))"

definition h_logout :: handler where
  "h_logout sv c = reply 200 success (auth_logout (bearer_token (cl_auth c)))"

definition h_me :: handler where
  "h_me sv c = ret (write_json 200 (UserBody (user_from_core (cl_user c))))"

text \<open>An upload is typed by its bytes.\<close>

definition read_image :: "server \<Rightarrow> call \<Rightarrow> (string \<Rightarrow> string \<Rightarrow> (world, response) io) \<Rightarrow> (world, response) io" where
  "read_image sv c k = (if length (cl_content c) > max_image_bytes
     then ret (write_service_error (err_invalid ''image must be at most 5 MiB''))
     else k (cl_content c) (h_mime sv (cl_content c)))"

definition write_image :: "(world, string \<times> string) io \<Rightarrow> (world, response) io" where
  "write_image m = io_bind (io_try m) (\<lambda>r. ret (case r of Inl e \<Rightarrow> write_service_error e
     | Inr (content, mime) \<Rightarrow> \<lparr>rs_status = 200, rs_headers = [(''Content-Type'', mime), (''X-Content-Type-Options'', ''nosniff''),
         (''Cache-Control'', ''private, max-age=86400'')], rs_body = BytesBody content\<rparr>))"

definition h_set_avatar :: handler where
  "h_set_avatar sv c = read_image sv c (\<lambda>content mime.
     reply 200 (\<lambda>u. UserBody (user_from_core u)) (auth_set_avatar (cl_user c) mime content))"

definition h_get_avatar :: handler where
  "h_get_avatar sv c = path_id sv c (\<lambda>i. write_image (auth_avatar i))"

definition h_create_api_token :: handler where
  "h_create_api_token sv c = with_body sv (create_api_token_fields (http_lib.truncate sv)) zero_create_api_token c (\<lambda>r.
     io_bind (io_get now) (\<lambda>t. reply 201 (\<lambda>(raw, k). TokenBody raw (api_token_from_core k t))
       (auth_create_api_token (u_id (cl_user c)) (kq_name r) (kq_from r) (kq_to r))))"

definition h_list_api_tokens :: handler where
  "h_list_api_tokens sv c = io_bind (io_get now) (\<lambda>t.
     reply 200 (\<lambda>ks. TokensBody (map (\<lambda>k. api_token_from_core k t) ks) (length ks)) (auth_list_api_tokens (u_id (cl_user c))))"

definition h_revoke_api_token :: handler where
  "h_revoke_api_token sv c = path_id sv c (\<lambda>i. reply 200 success (auth_revoke_api_token (u_id (cl_user c)) i))"

definition h_subscribe_push :: handler where
  "h_subscribe_push sv c = with_body sv push_fields \<lparr>wq_token = []\<rparr> c (\<lambda>r.
     case validate_push_token (wq_token r) of Some e \<Rightarrow> ret (write_service_error e)
     | None \<Rightarrow> reply 201 success (db_push_create (u_id (cl_user c)) (wq_token r)))"

definition h_unsubscribe_push :: handler where
  "h_unsubscribe_push sv c = (let token = var ''token'' (cl_vars c) in
     case validate_push_token token of Some e \<Rightarrow> ret (write_service_error e)
     | None \<Rightarrow> reply 200 success (db_push_delete (u_id (cl_user c)) token))"

section \<open>Users and credentials\<close>

definition h_list_users :: handler where
  "h_list_users sv c = reply 200 (\<lambda>us. UsersBody (map user_from_core us) (length us)) auth_list_users"

definition h_create_user :: handler where
  "h_create_user sv c = with_body sv create_user_fields zero_create_user c (\<lambda>r.
     reply 201 (\<lambda>u. UserBody (user_from_core u)) (auth_create_user (cq_username r) (cq_email r) (cq_password r) (cq_role r)))"

definition h_update_user :: handler where
  "h_update_user sv c = path_id sv c (\<lambda>i. with_body sv update_user_fields zero_update_user c (\<lambda>r.
     reply 200 (\<lambda>u. UserBody (user_from_core u)) (auth_update_user i
       \<lparr>uu_email = uq_email r, uu_password = uq_password r, uu_role = uq_role r, uu_disabled = uq_disabled r\<rparr>)))"

definition h_delete_user :: handler where
  "h_delete_user sv c = path_id sv c (\<lambda>i. if i = u_id (cl_user c)
     then ret (write_json 409 (ErrorBody ''cannot delete your own account''))
     else reply 200 success (auth_delete_user i))"

definition h_list_credentials :: handler where
  "h_list_credentials sv c = reply 200 (\<lambda>cs. CredentialsBody (map credential_from_core cs) (length cs)) pr_list_credentials"

definition h_create_credential :: handler where
  "h_create_credential sv c = with_body sv create_credential_fields zero_create_credential c (\<lambda>r.
     reply 201 (\<lambda>k. CredentialBody (credential_from_core k))
       (pr_create_credential (cl_user c) (eq_name r) (eq_registry r) (eq_username r) (eq_token r)))"

definition h_delete_credential :: handler where
  "h_delete_credential sv c = path_id sv c (\<lambda>i. reply 200 success (pr_delete_credential i))"

section \<open>Projects\<close>

text \<open>Bora's state as the project list shows it, from internal/service/bora.go.\<close>

definition bora_enabled :: "server \<Rightarrow> bool" where
  "bora_enabled sv = sv_assist sv"

definition bora_images_enabled :: "server \<Rightarrow> world \<Rightarrow> bool" where
  "bora_images_enabled sv w \<longleftrightarrow> sv_assist sv \<and> s3_on w"

definition code_search_enabled :: "server \<Rightarrow> bool" where
  "code_search_enabled sv \<longleftrightarrow> sv_assist sv \<and> sv_code sv \<noteq> None"

definition bora_serves :: "server \<Rightarrow> time \<Rightarrow> access list \<Rightarrow> bool list" where
  "bora_serves sv t accs = (case sv_code sv of None \<Rightarrow> map acc_all accs
     | Some has \<Rightarrow> map2 (\<and>) (map acc_all accs) (has t (map (\<lambda>a. p_slug (acc_project a)) accs)))"

text \<open>One entry of the list: the project's tasks of the fleet, in their order.\<close>

definition fleet_entry :: "server \<Rightarrow> world \<Rightarrow> fleet_task list \<Rightarrow> access \<times> bool \<Rightarrow> fleet_project_dto" where
  "fleet_entry sv w fleet = (\<lambda>(acc, served). \<lparr>jd_project = project_from_core (acc_project acc) (acc_role acc),
     jd_tasks = map fleet_task_from (filter (\<lambda>ft. t_project (ft_task ft) = p_id (acc_project acc)) fleet),
     jd_bora = (bora_enabled sv \<and> served), jd_images = (bora_images_enabled sv w \<and> served)\<rparr>)"

definition h_list_projects :: handler where
  "h_list_projects sv c = io_bind (io_get (\<lambda>w. w)) (\<lambda>w. reply 200 (\<lambda>(accs, fleet).
     ProjectsBody (map (fleet_entry sv w fleet) (zip accs (bora_serves sv (now w) accs))) (length accs) (code_search_enabled sv))
     (pr_fleet (cl_user c)))"

definition public_entry :: "fleet_task list \<Rightarrow> project \<Rightarrow> public_project_dto" where
  "public_entry ts p = \<lparr>zd_slug = p_slug p, zd_name = p_name p,
     zd_tasks = map public_task (filter (\<lambda>ft. t_project (ft_task ft) = p_id p) ts)\<rparr>"

definition h_public_projects :: handler where
  "h_public_projects sv c = reply 200 (\<lambda>(ps, ts). PublicBody (map (public_entry ts) ps) (length ps)) pr_directory"

definition h_create_project :: handler where
  "h_create_project sv c = with_body sv (create_project_fields (http_lib.truncate sv)) zero_create_project c (\<lambda>r.
     reply 201 (\<lambda>p. ProjectBody (project_from_core p ProjectRoleOwner)) (pr_create (cl_user c)
       \<lparr>pi_slug = jq_slug r, pi_name = jq_name r, pi_credential = jq_credential r, pi_image = jq_image r, pi_port = jq_port r,
        pi_env = jq_env r, pi_form = jq_form r\<rparr>))"

definition h_get_project :: handler where
  "h_get_project sv c = (let acc = cl_access c; dto = project_from_core (acc_project acc) (acc_role acc) in
     ret (write_json 200 (ProjectBody (if \<not> acc_all acc then dto\<lparr>pd_env := []\<rparr> else dto))))"

definition h_update_project :: handler where
  "h_update_project sv c = with_body sv (update_project_fields (http_lib.truncate sv)) zero_update_project c (\<lambda>r.
     reply 200 (\<lambda>p. ProjectBody (project_from_core p (acc_role (cl_access c)))) (pr_update (slug_of c)
       \<lparr>up_name = vq_name r, up_credential = (if nu_set (vq_credential r) then Some (nu_value (vq_credential r)) else None),
        up_image = vq_image r, up_port = vq_port r, up_env = vq_env r, up_form = vq_form r\<rparr>))"

definition h_delete_project :: handler where
  "h_delete_project sv c = reply 200 success (pr_delete (slug_of c))"

definition h_list_members :: handler where
  "h_list_members sv c = reply 200 (\<lambda>ms. MembersBody (map member_from_core ms) (length ms)) (pr_list_members (slug_of c))"

definition h_add_member :: handler where
  "h_add_member sv c = with_body sv (add_member_fields (http_lib.truncate sv)) \<lparr>mq_user = 0, mq_role = no_role\<rparr> c (\<lambda>r.
     reply 200 success (pr_add_member (slug_of c) (mq_user r) (if mq_role r = no_role then ProjectRoleMember else mq_role r)))"

definition h_remove_member :: handler where
  "h_remove_member sv c = with_uuid sv ''userID'' c (\<lambda>i. reply 200 success (pr_remove_member (slug_of c) i))"

definition h_list_folders :: handler where
  "h_list_folders sv c = reply 200 (\<lambda>fs. FoldersBody fs (length fs)) (tk_folders (slug_of c))"

section \<open>Notifications\<close>

definition page_limit :: "string \<Rightarrow> nat option" where
  "page_limit raw = (if raw = [] then Some 50 else case parse_int64 raw of None \<Rightarrow> None
     | Some n \<Rightarrow> if n < 1 \<or> n > 200 then None else Some (nat n))"

text \<open>A missing cursor, or the one sent if it is a UUID.\<close>

definition page_before :: "server \<Rightarrow> string \<Rightarrow> uuid option option" where
  "page_before sv raw = (if raw = [] then Some None else map_option Some (h_uuid sv raw))"

definition h_list_notifications :: handler where
  "h_list_notifications sv c =
     (case (page_limit (var ''limit'' (cl_query c)), page_before sv (var ''before'' (cl_query c))) of
       (Some n, Some before) \<Rightarrow>
         reply 200 (\<lambda>ns. NotificationsBody (map notification_from_core ns) (length ns))
           (pr_notifications (cl_user c) (if slug_of c \<noteq> [] then Some (p_id (acc_project (cl_access c))) else None) before n)
     | _ \<Rightarrow> ret bad_request)"

definition h_mark_notifications_seen :: handler where
  "h_mark_notifications_seen sv c = with_body sv (mark_seen_fields (http_lib.truncate sv)) \<lparr>sq_ids = []\<rparr> c (\<lambda>r.
     if sq_ids r = [] \<or> length (sq_ids r) > 200 then ret bad_request
     else reply 200 success (pr_mark_seen (cl_user c) (sq_ids r)))"

definition h_mark_notification_seen :: handler where
  "h_mark_notification_seen sv c = path_id sv c (\<lambda>i. reply 200 success (pr_mark_seen (cl_user c) [i]))"

definition h_mark_notification_unseen :: handler where
  "h_mark_notification_unseen sv c = path_id sv c (\<lambda>i. reply 200 success (pr_mark_unseen (cl_access c) i))"

section \<open>Grants\<close>

definition h_list_grants :: handler where
  "h_list_grants sv c = reply 200 (\<lambda>gs. GrantsBody (map grant_from_core gs) (length gs)) (pr_list_grants (slug_of c) (name_of c))"

definition h_grant_task :: handler where
  "h_grant_task sv c = with_body sv (grant_fields (http_lib.truncate sv)) \<lparr>gq_user = 0, gq_role = no_role\<rparr> c (\<lambda>r.
     reply 200 success (pr_grant (slug_of c) (name_of c) (gq_user r) (if gq_role r = no_role then ProjectRoleViewer else gq_role r)))"

definition h_revoke_grant :: handler where
  "h_revoke_grant sv c = with_uuid sv ''userID'' c (\<lambda>i. reply 200 success (pr_revoke (slug_of c) (name_of c) i))"

section \<open>Tasks\<close>

text \<open>A failure to read the grants comes after the list; a missing grant is no role.\<close>

definition h_list_tasks :: handler where
  "h_list_tasks sv c = (let acc = cl_access c in io_bind (io_try (tk_list acc)) (\<lambda>r. case r of
       Inl e \<Rightarrow> ret (write_service_error e)
     | Inr ts \<Rightarrow> reply 200 (\<lambda>gs. TasksBody (map (\<lambda>t. task_from_core t (role_max (acc_role acc)
          (role_or_none (map_of gs (t_id t))))) ts) (length ts)) (pr_granted_roles (acc_user acc))))"

definition h_get_task :: handler where
  "h_get_task sv c = reply 200 (\<lambda>t. TaskBody (task_from_core t (acc_role (cl_access c)))) (tk_get (slug_of c) (name_of c))"

text \<open>The assignees land also on a task whose container failed; its error is answered first.\<close>

definition create_assigned :: "call \<Rightarrow> uuid list \<Rightarrow> outcome \<Rightarrow> (world, outcome) io" where
  "create_assigned c ids = (\<lambda>(t, e). if t_id t \<noteq> 0 \<and> ids \<noteq> []
     then io_bind (io_try (pr_set_assignees (cl_access c) (t_name t) ids)) (\<lambda>a.
       let e1 = (case e of Some x \<Rightarrow> Some x | None \<Rightarrow> (case a of Inl x \<Rightarrow> Some x | Inr _ \<Rightarrow> None)) in
       if e1 = None then io_bind (io_try (tk_get (slug_of c) (t_name t))) (\<lambda>g. ret (case g of
           Inl x \<Rightarrow> (zero_task, Some x) | Inr t' \<Rightarrow> (t', None)))
       else ret (t, e1))
     else ret (t, e))"

definition h_create_task :: handler where
  "h_create_task sv c = with_body sv (create_task_fields (http_lib.truncate sv)) zero_create_task c (\<lambda>r.
     if length (tq_assignees r) > max_assignees then ret bad_request
     else reply_outcome 201 (\<lambda>t. TaskBody (task_from_core t (acc_role (cl_access c))))
       (io_bind (tk_create (slug_of c) \<lparr>ci_name = tq_name r, ci_description = tq_description r, ci_note = tq_note r,
          ci_image = tq_image r, ci_port = tq_port r, ci_form = tq_form r, ci_labels = tq_labels r, ci_env = tq_env r,
          ci_volumes = tq_volumes r\<rparr>) (create_assigned c (tq_assignees r))))"

definition h_set_assignees :: handler where
  "h_set_assignees sv c = with_body sv (assignees_fields (http_lib.truncate sv)) \<lparr>aq_ids = None\<rparr> c (\<lambda>r. case aq_ids r of
       None \<Rightarrow> ret bad_request
     | Some ids \<Rightarrow> if length ids > max_assignees then ret bad_request
         else reply 200 (\<lambda>t. TaskBody (task_from_core t (acc_role (cl_access c))))
           (io_bind (pr_set_assignees (cl_access c) (name_of c) ids) (\<lambda>_. tk_get (slug_of c) (name_of c))))"

definition h_update_task :: handler where
  "h_update_task sv c = with_body sv update_task_fields zero_update_task c (\<lambda>r.
     reply_outcome 200 (\<lambda>t. TaskBody (task_from_core t (acc_role (cl_access c)))) (tk_update (slug_of c) (name_of c)
       \<lparr>ut_description = yq_description r, ut_note = yq_note r, ut_dev = yq_dev r, ut_form = yq_form r, ut_password = yq_password r,
        ut_image = yq_image r, ut_port = yq_port r, ut_labels = yq_labels r, ut_env = yq_env r, ut_volumes = yq_volumes r,
        ut_routes = yq_routes r, ut_revision = zero_revision\<rparr> (yq_restart r \<noteq> Some False)))"

definition h_check_route :: handler where
  "h_check_route sv c = with_body sv check_route_fields \<lparr>oq_url = [], oq_any = False\<rparr> c (\<lambda>r. io_bind (io_get now) (\<lambda>t.
     reply 200 (\<lambda>route. CheckBody (check_from (check_route (sv_probe sv t route))))
       (tk_check_route (slug_of c) (name_of c) \<lparr>r_path = [], r_url = oq_url r, r_anycert = oq_any r\<rparr>)))"

definition h_deploy_task :: handler where
  "h_deploy_task sv c = with_body sv deploy_task_fields zero_deploy_task c (\<lambda>r.
     reply_outcome 200 (\<lambda>t. TaskBody (task_from_core t (acc_role (cl_access c))))
       (tk_deploy (slug_of c) (name_of c) (dq_image r) \<lparr>v_repo = dq_repository r, v_commit = dq_revision r, v_previous = []\<rparr>))"

definition h_report_build :: handler where
  "h_report_build sv c = with_body sv report_build_fields zero_report_build c (\<lambda>r.
     reply 200 success (tk_report_build (slug_of c) (name_of c)
       \<lparr>b_state = bq_state r, b_stage = bq_stage r, b_progress = bq_progress r, b_url = bq_url r, b_at = zero_time\<rparr>))"

definition h_update_state :: handler where
  "h_update_state sv c = with_body sv update_state_fields \<lparr>iq_action = []\<rparr> c (\<lambda>r.
     io_bind (io_get (\<lambda>w. to_lower (ext w) (iq_action r))) (\<lambda>action.
       if action \<in> set [''start'', ''stop'', ''restart'']
       then reply_outcome 200 (\<lambda>t. StateBody True (task_from_core t (acc_role (cl_access c))))
         ((if action = ''start'' then tk_start else if action = ''stop'' then tk_stop else tk_restart) (slug_of c) (name_of c))
       else ret (write_service_error (err_sentinel ErrInvalidInput))))"

definition h_delete_task :: handler where
  "h_delete_task sv c = reply 200 (\<lambda>_. DeletedBody ''task deleted'') (tk_delete (slug_of c) (name_of c))"

section \<open>Logs and streams\<close>

definition parse_tail :: "call \<Rightarrow> goerr + int" where
  "parse_tail c = (let raw = var ''tail'' (cl_query c) in if raw = [] then Inr 100
     else case parse_int64 raw of None \<Rightarrow> Inl (err_invalid ''tail must be a non-negative integer'')
       | Some n \<Rightarrow> if n < 0 then Inl (err_invalid ''tail must be a non-negative integer'') else Inr n)"

definition h_logs :: handler where
  "h_logs sv c = (case parse_tail c of Inl e \<Rightarrow> ret (write_service_error e)
     | Inr n \<Rightarrow> io_bind (io_try (tk_logs (slug_of c) (name_of c) \<lparr>lo_tail = n, lo_follow = False, lo_since = None\<rparr>)) (\<lambda>r. ret (case r of
         Inl e \<Rightarrow> write_service_error e
       | Inr text \<Rightarrow> \<lparr>rs_status = 200, rs_headers = (''Content-Type'', ''text/plain; charset=utf-8'') #
           (if var ''download'' (cl_query c) = ''true'' then [(''Content-Disposition'', ''attachment; filename='' @ [CHR 0x22] @
              slug_of c @ ''-'' @ name_of c @ ''-logs.txt'' @ [CHR 0x22])] else []), rs_body = BytesBody text\<rparr>)))"

text \<open>Docker's since includes its own instant.\<close>

definition h_stream_logs :: handler where
  "h_stream_logs sv c = (case parse_tail c of Inl e \<Rightarrow> ret (write_service_error e)
     | Inr n \<Rightarrow> let raw = var ''since'' (cl_query c) in
         case (if raw = [] then Some None else map_option (\<lambda>t. Some (t + 1)) (h_rfc_time sv raw)) of None \<Rightarrow> ret bad_request
         | Some since \<Rightarrow> io_bind (io_try (tk_logs (slug_of c) (name_of c) \<lparr>lo_tail = n, lo_follow = True, lo_since = since\<rparr>)) (\<lambda>r.
             ret (case r of Inl e \<Rightarrow> write_service_error e | Inr text \<Rightarrow> sse (LogEvents text))))"

text \<open>The hub's answer to \<open>subscribe\<close>; \<open>unsubscribe\<close> is the end of the stream.\<close>

definition h_stream_events :: handler where
  "h_stream_events sv c = io_bind (io_get (\<lambda>w. map_option subscribe (hub w))) (\<lambda>s. case s of
       None \<Rightarrow> fail (err_new ''panic'')
     | Some (i, h) \<Rightarrow> io_bind (io_mod (\<lambda>w. w\<lparr>hub := Some h\<rparr>)) (\<lambda>_. ret (sse (HubEvents i))))"

definition max_public_streams :: nat where "max_public_streams = 256"

definition h_stream_public_events :: handler where
  "h_stream_public_events sv c = io_bind (io_get publics) (\<lambda>n. if n < max_public_streams
     then io_bind (io_mod (\<lambda>w. w\<lparr>publics := publics w + 1\<rparr>)) (\<lambda>_. h_stream_events sv c)
     else ret (write_json 503 (ErrorBody ''too many open streams'')))"

text \<open>The end of a public stream gives its place back.\<close>

definition close_stream :: "bool \<Rightarrow> nat \<Rightarrow> world \<Rightarrow> world" where
  "close_stream public i w = w\<lparr>hub := map_option (unsubscribe i) (hub w), publics := (if public then publics w - 1 else publics w)\<rparr>"

section \<open>Bora's images\<close>

definition image_key :: "uuid \<Rightarrow> uuid \<Rightarrow> (world, string) io" where
  "image_key user i = io_get (\<lambda>w. ''bora/'' @ x_uuid_str (ext w) user @ ''/'' @ x_uuid_str (ext w) i)"

definition upload_bora_image :: "server \<Rightarrow> user \<Rightarrow> string \<Rightarrow> string \<Rightarrow> (world, uuid) io" where
  "upload_bora_image sv actor mime content = io_bind (io_get (bora_images_enabled sv)) (\<lambda>on.
     if \<not> on then fail (err_sentinel ErrConflict)
     else if mime \<notin> set image_types then fail (err_invalid ''image must be JPEG, PNG, WebP or GIF'')
     else io_bind fresh_id (\<lambda>i. io_bind (image_key (u_id actor) i) (\<lambda>k.
       io_bind (io_wrap ''store image'' (s3_put k mime content)) (\<lambda>_. ret i))))"

definition bora_image :: "user \<Rightarrow> uuid \<Rightarrow> (world, string \<times> string) io" where
  "bora_image actor i = io_bind (io_get s3_on) (\<lambda>on. if \<not> on then fail (err_sentinel ErrNotFound)
     else io_bind (image_key (u_id actor) i) (\<lambda>k. io_wrap ''get image'' (s3_get k)))"

definition h_upload_bora_image :: handler where
  "h_upload_bora_image sv c = read_image sv c (\<lambda>content mime. reply 201 ImageBody (upload_bora_image sv (cl_user c) mime content))"

definition h_get_bora_image :: handler where
  "h_get_bora_image sv c = path_id sv c (\<lambda>i. write_image (bora_image (cl_user c) i))"

end
