(* ===== verification/Bora_Actions.thy ===== *)
theory Bora_Actions
  imports Bora_Store Speech Handlers Notify
begin

text \<open>
  What one answer of Bora may see and propose (the type \<open>bora\<close> of internal/service/bora.go with its
  subject, and the proposals of internal/service/bora_tools.go). A tool runs on the answer's state
  and the process's; its error is the text the model is told. \<open>bl_time\<close> is the RFC 3339 text of a time and \<open>bl_fold\<close> the comparison of names that ignores case.
\<close>

section \<open>State\<close>

record bora_lib =
  bl_time :: "time \<Rightarrow> string"
  bl_fold :: "string \<Rightarrow> string \<Rightarrow> bool"

record bora =
  br_actor :: user
  br_members :: "access list"
  br_unserved :: "string list"
  br_tasks :: "fleet_task list"
  br_read :: "uuid list"
  br_label :: string
  br_subject :: string
  br_events :: "turn_event list"
  br_actions :: "bora_action list"
  br_sources :: "code_source list"
  br_title :: string
  br_tainted :: bool

record answering = bora +
  an_sayer :: sayer
  an_world :: world

type_synonym 'a tool = "(answering, 'a) io"

definition on_world :: "(world, 'a) io \<Rightarrow> 'a tool" where
  "on_world m s = (case m (an_world s) of (r, w) \<Rightarrow> (r, s\<lparr>an_world := w\<rparr>))"

definition told :: "string \<Rightarrow> 'a tool" where
  "told text = fail (err_new text)"

section \<open>What Bora sees\<close>

definition bora_member :: "bora \<Rightarrow> string \<Rightarrow> access option" where
  "bora_member b slug = find (\<lambda>acc. p_slug (acc_project acc) = slug) (br_members b)"

text \<open>\<open>project\<close>: a project the tools may read, which then counts as read.\<close>

definition bora_project :: "string \<Rightarrow> access option tool" where
  "bora_project slug s = (case find (\<lambda>acc. p_slug (acc_project acc) = slug) (br_members s) of
       None \<Rightarrow> (Inr None, s)
     | Some acc \<Rightarrow> (Inr (Some acc), s\<lparr>br_read := br_read s @ [p_id (acc_project acc)]\<rparr>))"

definition bora_tasks_of :: "'b bora_scheme \<Rightarrow> access \<Rightarrow> fleet_task list" where
  "bora_tasks_of b acc = filter (\<lambda>ft. t_project (ft_task ft) = p_id (acc_project acc)) (br_tasks b)"

definition bora_task :: "'b bora_scheme \<Rightarrow> access \<Rightarrow> string \<Rightarrow> fleet_task option" where
  "bora_task b acc name = find (\<lambda>ft. t_name (ft_task ft) = name) (bora_tasks_of b acc)"

definition bora_find :: "string \<Rightarrow> string \<Rightarrow> fleet_task option tool" where
  "bora_find slug name = io_bind (bora_project slug) (\<lambda>a. case a of None \<Rightarrow> ret None
     | Some acc \<Rightarrow> io_get (\<lambda>s. bora_task s acc name))"

definition not_member_text :: "'b bora_scheme \<Rightarrow> string \<Rightarrow> string" where
  "not_member_text b slug = (if slug \<in> set (br_unserved b)
     then ''error: Bora does not answer about '' @ slug @ '': Sourcebot has no search context named '' @ slug
     else ''error: you are not a member of a project named '' @ slug)"

definition no_task_text :: "'b bora_scheme \<Rightarrow> string \<Rightarrow> string \<Rightarrow> string" where
  "no_task_text b slug name = (if slug \<in> set (br_unserved b) then not_member_text b slug
     else ''error: there is no task '' @ slug @ ''/'' @ name @ '' in your projects'')"

definition bora_step :: "string \<Rightarrow> unit tool" where
  "bora_step text = io_mod (\<lambda>s. s\<lparr>br_events := br_events s @ [Step text]\<rparr>)"

text \<open>The named project, or every one for an empty slug; either counts as read.\<close>

definition bora_scope :: "string \<Rightarrow> access list tool" where
  "bora_scope slug = (if slug \<noteq> []
     then io_bind (bora_project slug) (\<lambda>a. case a of Some acc \<Rightarrow> ret [acc]
       | None \<Rightarrow> io_bind (io_get (\<lambda>s. not_member_text s slug)) told)
     else io_bind (io_mod (\<lambda>s. s\<lparr>br_read := br_read s @ map (\<lambda>acc. p_id (acc_project acc)) (br_members s)\<rparr>)) (\<lambda>_. io_get br_members))"

section \<open>The subject\<close>

fun about_shape :: "string \<Rightarrow> (bool \<times> bool \<times> bool \<times> bool \<times> bool) option" where
  "about_shape kind = (if kind = ''fleet'' then Some (False, False, False, False, False)
     else if kind = ''project'' then Some (True, False, False, False, False)
     else if kind = ''task'' \<or> kind = ''build'' then Some (True, True, False, False, False)
     else if kind = ''alert'' then Some (True, False, True, False, False)
     else if kind = ''log'' then Some (True, True, False, True, True) else None)"

definition valid_about :: "bora_about \<Rightarrow> bool" where
  "valid_about a \<longleftrightarrow> about_shape (ab_kind a) = Some (ab_project a \<noteq> [], ab_task a \<noteq> [], ab_id a \<noteq> 0, ab_at a \<noteq> [], ab_line a \<noteq> []) \<and>
     length (ab_at a) \<le> 64 \<and> rune_count (ab_line a) \<le> 1000"

fun build_str :: "build_state \<Rightarrow> string" where
  "build_str BuildRunning = ''running''"
| "build_str BuildSuccess = ''success''"
| "build_str BuildFailure = ''failure''"
| "build_str BuildCanceled = ''canceled''"
| "build_str (OtherBuild s) = s"

fun notification_type_str :: "notification_type \<Rightarrow> string" where
  "notification_type_str NotificationDeployed = ''deployed''"
| "notification_type_str NotificationDeployFailed = ''deploy_failed''"
| "notification_type_str NotificationStatusChanged = ''status_changed''"
| "notification_type_str NotificationTaskCreated = ''task_created''"
| "notification_type_str NotificationTaskAssigned = ''task_assigned''"
| "notification_type_str NotificationBuildFailed = ''build_failed''"


definition task_line :: "bora_lib \<Rightarrow> fleet_task \<Rightarrow> string" where
  "task_line bl ft = (let t = ft_task ft in t_name t @ '': '' @ status_str (t_status t) @
     (if dev_str (t_dev t) \<noteq> [] then '', dev '' @ dev_str (t_dev t) else []) @
     '', image '' @ t_image t @ '', port '' @ int_str (t_port t) @
     (if t_description t \<noteq> [] then '', about: '' @ truncate_runes (one_line (t_description t)) 200 else []) @
     (if t_error t \<noteq> [] then '', error: '' @ one_line (t_error t) else []) @
     (if build_str (b_state (t_build t)) \<noteq> [] then '', build '' @ trim_space (build_str (b_state (t_build t)) @ '' '' @ b_stage (t_build t)) else []) @
     (case ft_deploy ft of None \<Rightarrow> [] | Some n \<Rightarrow> '', last deploy '' @ notification_status_str (n_status n) @ '' at '' @ bl_time bl (n_created n)))"

text \<open>\<open>alert\<close> and \<open>taskSubject\<close>; a follow-up goes on after its task is gone.\<close>

definition bora_alert :: "bora_lib \<Rightarrow> bora_about \<Rightarrow> access \<Rightarrow> unit tool" where
  "bora_alert bl a acc = io_bind (io_get br_actor) (\<lambda>u. io_bind (on_world (db_notifications_get (u_id u) (is_admin u) (ab_id a))) (\<lambda>n.
     if n_project n \<noteq> p_id (acc_project acc) then fail (err_sentinel ErrNotFound)
     else io_mod (\<lambda>s. s\<lparr>br_label := ''an Activity event of '' @ ab_project a,
       br_subject := ''The Activity event: '' @ notification_type_str (n_type n) @ '' at '' @ bl_time bl (n_created n) @ '' about '' @ n_slug n @ ''/'' @ n_task n
         @ '', '' @ notification_status_str (n_status n) @ '': '' @ n_title n @ '': '' @ one_line (n_body n)\<rparr>)))"

definition bora_task_subject :: "bora_lib \<Rightarrow> bora_about \<Rightarrow> access \<Rightarrow> bool \<Rightarrow> unit tool" where
  "bora_task_subject bl a acc follow_up = (let name = ab_project a @ ''/'' @ ab_task a in
     io_bind (io_get (\<lambda>s. bora_task s acc (ab_task a))) (\<lambda>found. case found of
       None \<Rightarrow> if follow_up then io_mod (\<lambda>s. s\<lparr>br_label := ''task '' @ name @ '', which no longer exists''\<rparr>) else fail (err_sentinel ErrNotFound)
     | Some ft \<Rightarrow> let subject = ''The task: '' @ ab_project a @ ''/'' @ task_line bl ft; b = t_build (ft_task ft) in
         io_mod (\<lambda>s. if ab_kind a = ''log'' then s\<lparr>br_label := ''a log line of '' @ name,
               br_subject := subject @ nl @ ''The log line, at '' @ ab_at a @ '': '' @ ab_line a\<rparr>
           else if ab_kind a = ''build'' \<and> build_str (b_state b) = []
           then s\<lparr>br_label := ''the latest build of '' @ name @ '', which has not reported one yet'', br_subject := subject\<rparr>
           else if ab_kind a = ''build'' then s\<lparr>br_label := ''the latest build of '' @ name,
               br_subject := subject @ nl @ ''Its latest build: '' @ build_str (b_state b) @ '', stage '' @ quoted (b_stage b) @ '', at '' @ bl_time bl (b_at b)\<rparr>
           else s\<lparr>br_label := ''task '' @ name, br_subject := subject\<rparr>)))"

text \<open>\<open>about\<close>: 404 for a project unseen, 403 for one reached by grants only or not served; Bora is narrowed to it.\<close>

definition bora_about_subject :: "bora_lib \<Rightarrow> bora_about \<Rightarrow> access list \<Rightarrow> bool \<Rightarrow> unit tool" where
  "bora_about_subject bl a every follow_up = (if ab_kind a = ''fleet''
     then io_mod (\<lambda>s. s\<lparr>br_label := ''every project they are a member of''\<rparr>)
     else if \<not> list_ex (\<lambda>acc. p_slug (acc_project acc) = ab_project a) every then fail (err_sentinel ErrNotFound)
     else io_bind (bora_project (ab_project a)) (\<lambda>r. case r of None \<Rightarrow> fail (err_sentinel ErrForbidden)
       | Some acc \<Rightarrow> io_bind (io_mod (\<lambda>s. s\<lparr>br_members := [acc]\<rparr>)) (\<lambda>_.
           if ab_kind a = ''project'' then io_mod (\<lambda>s. s\<lparr>br_label := ''project '' @ ab_project a\<rparr>)
           else if ab_kind a = ''alert'' then bora_alert bl a acc
           else bora_task_subject bl a acc follow_up)))"

text \<open>\<open>newBora\<close>: the fleet, split into the projects Bora answers about and those of the user's it does not.\<close>

definition new_bora :: "user \<Rightarrow> access list \<Rightarrow> bool list \<Rightarrow> fleet_task list \<Rightarrow> world \<Rightarrow> answering" where
  "new_bora actor accs served ts w = \<lparr>br_actor = actor, br_members = map fst (filter snd (zip accs served)),
     br_unserved = map (\<lambda>(acc, _). p_slug (acc_project acc)) (filter (\<lambda>(acc, ok). \<not> ok \<and> acc_all acc) (zip accs served)),
     br_tasks = ts, br_read = [], br_label = [], br_subject = [], br_events = [], br_actions = [], br_sources = [], br_title = [],
     br_tainted = False, an_sayer = new_sayer, an_world = w\<rparr>"

definition start_bora_answer :: "bora_lib \<Rightarrow> server \<Rightarrow> user \<Rightarrow> bora_about \<Rightarrow> bool \<Rightarrow> (world, answering) io" where
  "start_bora_answer bl sv actor about follow_up w = (case pr_fleet actor w of
       (Inl e, w1) \<Rightarrow> (Inl e, w1)
     | (Inr (accs, ts), w1) \<Rightarrow> let b = new_bora actor accs (bora_serves sv (now w1) accs) ts w1 in
         if br_members b = [] then (Inl (err_sentinel ErrForbidden), w1)
         else (case bora_about_subject bl about accs follow_up b of (Inl e, b1) \<Rightarrow> (Inl e, an_world b1) | (Inr _, b1) \<Rightarrow> (Inr b1, an_world b1)))"

section \<open>Proposals\<close>

definition bora_ops :: "(string \<times> project_role) list" where
  "bora_ops = [(''grant.add'', ProjectRoleOwner), (''grant.remove'', ProjectRoleOwner), (''member.add'', ProjectRoleOwner),
     (''member.remove'', ProjectRoleOwner), (''member.role'', ProjectRoleOwner), (''project.delete'', ProjectRoleOwner),
     (''project.update'', ProjectRoleOwner), (''task.create'', ProjectRoleMember), (''task.delete'', ProjectRoleMember),
     (''task.env'', ProjectRoleMember), (''task.restart'', ProjectRoleOperator), (''task.start'', ProjectRoleOperator),
     (''task.stop'', ProjectRoleOperator), (''task.update'', ProjectRoleMember)]"

definition ops_text :: string where
  "ops_text = ''['' @ join_with '' '' (map fst bora_ops) @ '']''"

record proposal =
  pp_op :: string
  pp_project :: string
  pp_task :: string
  pp_reason :: string
  pp_username :: string
  pp_name :: string
  pp_description :: string
  pp_note :: string
  pp_image :: string
  pp_role :: project_role
  pp_dev :: dev_status
  pp_port :: int
  pp_restart :: "bool option"
  pp_volumes :: strmap
  pp_set :: strmap
  pp_unset :: "string list"
  pp_credential :: string

definition max_actions :: nat where "max_actions = 10"

definition zero_action :: bora_action where
  "zero_action = \<lparr>ac_op = [], ac_project = [], ac_task = [], ac_reason = [], ac_user = 0, ac_username = [], ac_role = no_role, ac_name = [],
     ac_description = [], ac_note = [], ac_dev = OtherDev [], ac_image = [], ac_port = 0, ac_restart = None, ac_volumes = [], ac_set = [], ac_unset = [],
     ac_default_image = [], ac_default_port = 0, ac_default_set = None, ac_default_unset = None, ac_credential = None\<rparr>"

definition env_key :: "string \<Rightarrow> bool" where
  "env_key k \<longleftrightarrow> (case k of [] \<Rightarrow> False | c # cs \<Rightarrow> is_word c \<and> \<not> is_digit c \<and> list_all is_word cs)"

definition check_env :: "strmap \<Rightarrow> string list \<Rightarrow> unit tool" where
  "check_env sets unsets = (if length sets + length unsets = 0 then told ''refused: name variables to set or unset''
     else case find (\<lambda>k. \<not> env_key k) (map fst sets @ unsets) of Some k \<Rightarrow> told (''refused: '' @ k @ '' is not a variable name'')
     | None \<Rightarrow> if validate_env sets \<noteq> None then told ''refused: Boreas sets BOREAS_PROJECT, BOREAS_TASK, BOREAS_PORT and BASE_HREF itself''
       else if list_ex (\<lambda>k. map_of sets k \<noteq> None) unsets then told ''refused: a variable cannot be both set and unset''
       else ret ())"


text \<open>\<open>taskUpdate\<close>, \<open>projectUpdate\<close> and the credential by its name: what they copy onto the action.\<close>

definition task_update :: "proposal \<Rightarrow> bora_action \<Rightarrow> bora_action tool" where
  "task_update p act = (let a = act\<lparr>ac_description := pp_description p, ac_note := pp_note p, ac_dev := pp_dev p, ac_image := trim_space (pp_image p),
       ac_port := pp_port p, ac_restart := pp_restart p, ac_volumes := pp_volumes p\<rparr> in
     if ac_description a = [] \<and> ac_note a = [] \<and> dev_str (ac_dev a) = [] \<and> ac_image a = [] \<and> ac_port a = 0 \<and> ac_volumes a = []
     then told ''refused: task.update needs a description, note, dev_status, image, port or volumes''
     else if validate_volumes (pp_volumes p) \<noteq> None then told ''refused: volumes map a clean absolute container path to a project folder name''
     else ret a)"

definition named_credential :: "bora_lib \<Rightarrow> string \<Rightarrow> bora_action \<Rightarrow> bora_action tool" where
  "named_credential bl name act = io_bind (io_get br_actor) (\<lambda>u.
     if \<not> is_admin u then told ''refused: only an admin can change the registry credential''
     else io_bind (io_try (on_world db_credentials_list)) (\<lambda>r. case r of Inl _ \<Rightarrow> told ''error: could not read the registry credentials''
       | Inr cs \<Rightarrow> (case find (\<lambda>c. bl_fold bl (c_name c) name) cs of None \<Rightarrow> told (''refused: there is no registry credential named '' @ name)
           | Some c \<Rightarrow> ret (act\<lparr>ac_credential := Some (c_id c)\<rparr>))))"

definition project_update :: "bora_lib \<Rightarrow> proposal \<Rightarrow> bora_action \<Rightarrow> bora_action tool" where
  "project_update bl p act = (let a = act\<lparr>ac_name := trim_space (pp_name p), ac_default_image := trim_space (pp_image p), ac_default_port := pp_port p\<rparr> in
     io_bind (if length (pp_set p) + length (pp_unset p) > 0
       then io_bind (check_env (pp_set p) (pp_unset p)) (\<lambda>_. ret (a\<lparr>ac_default_set := (if pp_set p = [] then None else Some (pp_set p)),
         ac_default_unset := (if pp_unset p = [] then None else Some (pp_unset p))\<rparr>)) else ret a) (\<lambda>a1.
     io_bind (if pp_credential p \<noteq> [] then named_credential bl (pp_credential p) a1 else ret a1) (\<lambda>a2.
     if ac_name a2 = [] \<and> ac_default_image a2 = [] \<and> ac_default_port a2 = 0 \<and> ac_default_set a2 = None \<and> ac_default_unset a2 = None \<and> ac_credential a2 = None
     then told ''refused: project.update needs a name, image, port, env or registry_credential'' else ret a2)))"

text \<open>\<open>person\<close>: to a non-admin, someone outside the project looks like no one.\<close>

definition holds_grant :: "access \<Rightarrow> string \<Rightarrow> user \<Rightarrow> unit tool" where
  "holds_grant acc name u = io_bind (io_get (\<lambda>s. bora_task s acc name)) (\<lambda>ft. let i = (case ft of Some f \<Rightarrow> t_id (ft_task f) | None \<Rightarrow> 0) in
     io_bind (io_try (on_world (db_grants_for_task i))) (\<lambda>r. case r of Inl _ \<Rightarrow> told ''error: could not read the grants''
       | Inr gs \<Rightarrow> if list_ex (\<lambda>g. g_user g = u_id u) gs then ret () else told (''refused: '' @ u_username u @ '' holds no grant on '' @ name)))"

definition nobody_text :: "user \<Rightarrow> proposal \<Rightarrow> string" where
  "nobody_text actor p = (if is_admin actor then ''refused: there is no active user named '' @ pp_username p
     else ''refused: no one named '' @ pp_username p @ '' is in '' @ pp_project p @ ''; an admin can name anyone'')"

definition bora_person :: "access \<Rightarrow> proposal \<Rightarrow> bora_action \<Rightarrow> bora_action tool" where
  "bora_person acc p act = io_bind (io_get br_actor) (\<lambda>actor. let nobody = told (nobody_text actor p) in
     io_bind (io_try (on_world (db_users_by_name (pp_username p)))) (\<lambda>r. case r of
       Inl e \<Rightarrow> if err_is e ErrNotFound then nobody else told (''error: could not look up '' @ pp_username p)
     | Inr u \<Rightarrow> if disabled u then nobody
         else io_bind (io_try (on_world (db_list_members (p_id (acc_project acc))))) (\<lambda>r. case r of Inl _ \<Rightarrow> told ''error: could not read the members''
         | Inr ms \<Rightarrow> io_bind (io_try (on_world (db_grants_any (p_id (acc_project acc)) (u_id u)))) (\<lambda>r. case r of Inl _ \<Rightarrow> told ''error: could not read the grants''
           | Inr granted \<Rightarrow> let member = list_ex (\<lambda>m. m_user m = u_id u) ms; a = act\<lparr>ac_user := u_id u, ac_username := u_username u\<rparr> in
               if \<not> is_admin actor \<and> \<not> member \<and> \<not> granted then nobody
               else if ac_op act = ''member.add'' \<and> member then told (''refused: '' @ u_username u @ '' is already a member of '' @ pp_project p @ ''; use member.role'')
               else if (ac_op act = ''member.role'' \<or> ac_op act = ''member.remove'') \<and> \<not> member
               then told (''refused: '' @ u_username u @ '' is not a member of '' @ pp_project p)
               else if ac_op act = ''grant.remove'' then io_bind (holds_grant acc (pp_task p) u) (\<lambda>_. ret a)
               else ret a))))"

definition set_action_role :: "project_role \<Rightarrow> bora_action \<Rightarrow> bora_action tool" where
  "set_action_role r act = (if ac_op act = ''member.add'' \<or> ac_op act = ''member.role''
     then (if role_rank r = 0 then told ''refused: role must be viewer, operator, member or owner'' else ret (act\<lparr>ac_role := r\<rparr>))
     else if ac_op act = ''grant.add''
     then (if role_rank r = 0 \<or> r = ProjectRoleOwner then told (''refused: a grant'' @ [CHR 0x27] @ ''s role must be viewer, operator or member'') else ret (act\<lparr>ac_role := r\<rparr>))
     else ret act)"

definition action_ranges :: "bora_action \<Rightarrow> bora_action tool" where
  "action_ranges a = (if ac_port a < 0 \<or> ac_port a > 65535 \<or> ac_default_port a < 0 \<or> ac_default_port a > 65535 then told ''refused: port must be 1 to 65535''
     else if dev_str (ac_dev a) \<noteq> [] \<and> validate_dev_status (ac_dev a) \<noteq> None then told ''refused: dev_status must be in_progress, blocked or ready''
     else ret a)"

definition person_ops :: "string list" where
  "person_ops = [''member.add'', ''member.role'', ''member.remove'', ''grant.add'', ''grant.remove'']"

definition action_fields :: "bora_lib \<Rightarrow> access \<Rightarrow> proposal \<Rightarrow> bora_action \<Rightarrow> bora_action tool" where
  "action_fields bl acc p act = (if ac_op act = ''task.create''
     then action_ranges (act\<lparr>ac_image := trim_space (pp_image p), ac_port := pp_port p, ac_description := pp_description p\<rparr>)
     else if ac_op act = ''task.update'' then io_bind (task_update p act) action_ranges
     else if ac_op act = ''task.env'' then io_bind (check_env (pp_set p) (pp_unset p)) (\<lambda>_. ret (act\<lparr>ac_set := pp_set p, ac_unset := pp_unset p\<rparr>))
     else if ac_op act \<in> set person_ops then io_bind (bora_person acc p act) (set_action_role (pp_role p))
     else if ac_op act = ''project.update'' then io_bind (project_update bl p act) action_ranges
     else action_ranges act)"

definition task_role :: "access \<Rightarrow> string \<Rightarrow> proposal \<Rightarrow> project_role tool" where
  "task_role acc op p = (if validate_task_name (pp_task p) \<noteq> None then told (''refused: '' @ pp_task p @ '' is not a task name'')
     else io_bind (io_get (\<lambda>s. bora_task s acc (pp_task p))) (\<lambda>found.
       if op = ''task.create'' \<and> found \<noteq> None then told (''refused: task '' @ pp_task p @ '' already exists in '' @ pp_project p)
       else if op = ''task.create'' \<and> pp_image p = [] \<and> p_image (acc_project acc) = []
       then told (''refused: '' @ pp_project p @ '' has no default image, so name the image to run'')
       else case found of Some ft \<Rightarrow> ret (ft_role ft)
         | None \<Rightarrow> if op \<noteq> ''task.create'' then told (''refused: there is no task '' @ pp_task p @ '' in '' @ pp_project p) else ret (acc_role acc)))"

definition family :: "string \<Rightarrow> string" where
  "family op = fst (cut_at (CHR ''.'') op)"

definition on_task :: "string \<Rightarrow> bool" where
  "on_task op \<longleftrightarrow> family op = ''task'' \<or> family op = ''grant''"

definition same_button :: "bora_action \<Rightarrow> bora_action \<Rightarrow> bool" where
  "same_button a b \<longleftrightarrow> ac_op a = ac_op b \<and> ac_project a = ac_project b \<and> ac_task a = ac_task b \<and> ac_user a = ac_user b"

definition safe_ops :: "string list" where
  "safe_ops = [''task.start'', ''task.stop'', ''task.restart'']"

definition bora_propose :: "ext \<Rightarrow> bora_lib \<Rightarrow> proposal \<Rightarrow> string tool" where
  "bora_propose x bl p = (let op = to_lower x (pp_op p) in case map_of bora_ops op of
       None \<Rightarrow> told (''refused: op must be one of '' @ ops_text)
     | Some need \<Rightarrow> io_bind (io_get br_tainted) (\<lambda>tainted.
         if tainted \<and> op \<notin> set safe_ops then told ''refused: after reading code or an image, only start, stop and restart can be offered''
         else io_bind (bora_project (pp_project p)) (\<lambda>a. case a of
           None \<Rightarrow> told (''refused: you are not a member of a project named '' @ pp_project p)
         | Some acc \<Rightarrow> io_bind (io_get br_actions) (\<lambda>acts.
             if length acts \<ge> max_actions then told (''refused: at most '' @ nat_str max_actions @ '' actions per answer'')
             else io_bind (if on_task op then task_role acc op p else ret (acc_role acc)) (\<lambda>r.
               let task = (if on_task op then pp_task p else []); place = pp_project p @ (if on_task op then ''/'' @ pp_task p else []);
                 act = zero_action\<lparr>ac_op := op, ac_project := pp_project p, ac_task := task, ac_reason := truncate_runes (trim_space (redact (pp_reason p))) 200\<rparr> in
               if role_rank r < role_rank need
               then told (''refused: you are '' @ role_str r @ '' on '' @ place @ ''; '' @ op @ '' needs '' @ role_str need @ '' or higher'')
               else io_bind (action_fields bl acc p act) (\<lambda>done_act.
                 if list_ex (\<lambda>b. same_button b done_act) acts then told ''refused: the user already has a button for this''
                 else io_bind (io_mod (\<lambda>s. s\<lparr>br_actions := br_actions s @ [done_act]\<rparr>)) (\<lambda>_.
                   ret (''proposed: the user now sees a button for '' @ op @ '' on '' @ place @ ''; it has not run, and runs only if they confirm''))))))))"

end
