(* ===== verification/Routes.thy ===== *)
theory Routes
  imports Handlers
begin

text \<open>
  internal/transport/http: the table of routes, the mux that finds a request's route, the policy
  each route is under, CORS and the split between the API and the proxy. The handlers of Bora's
  conversations, of the metrics streams and of the two pages of documentation are an argument.
\<close>

section \<open>Policies\<close>

datatype access_level = AccessPublic | AccessAuthed | AccessSession | AccessAdmin
  | AccessViewer | AccessOperator | AccessMember | AccessOwner

text \<open>The least role of the levels within a project.\<close>

definition project_roles :: "access_level \<Rightarrow> project_role option" where
  "project_roles a = (case a of AccessViewer \<Rightarrow> Some ProjectRoleViewer | AccessOperator \<Rightarrow> Some ProjectRoleOperator
     | AccessMember \<Rightarrow> Some ProjectRoleMember | AccessOwner \<Rightarrow> Some ProjectRoleOwner | _ \<Rightarrow> None)"

text \<open>A route, its path as the segments after \<open>/api/v1/\<close>; its texts for the documentation and the types of its messages are left out.\<close>

record endpoint =
  ep_method :: string
  ep_path :: "string list"
  ep_access :: access_level
  ep_handler :: handler
  ep_tag :: string
  ep_status :: nat
  ep_content :: string
  ep_errors :: "nat list"
  ep_quiet :: bool

text \<open>The zero status and content type stand for 200 and JSON.\<close>

definition route_at :: "string \<Rightarrow> string list \<Rightarrow> access_level \<Rightarrow> handler \<Rightarrow> string \<Rightarrow> endpoint" where
  "route_at m path acc h tag = \<lparr>ep_method = m, ep_path = path, ep_access = acc, ep_handler = h, ep_tag = tag, ep_status = 0,
     ep_content = [], ep_errors = [], ep_quiet = False\<rparr>"

section \<open>The table\<close>

definition system_routes :: "endpoint list" where
  "system_routes = [
     route_at ''GET'' [''health''] AccessPublic h_health ''system'',
     route_at ''GET'' [''stats''] AccessAuthed h_stats ''system'',
     (route_at ''GET'' [''events'', ''stream''] AccessSession h_stream_events ''system'')
       \<lparr>ep_content := ''text/event-stream''\<rparr>]"

definition auth_routes :: "endpoint list" where
  "auth_routes = [
     (route_at ''POST'' [''auth'', ''login''] AccessPublic h_login ''auth'')
       \<lparr>ep_errors := [400, 401]\<rparr>,
     (route_at ''POST'' [''auth'', ''pairing''] AccessSession h_start_pairing ''auth'')
       \<lparr>ep_status := 201, ep_quiet := True\<rparr>,
     (route_at ''POST'' [''auth'', ''pairing'', ''claim''] AccessPublic h_claim_pairing ''auth'')
       \<lparr>ep_errors := [400, 401]\<rparr>,
     (route_at ''POST'' [''auth'', ''pairing'', ''stream''] AccessSession h_watch_pairing ''auth'')
       \<lparr>ep_content := ''text/event-stream'', ep_errors := [400, 404], ep_quiet := True\<rparr>,
     route_at ''POST'' [''auth'', ''logout''] AccessAuthed h_logout ''auth'',
     route_at ''GET'' [''auth'', ''me''] AccessAuthed h_me ''auth'',
     (route_at ''PUT'' [''auth'', ''me'', ''avatar''] AccessSession h_set_avatar ''auth'')
       \<lparr>ep_errors := [400, 409]\<rparr>,
     route_at ''GET'' [''auth'', ''tokens''] AccessSession h_list_api_tokens ''auth'',
     (route_at ''POST'' [''auth'', ''tokens''] AccessSession h_create_api_token ''auth'')
       \<lparr>ep_status := 201, ep_errors := [400]\<rparr>,
     (route_at ''DELETE'' [''auth'', ''tokens'', ''{id}''] AccessSession h_revoke_api_token ''auth'')
       \<lparr>ep_errors := [400, 404]\<rparr>]"

definition push_routes :: "endpoint list" where
  "push_routes = [
     (route_at ''POST'' [''push'', ''subscriptions''] AccessAuthed h_subscribe_push ''push'')
       \<lparr>ep_status := 201, ep_errors := [400], ep_quiet := True\<rparr>,
     (route_at ''DELETE'' [''push'', ''subscriptions'', ''{token}''] AccessAuthed h_unsubscribe_push ''push'')
       \<lparr>ep_errors := [400, 404], ep_quiet := True\<rparr>]"

definition user_routes :: "endpoint list" where
  "user_routes = [
     route_at ''GET'' [''users''] AccessAdmin h_list_users ''users'',
     (route_at ''POST'' [''users''] AccessAdmin h_create_user ''users'')
       \<lparr>ep_status := 201, ep_errors := [400, 409]\<rparr>,
     (route_at ''PATCH'' [''users'', ''{id}''] AccessAdmin h_update_user ''users'')
       \<lparr>ep_errors := [400, 404, 409]\<rparr>,
     (route_at ''DELETE'' [''users'', ''{id}''] AccessAdmin h_delete_user ''users'')
       \<lparr>ep_errors := [400, 404, 409]\<rparr>,
     (route_at ''GET'' [''users'', ''{id}'', ''avatar''] AccessAuthed h_get_avatar ''users'')
       \<lparr>ep_content := ''image/*'', ep_errors := [400, 404]\<rparr>]"

definition credential_routes :: "endpoint list" where
  "credential_routes = [
     route_at ''GET'' [''registry-credentials''] AccessAdmin h_list_credentials ''registry-credentials'',
     (route_at ''POST'' [''registry-credentials''] AccessAdmin h_create_credential ''registry-credentials'')
       \<lparr>ep_status := 201, ep_errors := [400, 409]\<rparr>,
     (route_at ''DELETE'' [''registry-credentials'', ''{id}''] AccessAdmin h_delete_credential ''registry-credentials'')
       \<lparr>ep_errors := [400, 404, 409]\<rparr>]"

definition public_routes :: "endpoint list" where
  "public_routes = [
     route_at ''GET'' [''public'', ''projects''] AccessPublic h_public_projects ''system'',
     (route_at ''GET'' [''public'', ''events'', ''stream''] AccessPublic h_stream_public_events ''system'')
       \<lparr>ep_content := ''text/event-stream'', ep_errors := [503]\<rparr>]"

definition project_routes :: "endpoint list" where
  "project_routes = [
     route_at ''GET'' [''projects''] AccessAuthed h_list_projects ''projects'',
     (route_at ''POST'' [''projects''] AccessAdmin h_create_project ''projects'')
       \<lparr>ep_status := 201, ep_errors := [400, 409]\<rparr>,
     route_at ''GET'' [''projects'', ''{project}''] AccessViewer h_get_project ''projects'',
     (route_at ''PATCH'' [''projects'', ''{project}''] AccessOwner h_update_project ''projects'')
       \<lparr>ep_errors := [400]\<rparr>,
     (route_at ''DELETE'' [''projects'', ''{project}''] AccessOwner h_delete_project ''projects'')
       \<lparr>ep_errors := [409]\<rparr>,
     route_at ''GET'' [''projects'', ''{project}'', ''members''] AccessMember h_list_members ''projects'',
     (route_at ''POST'' [''projects'', ''{project}'', ''members''] AccessOwner h_add_member ''projects'')
       \<lparr>ep_errors := [400, 409]\<rparr>,
     (route_at ''DELETE'' [''projects'', ''{project}'', ''members'', ''{userID}''] AccessOwner h_remove_member ''projects'')
       \<lparr>ep_errors := [400, 409]\<rparr>]"

definition notification_routes :: "endpoint list" where
  "notification_routes = [
     (route_at ''GET'' [''notifications''] AccessAuthed h_list_notifications ''notifications'')
       \<lparr>ep_errors := [400]\<rparr>,
     (route_at ''POST'' [''notifications'', ''seen''] AccessAuthed h_mark_notifications_seen ''notifications'')
       \<lparr>ep_errors := [400]\<rparr>,
     (route_at ''GET'' [''projects'', ''{project}'', ''notifications''] AccessViewer h_list_notifications ''projects'')
       \<lparr>ep_errors := [400]\<rparr>,
     (route_at ''POST'' [''projects'', ''{project}'', ''notifications'', ''{id}'', ''seen''] AccessViewer h_mark_notification_seen ''projects'')
       \<lparr>ep_errors := [400]\<rparr>,
     (route_at ''DELETE'' [''projects'', ''{project}'', ''notifications'', ''{id}'', ''seen''] AccessViewer h_mark_notification_unseen ''projects'')
       \<lparr>ep_errors := [400]\<rparr>]"

definition bora_routes :: "(string \<Rightarrow> handler) \<Rightarrow> endpoint list" where
  "bora_routes others = [
     (route_at ''POST'' [''bora'', ''images''] AccessSession h_upload_bora_image ''bora'')
       \<lparr>ep_status := 201, ep_errors := [400, 409], ep_quiet := True\<rparr>,
     (route_at ''GET'' [''bora'', ''images'', ''{id}''] AccessSession h_get_bora_image ''bora'')
       \<lparr>ep_content := ''image/*'', ep_errors := [400, 404]\<rparr>,
     (route_at ''POST'' [''bora'', ''conversations''] AccessSession (others ''startConversation'') ''bora'')
       \<lparr>ep_content := ''text/event-stream'', ep_errors := [400, 404, 409, 429], ep_quiet := True\<rparr>,
     (route_at ''POST'' [''bora'', ''conversations'', ''{id}'', ''messages''] AccessSession (others ''askConversation'') ''bora'')
       \<lparr>ep_content := ''text/event-stream'', ep_errors := [400, 404, 409, 429], ep_quiet := True\<rparr>,
     (route_at ''GET'' [''bora'', ''conversations'', ''{id}'', ''stream''] AccessSession (others ''followConversation'') ''bora'')
       \<lparr>ep_content := ''text/event-stream'', ep_errors := [400]\<rparr>,
     (route_at ''POST'' [''bora'', ''conversations'', ''{id}'', ''stop''] AccessSession (others ''stopConversation'') ''bora'')
       \<lparr>ep_status := 204, ep_errors := [400], ep_quiet := True\<rparr>,
     (route_at ''GET'' [''bora'', ''conversations''] AccessSession (others ''listConversations'') ''bora'')
       \<lparr>ep_errors := [400]\<rparr>,
     (route_at ''POST'' [''bora'', ''conversations'', ''search''] AccessSession (others ''searchConversations'') ''bora'')
       \<lparr>ep_errors := [400], ep_quiet := True\<rparr>,
     (route_at ''GET'' [''bora'', ''conversations'', ''{id}''] AccessSession (others ''getConversation'') ''bora'')
       \<lparr>ep_errors := [400, 404]\<rparr>,
     (route_at ''POST'' [''bora'', ''conversations'', ''{id}'', ''messages'', ''{index}'', ''ran''] AccessSession (others ''addRan'') ''bora'')
       \<lparr>ep_status := 204, ep_errors := [400, 404], ep_quiet := True\<rparr>,
     (route_at ''DELETE'' [''bora'', ''conversations'', ''{id}''] AccessSession (others ''deleteConversation'') ''bora'')
       \<lparr>ep_status := 204, ep_errors := [400, 404], ep_quiet := True\<rparr>,
     (route_at ''DELETE'' [''bora'', ''conversations''] AccessSession (others ''deleteConversations'') ''bora'')
       \<lparr>ep_status := 204, ep_quiet := True\<rparr>]"

definition task_api_routes :: "endpoint list" where
  "task_api_routes = [
     route_at ''GET'' [''projects'', ''{project}'', ''folders''] AccessViewer h_list_folders ''projects'',
     route_at ''GET'' [''projects'', ''{project}'', ''tasks''] AccessViewer h_list_tasks ''tasks'',
     (route_at ''POST'' [''projects'', ''{project}'', ''tasks''] AccessMember h_create_task ''tasks'')
       \<lparr>ep_status := 201, ep_errors := [400, 409]\<rparr>,
     route_at ''GET'' [''projects'', ''{project}'', ''tasks'', ''{name}''] AccessViewer h_get_task ''tasks'',
     (route_at ''PATCH'' [''projects'', ''{project}'', ''tasks'', ''{name}''] AccessMember h_update_task ''tasks'')
       \<lparr>ep_errors := [400, 409]\<rparr>,
     route_at ''DELETE'' [''projects'', ''{project}'', ''tasks'', ''{name}''] AccessMember h_delete_task ''tasks'',
     (route_at ''POST'' [''projects'', ''{project}'', ''tasks'', ''{name}'', ''deploy''] AccessOperator h_deploy_task ''tasks'')
       \<lparr>ep_errors := [400, 409]\<rparr>,
     (route_at ''POST'' [''projects'', ''{project}'', ''tasks'', ''{name}'', ''routes'', ''check''] AccessMember h_check_route ''tasks'')
       \<lparr>ep_errors := [400]\<rparr>,
     (route_at ''PUT'' [''projects'', ''{project}'', ''tasks'', ''{name}'', ''state''] AccessOperator h_update_state ''tasks'')
       \<lparr>ep_errors := [400]\<rparr>,
     (route_at ''PUT'' [''projects'', ''{project}'', ''tasks'', ''{name}'', ''build''] AccessOperator h_report_build ''tasks'')
       \<lparr>ep_errors := [400]\<rparr>,
     (route_at ''GET'' [''projects'', ''{project}'', ''tasks'', ''{name}'', ''logs''] AccessViewer h_logs ''tasks'')
       \<lparr>ep_content := ''text/plain'', ep_errors := [400]\<rparr>,
     (route_at ''GET'' [''projects'', ''{project}'', ''tasks'', ''{name}'', ''logs'', ''stream''] AccessViewer h_stream_logs ''tasks'')
       \<lparr>ep_content := ''text/event-stream'', ep_errors := [400]\<rparr>]"

definition metrics_routes :: "(string \<Rightarrow> handler) \<Rightarrow> endpoint list" where
  "metrics_routes others = [
     (route_at ''GET'' [''projects'', ''{project}'', ''metrics'', ''stream''] AccessViewer (others ''streamMetrics'') ''projects'')
       \<lparr>ep_content := ''text/event-stream''\<rparr>,
     (route_at ''GET'' [''projects'', ''{project}'', ''tasks'', ''{name}'', ''metrics'', ''stream''] AccessViewer (others ''streamMetrics'') ''tasks'')
       \<lparr>ep_content := ''text/event-stream'', ep_errors := [409]\<rparr>]"

definition grant_routes :: "endpoint list" where
  "grant_routes = [
     route_at ''GET'' [''projects'', ''{project}'', ''tasks'', ''{name}'', ''grants''] AccessOwner h_list_grants ''tasks'',
     (route_at ''POST'' [''projects'', ''{project}'', ''tasks'', ''{name}'', ''grants''] AccessOwner h_grant_task ''tasks'')
       \<lparr>ep_errors := [400]\<rparr>,
     (route_at ''DELETE'' [''projects'', ''{project}'', ''tasks'', ''{name}'', ''grants'', ''{userID}''] AccessOwner h_revoke_grant ''tasks'')
       \<lparr>ep_errors := [400]\<rparr>,
     (route_at ''PUT'' [''projects'', ''{project}'', ''tasks'', ''{name}'', ''assignees''] AccessMember h_set_assignees ''tasks'')
       \<lparr>ep_errors := [400, 409]\<rparr>]"
definition route_table :: "(string \<Rightarrow> handler) \<Rightarrow> endpoint list" where
  "route_table others = system_routes @ auth_routes @ push_routes @ user_routes @ credential_routes @ public_routes @ project_routes
     @ notification_routes @ bora_routes others @ task_api_routes @ metrics_routes others @ grant_routes"

text \<open>The statuses a route declares for its errors.\<close>

definition error_statuses :: "endpoint \<Rightarrow> nat list" where
  "error_statuses r = (let scoped = (project_roles (ep_access r) \<noteq> None) in
     (if ep_access r \<noteq> AccessPublic then [401] else []) @
     (if scoped \<or> ep_access r = AccessSession \<or> ep_access r = AccessAdmin then [403] else []) @
     ep_errors r @ (if scoped then [404] else []) @ [500])"

section \<open>Middleware\<close>

definition authorize :: "access_level \<Rightarrow> handler \<Rightarrow> handler" where
  "authorize required next sv c = io_bind (io_try (auth_authenticate (bearer_token (cl_auth c)))) (\<lambda>r. case r of
       Inl e \<Rightarrow> ret (write_service_error e)
     | Inr (u, kind) \<Rightarrow>
         if (required = AccessAdmin \<and> \<not> is_admin u) \<or> (required = AccessSession \<and> kind \<noteq> TokenKindSession)
         then ret (write_service_error (err_sentinel ErrForbidden))
         else (case project_roles required of None \<Rightarrow> next sv (c\<lparr>cl_user := u\<rparr>)
           | Some need \<Rightarrow> io_bind (io_try (pr_access u (slug_of c) (name_of c))) (\<lambda>a. case a of
               Inl e \<Rightarrow> ret (write_service_error e)
             | Inr acc \<Rightarrow> if role_rank (acc_role acc) < role_rank need then ret (write_service_error (err_sentinel ErrForbidden))
                 else next sv (c\<lparr>cl_user := u, cl_access := acc\<rparr>))))"

definition publishing :: "handler \<Rightarrow> handler" where
  "publishing next sv c = io_bind (next sv c) (\<lambda>a. if rs_status a < 400 then io_bind publish_events (\<lambda>_. ret a) else ret a)"

text \<open>The handler \<open>APIHandler\<close> registers for a route.\<close>

definition served_by :: "endpoint \<Rightarrow> handler" where
  "served_by r = (if ep_access r = AccessPublic then ep_handler r
     else authorize (ep_access r) (if ep_method r \<noteq> ''GET'' \<and> \<not> ep_quiet r then publishing (ep_handler r) else ep_handler r))"

section \<open>The mux\<close>

text \<open>
  A request to the API: the segments of its escaped path, each decoded, which net/http has found
  clean; the decoded query, two headers and the body. The other fields are what the proxy reads.
\<close>

record api_request = http_request +
  rq_segs :: "string list"
  rq_query :: "(string \<times> string) list"
  rq_auth :: string
  rq_origin :: string
  rq_content :: string

text \<open>A wildcard takes one segment that is not empty; a lone decoded slash counts as empty.\<close>

definition wildcard :: "string \<Rightarrow> bool" where
  "wildcard p \<longleftrightarrow> p \<noteq> [] \<and> hd p = CHR ''{''"

definition wildcard_name :: "string \<Rightarrow> string" where
  "wildcard_name p = butlast (tl p)"

fun match_segs :: "string list \<Rightarrow> string list \<Rightarrow> (string \<times> string) list option" where
  "match_segs [] [] = Some []"
| "match_segs (p # ps) (s # ss) =
     (if wildcard p then (if s = [] \<or> s = ''/'' then None else map_option ((#) (wildcard_name p, s)) (match_segs ps ss))
      else if p = s then match_segs ps ss else None)"
| "match_segs _ _ = None"

definition pattern_segs :: "endpoint \<Rightarrow> string list" where
  "pattern_segs r = ''api'' # ''v1'' # ep_path r"

text \<open>A pattern for GET also takes HEAD.\<close>

definition method_matches :: "string \<Rightarrow> string \<Rightarrow> bool" where
  "method_matches p m \<longleftrightarrow> p = m \<or> p = ''GET'' \<and> m = ''HEAD''"

definition matches :: "endpoint \<Rightarrow> string \<Rightarrow> string list \<Rightarrow> (string \<times> string) list option" where
  "matches r m ss = (if method_matches (ep_method r) m then match_segs (pattern_segs r) ss else None)"

fun first_match :: "endpoint list \<Rightarrow> string \<Rightarrow> string list \<Rightarrow> (endpoint \<times> (string \<times> string) list) option" where
  "first_match [] m ss = None"
| "first_match (r # rs) m ss = (case matches r m ss of Some vars \<Rightarrow> Some (r, vars) | None \<Rightarrow> first_match rs m ss)"

text \<open>The two pages of documentation are public and not in the table.\<close>

definition doc_routes :: "(string \<Rightarrow> handler) \<Rightarrow> endpoint list" where
  "doc_routes others = [route_at ''GET'' [''openapi.json''] AccessPublic (others ''openapiJSON'') [],
     route_at ''GET'' [''docs''] AccessPublic (others ''docsPage'') []]"

definition api_routes :: "(string \<Rightarrow> handler) \<Rightarrow> endpoint list" where
  "api_routes others = route_table others @ doc_routes others"

definition plain :: "nat \<Rightarrow> (string \<times> string) list \<Rightarrow> string \<Rightarrow> response" where
  "plain st hs content = \<lparr>rs_status = st, rs_headers = hs @ [(''Content-Type'', ''text/plain; charset=utf-8''),
     (''X-Content-Type-Options'', ''nosniff'')], rs_body = BytesBody content\<rparr>"

definition zero_user :: user where
  "zero_user = \<lparr>u_id = 0, u_username = [], u_email = [], u_hash = [], u_role = OtherUserRole [], u_disabled = None,
     u_avatar = None, u_created = zero_time, u_updated = zero_time\<rparr>"

definition zero_project :: project where
  "zero_project = \<lparr>p_id = 0, p_slug = [], p_name = [], p_credential = None, p_image = [], p_port = 0, p_env = [],
     p_form = OtherForm [], p_by = None, p_created = zero_time, p_updated = zero_time\<rparr>"

definition zero_access :: access where
  "zero_access = \<lparr>acc_project = zero_project, acc_user = 0, acc_role = no_role, acc_all = False\<rparr>"

definition new_call :: "'a api_request_scheme \<Rightarrow> (string \<times> string) list \<Rightarrow> call" where
  "new_call q vars = \<lparr>cl_query = rq_query q, cl_auth = rq_auth q, cl_content = rq_content q, cl_vars = vars,
     cl_user = zero_user, cl_access = zero_access\<rparr>"

definition mux :: "(string \<Rightarrow> handler) \<Rightarrow> server \<Rightarrow> api_request \<Rightarrow> (world, response) io" where
  "mux others sv q = (case first_match (api_routes others) (rq_method q) (rq_segs q) of
       Some (r, vars) \<Rightarrow> served_by r sv (new_call q vars)
     | None \<Rightarrow> (let allowed = filter (\<lambda>r. match_segs (pattern_segs r) (rq_segs q) \<noteq> None) (api_routes others);
           methods = remdups (concat (map (\<lambda>r. if ep_method r = ''GET'' then [''GET'', ''HEAD''] else [ep_method r]) allowed)) in
         ret (if allowed = [] then plain 404 [] (''404 page not found'' @ nl)
           else plain 405 [(''Allow'', join_with '', '' (sort methods))] (''Method Not Allowed'' @ nl))))"

definition cors :: "api_request \<Rightarrow> (world, response) io \<Rightarrow> (world, response) io" where
  "cors q m = (let hs = (if rq_origin q \<noteq> [] then [(''Access-Control-Allow-Origin'', ''*''), (''Vary'', ''Origin''),
       (''Access-Control-Allow-Methods'', ''GET, POST, PUT, PATCH, DELETE, OPTIONS''),
       (''Access-Control-Allow-Headers'', ''Authorization, Content-Type'')] else []) in
     if rq_method q = ''OPTIONS'' then ret \<lparr>rs_status = 204, rs_headers = hs, rs_body = NoBody\<rparr>
     else io_bind m (\<lambda>a. ret (a\<lparr>rs_headers := hs @ rs_headers a\<rparr>)))"

definition api_handler :: "(string \<Rightarrow> handler) \<Rightarrow> server \<Rightarrow> api_request \<Rightarrow> (world, response) io" where
  "api_handler others sv q = cors q (mux others sv q)"

section \<open>The application\<close>

datatype app_answer = ApiAnswer response | ProxyAnswer served

definition application :: "(string \<Rightarrow> handler) \<Rightarrow> server \<Rightarrow> api_request \<Rightarrow> (world, app_answer) io" where
  "application others sv q = (if rq_path q = ''/api/v1'' \<or> take 8 (rq_path q) = ''/api/v1/''
     then io_bind (api_handler others sv q) (\<lambda>a. ret (ApiAnswer a))
     else (\<lambda>w. case reg_serve (ext w) (now w) (http_request.truncate q) (sites w) of
         (a, m) \<Rightarrow> (Inr (ProxyAnswer a), w\<lparr>sites := m\<rparr>)))"

end
