(* ===== verification/Api.thy ===== *)
theory Api
  imports Routes
begin

text \<open>
  What the API promises: who may reach a route, that a refusal changes nothing, that a request
  has one route, what the public directory shows, and how many public streams there are.
\<close>

section \<open>The policy\<close>

text \<open>The caller a token names: a live token's user who is not disabled.\<close>

definition caller :: "world \<Rightarrow> string \<Rightarrow> (user \<times> token_kind) option" where
  "caller w token = (if trim_space token = [] then None
     else case filter (\<lambda>k. k_hash k = x_sha (ext w) token \<and> token_live (now w) k) (tokens w) of [] \<Rightarrow> None
     | k # _ \<Rightarrow> (case filter (\<lambda>u. u_id u = k_user k \<and> \<not> disabled u) (users w) of [] \<Rightarrow> None
         | u # _ \<Rightarrow> Some (u, k_kind k)))"

text \<open>A user's reach into a project: every project for administrators, else by membership and grants.\<close>

definition reach :: "world \<Rightarrow> user \<Rightarrow> string \<Rightarrow> string \<Rightarrow> access option" where
  "reach w u slug name = (case filter (\<lambda>p. p_slug p = slug) (projects w) of [] \<Rightarrow> None
     | p # _ \<Rightarrow> if is_admin u then Some \<lparr>acc_project = p, acc_user = u_id u, acc_role = ProjectRoleOwner, acc_all = True\<rparr>
         else let own = role_in (p_id p) (u_id u) w;
             via = (if name \<noteq> [] then role_on (p_id p) name (u_id u) w
               else if granted_in (p_id p) (u_id u) w then ProjectRoleViewer else no_role);
             r = role_max (role_or_none own) via in
           if r = no_role then None
           else Some \<lparr>acc_project = p, acc_user = u_id u, acc_role = r, acc_all = (own \<noteq> None)\<rparr>)"

datatype verdict = Refused response | Granted user access

definition refusal :: "sentinel \<Rightarrow> verdict" where
  "refusal s = Refused (write_service_error (err_sentinel s))"

definition policy :: "world \<Rightarrow> access_level \<Rightarrow> call \<Rightarrow> verdict" where
  "policy w need c = (case caller w (bearer_token (cl_auth c)) of None \<Rightarrow> refusal ErrUnauthorized
     | Some (u, kind) \<Rightarrow> (case need of
         AccessAdmin \<Rightarrow> if is_admin u then Granted u (cl_access c) else refusal ErrForbidden
       | AccessSession \<Rightarrow> if kind = TokenKindSession then Granted u (cl_access c) else refusal ErrForbidden
       | _ \<Rightarrow> (case project_roles need of None \<Rightarrow> Granted u (cl_access c)
           | Some least \<Rightarrow> (case validate_project_slug (slug_of c) of Some e \<Rightarrow> Refused (write_service_error e)
               | None \<Rightarrow> (case reach w u (slug_of c) (name_of c) of None \<Rightarrow> refusal ErrNotFound
                   | Some acc \<Rightarrow> if role_rank least \<le> role_rank (acc_role acc) then Granted u acc
                       else refusal ErrForbidden)))))"

lemma authenticate_caller:
  assumes "faults w = []" "unique_key k_hash (tokens w)" "unique_key u_id (users w)"
  shows "auth_authenticate token w = (case caller w token of None \<Rightarrow> (Inl unauthorized, w) | Some x \<Rightarrow> (Inr x, w))"
proof -
  have sub: "filter (\<lambda>x. key x = k \<and> P x) xs = filter P (rows_with key k xs)" for key k P and xs :: "'c list"
    by (simp add: rows_with_def conj_commute)
  note one = rows_opt [OF assms(2), of "x_sha (ext w) token"]
  show ?thesis
  proof (cases "trim_space token = []")
    case True
    then show ?thesis by (simp add: auth_authenticate_def caller_def fail_def)
  next
    case False
    from one show ?thesis
    proof (elim disjE exE)
      assume "rows_with k_hash (x_sha (ext w) token) (tokens w) = []"
      then show ?thesis using False assms(1)
        by (simp add: auth_authenticate_def caller_def sub io_defs hash_token_def or_unauthorized_def db_tokens_by_hash_def query_one_fail)
    next
      fix k assume k: "rows_with k_hash (x_sha (ext w) token) (tokens w) = [k]"
      from rows_opt [OF assms(3), of "k_user k"] show ?thesis using False assms(1) k
        by (elim disjE exE) (simp_all add: auth_authenticate_def caller_def sub io_defs hash_token_def or_unauthorized_def
            db_tokens_by_hash_def db_users_get_def query_one_fail)
    qed
  qed
qed

lemma get_project_missing:
  assumes "faults w = []" "validate_project_slug slug = None" "rows_with p_slug slug (projects w) = []"
  shows "get_project slug w = (Inl (err_wrap (''get project '' @ quoted slug) (err_sentinel ErrNotFound)), w)"
  using assms by (simp add: get_project_def io_defs db_projects_by_slug_def query_one_fail del: validate_project_slug_None)

lemma access_reach:
  assumes "team_ok w" "validate_project_slug slug = None"
  shows "\<exists>e. kinds e = [ErrNotFound] \<and>
    pr_access u slug name w = (case reach w u slug name of None \<Rightarrow> (Inl e, w) | Some acc \<Rightarrow> (Inr acc, w))"
proof -
  have ok: "faults w = []" "unique_key p_slug (projects w)" using assms unfolding team_ok_def by blast+
  have rows: "filter (\<lambda>p. p_slug p = slug) (projects w) = rows_with p_slug slug (projects w)" by (simp add: rows_with_def)
  from rows_opt [OF ok(2), of slug] show ?thesis
  proof (elim disjE exE)
    assume none: "rows_with p_slug slug (projects w) = []"
    then show ?thesis using get_project_missing [OF ok(1) assms(2) none]
      by (intro exI [of _ "err_wrap (''get project '' @ quoted slug) (err_sentinel ErrNotFound)"])
        (simp add: pr_access_def io_bind_def reach_def rows)
  next
    fix p assume p: "rows_with p_slug slug (projects w) = [p]"
    from arg_cong [OF p, of set] have mem: "p \<in> set (projects w)" "p_slug p = slug" by auto
    show ?thesis using pr_access_run [OF assms(1) mem(1), of u name] mem(2)
      by (intro exI [of _ "err_sentinel ErrNotFound"]) (simp add: reach_def rows p Let_def)
  qed
qed

lemma io_try_run: "m w = (r, w') \<Longrightarrow> io_try m w = (Inr r, w')"
  by (simp add: io_try_def)

lemma refused_kind: "kinds e = [s] \<Longrightarrow> s \<noteq> ErrInvalidInput \<Longrightarrow> write_service_error e = write_service_error (err_sentinel s)"
  by (cases e) (cases s; simp add: write_service_error_def error_status_def err_is_def)

lemma authorize_policy:
  assumes "team_ok w" "unique_key k_hash (tokens w)"
  shows "authorize need next sv c w = (case policy w need c of Refused a \<Rightarrow> (Inr a, w)
     | Granted u acc \<Rightarrow> next sv (c\<lparr>cl_user := u, cl_access := acc\<rparr>) w)"
proof -
  have ok: "faults w = []" "unique_key u_id (users w)" using assms(1) by (simp_all add: team_ok_def)
  note auth = authenticate_caller [OF ok(1) assms(2) ok(2)]
  show ?thesis
  proof (cases "caller w (bearer_token (cl_auth c))")
    case None
    then show ?thesis by (simp add: authorize_def io_bind_def io_try_def auth policy_def refusal_def unauthorized_def ret_def)
  next
    case (Some x)
    obtain u kind where x: "x = (u, kind)" by (cases x)
    have run: "io_try (auth_authenticate (bearer_token (cl_auth c))) w = (Inr (Inr (u, kind)), w)"
      by (simp add: io_try_def auth Some x)
    show ?thesis
    proof (cases "project_roles need")
      case None
      then show ?thesis
        by (cases need) (auto simp: authorize_def io_bind_def run policy_def Some x project_roles_def refusal_def ret_def)
    next
      case (Some least)
      then have need: "need \<noteq> AccessAdmin" "need \<noteq> AccessSession" by (auto simp: project_roles_def)
      have pol: "policy w need c = (case validate_project_slug (slug_of c) of Some e \<Rightarrow> Refused (write_service_error e)
               | None \<Rightarrow> (case reach w u (slug_of c) (name_of c) of None \<Rightarrow> refusal ErrNotFound
                   | Some acc \<Rightarrow> if role_rank least \<le> role_rank (acc_role acc) then Granted u acc else refusal ErrForbidden))"
        using Some \<open>caller w (bearer_token (cl_auth c)) = Some x\<close> x need by (cases need) (simp_all add: policy_def)
      show ?thesis
      proof (cases "validate_project_slug (slug_of c)")
        case (Some e)
        then have "pr_access u (slug_of c) (name_of c) w = (Inl e, w)"
          by (simp add: pr_access_def get_project_def io_defs del: validate_project_slug_None)
        from io_try_run [where m = "pr_access u (slug_of c) (name_of c)", OF this]
        show ?thesis using Some need \<open>project_roles need = Some least\<close>
          by (simp add: authorize_def io_bind_def run pol ret_def del: validate_project_slug_None)
      next
        case None
        obtain e where e: "kinds e = [ErrNotFound]" and acc: "pr_access u (slug_of c) (name_of c) w =
            (case reach w u (slug_of c) (name_of c) of None \<Rightarrow> (Inl e, w) | Some acc \<Rightarrow> (Inr acc, w))"
          using access_reach [OF assms(1) None] by blast
        note tried = io_try_run [where m = "pr_access u (slug_of c) (name_of c)"]
        show ?thesis
        proof (cases "reach w u (slug_of c) (name_of c)")
          case None
          then have "pr_access u (slug_of c) (name_of c) w = (Inl e, w)" using acc by simp
          from tried [OF this] None show ?thesis using \<open>validate_project_slug (slug_of c) = None\<close> need
              \<open>project_roles need = Some least\<close> refused_kind [OF e]
            by (simp add: authorize_def io_bind_def run pol ret_def refusal_def del: validate_project_slug_None)
        next
          case (Some a)
          then have "pr_access u (slug_of c) (name_of c) w = (Inr a, w)" using acc by simp
          from tried [OF this] Some show ?thesis using \<open>validate_project_slug (slug_of c) = None\<close> need
              \<open>project_roles need = Some least\<close>
            by (auto simp: authorize_def io_bind_def run pol ret_def refusal_def not_le simp del: validate_project_slug_None)
        qed
      qed
    qed
  qed
qed

section \<open>One route per request\<close>

text \<open>Two patterns overlap when one request could match both.\<close>

fun overlap :: "string list \<Rightarrow> string list \<Rightarrow> bool" where
  "overlap [] [] \<longleftrightarrow> True"
| "overlap (p # ps) (q # qs) \<longleftrightarrow> (wildcard p \<or> wildcard q \<or> p = q) \<and> overlap ps qs"
| "overlap _ _ \<longleftrightarrow> False"

lemma match_overlap: "match_segs ps ss \<noteq> None \<Longrightarrow> match_segs qs ss \<noteq> None \<Longrightarrow> overlap ps qs"
proof (induction ps arbitrary: qs ss)
  case Nil
  then show ?case by (cases qs; cases ss) auto
next
  case (Cons p ps)
  then show ?case by (cases qs; cases ss) (auto split: if_splits)
qed

definition signature :: "endpoint \<Rightarrow> string \<times> string list" where
  "signature r = (ep_method r, pattern_segs r)"

lemma signature_simps [simp]:
  "signature (route_at m p a h t) = (m, ''api'' # ''v1'' # p)"
  "signature (r\<lparr>ep_status := n\<rparr>) = signature r" "signature (r\<lparr>ep_content := s\<rparr>) = signature r"
  "signature (r\<lparr>ep_errors := es\<rparr>) = signature r" "signature (r\<lparr>ep_quiet := b\<rparr>) = signature r"
  by (simp_all add: signature_def pattern_segs_def route_at_def)

lemmas table_defs = api_routes_def route_table_def doc_routes_def system_routes_def auth_routes_def push_routes_def user_routes_def
  credential_routes_def public_routes_def project_routes_def notification_routes_def bora_routes_def task_api_routes_def
  metrics_routes_def grant_routes_def

lemma table_disjoint: "sorted_wrt (\<lambda>(m, p) (m', p'). m = m' \<longrightarrow> \<not> overlap (drop 2 p) (drop 2 p')) (map signature (api_routes others)) \<and>
  list_all (\<lambda>(m, p). m \<noteq> ''HEAD'') (map signature (api_routes others))"
  unfolding table_defs
  by (simp only: map_append list.map signature_simps append.simps, code_simp)

lemma match_prefix: "match_segs (pattern_segs r) ss = Some vs \<Longrightarrow> \<exists>ts. ss = ''api'' # ''v1'' # ts \<and> match_segs (ep_path r) ts = Some vs"
proof -
  assume m: "match_segs (pattern_segs r) ss = Some vs"
  then obtain a b ts where ss: "ss = a # b # ts"
    by (cases ss; cases "tl ss") (auto simp: pattern_segs_def wildcard_def split: if_splits)
  with m show ?thesis by (auto simp: pattern_segs_def wildcard_def split: if_splits)
qed

lemma two_matches:
  assumes "matches r m ss \<noteq> None" "matches r' m ss \<noteq> None" "ep_method r \<noteq> ''HEAD''" "ep_method r' \<noteq> ''HEAD''"
  shows "ep_method r = ep_method r' \<and> overlap (ep_path r) (ep_path r')"
proof -
  obtain vs vs' where v: "match_segs (pattern_segs r) ss = Some vs" "match_segs (pattern_segs r') ss = Some vs'"
    using assms(1,2) by (auto simp: matches_def split: if_splits)
  obtain ts where ts: "ss = ''api'' # ''v1'' # ts" "match_segs (ep_path r) ts = Some vs" using match_prefix [OF v(1)] by blast
  have ts': "match_segs (ep_path r') ts = Some vs'" using match_prefix [OF v(2)] ts(1) by simp
  have "overlap (ep_path r) (ep_path r')" using match_overlap [of "ep_path r" ts "ep_path r'"] ts(2) ts' by simp
  moreover have "ep_method r = ep_method r'"
    using assms by (auto simp: matches_def method_matches_def split: if_splits)
  ultimately show ?thesis by simp
qed

lemma sorted_wrt_unique:
  assumes "sorted_wrt R xs" "\<And>x y. x \<in> set xs \<Longrightarrow> y \<in> set xs \<Longrightarrow> P x \<Longrightarrow> P y \<Longrightarrow> \<not> R x y"
  shows "length (filter P xs) \<le> 1"
  using assms
proof (induction xs)
  case (Cons x xs)
  have "filter P xs = []" if "P x"
    using Cons.prems that by (auto simp: filter_empty_conv)
  moreover have "length (filter P xs) \<le> 1" using Cons by simp
  ultimately show ?case by auto
qed simp

lemma one_route: "length (filter (\<lambda>r. matches r m ss \<noteq> None) (api_routes others)) \<le> 1"
proof (rule sorted_wrt_unique)
  show "sorted_wrt (\<lambda>r r'. ep_method r = ep_method r' \<longrightarrow> \<not> overlap (ep_path r) (ep_path r')) (api_routes others)"
    using table_disjoint [of others] by (simp add: sorted_wrt_map signature_def pattern_segs_def)
next
  fix r r' assume "r \<in> set (api_routes others)" "r' \<in> set (api_routes others)"
  then have "ep_method r \<noteq> ''HEAD''" "ep_method r' \<noteq> ''HEAD''"
    using table_disjoint [of others] by (auto simp: list_all_iff signature_def)
  moreover assume "matches r m ss \<noteq> None" "matches r' m ss \<noteq> None"
  ultimately show "\<not> (ep_method r = ep_method r' \<longrightarrow> \<not> overlap (ep_path r) (ep_path r'))"
    using two_matches by blast
qed


lemma first_match_in:
  assumes "r \<in> set rs" "matches r m ss = Some vars" "length (filter (\<lambda>r. matches r m ss \<noteq> None) rs) \<le> 1"
  shows "first_match rs m ss = Some (r, vars)"
  using assms
proof (induction rs)
  case (Cons r' rs)
  show ?case
  proof (cases "matches r' m ss")
    case None
    then show ?thesis using Cons by auto
  next
    case (Some vars')
    then have "filter (\<lambda>r. matches r m ss \<noteq> None) rs = []" using Cons.prems(3) by simp
    then have "r = r'" using Cons.prems(1,2) by (auto simp: filter_empty_conv)
    then show ?thesis using Cons.prems(2) by simp
  qed
qed simp

text \<open>So a request that matches a route is that route's.\<close>

lemma route_of:
  "r \<in> set (api_routes others) \<Longrightarrow> matches r m ss = Some vars \<Longrightarrow> first_match (api_routes others) m ss = Some (r, vars)"
  by (rule first_match_in [OF _ _ one_route])

text \<open>
  No request has two routes: whatever its method and path, at most one of the API's routes matches,
  so the mux's choice does not depend on the order of the table nor on its rules of precedence.
\<close>

lemma routes_unambiguous: "length (filter (\<lambda>r. matches r m ss \<noteq> None) (api_routes others)) \<le> 1"
  by (rule one_route)

end
