(* ===== verification/Bora_Proposals.thy ===== *)
theory Bora_Proposals
  imports Bora_Actions Api
begin

text \<open>
  What the buttons under an answer may do: a proposal is refused or appends one action that the
  actor's role allows, with the fields its operation takes, and the role an operation needs is the
  one its route requires.
\<close>

section \<open>What a tool leaves alone\<close>

text \<open>What only \<open>propose\<close> itself, and never the checks of its fields, changes.\<close>

definition answer_view :: "answering \<Rightarrow> user \<times> access list \<times> fleet_task list \<times> bool \<times> bora_action list" where
  "answer_view s = (br_actor s, br_members s, br_tasks s, br_tainted s, br_actions s)"

lemma keeps_on_world [keeps_intros]: "(\<And>s w. f (s\<lparr>an_world := w\<rparr>) = f s) \<Longrightarrow> keeps f (on_world m)"
  by (auto simp: keeps_def on_world_def split: prod.splits)

lemma keeps_told [keeps_intros]: "keeps f (told t)"
  by (simp add: told_def)

text \<open>The tables, which a tool only reads: a statement may use up a fault.\<close>

definition tables_of :: "world \<Rightarrow> world" where
  "tables_of w = w\<lparr>faults := []\<rparr>"

lemma keeps_on_world_tables [keeps_intros]: "keeps tables_of m \<Longrightarrow> keeps (\<lambda>s. tables_of (an_world s)) (on_world m)"
  by (auto simp: keeps_def on_world_def split: prod.splits) (metis snd_conv)

lemma tables_faults [simp]: "tables_of (w\<lparr>faults := fs\<rparr>) = tables_of w"
  by (simp add: tables_of_def)

lemma answer_view_world [simp]: "answer_view (s\<lparr>an_world := w\<rparr>) = answer_view s"
  by (simp add: answer_view_def)

lemma keeps_reads [keeps_intros]:
  "keeps tables_of db_credentials_list" "keeps tables_of (db_grants_for_task i)" "keeps tables_of (db_users_by_name s)"
  "keeps tables_of (db_list_members i)" "keeps tables_of (db_grants_any i j)"
  unfolding db_credentials_list_def db_grants_for_task_def db_users_by_name_def db_list_members_def db_grants_any_def
  by (intro keeps_intros; simp)+

lemmas field_defs = task_update_def named_credential_def project_update_def holds_grant_def bora_person_def set_action_role_def
  action_ranges_def action_fields_def task_role_def check_env_def Let_def

lemma fields_keep: "keeps answer_view (action_fields bl acc p act)" "keeps (\<lambda>s. tables_of (an_world s)) (action_fields bl acc p act)"
  "keeps answer_view (task_role acc oper p)" "keeps (\<lambda>s. tables_of (an_world s)) (task_role acc oper p)"
  unfolding field_defs by (intro keeps_intros answer_view_world)+


section \<open>What a button may hold\<close>

text \<open>The change of variables \<open>checkEnv\<close> lets through.\<close>

definition env_change :: "strmap \<Rightarrow> string list \<Rightarrow> bool" where
  "env_change sets unsets \<longleftrightarrow> (sets \<noteq> [] \<or> unsets \<noteq> []) \<and> list_all env_key (map fst sets @ unsets) \<and> validate_env sets = None \<and>
     (\<forall>k \<in> set unsets. map_of sets k = None)"

text \<open>The person an operation names has an account that is not disabled, and is of the project unless an administrator names them.\<close>

definition names_person :: "world \<Rightarrow> user \<Rightarrow> uuid \<Rightarrow> bora_action \<Rightarrow> bool" where
  "names_person w actor p a \<longleftrightarrow> (\<exists>u \<in> set (users w). u_id u = ac_user a \<and> u_username u = ac_username a \<and> \<not> disabled u \<and>
     (is_admin actor \<or> (\<exists>m \<in> set (members w). m_project m = p \<and> m_user m = u_id u) \<or> granted_in p (u_id u) w))"

definition in_ranges :: "bora_action \<Rightarrow> bool" where
  "in_ranges a \<longleftrightarrow> 0 \<le> ac_port a \<and> ac_port a \<le> 65535 \<and> 0 \<le> ac_default_port a \<and> ac_default_port a \<le> 65535 \<and>
     (dev_str (ac_dev a) = [] \<or> validate_dev_status (ac_dev a) = None)"

definition fields_allowed :: "world \<Rightarrow> user \<Rightarrow> uuid \<Rightarrow> bora_action \<Rightarrow> bool" where
  "fields_allowed w actor p a \<longleftrightarrow> in_ranges a \<and> validate_volumes (ac_volumes a) = None \<and>
     (ac_op a = ''task.env'' \<longrightarrow> env_change (ac_set a) (ac_unset a)) \<and>
     (ac_op a \<in> set person_ops \<longrightarrow> names_person w actor p a) \<and>
     (ac_op a = ''member.add'' \<or> ac_op a = ''member.role'' \<longrightarrow> 0 < role_rank (ac_role a)) \<and>
     (ac_op a = ''grant.add'' \<longrightarrow> 0 < role_rank (ac_role a) \<and> role_rank (ac_role a) < role_rank ProjectRoleOwner) \<and>
     (ac_credential a \<noteq> None \<longrightarrow> is_admin actor \<and> ac_op a = ''project.update'')"

lemma on_world_ok: "on_world m s = (r, s') \<longleftrightarrow> (\<exists>w. m (an_world s) = (r, w) \<and> s' = s\<lparr>an_world := w\<rparr>)"
  by (auto simp: on_world_def split: prod.splits)

lemma told_ok [simp]: "told t s = (Inr a, s') \<longleftrightarrow> False"
  by (simp add: told_def fail_def)

lemma or_told: "(case r of Inl e \<Rightarrow> told t | Inr x \<Rightarrow> k x) s = (Inr a, s') \<longleftrightarrow> (\<exists>x. r = Inr x \<and> k x s = (Inr a, s'))"
  "(case r of Inl e \<Rightarrow> if c e then told t else told (t' e) | Inr x \<Rightarrow> k x) s = (Inr a, s') \<longleftrightarrow> (\<exists>x. r = Inr x \<and> k x s = (Inr a, s'))"
  "(if b then told t else m) s = (Inr a, s') \<longleftrightarrow> \<not> b \<and> m s = (Inr a, s')"
  "(case v of None \<Rightarrow> told t | Some y \<Rightarrow> k' y) s = (Inr a, s') \<longleftrightarrow> (\<exists>y. v = Some y \<and> k' y s = (Inr a, s'))"
  by (auto split: sum.splits option.splits)

lemma check_env_ok: "check_env sets unsets s = (Inr u, s') \<Longrightarrow> env_change sets unsets"
  by (auto simp: check_env_def env_change_def find_None_iff list_all_iff list_ex_iff run_ok split: if_split_asm option.split_asm)

lemma action_ranges_ok: "action_ranges a s = (Inr b, s') \<longleftrightarrow> b = a \<and> s' = s \<and> in_ranges a"
  by (auto simp: action_ranges_def in_ranges_def run_ok split: if_splits)

lemma task_update_ok: "task_update p act s = (Inr a, s') \<Longrightarrow> validate_volumes (pp_volumes p) = None \<and> a = act\<lparr>ac_description := pp_description p,
    ac_note := pp_note p, ac_dev := pp_dev p, ac_image := trim_space (pp_image p), ac_port := pp_port p, ac_restart := pp_restart p, ac_volumes := pp_volumes p\<rparr>"
  by (auto simp: task_update_def Let_def run_ok split: if_splits)

lemma named_credential_ok: "named_credential bl name act s = (Inr a, s') \<Longrightarrow> is_admin (br_actor s) \<and> (\<exists>i. a = act\<lparr>ac_credential := Some i\<rparr>)"
  by (auto simp: named_credential_def run_ok or_told split: if_split_asm)

lemma project_update_ok:
  assumes "project_update bl p act s = (Inr a, s')" "ac_credential act = None"
  shows "(ac_credential a = None \<or> is_admin (br_actor s)) \<and> ac_op a = ac_op act \<and> ac_project a = ac_project act \<and> ac_task a = ac_task act \<and>
    ac_volumes a = ac_volumes act \<and> ac_reason a = ac_reason act"
  using assms by (auto simp: project_update_def Let_def run_ok check_env_def dest!: named_credential_ok split: if_split_asm option.split_asm)

lemma set_action_role_ok: "set_action_role r act s = (Inr a, s') \<Longrightarrow> s' = s \<and> (\<exists>r'. a = act\<lparr>ac_role := r'\<rparr>) \<and>
    (ac_op act = ''member.add'' \<or> ac_op act = ''member.role'' \<longrightarrow> 0 < role_rank (ac_role a)) \<and>
    (ac_op act = ''grant.add'' \<longrightarrow> 0 < role_rank (ac_role a) \<and> role_rank (ac_role a) < role_rank ProjectRoleOwner)"
  using role_rank_bounds [of r] by (auto simp: set_action_role_def run_ok le_less split: if_splits intro: exI [of _ "ac_role act"])

lemma holds_grant_ok: "holds_grant acc name u s = (Inr v, s') \<Longrightarrow> tables_of (an_world s') = tables_of (an_world s)"
  unfolding holds_grant_def Let_def by (rule keepsD [where f = "\<lambda>s. tables_of (an_world s)", rotated]) (assumption, intro keeps_intros)

lemma with_user_user [simp]: "m_user (with_user w m) = m_user m"
  by (simp add: with_user_def split: list.splits)

lemma bora_person_ok:
  assumes "bora_person acc p act s = (Inr a, s')"
  shows "(\<exists>i n. a = act\<lparr>ac_user := i, ac_username := n\<rparr>) \<and> names_person (an_world s) (br_actor s) (p_id (acc_project acc)) a"
proof -
  obtain u w ms w1 g w2 where run: "db_users_by_name (pp_username p) (an_world s) = (Inr u, w)"
      "db_list_members (p_id (acc_project acc)) w = (Inr ms, w1)" "db_grants_any (p_id (acc_project acc)) (u_id u) w1 = (Inr g, w2)"
    and a: "\<not> disabled u" "is_admin (br_actor s) \<or> list_ex (\<lambda>m. m_user m = u_id u) ms \<or> g" "a = act\<lparr>ac_user := u_id u, ac_username := u_username u\<rparr>"
    using assms by (auto simp: bora_person_def Let_def run_ok or_told on_world_ok split: if_split_asm)
  note q = query_ok(1) [OF run(1) [unfolded db_users_by_name_def]] query_ok(2) [OF run(2) [unfolded db_list_members_def]]
    db_call_ok [OF run(3) [unfolded db_grants_any_def]]
  have u: "u \<in> set (users (an_world s))" using q(1) by (auto simp: rows_with_def filter_eq_Cons_iff)
  have g: "g = granted_in (p_id (acc_project acc)) (u_id u) (an_world s)" using q by (auto simp: run_simps granted_in_def)
  have m: "\<exists>m \<in> set (members (an_world s)). m_project m = p_id (acc_project acc) \<and> m_user m = u_id u" if "list_ex (\<lambda>m. m_user m = u_id u) ms"
    using that q by (clarsimp simp: list_ex_iff) blast
  show ?thesis using a u g m by (auto simp: names_person_def)
qed


lemma no_errors [simp]: "validate_volumes [] = None" "validate_env [] = None"
  by simp_all

lemma zero_action_simps [simp]: "ac_role zero_action = no_role" "ac_dev zero_action = OtherDev []" "ac_port zero_action = 0"
  "ac_default_port zero_action = 0" "ac_volumes zero_action = []" "ac_credential zero_action = None" "ac_user zero_action = 0"
  by (simp_all add: zero_action_def)

lemma action_fields_ok:
  assumes run: "action_fields bl acc p act s = (Inr a, s')"
    and act: "act = zero_action\<lparr>ac_op := op, ac_project := slug, ac_task := task, ac_reason := reason\<rparr>"
  shows "fields_allowed (an_world s) (br_actor s) (p_id (acc_project acc)) a \<and>
    ac_op a = op \<and> ac_project a = slug \<and> ac_task a = task \<and> ac_reason a = reason"
proof (cases "op \<in> set person_ops")
  case True
  then obtain b s1 where b: "bora_person acc p act s = (Inr b, s1)" "set_action_role (pp_role p) b s1 = (Inr a, s')"
    using run act by (auto simp: action_fields_def bind_ok_iff person_ops_def)
  obtain i n where i: "b = act\<lparr>ac_user := i, ac_username := n\<rparr>" using bora_person_ok [OF b(1)] by auto
  obtain r where r: "a = b\<lparr>ac_role := r\<rparr>" using set_action_role_ok [OF b(2)] by auto
  have "names_person (an_world s) (br_actor s) (p_id (acc_project acc)) a"
    using bora_person_ok [OF b(1)] r by (simp add: names_person_def)
  moreover have "ac_op b = op" using i act by simp
  ultimately show ?thesis using True set_action_role_ok [OF b(2)] i r act
    by (auto simp: fields_allowed_def in_ranges_def person_ops_def)
next
  case False
  then have no: "op \<noteq> ''member.add''" "op \<noteq> ''member.role''" "op \<noteq> ''grant.add''" by (auto simp: person_ops_def)
  consider "op = ''task.create''" | "op = ''task.update''" | "op = ''task.env''" | "op = ''project.update''"
    | "op \<noteq> ''task.create'' \<and> op \<noteq> ''task.update'' \<and> op \<noteq> ''task.env'' \<and> op \<noteq> ''project.update''" by blast
  then show ?thesis
  proof cases
    case 1
    then show ?thesis using run act False by (auto simp: action_fields_def action_ranges_ok fields_allowed_def)
  next
    case 2
    then obtain b s1 where "task_update p act s = (Inr b, s1)" "a = b" "in_ranges a"
      using run act False by (auto simp: action_fields_def action_ranges_ok bind_ok_iff)
    with task_update_ok [OF this(1)] 2 act False no show ?thesis by (simp add: fields_allowed_def)
  next
    case 3
    then show ?thesis using run act False
      by (auto simp: action_fields_def fields_allowed_def in_ranges_def run_ok check_env_ok)
  next
    case 4
    then obtain b s1 where "project_update bl p act s = (Inr b, s1)" "a = b" "in_ranges a"
      using run act False by (auto simp: action_fields_def action_ranges_ok bind_ok_iff)
    note up = project_update_ok [OF this(1)] this(2,3)
    have "ac_credential act = None" "ac_op act = op" "ac_volumes act = []" "ac_project act = slug" "ac_task act = task" "ac_reason act = reason"
      using act by simp_all
    with up 4 False no show ?thesis by (cases "ac_credential b"; simp add: fields_allowed_def)
  next
    case 5
    then have "action_fields bl acc p act s = action_ranges act s" using act False by (simp add: action_fields_def)
    with run have "action_ranges act s = (Inr a, s')" by simp
    then have "a = act" "in_ranges act" by (simp_all add: action_ranges_ok)
    then show ?thesis using 5 act False no by (simp add: fields_allowed_def)
  qed
qed

section \<open>One proposal\<close>

text \<open>The actor's role where an operation acts: on its task where it names one, else on the project.\<close>

definition role_at :: "'b bora_scheme \<Rightarrow> access \<Rightarrow> string \<Rightarrow> string \<Rightarrow> project_role" where
  "role_at b acc op name = (if on_task op then (case bora_task b acc name of Some ft \<Rightarrow> ft_role ft | None \<Rightarrow> acc_role acc) else acc_role acc)"

text \<open>A task operation names a task of the project by a valid name; \<open>task.create\<close> one that does not exist.\<close>

definition names_task :: "'b bora_scheme \<Rightarrow> access \<Rightarrow> bora_action \<Rightarrow> bool" where
  "names_task b acc a \<longleftrightarrow> (if on_task (ac_op a)
     then validate_task_name (ac_task a) = None \<and> (bora_task b acc (ac_task a) = None \<longleftrightarrow> ac_op a = ''task.create'')
     else ac_task a = [])"

definition action_allowed :: "answering \<Rightarrow> bora_action \<Rightarrow> bool" where
  "action_allowed s a \<longleftrightarrow> (\<exists>acc \<in> set (br_members s). p_slug (acc_project acc) = ac_project a \<and>
     (\<exists>need. map_of bora_ops (ac_op a) = Some need \<and> role_rank need \<le> role_rank (role_at s acc (ac_op a) (ac_task a))) \<and>
     names_task s acc a \<and> (br_tainted s \<longrightarrow> ac_op a \<in> set safe_ops) \<and>
     fields_allowed (an_world s) (br_actor s) (p_id (acc_project acc)) a)"

lemma task_role_ok: "task_role acc op p s = (Inr r, s') \<Longrightarrow> s' = s \<and> validate_task_name (pp_task p) = None \<and>
    (bora_task s acc (pp_task p) = None \<longleftrightarrow> op = ''task.create'') \<and>
    r = (case bora_task s acc (pp_task p) of Some ft \<Rightarrow> ft_role ft | None \<Rightarrow> acc_role acc)"
  by (auto simp: task_role_def run_ok split: if_split_asm option.split_asm)

lemma bora_project_ok: "bora_project slug s = (Inr v, s') \<Longrightarrow> v = find (\<lambda>acc. p_slug (acc_project acc) = slug) (br_members s) \<and>
    (\<exists>xs. s' = s\<lparr>br_read := xs\<rparr>)"
  by (auto simp: bora_project_def split: option.split_asm intro: exI [of _ "br_read s"])

lemma propose_ok:
  assumes "bora_propose x bl p s = (Inr r, s')"
  obtains op need acc s1 role s2 a s3 where "op = to_lower x (pp_op p)" "map_of bora_ops op = Some need"
    "br_tainted s \<longrightarrow> op \<in> set safe_ops" "bora_project (pp_project p) s = (Inr (Some acc), s1)" "length (br_actions s1) < max_actions"
    "(if on_task op then task_role acc op p else ret (acc_role acc)) s1 = (Inr role, s2)" "role_rank need \<le> role_rank role"
    "action_fields bl acc p (zero_action\<lparr>ac_op := op, ac_project := pp_project p, ac_task := if on_task op then pp_task p else [],
       ac_reason := truncate_runes (trim_space (redact (pp_reason p))) 200\<rparr>) s2 = (Inr a, s3)"
    "\<not> list_ex (\<lambda>b. same_button b a) (br_actions s1)" "s' = s3\<lparr>br_actions := br_actions s3 @ [a]\<rparr>"
  using assms by (auto simp: bora_propose_def Let_def run_ok or_told not_le not_less)

lemma find_in: "find P xs = Some x \<Longrightarrow> x \<in> set xs \<and> P x"
  by (auto simp: find_Some_iff)

lemma propose_appends:
  assumes "bora_propose x bl p s = (Inr r, s')"
  shows "\<exists>a. br_actions s' = br_actions s @ [a] \<and> action_allowed s a \<and> length (br_actions s') \<le> max_actions \<and>
    \<not> list_ex (\<lambda>b. same_button b a) (br_actions s) \<and> answer_view (s'\<lparr>br_actions := br_actions s\<rparr>) = answer_view s \<and>
    tables_of (an_world s') = tables_of (an_world s)"
  using assms
proof (rule propose_ok)
  fix op need acc s1 role s2 a s3
  assume op: "op = to_lower x (pp_op p)" "map_of bora_ops op = Some need" "br_tainted s \<longrightarrow> op \<in> set safe_ops"
    and acc: "bora_project (pp_project p) s = (Inr (Some acc), s1)" and few: "length (br_actions s1) < max_actions"
    and role: "(if on_task op then task_role acc op p else ret (acc_role acc)) s1 = (Inr role, s2)" "role_rank need \<le> role_rank role"
    and fields: "action_fields bl acc p (zero_action\<lparr>ac_op := op, ac_project := pp_project p, ac_task := if on_task op then pp_task p else [],
       ac_reason := truncate_runes (trim_space (redact (pp_reason p))) 200\<rparr>) s2 = (Inr a, s3)"
    and new: "\<not> list_ex (\<lambda>b. same_button b a) (br_actions s1)" and s': "s' = s3\<lparr>br_actions := br_actions s3 @ [a]\<rparr>"
  obtain xs where s1: "s1 = s\<lparr>br_read := xs\<rparr>" and found: "find (\<lambda>acc. p_slug (acc_project acc) = pp_project p) (br_members s) = Some acc"
    using bora_project_ok [OF acc] by auto
  have s2: "s2 = s1" and names: "names_task s acc a" and at_role: "role = role_at s acc op (ac_task a)"
    using role(1) action_fields_ok [OF fields refl] task_role_ok [of acc op p s1 role s2] s1
    by (auto simp: names_task_def role_at_def run_ok bora_task_def bora_tasks_of_def split: if_split_asm)
  note kept = keepsD [OF fields_keep(1) fields] keepsD [OF fields_keep(2) fields]
  have "action_allowed s a"
    using op role(2) names at_role find_in [OF found] action_fields_ok [OF fields refl] s1 s2 by (auto simp: action_allowed_def)
  moreover have "br_actions s3 = br_actions s" using kept(1) s1 s2 by (simp add: answer_view_def)
  ultimately show ?thesis using few new s' s1 s2 kept by (auto simp: answer_view_def)
qed

text \<open>A refusal changes nothing but what counts as read.\<close>

definition keeps_refused :: "(answering \<Rightarrow> 'b) \<Rightarrow> 'a tool \<Rightarrow> bool" where
  "keeps_refused f m \<longleftrightarrow> (\<forall>s e s'. m s = (Inl e, s') \<longrightarrow> f s' = f s)"

lemma keeps_refusedI: "keeps f m \<Longrightarrow> keeps_refused f m"
  by (auto simp: keeps_refused_def dest: keepsD)

lemma keeps_refused_bind: "keeps f m \<Longrightarrow> (\<And>x. keeps_refused f (k x)) \<Longrightarrow> keeps_refused f (io_bind m k)"
  by (fastforce simp: keeps_refused_def io_bind_def dest: keepsD split: prod.splits sum.splits)

lemma keeps_refused_if: "keeps_refused f m \<Longrightarrow> keeps_refused f m' \<Longrightarrow> keeps_refused f (if b then m else m')"
  by simp

lemma keeps_refused_option: "keeps_refused f m \<Longrightarrow> (\<And>x. keeps_refused f (k x)) \<Longrightarrow> keeps_refused f (case v of None \<Rightarrow> m | Some x \<Rightarrow> k x)"
  by (cases v) auto

lemma keeps_refused_mod: "keeps_refused f (io_bind (io_mod g) (\<lambda>_. ret x))"
  by (simp add: keeps_refused_def io_defs)

lemmas keeps_refused_intros = keeps_refused_mod keeps_refused_if keeps_refused_option keeps_refused_bind

lemma answer_view_read: "answer_view (s\<lparr>br_read := xs\<rparr>) = answer_view s"
  by (simp add: answer_view_def)

lemma project_keeps: "(\<And>s xs. f (s\<lparr>br_read := xs\<rparr>) = f s) \<Longrightarrow> keeps f (bora_project slug)"
  by (auto simp: keeps_def bora_project_def split: option.splits)

lemma propose_refused: "keeps_refused answer_view (bora_propose x bl p)" "keeps_refused (\<lambda>s. tables_of (an_world s)) (bora_propose x bl p)"
  unfolding bora_propose_def Let_def
  by (intro keeps_refused_intros keeps_refusedI [OF keeps_told] fields_keep project_keeps answer_view_read keeps_basic keeps_if; simp)+

lemma propose_accepts:
  assumes "to_lower x (pp_op p) = op" "op \<in> set safe_ops" "find (\<lambda>acc. p_slug (acc_project acc) = pp_project p) (br_members s) = Some acc"
    "length (br_actions s) < max_actions" "validate_task_name (pp_task p) = None" "bora_task s acc (pp_task p) = Some ft"
    "role_rank ProjectRoleOperator \<le> role_rank (ft_role ft)"
    "\<forall>b \<in> set (br_actions s). \<not> (ac_op b = op \<and> ac_project b = pp_project p \<and> ac_task b = pp_task p)"
  shows "\<exists>t s'. bora_propose x bl p s = (Inr t, s')"
proof -
  have op: "map_of bora_ops op = Some ProjectRoleOperator" "on_task op" "op \<noteq> ''task.create''" "op \<noteq> ''task.update''" "op \<noteq> ''task.env''"
    "op \<notin> set person_ops" "op \<noteq> ''project.update''"
    using assms(2) by (auto simp: safe_ops_def bora_ops_def on_task_def family_def cut_at_def person_ops_def)
  define act where "act = zero_action\<lparr>ac_op := op, ac_project := pp_project p, ac_task := pp_task p,
       ac_reason := truncate_runes (trim_space (redact (pp_reason p))) 200\<rparr>"
  define s1 where "s1 = s\<lparr>br_read := br_read s @ [p_id (acc_project acc)]\<rparr>"
  have acc: "bora_project (pp_project p) s = (Inr (Some acc), s1)" by (simp add: bora_project_def assms(3) s1_def)
  have s1: "br_actions s1 = br_actions s" "br_tainted s1 = br_tainted s" "bora_task s1 acc (pp_task p) = Some ft"
    using assms(6) by (simp_all add: s1_def bora_task_def bora_tasks_of_def)
  have role: "task_role acc op p s1 = (Inr (ft_role ft), s1)" using op(3) assms(5) s1(3) by (simp add: task_role_def io_defs)
  have fields: "action_fields bl acc p act s1 = (Inr act, s1)"
    using op by (simp add: action_fields_def act_def action_ranges_def io_defs)
  have new: "\<not> list_ex (\<lambda>b. same_button b act) (br_actions s)" using assms(8) by (auto simp: list_ex_iff same_button_def act_def)
  show ?thesis
    using assms(1,2,4,7) op(1,2) acc s1(1) role fields new
    by (simp add: bora_propose_def Let_def bind_ok_iff run_simps act_def [symmetric])
qed

text \<open>The least an operation on a running task needs to be offered.\<close>

definition can_offer :: "ext \<Rightarrow> answering \<Rightarrow> proposal \<Rightarrow> bool" where
  "can_offer x s p \<longleftrightarrow> (let op = to_lower x (pp_op p) in op \<in> set safe_ops \<and> length (br_actions s) < max_actions \<and>
     validate_task_name (pp_task p) = None \<and> list_all (\<lambda>b. \<not> (ac_op b = op \<and> ac_project b = pp_project p \<and> ac_task b = pp_task p)) (br_actions s) \<and>
     (case find (\<lambda>acc. p_slug (acc_project acc) = pp_project p) (br_members s) of None \<Rightarrow> False
       | Some acc \<Rightarrow> (case bora_task s acc (pp_task p) of None \<Rightarrow> False | Some ft \<Rightarrow> role_rank ProjectRoleOperator \<le> role_rank (ft_role ft))))"

text \<open>
  C31: What Bora may put under an answer: a proposal changes no table, and it is either refused, leaving the
  buttons as they are, or adds one button, at most the tenth and no second one of the same kind, on a project
  the answer reaches, with an operation the actor's role there allows and fields its route takes; once code or
  an image has been read only start, stop and restart are added. Those three are never refused to an operator
  of an existing task who has no such button yet.
\<close>

theorem bora_actions_allowed:
  assumes run: "bora_propose x bl p s = (r, s')"
  shows "tables_of (an_world s') = tables_of (an_world s) \<and>
    (case r of Inl e \<Rightarrow> answer_view s' = answer_view s
     | Inr t \<Rightarrow> answer_view (s'\<lparr>br_actions := br_actions s\<rparr>) = answer_view s \<and>
        (\<exists>a. br_actions s' = br_actions s @ [a] \<and> length (br_actions s') \<le> max_actions \<and>
           \<not> list_ex (\<lambda>b. same_button b a) (br_actions s) \<and> action_allowed s a)) \<and>
    (can_offer x s p \<longrightarrow> (\<exists>t. r = Inr t))"
proof (intro conjI impI)
  show "tables_of (an_world s') = tables_of (an_world s)"
    using propose_appends propose_refused(2) run by (cases r) (fastforce simp: keeps_refused_def)+
  show "case r of Inl e \<Rightarrow> answer_view s' = answer_view s
     | Inr t \<Rightarrow> answer_view (s'\<lparr>br_actions := br_actions s\<rparr>) = answer_view s \<and>
        (\<exists>a. br_actions s' = br_actions s @ [a] \<and> length (br_actions s') \<le> max_actions \<and>
           \<not> list_ex (\<lambda>b. same_button b a) (br_actions s) \<and> action_allowed s a)"
    using propose_refused(1) [of x bl p] propose_appends [of x bl p s _ s'] run
    by (cases r) (auto simp: keeps_refused_def)
next
  assume "can_offer x s p"
  then show "\<exists>t. r = Inr t"
    using propose_accepts [OF refl, of x p s _ _ bl] run by (fastforce simp: can_offer_def Let_def list_all_iff split: option.split_asm)
qed

definition demo_answer :: answering where
  "demo_answer = (new_bora demo_user [\<lparr>acc_project = demo_project, acc_user = 7, acc_role = ProjectRoleViewer, acc_all = True\<rparr>] [True]
     [\<lparr>ft_task = demo_task, ft_role = ProjectRoleOperator, ft_deploy = None\<rparr>] demo_team)\<lparr>br_tainted := True\<rparr>"

definition demo_proposal :: proposal where
  "demo_proposal = \<lparr>pp_op = ''task.start'', pp_project = ''p'', pp_task = ''t'', pp_reason = ''because'', pp_username = [], pp_name = [],
     pp_description = [], pp_note = [], pp_image = [], pp_role = no_role, pp_dev = OtherDev [], pp_port = 0, pp_restart = None,
     pp_volumes = [], pp_set = [], pp_unset = [], pp_credential = []\<rparr>"

definition demo_bora_lib :: bora_lib where
  "demo_bora_lib = \<lparr>bl_time = (\<lambda>_. []), bl_fold = (=)\<rparr>"

lemma demo_can_offer: "can_offer demo_ext demo_answer demo_proposal"
  by code_simp

theorem bora_actions_allowed_witness:
  "\<exists>t s' a. bora_propose demo_ext demo_bora_lib demo_proposal demo_answer = (Inr t, s') \<and> br_actions s' = [a] \<and> action_allowed demo_answer a"
proof -
  obtain r s' where run: "bora_propose demo_ext demo_bora_lib demo_proposal demo_answer = (r, s')" by fastforce
  have "br_actions demo_answer = []" by (simp add: demo_answer_def new_bora_def)
  with run bora_actions_allowed [OF run] demo_can_offer show ?thesis by auto
qed

section \<open>Operations and routes\<close>

text \<open>The route each operation runs through, by the method and the segments of its path.\<close>

fun op_route :: "string \<Rightarrow> string \<times> string list" where
  "op_route op = (let project = [''projects'', ''{project}'']; task = project @ [''tasks'', ''{name}''] in
     if op \<in> set safe_ops then (''PUT'', task @ [''state''])
     else if op = ''task.create'' then (''POST'', project @ [''tasks''])
     else if op = ''task.delete'' then (''DELETE'', task)
     else if op = ''task.update'' \<or> op = ''task.env'' then (''PATCH'', task)
     else if op = ''member.add'' \<or> op = ''member.role'' then (''POST'', project @ [''members''])
     else if op = ''member.remove'' then (''DELETE'', project @ [''members'', ''{userID}''])
     else if op = ''grant.add'' then (''POST'', task @ [''grants''])
     else if op = ''grant.remove'' then (''DELETE'', task @ [''grants'', ''{userID}''])
     else if op = ''project.update'' then (''PATCH'', project) else (''DELETE'', project))"

definition entry :: "endpoint \<Rightarrow> (string \<times> string list) \<times> access_level" where
  "entry r = ((ep_method r, ep_path r), ep_access r)"

lemma entry_simps: "entry (route_at m p a h t) = ((m, p), a)" "entry (r\<lparr>ep_status := n\<rparr>) = entry r"
  "entry (r\<lparr>ep_content := s\<rparr>) = entry r" "entry (r\<lparr>ep_errors := es\<rparr>) = entry r" "entry (r\<lparr>ep_quiet := b\<rparr>) = entry r"
  by (simp_all add: entry_def route_at_def)

lemma ops_in_table: "list_all (\<lambda>(op, need). map (project_roles \<circ> snd) (filter (\<lambda>(p, a). p = op_route op) (map entry (route_table others))) = [Some need]) bora_ops"
  unfolding table_defs by (simp only: map_append list.map entry_simps append.simps, code_simp)


end
