(* ===== verification/Bora_Tools.thy ===== *)
theory Bora_Tools
  imports Bora_Proposals Assistant Metrics
begin

text \<open>
  The tools an answer of Bora may call (internal/service/bora_tools.go): each reads what its actor may see
  and gives a text for the model. The code index (Sourcebot), Docker's demultiplexer, the samples of the
  metrics hub and the syntax of JSON and of times are arguments.
\<close>

section \<open>Arguments\<close>

record code_match =
  cx_repo :: string
  cx_path :: string
  cx_line :: int
  cx_snippet :: string

record code_file =
  cf_repo :: string
  cf_path :: string
  cf_content :: string
  cf_url :: string

record commit =
  co_hash :: string
  co_date :: string
  co_author :: string
  co_subject :: string
  co_refs :: string

record code_change =
  cg_path :: string
  cg_status :: string
  cg_body :: string
  cg_added :: int
  cg_removed :: int

record blame_range =
  bg_start :: int
  bg_lines :: int
  bg_commit :: commit

record code_index =
  ci_search :: "time \<Rightarrow> string \<Rightarrow> string \<Rightarrow> goerr + code_match list"
  ci_read :: "time \<Rightarrow> string \<Rightarrow> string \<Rightarrow> string \<Rightarrow> string \<Rightarrow> goerr + code_file"
  ci_commits :: "time \<Rightarrow> string \<Rightarrow> string \<Rightarrow> string \<Rightarrow> string \<Rightarrow> string \<Rightarrow> goerr + commit list \<times> int"
  ci_diff :: "time \<Rightarrow> string \<Rightarrow> string \<Rightarrow> string \<Rightarrow> string \<Rightarrow> string \<Rightarrow> goerr + code_change list"
  ci_blame :: "time \<Rightarrow> string \<Rightarrow> string \<Rightarrow> string \<Rightarrow> string \<Rightarrow> goerr + blame_range list"
  ci_ask :: "time \<Rightarrow> string \<Rightarrow> string \<Rightarrow> goerr + string"

text \<open>A sample, its CPU as it is printed with one decimal.\<close>

record metric =
  mt_task :: string
  mt_cpu :: string
  mt_memory :: int
  mt_limit :: int
  mt_rx :: int
  mt_tx :: int
  mt_at :: time

text \<open>
  \<open>bl_demux\<close> gives the writes of \<open>stdcopy.StdCopy\<close> and its error; \<open>bl_samples\<close> the samples of the
  streams of some tasks until the tool's deadline, or until it cancels them once so many tasks are measured.
\<close>

record tool_lib = bora_lib +
  bl_json :: "string \<Rightarrow> json option"
  bl_rfc :: "string \<Rightarrow> time option"
  bl_demux :: "string \<Rightarrow> string list \<times> goerr option"
  bl_samples :: "time \<Rightarrow> task list \<Rightarrow> nat \<Rightarrow> goerr + metric list"
  bl_code :: "code_index option"

record args =
  ar_project :: string
  ar_task :: string
  ar_since :: string
  ar_query :: string
  ar_repo :: string
  ar_path :: string
  ar_ref :: string
  ar_base :: string
  ar_head :: string
  ar_title :: string
  ar_tail :: int
  ar_limit :: int

definition no_args :: args where
  "no_args = \<lparr>ar_project = [], ar_task = [], ar_since = [], ar_query = [], ar_repo = [], ar_path = [], ar_ref = [], ar_base = [], ar_head = [],
     ar_title = [], ar_tail = 0, ar_limit = 0\<rparr>"

definition args_fields :: "args field list" where
  "args_fields = [field ''Project'' ar_project ar_project_update d_str, field ''Task'' ar_task ar_task_update d_str,
     field ''Since'' ar_since ar_since_update d_str, field ''Query'' ar_query ar_query_update d_str, field ''Repo'' ar_repo ar_repo_update d_str,
     field ''Path'' ar_path ar_path_update d_str, field ''Ref'' ar_ref ar_ref_update d_str, field ''Base'' ar_base ar_base_update d_str,
     field ''Head'' ar_head ar_head_update d_str, field ''Title'' ar_title ar_title_update d_str, field ''Tail'' ar_tail ar_tail_update d_int,
     field ''Limit'' ar_limit ar_limit_update d_int]"

definition no_proposal :: proposal where
  "no_proposal = \<lparr>pp_op = [], pp_project = [], pp_task = [], pp_reason = [], pp_username = [], pp_name = [], pp_description = [], pp_note = [],
     pp_image = [], pp_role = no_role, pp_dev = OtherDev [], pp_port = 0, pp_restart = None, pp_volumes = [], pp_set = [], pp_unset = [], pp_credential = []\<rparr>"

definition proposal_fields :: "proposal field list" where
  "proposal_fields = [field ''Op'' pp_op pp_op_update d_str, field ''Project'' pp_project pp_project_update d_str, field ''Task'' pp_task pp_task_update d_str,
     field ''Reason'' pp_reason pp_reason_update d_str, field ''Username'' pp_username pp_username_update d_str, field ''Name'' pp_name pp_name_update d_str,
     field ''Description'' pp_description pp_description_update d_str, field ''Note'' pp_note pp_note_update d_str, field ''Image'' pp_image pp_image_update d_str,
     field ''Role'' pp_role pp_role_update (d_named role_of_str), field ''dev_status'' pp_dev pp_dev_update (d_named dev_of),
     field ''Port'' pp_port pp_port_update d_int, field ''auto_restart'' pp_restart pp_restart_update (d_opt False d_bool),
     field ''Volumes'' pp_volumes pp_volumes_update d_map, field ''Set'' pp_set pp_set_update d_map, field ''Unset'' pp_unset pp_unset_update (d_elems [] d_str),
     field ''registry_credential'' pp_credential pp_credential_update d_str]"

text \<open>\<open>tool\<close>: the model's arguments decoded, and an error told as text.\<close>

definition bora_tool :: "tool_lib \<Rightarrow> string \<Rightarrow> string \<Rightarrow> 'r field list \<Rightarrow> 'r \<Rightarrow> ('r \<Rightarrow> string tool) \<Rightarrow> answering chat_tool" where
  "bora_tool bl name description fs z run = \<lparr>tl_name = name, tl_description = description, tl_run = (\<lambda>raw s.
     case Option.bind (bl_json bl (first_of raw ''{}'')) (decode_known fs z) of None \<Rightarrow> (''error: arguments are not valid JSON'', s)
     | Some r \<Rightarrow> (case run r s of (Inl e, s1) \<Rightarrow> (msg e, s1) | (Inr out, s1) \<Rightarrow> (out, s1)))\<rparr>"

section \<open>Text\<close>

definition dots :: string where "dots = [CHR 0xE2, CHR 0x80, CHR 0xA6]"

definition sorted_keys :: "strmap \<Rightarrow> string list" where
  "sorted_keys m = sort (remdups (map fst m))"

definition named :: "access list \<Rightarrow> string" where
  "named accs = (case accs of [acc] \<Rightarrow> p_slug (acc_project acc) | _ \<Rightarrow> ''your projects'')"

text \<open>The task deployed last; of equal times the first.\<close>

fun last_deployed :: "fleet_task list \<Rightarrow> (fleet_task \<times> notification) option \<Rightarrow> (fleet_task \<times> notification) option" where
  "last_deployed [] l = l"
| "last_deployed (t # ts) l = last_deployed ts (case ft_deploy t of None \<Rightarrow> l
     | Some n \<Rightarrow> (case l of None \<Rightarrow> Some (t, n) | Some (_, m) \<Rightarrow> if n_created n > n_created m then Some (t, n) else l))"

definition project_line :: "bora_lib \<Rightarrow> 'b bora_scheme \<Rightarrow> access \<Rightarrow> string" where
  "project_line bl b acc = (let ts = bora_tasks_of b acc; statuses = map (\<lambda>t. status_str (t_status (ft_task t))) ts in
     p_slug (acc_project acc) @ '' ('' @ p_name (acc_project acc) @ ''): you are '' @ role_str (acc_role acc) @ '', '' @ nat_str (length ts) @ '' tasks'' @
     concat (map (\<lambda>st. '', '' @ nat_str (length (filter ((=) st) statuses)) @ '' '' @ st) (sort (remdups statuses))) @
     (case last_deployed ts None of None \<Rightarrow> [] | Some (t, n) \<Rightarrow> '', last deploy '' @ notification_status_str (n_status n) @ '' of '' @ t_name (ft_task t) @
        '' at '' @ bl_time bl (n_created n)) @ nl)"

definition list_projects_text :: "bora_lib \<Rightarrow> 'b bora_scheme \<Rightarrow> string" where
  "list_projects_text bl b = concat (map (project_line bl b) (br_members b))"

definition role_line :: "string \<Rightarrow> project_role \<Rightarrow> string" where
  "role_line name r = name @ '': '' @ role_str r @ nl"

definition mib :: "int \<Rightarrow> string" where
  "mib n = (let q = n div 1048576; r = n mod 1048576 in int_str (if 2 * r > 1048576 \<or> (2 * r = 1048576 \<and> odd q) then q + 1 else q) @ '' MiB'')"

definition commit_list :: "commit list \<Rightarrow> int \<Rightarrow> string" where
  "commit_list cs n = concat (map (\<lambda>c. truncate_runes (co_hash c) 12 @ '' '' @ truncate_runes (co_date c) 10 @ '' '' @ co_author c @ '': '' @ co_subject c @
       (if co_refs c \<noteq> [] then '' ('' @ co_refs c @ '')'' else []) @ nl) cs) @
     (if n > int (length cs) then dots @ '' and '' @ int_str (n - int (length cs)) @ '' older commits'' @ nl else [])"

text \<open>\<open>path.Base\<close>.\<close>

definition path_base :: "string \<Rightarrow> string" where
  "path_base p = (if p = [] then ''.'' else let q = rev (dropWhile (\<lambda>c. c = slash) (rev p)) in
     if q = [] then ''/'' else List.last (split_at slash q))"

section \<open>Tools on the fleet\<close>

definition list_projects_tool :: "bora_lib \<Rightarrow> args \<Rightarrow> string tool" where
  "list_projects_tool bl a = io_bind (bora_step (''Looking at your projects'' @ dots)) (\<lambda>_. io_get (list_projects_text bl))"

definition list_tasks_tool :: "bora_lib \<Rightarrow> args \<Rightarrow> string tool" where
  "list_tasks_tool bl a = io_bind (bora_scope (ar_project a)) (\<lambda>accs.
     io_bind (bora_step (''Looking at the tasks of '' @ named accs @ dots)) (\<lambda>_.
     io_get (\<lambda>s. concat (map (\<lambda>acc. p_slug (acc_project acc) @ '' ('' @ p_name (acc_project acc) @ ''), you are '' @ role_str (acc_role acc) @ '':'' @ nl @
       concat (map (\<lambda>t. ''- '' @ task_line bl t @ nl) (bora_tasks_of s acc))) accs))))"

text \<open>The names of variables, never their values.\<close>

definition task_text :: "bora_lib \<Rightarrow> fleet_task \<Rightarrow> string" where
  "task_text bl ft = (let t = ft_task ft; r = t_revision t in task_line bl ft @
     (if v_commit r \<noteq> [] then nl @ ''runs commit '' @ v_commit r @ '' of '' @ v_repo r @
        (if v_previous r \<noteq> [] then ''; the deploy before ran '' @ v_previous r else []) else []) @
     (if t_note t \<noteq> [] then nl @ ''note: '' @ t_note t else []) @
     nl @ ''env names: '' @ join_with '', '' (sorted_keys (t_env t)) @
     concat (map (\<lambda>p. nl @ ''folder '' @ (case map_of (t_volumes t) p of Some f \<Rightarrow> f | None \<Rightarrow> []) @ '' mounted at '' @ p) (sorted_keys (t_volumes t))) @
     (if t_pending t then nl @ ''waits to be recreated to apply its last change'' else []))"

definition task_details_tool :: "bora_lib \<Rightarrow> args \<Rightarrow> string tool" where
  "task_details_tool bl a = io_bind (bora_find (ar_project a) (ar_task a)) (\<lambda>found. case found of
       None \<Rightarrow> io_bind (io_get (\<lambda>s. no_task_text s (ar_project a) (ar_task a))) told
     | Some ft \<Rightarrow> io_bind (bora_step (''Reading '' @ ar_project a @ ''/'' @ ar_task a @ dots)) (\<lambda>_. ret (task_text bl ft)))"

text \<open>\<open>taskLogs\<close> of cmd/boreas: the newest 64 KiB that Docker's demultiplexer writes.\<close>

definition newest_write :: "string \<Rightarrow> string \<Rightarrow> string" where
  "newest_write b p = (let c = b @ p in drop (length c - 65536) c)"

definition task_logs :: "tool_lib \<Rightarrow> string \<Rightarrow> string \<Rightarrow> log_options \<Rightarrow> (world, string) io" where
  "task_logs bl slug name opts = io_bind (tk_logs slug name opts) (\<lambda>raw. case bl_demux bl raw of (ws, e) \<Rightarrow>
     let out = foldl newest_write [] ws in
     (case e of Some e \<Rightarrow> if out = [] then fail (err_wrap ''read logs'' e) else ret out | None \<Rightarrow> ret out))"

definition cut_logs :: "string \<Rightarrow> string" where
  "cut_logs text = (if length text \<le> 16384 then text else fst (snd (cut_at (CHR 0x0A) (drop (length text - 16384) text))))"

definition since_of :: "tool_lib \<Rightarrow> string \<Rightarrow> time option option" where
  "since_of bl raw = (if raw = [] then Some None else map_option Some (bl_rfc bl raw))"

definition task_logs_tool :: "tool_lib \<Rightarrow> args \<Rightarrow> string tool" where
  "task_logs_tool bl a = io_bind (bora_find (ar_project a) (ar_task a)) (\<lambda>found. case found of
       None \<Rightarrow> io_bind (io_get (\<lambda>s. no_task_text s (ar_project a) (ar_task a))) told
     | Some _ \<Rightarrow> let n = (if ar_tail a = 0 then 200 else ar_tail a) in
         if n < 1 \<or> n > 200 then told ''error: tail must be 1 to 200''
         else (case since_of bl (ar_since a) of None \<Rightarrow> told ''error: since must be an RFC 3339 time''
           | Some since \<Rightarrow> io_bind (bora_step (''Reading '' @ ar_task a @ [CHR 0x27] @ ''s logs'' @ dots)) (\<lambda>_.
               io_bind (io_try (on_world (task_logs bl (ar_project a) (ar_task a) \<lparr>lo_tail = n, lo_follow = False, lo_since = since\<rparr>))) (\<lambda>r. case r of
                 Inl e \<Rightarrow> if err_is e ErrConflict then ret ''no logs: the task has no container yet'' else told ''error: could not read the logs''
               | Inr text \<Rightarrow> ret (if text = [] then ''no log lines'' else first_of (cut_logs text) ''error: the lines are too long to read'')))))"

fun each_activity :: "nat \<Rightarrow> access list \<Rightarrow> notification list tool" where
  "each_activity n [] = ret []"
| "each_activity n (acc # accs) = io_bind (io_get br_actor) (\<lambda>u.
     io_bind (io_try (on_world (pr_notifications u (Some (p_id (acc_project acc))) None n))) (\<lambda>r. case r of
       Inl _ \<Rightarrow> told ''error: could not read the activity''
     | Inr ns \<Rightarrow> io_bind (each_activity n accs) (\<lambda>more. ret (ns @ more))))"

definition activity_line :: "bora_lib \<Rightarrow> notification \<Rightarrow> string" where
  "activity_line bl n = bl_time bl (n_created n) @ '' '' @ n_slug n @ ''/'' @ n_task n @ '' '' @ notification_type_str (n_type n) @ '': '' @ n_title n @
     (if n_body n \<noteq> [] then '': '' @ one_line (n_body n) else []) @ nl"

definition activity_tool :: "bora_lib \<Rightarrow> args \<Rightarrow> string tool" where
  "activity_tool bl a = (let n = (if ar_limit a = 0 then 30 else ar_limit a) in
     if n < 1 \<or> n > 50 then told ''error: limit must be 1 to 50''
     else io_bind (bora_scope (ar_project a)) (\<lambda>accs. io_bind (bora_step (''Reading the activity of '' @ named accs @ dots)) (\<lambda>_.
       io_bind (each_activity (nat n) accs) (\<lambda>events.
         ret (first_of (concat (map (activity_line bl) (take (nat n) (sort_key (\<lambda>e. - n_created e) events)))) ''no activity'')))))"

definition running_count :: "'b bora_scheme \<Rightarrow> access \<Rightarrow> nat" where
  "running_count b acc = length (filter (\<lambda>ft. t_status (ft_task ft) = StatusRunning \<and> t_container (ft_task ft) \<noteq> []) (bora_tasks_of b acc))"

definition metric_line :: "metric \<Rightarrow> string" where
  "metric_line m = mt_task m @ '': CPU '' @ mt_cpu m @ ''%, memory '' @ mib (mt_memory m) @ '' of '' @ mib (mt_limit m) @ '', network '' @
     mib (mt_rx m) @ '' in and '' @ mib (mt_tx m) @ '' out since start'' @ nl"

text \<open>The last sample of each task, in the order of their names.\<close>

definition metrics_text :: "metric list \<Rightarrow> string" where
  "metrics_text ms = concat (map (\<lambda>n. metric_line (List.last (filter (\<lambda>m. mt_task m = n) ms))) (sort (remdups (map mt_task ms))))"

definition metrics_tool :: "tool_lib \<Rightarrow> args \<Rightarrow> string tool" where
  "metrics_tool bl a = io_bind (bora_project (ar_project a)) (\<lambda>found. case found of
       None \<Rightarrow> io_bind (io_get (\<lambda>s. not_member_text s (ar_project a))) told
     | Some acc \<Rightarrow> io_bind (io_get (\<lambda>s. (running_count s acc, bora_task s acc (ar_task a)))) (\<lambda>(n, t).
         if ar_task a \<noteq> [] \<and> t = None then io_bind (io_get (\<lambda>s. no_task_text s (ar_project a) (ar_task a))) told
         else io_bind (bora_step (''Measuring '' @ first_of (ar_task a) (ar_project a) @ dots)) (\<lambda>_.
           io_bind (io_try (on_world (io_bind (metrics_sources acc (ar_task a)) (\<lambda>ts. io_bind (io_get now) (\<lambda>t.
             io_lift (bl_samples bl t ts (if ar_task a = [] then n else 1))))))) (\<lambda>r. case r of
               Inl e \<Rightarrow> if err_is e ErrConflict then ret ''no metrics: the task has no container yet'' else told ''error: could not read the metrics''
             | Inr ms \<Rightarrow> ret (first_of (metrics_text ms) ''no metrics: nothing is running'')))))"

text \<open>\<open>owned\<close>: a project the actor owns.\<close>

definition bora_owned :: "string \<Rightarrow> access tool" where
  "bora_owned slug = io_bind (bora_project slug) (\<lambda>found. case found of
       None \<Rightarrow> io_bind (io_get (\<lambda>s. not_member_text s slug)) told
     | Some acc \<Rightarrow> if acc_role acc \<noteq> ProjectRoleOwner then told (''refused: only owners see who has access to '' @ slug) else ret acc)"

definition members_tool :: "args \<Rightarrow> string tool" where
  "members_tool a = io_bind (bora_owned (ar_project a)) (\<lambda>acc. io_bind (bora_step (''Reading who is in '' @ ar_project a @ dots)) (\<lambda>_.
     io_bind (io_try (on_world (db_list_members (p_id (acc_project acc))))) (\<lambda>r. case r of Inl _ \<Rightarrow> told ''error: could not read the members''
       | Inr ms \<Rightarrow> ret (concat (map (\<lambda>m. role_line (m_username m) (m_role m)) ms)))))"

definition grants_tool :: "args \<Rightarrow> string tool" where
  "grants_tool a = io_bind (bora_owned (ar_project a)) (\<lambda>acc. io_bind (io_get (\<lambda>s. bora_task s acc (ar_task a))) (\<lambda>found. case found of
       None \<Rightarrow> io_bind (io_get (\<lambda>s. no_task_text s (ar_project a) (ar_task a))) told
     | Some ft \<Rightarrow> io_bind (bora_step (''Reading who holds '' @ ar_task a @ dots)) (\<lambda>_.
         io_bind (io_try (on_world (db_grants_for_task (t_id (ft_task ft))))) (\<lambda>r. case r of Inl _ \<Rightarrow> told ''error: could not read the grants''
           | Inr gs \<Rightarrow> ret (first_of (concat (map (\<lambda>g. role_line (g_username g) (g_role g)) gs)) (''no one holds a grant on '' @ ar_task a))))))"

text \<open>Administrators alone learn the name of the registry credential.\<close>

definition credential_text :: "project \<Rightarrow> string tool" where
  "credential_text p = (case p_credential p of None \<Rightarrow> ret ''none''
     | Some i \<Rightarrow> io_bind (io_get br_actor) (\<lambda>u. if \<not> is_admin u then ret ''set, and only admins see which''
         else io_bind (io_try (on_world (db_credentials_get i))) (\<lambda>r. ret (case r of Inl _ \<Rightarrow> ''set, and only admins see which'' | Inr c \<Rightarrow> c_name c))))"

definition settings_tool :: "args \<Rightarrow> string tool" where
  "settings_tool a = io_bind (bora_project (ar_project a)) (\<lambda>found. case found of
       None \<Rightarrow> io_bind (io_get (\<lambda>s. not_member_text s (ar_project a))) told
     | Some acc \<Rightarrow> let p = acc_project acc in io_bind (bora_step (''Reading '' @ ar_project a @ [CHR 0x27] @ ''s settings'' @ dots)) (\<lambda>_.
         io_bind (credential_text p) (\<lambda>credential. ret (p_slug p @ '' ('' @ p_name p @ ''): default image '' @ first_of (p_image p) ''none'' @
           '', default port '' @ int_str (p_port p) @ '', default env names: '' @ first_of (join_with '', '' (sorted_keys (p_env p))) ''none'' @
           '', registry credential: '' @ credential))))"

definition title_tool :: "args \<Rightarrow> string tool" where
  "title_tool a = io_bind (io_mod (\<lambda>s. let title = truncate_runes (one_line (redact (ar_title a))) 60 in
     if br_title s = [] \<and> title \<noteq> [] then s\<lparr>br_title := title\<rparr> else s)) (\<lambda>_. ret ''done'')"

section \<open>Tools on code\<close>

text \<open>From here on text a planted instruction may be in is read: the answer is tainted first.\<close>

definition bora_taint :: "unit tool" where
  "bora_taint = io_mod (\<lambda>s. s\<lparr>br_tainted := True\<rparr>)"

text \<open>\<open>code\<close> and \<open>repo\<close>: the project whose code a tool reads, and the repository it must name.\<close>

definition code_project :: "string \<Rightarrow> string tool" where
  "code_project slug = io_bind (io_get br_members) (\<lambda>ms. let sl = (case ms of [acc] \<Rightarrow> first_of slug (p_slug (acc_project acc)) | _ \<Rightarrow> slug) in
     if sl = [] then told ''error: name the project whose code to read''
     else io_bind (bora_project sl) (\<lambda>found. if found = None then io_bind (io_get (\<lambda>s. not_member_text s sl)) told else ret sl))"

definition code_repo :: "args \<Rightarrow> string tool" where
  "code_repo a = (if ar_repo a = [] then told ''error: name the repository, as search_code or task_details names it''
     else code_project (ar_project a))"

definition code_error :: "goerr \<Rightarrow> 'a tool" where
  "code_error e = told (''error: '' @ msg e)"

definition code_call :: "(time \<Rightarrow> goerr + 'a) \<Rightarrow> 'a tool" where
  "code_call f = io_bind (io_get (\<lambda>s. now (an_world s))) (\<lambda>t. case f t of Inl e \<Rightarrow> code_error e | Inr v \<Rightarrow> ret v)"

definition search_code_tool :: "code_index \<Rightarrow> args \<Rightarrow> string tool" where
  "search_code_tool ci a = io_bind bora_taint (\<lambda>_. io_bind (code_project (ar_project a)) (\<lambda>slug.
     if trim_space (ar_query a) = [] then told ''error: query is empty''
     else io_bind (bora_step (''Searching '' @ slug @ [CHR 0x27] @ ''s code'' @ dots)) (\<lambda>_.
       io_bind (code_call (\<lambda>t. ci_search ci t slug (ar_query a))) (\<lambda>ms.
         ret (first_of (concat (map (\<lambda>m. cx_repo m @ '' '' @ cx_path m @ '':'' @ int_str (cx_line m) @ nl @ cx_snippet m @ nl @ nl) ms)) ''no matches'')))))"

definition read_file_tool :: "code_index \<Rightarrow> args \<Rightarrow> string tool" where
  "read_file_tool ci a = io_bind bora_taint (\<lambda>_. io_bind (code_repo a) (\<lambda>slug.
     io_bind (bora_step (''Reading '' @ truncate_runes (path_base (ar_path a)) 60 @ dots)) (\<lambda>_.
     io_bind (code_call (\<lambda>t. ci_read ci t slug (ar_repo a) (ar_ref a) (ar_path a))) (\<lambda>f. let source = \<lparr>so_repo = cf_repo f, so_path = cf_path f, so_url = cf_url f\<rparr> in
     io_bind (io_mod (\<lambda>s. if \<not> suffix ''/'' (cf_path f) \<and> source \<notin> set (br_sources s) then s\<lparr>br_sources := br_sources s @ [source]\<rparr> else s)) (\<lambda>_.
       ret (first_of (cf_content f) ''empty''))))))"

definition code_history_tool :: "code_index \<Rightarrow> args \<Rightarrow> string tool" where
  "code_history_tool ci a = io_bind bora_taint (\<lambda>_. io_bind (code_repo a) (\<lambda>slug.
     io_bind (bora_step (''Reading the history of '' @ path_base (ar_repo a) @ dots)) (\<lambda>_.
     io_bind (code_call (\<lambda>t. ci_commits ci t slug (ar_repo a) (ar_ref a) (ar_path a) (ar_query a))) (\<lambda>(cs, n).
       ret (first_of (commit_list cs n) ''no commits'')))))"

definition diff_files :: nat where "diff_files = 100"
definition diff_text :: nat where "diff_text = 20 * 1024"

definition change_line :: "code_change \<Rightarrow> string" where
  "change_line c = cg_status c @ '' '' @ cg_path c @ '' (+'' @ int_str (cg_added c) @ '' -'' @ int_str (cg_removed c) @ '')'' @ nl"

text \<open>The changes, smallest first, until the text would be too long.\<close>

fun add_hunks :: "code_change list \<Rightarrow> string \<Rightarrow> string" where
  "add_hunks [] out = out"
| "add_hunks (c # cs) out = (let hunks = ''--- '' @ cg_path c @ nl @ cg_body c; room = diff_text - length out in
     if length hunks > room then out @ valid_utf8 (take room hunks) @ nl @ dots @ '' cut: pass path for one file'' @ nl
     else add_hunks cs (out @ hunks))"

definition diff_report :: "commit list \<Rightarrow> int \<Rightarrow> code_change list \<Rightarrow> string" where
  "diff_report cs n changes = add_hunks (sort_key (\<lambda>c. length (cg_body c)) changes)
     (int_str n @ '' commits:'' @ nl @ commit_list cs n @ nat_str (length changes) @ '' files changed:'' @ nl @
      concat (map change_line (take diff_files changes)) @
      (if length changes > diff_files then dots @ '' and '' @ nat_str (length changes - diff_files) @ '' more files'' @ nl else []))"

definition code_diff_tool :: "code_index \<Rightarrow> args \<Rightarrow> string tool" where
  "code_diff_tool ci a = io_bind bora_taint (\<lambda>_. io_bind (code_repo a) (\<lambda>slug.
     if ar_base a = [] \<or> ar_head a = [] then told ''error: a diff needs base and head''
     else io_bind (bora_step (''Comparing the commits of '' @ path_base (ar_repo a) @ dots)) (\<lambda>_.
       io_bind (code_call (\<lambda>t. ci_commits ci t slug (ar_repo a) (ar_base a @ ''..'' @ ar_head a) (ar_path a) [])) (\<lambda>(cs, n).
       io_bind (code_call (\<lambda>t. ci_diff ci t slug (ar_repo a) (ar_base a) (ar_head a) (ar_path a))) (\<lambda>changes. ret (diff_report cs n changes))))))"

definition blame_line :: "blame_range \<Rightarrow> string" where
  "blame_line r = (let c = bg_commit r in ''lines '' @ int_str (bg_start r) @ ''-'' @ int_str (bg_start r + bg_lines r - 1) @ '': '' @
     truncate_runes (co_hash c) 12 @ '' '' @ truncate_runes (co_date c) 10 @ '' '' @ co_author c @ '': '' @ co_subject c @ nl)"

definition blame_tool :: "code_index \<Rightarrow> args \<Rightarrow> string tool" where
  "blame_tool ci a = io_bind bora_taint (\<lambda>_. io_bind (code_repo a) (\<lambda>slug.
     io_bind (bora_step (''Checking who changed '' @ truncate_runes (path_base (ar_path a)) 60 @ dots)) (\<lambda>_.
     io_bind (code_call (\<lambda>t. ci_blame ci t slug (ar_repo a) (ar_ref a) (ar_path a))) (\<lambda>rs.
       ret (first_of (concat (map blame_line rs)) ''no lines'')))))"

definition ask_sourcebot_tool :: "code_index \<Rightarrow> args \<Rightarrow> string tool" where
  "ask_sourcebot_tool ci a = io_bind bora_taint (\<lambda>_. io_bind (code_project (ar_project a)) (\<lambda>slug.
     if trim_space (ar_query a) = [] then told ''error: query is empty''
     else io_bind (bora_step (''Asking Sourcebot'' @ dots)) (\<lambda>_.
       io_bind (code_call (\<lambda>t. ci_ask ci t slug (ar_query a))) (\<lambda>text. ret (first_of text ''no answer'')))))"

section \<open>The tools of an answer\<close>

text \<open>The descriptions given to the model are arguments; logs and metrics are always wired.\<close>

definition bora_tools :: "ext \<Rightarrow> tool_lib \<Rightarrow> (string \<Rightarrow> string) \<Rightarrow> bool \<Rightarrow> 'b bora_scheme \<Rightarrow> answering chat_tool list" where
  "bora_tools x bl about first b = (let on = (\<lambda>name run. bora_tool bl name (about name) args_fields no_args run); lib = bora_lib.truncate bl in
     [on ''list_projects'' (list_projects_tool lib), on ''list_tasks'' (list_tasks_tool lib), on ''task_details'' (task_details_tool lib),
      on ''activity'' (activity_tool lib), on ''project_settings'' settings_tool,
      bora_tool bl ''propose_action'' (about ''propose_action'') proposal_fields no_proposal (bora_propose x lib),
      on ''task_logs'' (task_logs_tool bl), on ''metrics'' (metrics_tool bl)] @
     (if list_ex (\<lambda>acc. acc_role acc = ProjectRoleOwner) (br_members b) then [on ''members'' members_tool, on ''grants'' grants_tool] else []) @
     (case bl_code bl of None \<Rightarrow> [] | Some ci \<Rightarrow> [on ''search_code'' (search_code_tool ci), on ''read_file'' (read_file_tool ci),
        on ''code_history'' (code_history_tool ci), on ''code_diff'' (code_diff_tool ci), on ''blame'' (blame_tool ci), on ''ask_sourcebot'' (ask_sourcebot_tool ci)]) @
     (if first then [on ''set_title'' title_tool] else []))"

section \<open>What the model is told\<close>

definition bora_brief :: "bora_lib \<Rightarrow> string \<Rightarrow> string list \<Rightarrow> answering \<Rightarrow> string" where
  "bora_brief bl screen lines s = ''User: '' @ u_username (br_actor s) @ ''. Now: '' @ bl_time bl (now (an_world s)) @ ''.'' @ nl @
     (if screen \<noteq> [] then ''They are on the screen '' @ screen @ ''.'' @ nl else []) @
     ''They ask about: '' @ br_label s @ ''.'' @ nl @
     (if lines \<noteq> [] then ''Done in the app after earlier answers:'' @ nl @ ''- '' @ join_with (nl @ ''- '') lines @ nl else []) @
     ''Their projects:'' @ nl @ list_projects_text bl s @
     (if br_unserved s \<noteq> [] then ''Their projects Bora does not answer about yet, as Sourcebot has no search context named after them: '' @
        join_with '', '' (br_unserved s) @ ''.'' @ nl else [])"

definition bora_data :: "'b bora_scheme \<Rightarrow> string" where
  "bora_data s = (if br_subject s \<noteq> [] then br_subject s @ nl @ nl else []) @ ''Tasks:'' @ nl @
     concat (map (\<lambda>acc. concat (map (\<lambda>ft. ''- '' @ p_slug (acc_project acc) @ ''/'' @ t_name (ft_task ft) @ '': '' @ status_str (t_status (ft_task ft)) @
        (if t_description (ft_task ft) \<noteq> [] then '', about: '' @ truncate_runes (one_line (t_description (ft_task ft))) 80 else []) @ nl)
       (bora_tasks_of s acc))) (br_members s))"

end
