(* ===== verification/Bora_Turns.thy ===== *)
theory Bora_Turns
  imports Bora_Tools
begin

text \<open>
  Turns of Bora (internal/service/bora.go): a question starts a turn, which is answered by the model with
  its tools and then saved with the answer, while other requests follow it, stop it, or read, list, extend and
  delete conversations. A turn's goroutine is two steps, asking the model and saving, so that any request may come between.
\<close>

section \<open>State\<close>

text \<open>\<open>BoraEvent\<close>: what a turn publishes, with one of the last three at its end.\<close>

datatype bora_event = Began uuid | Turn turn_event | Done bora_message string | Failed goerr | Stopped

text \<open>\<open>tu_answer\<close> is what the model answered once it has; the rest is \<open>boraTurn\<close> with what its goroutine holds.\<close>

record bora_turn =
  tu_user :: uuid
  tu_conv :: conversation
  tu_first :: bool
  tu_pending :: bora_pending
  tu_images :: "chat_image list"
  tu_screen :: string
  tu_bora :: answering
  tu_cancelled :: bool
  tu_events :: "bora_event list"
  tu_over :: bool
  tu_answer :: "(goerr + string \<times> string list option) option"

text \<open>The turns that run, at most one by conversation, and those that have ended, which only their streams still see.\<close>

record bora_service = bora_tables +
  bs_turns :: "bora_turn list"
  bs_past :: "bora_turn list"

text \<open>Wiring and text the model is given; times and ids as text.\<close>

record turn_lib = tool_lib +
  bl_wiring :: server
  bl_llm :: llm
  bl_prompt :: string
  bl_about :: "string \<Rightarrow> string"
  bl_letter :: "string \<Rightarrow> bool"
  bl_nano :: "time \<Rightarrow> string"
  bl_nano_of :: "string \<Rightarrow> time option"
  bl_uuid_of :: "string \<Rightarrow> uuid option"

definition turn_id :: "bora_turn \<Rightarrow> uuid" where
  "turn_id t = cv_id (tu_conv t)"

definition turns_per_user :: nat where "turns_per_user = 3"
definition turns_in_flight :: nat where "turns_in_flight = 20"
definition history_messages :: nat where "history_messages = 12"
definition code_budget :: nat where "code_budget = 96 * 1024"
definition answer_runes :: nat where "answer_runes = 4000"
definition images_per_question :: nat where "images_per_question = 4"

definition publish_turn :: "bora_event \<Rightarrow> bora_turn \<Rightarrow> bora_turn" where
  "publish_turn e t = (if tu_over t then t else t\<lparr>tu_events := tu_events t @ [e]\<rparr>)"

definition end_turn :: "bora_turn \<Rightarrow> bora_turn" where
  "end_turn t = t\<lparr>tu_over := True\<rparr>"

definition turn_in :: "'b bora_service_scheme \<Rightarrow> uuid \<Rightarrow> bora_turn option" where
  "turn_in s i = find (\<lambda>t. turn_id t = i) (bs_turns s)"

definition user_turn :: "user \<Rightarrow> uuid \<Rightarrow> 'b bora_service_scheme \<Rightarrow> bora_turn option" where
  "user_turn actor i s = (case turn_in s i of None \<Rightarrow> None | Some t \<Rightarrow> if tu_user t = u_id actor then Some t else None)"

section \<open>Starting\<close>

definition trim_slashes :: "string \<Rightarrow> string" where
  "trim_slashes s = rev (dropWhile (\<lambda>c. c = slash) (rev (dropWhile (\<lambda>c. c = slash) s)))"

definition fallback_title :: "bora_about \<Rightarrow> string \<Rightarrow> string" where
  "fallback_title about question = (let subject = trim_slashes (ab_project about @ ''/'' @ ab_task about) in
     truncate_runes (one_line (redact (if subject \<noteq> [] then subject @ '': '' @ question else question))) 80)"

text \<open>The images read, and the error that ended the reading.\<close>

fun load_images :: "uuid \<Rightarrow> uuid list \<Rightarrow> (world, goerr option \<times> chat_image list) io" where
  "load_images user [] = ret (None, [])"
| "load_images user (i # is) = io_bind (io_try (io_bind (image_key user i) s3_get)) (\<lambda>r. case r of
       Inl e \<Rightarrow> ret (Some (err_wrap ''get image'' e), [])
     | Inr (content, mime) \<Rightarrow> io_bind (load_images user is) (\<lambda>(e, ims). ret (e, \<lparr>im_mime = mime, im_data = content\<rparr> # ims)))"

definition enter_turn :: "bora_turn \<Rightarrow> (bora_service, unit) io" where
  "enter_turn t = io_bind (io_get bs_turns) (\<lambda>ts. let mine = length (filter (\<lambda>o'. tu_user o' = tu_user t) ts) in
     if list_ex (\<lambda>o'. turn_id o' = turn_id t) ts then fail (err_sentinel ErrConflict)
     else if mine \<ge> turns_per_user \<or> length ts \<ge> turns_in_flight then fail (err_sentinel ErrTooMany)
     else io_mod (\<lambda>s. s\<lparr>bs_turns := bs_turns s @ [t]\<rparr>))"

text \<open>The turn a question starts, its conversation named first.\<close>

definition new_turn :: "user \<Rightarrow> conversation \<Rightarrow> string \<Rightarrow> string \<Rightarrow> uuid list \<Rightarrow> chat_image list \<Rightarrow> answering \<Rightarrow> time \<Rightarrow> bora_turn" where
  "new_turn actor conv question screen images shots b t = (let first = cv_messages conv = [];
       c = (if first then conv\<lparr>cv_title := fallback_title (cv_about conv) question, cv_created := t, cv_updated := t,
           cv_project := (if ab_kind (cv_about conv) \<noteq> ''fleet'' then Some (p_id (acc_project (hd (br_members b)))) else cv_project conv)\<rparr> else conv) in
     \<lparr>tu_user = u_id actor, tu_conv = c, tu_first = first, tu_pending = \<lparr>pd_question = question, pd_images = images, pd_since = t\<rparr>,
      tu_images = shots, tu_screen = screen, tu_bora = b, tu_cancelled = False, tu_events = (if first then [Began (cv_id c)] else []), tu_over = False, tu_answer = None\<rparr>)"

text \<open>\<open>ask\<close>: what it refuses changes no table; otherwise the id of the conversation, whose turn now runs.\<close>

definition ask_bora :: "turn_lib \<Rightarrow> user \<Rightarrow> conversation \<Rightarrow> string \<Rightarrow> string \<Rightarrow> uuid list \<Rightarrow> (bora_service, uuid) io" where
  "ask_bora bl actor conv raw screen images = (let question = trim_space raw; n = rune_count question in
     if n = 0 \<or> n > 2000 \<or> length screen > 2000
     then fail (err_invalid ''question must be 1 to 2000 characters, and screen at most 2000 bytes'')
     else io_bind (in_world (io_get s3_on)) (\<lambda>on.
       if \<not> sv_assist (bl_wiring bl) \<or> images \<noteq> [] \<and> \<not> on then fail (err_sentinel ErrConflict)
       else if length images > images_per_question then fail (err_invalid ''a question carries at most 4 images'')
       else io_bind (in_world (load_images (u_id actor) images)) (\<lambda>(err, shots). case err of
         Some e \<Rightarrow> if err_is e ErrNotFound then fail (err_invalid ''images must be ones you uploaded'') else fail e
       | None \<Rightarrow> io_bind (in_world (start_bora_answer (bora_lib.truncate bl) (bl_wiring bl) actor (cv_about conv) (cv_messages conv \<noteq> []))) (\<lambda>b.
           io_bind (in_world (io_get now)) (\<lambda>t. let turn = new_turn actor conv question screen images shots b t in
           io_bind (enter_turn turn) (\<lambda>_. ret (turn_id turn)))))))"

definition no_about :: bora_about where
  "no_about = \<lparr>ab_kind = [], ab_project = [], ab_task = [], ab_id = 0, ab_at = [], ab_line = []\<rparr>"

definition start_bora :: "turn_lib \<Rightarrow> user \<Rightarrow> bora_about \<Rightarrow> string \<Rightarrow> string \<Rightarrow> uuid list \<Rightarrow> (bora_service, uuid) io" where
  "start_bora bl actor about question screen images = (if \<not> valid_about about
     then fail (err_invalid ''about must have the fields its kind takes, and no others'')
     else io_bind (in_world fresh_id) (\<lambda>i. ask_bora bl actor \<lparr>cv_id = i, cv_user = u_id actor, cv_project = None,
       cv_about = about\<lparr>ab_line := redact (ab_line about)\<rparr>, cv_projects = [], cv_title = [], cv_snippet = [], cv_messages = [], cv_answering = None,
       cv_created = 0, cv_updated = 0\<rparr> question screen images))"

definition ask_again :: "turn_lib \<Rightarrow> user \<Rightarrow> uuid \<Rightarrow> string \<Rightarrow> string \<Rightarrow> uuid list \<Rightarrow> (bora_service, uuid) io" where
  "ask_again bl actor i question screen images = io_bind (io_get (user_turn actor i)) (\<lambda>t.
     if t \<noteq> None then fail (err_sentinel ErrConflict)
     else io_bind (io_wrap ''get conversation'' (conv_get (u_id actor) (is_admin actor) i)) (\<lambda>conv. ask_bora bl actor conv question screen images))"

section \<open>Asking the model\<close>

definition newest :: "nat \<Rightarrow> 'a list \<Rightarrow> 'a list" where
  "newest n xs = drop (length xs - n) xs"

text \<open>The images of a question: its own, or the newest of the conversation's last messages. \<open>None\<close> is a panic, where there is no object store.\<close>

definition question_images :: "bora_turn \<Rightarrow> world \<Rightarrow> (chat_image list \<times> world) option" where
  "question_images t w = (if tu_images t \<noteq> [] then Some (tu_images t, w)
     else case find (\<lambda>m. bm_images m \<noteq> []) (rev (newest history_messages (cv_messages (tu_conv t)))) of None \<Rightarrow> Some ([], w)
     | Some m \<Rightarrow> if \<not> s3_on w then None else (case load_images (tu_user t) (bm_images m) w of
         (Inr (_, ims), w1) \<Rightarrow> Some (ims, w1) | (Inl _, w1) \<Rightarrow> Some ([], w1)))"

definition bora_ask :: "turn_lib \<Rightarrow> bora_turn \<Rightarrow> chat_image list \<Rightarrow> answering \<Rightarrow> answering ask" where
  "bora_ask bl t images b = (let conv = tu_conv t; ms = cv_messages conv; x = ext (an_world b); question = pd_question (tu_pending t);
       fleet = (ab_kind (cv_about conv) = ''fleet''); send = (\<lambda>r s. case r (an_sayer s) of (evs, w) \<Rightarrow> s\<lparr>br_events := br_events s @ evs, an_sayer := w\<rparr>) in
     \<lparr>ak_system = bl_prompt bl @ answer_in x question,
      ak_brief = bora_brief (bora_lib.truncate bl) (tu_screen t) (concat (map bm_ran ms)) b,
      ak_clarify = (images = [] \<and> (ms = [] \<or> bm_choices (List.last ms) = [])),
      ak_tools = bora_tools x (tool_lib.truncate bl) (bl_about bl) (tu_first t) b,
      ak_budget = (if bl_code bl \<noteq> None then code_budget else 0),
      ak_history = map (\<lambda>m. \<lparr>cm_role = bm_role m, cm_content = bm_content m\<rparr>) (newest history_messages ms),
      ak_question = question,
      ak_data = (if fleet then [] else bora_data b), ak_images = images, ak_clarify_data = (if fleet then bora_data b else []),
      ak_delta = Some (\<lambda>text. send (sayer_write x (bl_letter bl) text)), ak_reset = Some (send (\<lambda>_. sayer_reset))\<rparr>)"

text \<open>The first half of \<open>answer\<close>: up to what the model says.\<close>

definition ask_model :: "turn_lib \<Rightarrow> bora_turn \<Rightarrow> world \<Rightarrow> ((goerr + chat_reply) \<times> answering) option" where
  "ask_model bl t w = (case question_images t w of None \<Rightarrow> None
     | Some (images, w1) \<Rightarrow> let b = (tu_bora t)\<lparr>br_tainted := (images \<noteq> []), an_world := w1\<rparr> in
         (case answer (bl_llm bl) (bora_ask bl t images b) \<lparr>ta_sent = [], ta_state = b\<rparr> of (r, k) \<Rightarrow> Some (r, ta_state k)))"

definition set_turn :: "uuid \<Rightarrow> (bora_turn \<Rightarrow> bora_turn) \<Rightarrow> bora_turn list \<Rightarrow> bora_turn list" where
  "set_turn i f ts = map (\<lambda>t. if turn_id t = i then f t else t) ts"

definition think_turn :: "turn_lib \<Rightarrow> uuid \<Rightarrow> bora_service \<Rightarrow> bora_service option" where
  "think_turn bl i s = (case turn_in s i of None \<Rightarrow> Some s
     | Some t \<Rightarrow> if tu_answer t \<noteq> None then Some s
         else (case ask_model bl t (bt_world s) of None \<Rightarrow> None
         | Some (r, b) \<Rightarrow> Some (s\<lparr>bt_world := an_world b, bs_turns := set_turn i (\<lambda>t. t\<lparr>tu_bora := b,
             tu_events := tu_events t @ map Turn (br_events b), tu_answer := Some (map_sum id (\<lambda>a. (rp_content a, rp_choices a)) r)\<rparr>) (bs_turns s)\<rparr>)))"

section \<open>Saving\<close>

definition bora_message_of :: "nat \<Rightarrow> chat_role \<Rightarrow> string \<Rightarrow> time \<Rightarrow> bora_message" where
  "bora_message_of index r content t = \<lparr>bm_index = index, bm_role = r, bm_content = content, bm_say = [], bm_actions = [], bm_choices = [],
     bm_sources = [], bm_ran = [], bm_images = [], bm_at = t\<rparr>"

text \<open>The line an answer opens with and the answer after it; an answer that is only the line is both.\<close>

definition split_say :: "string \<Rightarrow> string \<times> string" where
  "split_say content = (case match_groups say_tag content of
       Some m \<Rightarrow> (m 1, first_of (drop (length (m 0)) content) (m 1))
     | None \<Rightarrow> ([], trim_prefix content say_open))"

definition asked_message :: "bora_turn \<Rightarrow> bora_message" where
  "asked_message t = (bora_message_of (length (cv_messages (tu_conv t))) ChatUser (pd_question (tu_pending t)) (pd_since (tu_pending t)))
     \<lparr>bm_images := pd_images (tu_pending t)\<rparr>"

definition answered_message :: "turn_lib \<Rightarrow> ext \<Rightarrow> bora_turn \<Rightarrow> string \<Rightarrow> string list option \<Rightarrow> time \<Rightarrow> bora_message" where
  "answered_message bl x t content choices at_time = (case split_say content of (say, text) \<Rightarrow>
     (bora_message_of (Suc (length (cv_messages (tu_conv t)))) ChatAssistant (truncate_runes (redact text) answer_runes) at_time)
       \<lparr>bm_say := spoken x (bl_letter bl) (first_of say text), bm_choices := (case choices of None \<Rightarrow> [] | Some cs \<Rightarrow> cs),
        bm_sources := br_sources (tu_bora t), bm_actions := (if choices = None then br_actions (tu_bora t) else [])\<rparr>)"

fun add_read :: "uuid list \<Rightarrow> uuid list \<Rightarrow> uuid list" where
  "add_read [] ps = ps"
| "add_read (i # is) ps = add_read is (if i \<in> set ps then ps else ps @ [i])"

definition answered_conv :: "bora_turn \<Rightarrow> conversation" where
  "answered_conv t = (tu_conv t)\<lparr>cv_projects := add_read (br_read (tu_bora t)) (cv_projects (tu_conv t)),
     cv_title := (if tu_first t then first_of (br_title (tu_bora t)) (cv_title (tu_conv t)) else cv_title (tu_conv t))\<rparr>"

text \<open>The second half of \<open>answer\<close>: the question is saved with its answer, or nothing; a driver refuses a context that is done.\<close>

definition save_turn :: "turn_lib \<Rightarrow> bora_turn \<Rightarrow> string \<Rightarrow> string list option \<Rightarrow> (bora_service, bora_event) io" where
  "save_turn bl t content choices = io_bind (in_world (io_get (\<lambda>w. (ext w, now w)))) (\<lambda>(x, at_time).
     let answered = answered_message bl x t content choices at_time in
     io_bind (io_wrap ''save conversation'' (if tu_cancelled t then fail (err_new ''context canceled'')
       else conv_save (answered_conv t) [asked_message t, answered])) (\<lambda>_. ret (Done answered (if tu_first t then cv_title (answered_conv t) else []))))"

text \<open>The events before the last: the line, where it has not been said.\<close>

definition late_say :: "turn_lib \<Rightarrow> ext \<Rightarrow> bora_turn \<Rightarrow> string \<Rightarrow> bora_event list" where
  "late_say bl x t content = (if sy_said (an_sayer (tu_bora t)) then [] else case split_say content of (say, text) \<Rightarrow>
     [Turn (Say (spoken x (bl_letter bl) (first_of say text)))])"

text \<open>The end of \<open>runTurn\<close>.\<close>

definition leave_turn :: "bora_turn \<Rightarrow> bora_event list \<Rightarrow> goerr + bora_event \<Rightarrow> bora_service \<Rightarrow> bora_service" where
  "leave_turn t said r s = (let final = (case r of Inr e \<Rightarrow> e | Inl e \<Rightarrow> if tu_cancelled t then Stopped else Failed e) in
     s\<lparr>bs_turns := filter (\<lambda>o'. turn_id o' \<noteq> turn_id t) (bs_turns s), bs_past := bs_past s @ [end_turn (publish_turn final (fold publish_turn said t))]\<rparr>)"

definition finish_turn :: "turn_lib \<Rightarrow> uuid \<Rightarrow> bora_service \<Rightarrow> bora_service" where
  "finish_turn bl i s = (case turn_in s i of None \<Rightarrow> s
     | Some t \<Rightarrow> (case tu_answer t of None \<Rightarrow> s
       | Some (Inl e) \<Rightarrow> leave_turn t [] (Inl e) s
       | Some (Inr (content, choices)) \<Rightarrow> (case save_turn bl t content choices s of
           (r, s1) \<Rightarrow> leave_turn t (late_say bl (ext (bt_world s)) t content) r s1)))"

section \<open>Following and stopping\<close>

text \<open>
  A stream's goroutine reads the events it has not sent and whether the turn is over, sends them, and sleeps until the next event:
  what it sends for the states it reads.
\<close>

fun follow :: "(bora_event list \<times> bool) list \<Rightarrow> nat \<Rightarrow> bora_event list" where
  "follow [] sent = []"
| "follow ((events, over) # reads) sent = drop sent events @ (if over then [] else follow reads (sent + length (drop sent events)))"

definition follow_bora :: "user \<Rightarrow> uuid \<Rightarrow> bora_service \<Rightarrow> (bora_event list \<times> bool) option" where
  "follow_bora actor i s = map_option (\<lambda>t. (tu_events t, tu_over t)) (user_turn actor i s)"

definition cancel_turn :: "bora_turn \<Rightarrow> bora_turn" where
  "cancel_turn t = t\<lparr>tu_cancelled := True\<rparr>"

definition stop_bora :: "user \<Rightarrow> uuid \<Rightarrow> bora_service \<Rightarrow> bora_service" where
  "stop_bora actor i s = (if user_turn actor i s = None then s else s\<lparr>bs_turns := set_turn i cancel_turn (bs_turns s)\<rparr>)"

definition stop_all_bora :: "bora_service \<Rightarrow> bora_service" where
  "stop_all_bora s = s\<lparr>bs_turns := map cancel_turn (bs_turns s)\<rparr>"

section \<open>Conversations\<close>

definition cursor_of :: "turn_lib \<Rightarrow> string \<Rightarrow> goerr + bora_cursor option" where
  "cursor_of bl before = (if before = [] then Inr None
     else case cut_at (CHR ''_'') before of (t, i, _) \<Rightarrow> (case (bl_nano_of bl t, bl_uuid_of bl i) of
       (Some t, Some i) \<Rightarrow> Inr (Some \<lparr>cu_at = t, cu_id = i\<rparr>) | _ \<Rightarrow> Inl (err_invalid ''before must be a next value'')))"

definition answering_of :: "user \<Rightarrow> bora_service \<Rightarrow> conversation \<Rightarrow> conversation" where
  "answering_of actor s c = (case user_turn actor (cv_id c) s of None \<Rightarrow> c | Some t \<Rightarrow> c\<lparr>cv_answering := Some (tu_pending t)\<rparr>)"

definition bora_conversations :: "turn_lib \<Rightarrow> user \<Rightarrow> string \<Rightarrow> string \<Rightarrow> int \<Rightarrow> (bora_service, conversation list \<times> string) io" where
  "bora_conversations bl actor query before limit = io_bind (io_lift (cursor_of bl before)) (\<lambda>cursor.
     if limit < 1 \<or> limit > 200 then fail (err_invalid ''limit must be 1 to 200'')
     else io_bind (io_wrap ''list conversations'' (conv_list (u_id actor) (is_admin actor) query cursor (nat limit + 1))) (\<lambda>found.
       let page = take (nat limit) found in
       io_get (\<lambda>s. (map (answering_of actor s) page, if length found > nat limit
         then bl_nano bl (cv_updated (List.last page)) @ ''_'' @ x_uuid_str (ext (bt_world s)) (cv_id (List.last page)) else []))))"

definition bora_conversation :: "user \<Rightarrow> uuid \<Rightarrow> (bora_service, conversation) io" where
  "bora_conversation actor i = io_bind (io_get (user_turn actor i)) (\<lambda>turn.
     io_bind (io_try (conv_get (u_id actor) (is_admin actor) i)) (\<lambda>r.
       let got = (case (turn, r) of (Some t, Inl e) \<Rightarrow> if tu_first t \<and> err_is e ErrNotFound then Inr (tu_conv t) else r | _ \<Rightarrow> r) in
       io_wrap ''get conversation'' (io_lift (case (turn, got) of (Some t, Inr c) \<Rightarrow> Inr (c\<lparr>cv_answering := Some (tu_pending t)\<rparr>) | _ \<Rightarrow> got))))"

definition add_bora_ran :: "user \<Rightarrow> uuid \<Rightarrow> int \<Rightarrow> string \<Rightarrow> (bora_service, unit) io" where
  "add_bora_ran actor i index raw = (let line = trim_space raw; n = rune_count line in
     if n = 0 \<or> n > 200 then fail (err_invalid ''line must be 1 to 200 characters'')
     else io_bind (io_wrap ''get conversation'' (conv_get (u_id actor) (is_admin actor) i)) (\<lambda>_.
       io_wrap ''add ran'' (if index < 0 then bora_call ''add ran'' (fail (err_invalid ''index must be an answer holding fewer than 10 ran lines''))
         else conv_add_ran i (nat index) line)))"

text \<open>\<open>DeleteBora\<close>: images are deleted as far as the store answers, running turns are stopped; one on its first turn is not stored yet.\<close>

definition drop_images :: "user \<Rightarrow> uuid list \<Rightarrow> (world, unit) io" where
  "drop_images actor is = io_each (\<lambda>i. io_bind (io_try (io_bind (image_key (u_id actor) i) s3_delete)) (\<lambda>_. ret ())) is"

definition delete_bora :: "user \<Rightarrow> uuid option \<Rightarrow> (bora_service, unit) io" where
  "delete_bora actor which = io_bind (io_try (conv_delete (u_id actor) (is_admin actor) which)) (\<lambda>r.
     io_bind (in_world (io_get s3_on)) (\<lambda>on.
     io_bind (if on then in_world (drop_images actor (case r of Inl _ \<Rightarrow> [] | Inr is \<Rightarrow> is)) else ret ()) (\<lambda>_.
     io_bind (io_get bs_turns) (\<lambda>ts.
     let hit = (\<lambda>t. tu_user t = u_id actor \<and> (which = None \<or> which = Some (turn_id t)));
       forgiven = (case r of Inl e \<Rightarrow> err_is e ErrNotFound \<and> list_ex (\<lambda>t. hit t \<and> tu_first t) ts | Inr _ \<Rightarrow> True) in
     io_bind (io_mod (\<lambda>s. s\<lparr>bs_turns := map (\<lambda>t. if hit t then cancel_turn t else t) (bs_turns s)\<rparr>)) (\<lambda>_.
       case r of Inl e \<Rightarrow> if forgiven then ret () else fail (err_wrap ''delete conversation'' e) | Inr _ \<Rightarrow> ret ())))))"

end
