(* ===== verification/Bora_Confined.thy ===== *)
theory Bora_Confined
  imports Bora_Tools Task_Runs
begin

text \<open>
  What an answer may touch, whatever the model calls: its tools read the tables and the logs of its projects'
  tasks and change nothing, only the projects it reaches count as read, and its buttons are ones the actor may press.
\<close>

section \<open>The bounds of an answer\<close>

text \<open>The part of the process no tool changes: all but the faults still to come and the calls made of the daemon.\<close>

definition aside :: "world \<Rightarrow> world" where
  "aside w = w\<lparr>faults := [], dlog := []\<rparr>"

definition answer_scope :: "answering \<Rightarrow> user \<times> access list \<times> string list \<times> fleet_task list \<times> string \<times> string" where
  "answer_scope s = (br_actor s, br_members s, br_unserved s, br_tasks s, br_label s, br_subject s)"

text \<open>A reading, without following, of the logs of a container that is a task's in a project the answer reaches.\<close>

definition log_read :: "answering \<Rightarrow> docker_call \<Rightarrow> bool" where
  "log_read s c \<longleftrightarrow> (\<exists>i tail since. c = ContainerLogs i False tail since \<and> (\<exists>t \<in> set (tasks (an_world s)). t_container t = i \<and>
     (\<exists>p \<in> set (projects (an_world s)). p_id p = t_project t \<and> (\<exists>acc \<in> set (br_members s). p_slug (acc_project acc) = p_slug p))))"

definition good_buttons :: "answering \<Rightarrow> bora_action list \<Rightarrow> bool" where
  "good_buttons s as \<longleftrightarrow> list_all (action_allowed s) as \<and> length as \<le> max_actions \<and> sorted_wrt (\<lambda>a b. \<not> same_button a b) as"

text \<open>\<open>roams b s\<close>: the answer that began as \<open>b\<close> may be \<open>s\<close> by now, but for its buttons.\<close>

definition roams :: "answering \<Rightarrow> answering \<Rightarrow> bool" where
  "roams b s \<longleftrightarrow> answer_scope s = answer_scope b \<and> aside (an_world s) = aside (an_world b) \<and>
     (\<exists>cs. dlog (an_world s) = dlog (an_world b) @ cs \<and> list_all (log_read b) cs) \<and>
     set (br_read s) \<subseteq> set (br_read b) \<union> (\<lambda>acc. p_id (acc_project acc)) ` set (br_members b) \<and>
     (br_tainted b \<longrightarrow> br_tainted s) \<and> (br_sources s \<noteq> br_sources b \<longrightarrow> br_tainted s)"

text \<open>With \<open>code\<close>, an answer that has read code; with \<open>shown\<close>, one whose buttons are good.\<close>

definition bounded :: "answering \<Rightarrow> bool \<Rightarrow> bool \<Rightarrow> answering \<Rightarrow> bool" where
  "bounded b code shown s \<longleftrightarrow> roams b s \<and> (code \<longrightarrow> br_tainted s) \<and> (shown \<longrightarrow> good_buttons b (br_actions s))"

section \<open>Steps\<close>

lemma bounded_events [simp]: "bounded b c v (s\<lparr>br_events := es\<rparr>) = bounded b c v s"
  by (simp add: bounded_def roams_def answer_scope_def)

lemma bounded_sayer [simp]: "bounded b c v (s\<lparr>br_events := es, an_sayer := w\<rparr>) = bounded b c v s"
  by (simp add: bounded_def roams_def answer_scope_def)

lemma bounded_title [simp]: "bounded b c v (s\<lparr>br_title := t\<rparr>) = bounded b c v s"
  by (simp add: bounded_def roams_def answer_scope_def)

lemma bounded_read: "bounded b c v s \<Longrightarrow> set is \<subseteq> (\<lambda>acc. p_id (acc_project acc)) ` set (br_members s) \<Longrightarrow> bounded b c v (s\<lparr>br_read := br_read s @ is\<rparr>)"
  by (auto simp: bounded_def roams_def answer_scope_def)

lemma bounded_source: "bounded b True v s \<Longrightarrow> bounded b True v (s\<lparr>br_sources := br_sources s @ xs\<rparr>)"
  by (simp add: bounded_def roams_def answer_scope_def)

lemma step_bounded: "preserves (bounded b c v) (bora_step text)"
  unfolding bora_step_def by (rule preserves_mod) simp

lemma told_bounded: "preserves I (told text)"
  unfolding told_def by (rule preserves_basic)

lemma project_bounded: "preserves (bounded b c v) (bora_project slug)"
  by (auto simp: preserves_def bora_project_def find_Some_iff split: option.split intro!: bounded_read)

lemma read_bounded:
  assumes "keeps tables_of m"
  shows "preserves (bounded b c v) (on_world m)"
proof (unfold preserves_def, intro allI impI)
  fix s assume s: "bounded b c v s"
  obtain r w where m: "m (an_world s) = (r, w)" by fastforce
  have "tables_of w = tables_of (an_world s)" using keepsD [OF assms m] .
  then have "aside w = aside (an_world s)" "dlog w = dlog (an_world s)"
    by (auto simp: tables_of_def aside_def dest: arg_cong [where f = dlog] arg_cong [where f = "\<lambda>w. w\<lparr>dlog := []\<rparr>"])
  then show "bounded b c v (snd (on_world m s))" using s by (simp add: on_world_def m bounded_def roams_def answer_scope_def)
qed

lemma get_bounded: "preserves I (io_get f)"
  by (rule preserves_basic)

lemmas tool_rules = told_bounded step_bounded project_bounded read_bounded preserves_rules

section \<open>Tools\<close>

lemma more_reads [keeps_intros]:
  "keeps tables_of (db_credentials_get i)" "keeps tables_of (db_tasks_list p u a)" "keeps tables_of (db_notifications_list u a x y n)"
  "keeps tables_of (db_projects_by_slug slug)" "keeps tables_of (db_tasks_by_name p name)"
  unfolding db_credentials_get_def db_tasks_list_def db_notifications_list_def db_projects_by_slug_def db_tasks_by_name_def
  by (intro keeps_intros; simp)+

lemma get_task_reads [keeps_intros]: "keeps tables_of (get_task slug name)"
  unfolding get_task_def get_project_def by (intro keeps_intros)

lemma metrics_sources_reads [keeps_intros]: "keeps tables_of (metrics_sources acc name)"
  unfolding metrics_sources_def by (intro keeps_intros)

lemma notifications_read [keeps_intros]: "keeps tables_of (pr_notifications u p q n)"
  unfolding pr_notifications_def by (intro keeps_intros)

lemma find_bounded: "preserves (bounded b c v) (bora_find slug name)"
  unfolding bora_find_def by (intro tool_rules)

lemma scope_bounded: "preserves (bounded b c v) (bora_scope slug)"
  unfolding bora_scope_def by (intro tool_rules preserves_mod) (auto intro: bounded_read)

lemma owned_bounded: "preserves (bounded b c v) (bora_owned slug)"
  unfolding bora_owned_def by (intro tool_rules)

lemmas lookup_rules = find_bounded scope_bounded owned_bounded tool_rules

lemma list_projects_bounded: "preserves (bounded b c v) (list_projects_tool bl a)"
  unfolding list_projects_tool_def by (intro tool_rules)

lemma list_tasks_bounded: "preserves (bounded b c v) (list_tasks_tool bl a)"
  unfolding list_tasks_tool_def by (intro lookup_rules)

lemma task_details_bounded: "preserves (bounded b c v) (task_details_tool bl a)"
  unfolding task_details_tool_def by (intro lookup_rules)

lemma each_activity_bounded: "preserves (bounded b c v) (each_activity n accs)"
  by (induction accs) (simp_all, (intro lookup_rules keeps_intros | assumption)+)

lemma activity_bounded: "preserves (bounded b c v) (activity_tool bl a)"
  unfolding activity_tool_def Let_def by (intro lookup_rules each_activity_bounded)

lemma metrics_bounded: "preserves (bounded b c v) (metrics_tool bl a)"
  unfolding metrics_tool_def by (intro lookup_rules keeps_intros)

lemma members_bounded: "preserves (bounded b c v) (members_tool a)"
  unfolding members_tool_def by (intro lookup_rules keeps_intros)

lemma grants_bounded: "preserves (bounded b c v) (grants_tool a)"
  unfolding grants_tool_def by (intro lookup_rules keeps_intros)

lemma settings_bounded: "preserves (bounded b c v) (settings_tool a)"
  unfolding settings_tool_def credential_text_def Let_def by (intro lookup_rules keeps_intros)

lemma title_bounded: "preserves (bounded b c v) (title_tool a)"
  unfolding title_tool_def by (intro lookup_rules preserves_mod) (simp add: Let_def)

text \<open>Reading logs makes at most one call, and of the task's container.\<close>

lemma tk_logs_run:
  assumes "tk_logs slug name opts w = (r, w')"
  obtains (quiet) "tables_of w' = tables_of w"
  | (asks) t p where "p \<in> set (projects w)" "p_slug p = slug" "t \<in> set (tasks w)" "t_project t = p_id p" "aside w' = aside w"
      "dlog w' = dlog w @ [ContainerLogs (t_container t) (lo_follow opts) (fst (log_args opts)) (snd (log_args opts))]"
proof (cases "lo_tail opts < 0")
  case True
  then show thesis using assms quiet by (simp add: tk_logs_def fail_def)
next
  case False
  obtain g w1 where got: "get_task slug name w = (g, w1)" by fastforce
  show thesis
  proof (cases g)
    case (Inl e)
    then show thesis using assms False got quiet keepsD [OF get_task_reads got] by (simp add: tk_logs_def io_bind_def)
  next
    case (Inr x)
    then obtain t p where x: "get_task slug name w = (Inr (t, p), w1)" using got by (cases x) auto
    from get_task_ok [OF this] obtain row fs where row: "p \<in> set (projects w)" "p_slug p = slug" "row \<in> set (tasks w)"
      "t_project row = p_id p" "t = scan_task w row" "w1 = w\<lparr>faults := fs\<rparr>" by metis
    show thesis
    proof (cases "t_container t = []")
      case True
      then have "w' = w\<lparr>faults := fs\<rparr>" using assms False x row(6) by (simp add: tk_logs_def io_bind_def fail_def)
      then show thesis by (intro quiet) (simp only: tables_faults)
    next
      case held: False
      have "w' = w1\<lparr>dlog := dlog w1 @ [ContainerLogs (t_container t) (lo_follow opts) (fst (log_args opts)) (snd (log_args opts))]\<rparr>"
        using assms False x held
        by (auto simp: tk_logs_def rt_logs_def d_must_def io_bind_def io_wrap_def d_call_def Let_def ret_def fail_def split: sum.split_asm prod.split_asm option.split_asm)
      then show thesis using asks [of p row] row by (simp add: aside_def scan_task_def)
    qed
  qed
qed

lemma task_logs_state: "snd (task_logs bl slug name opts w) = snd (tk_logs slug name opts w)"
  by (auto simp: task_logs_def io_bind_def Let_def ret_def fail_def split: prod.split sum.split option.split)

lemma bounded_world:
  assumes "bounded b c v s" "aside w = aside (an_world s)" "dlog w = dlog (an_world s) @ cs" "list_all (log_read b) cs"
  shows "bounded b c v (s\<lparr>an_world := w\<rparr>)"
  using assms by (auto simp: bounded_def roams_def answer_scope_def)

lemma bounded_tables: "bounded b c v s \<Longrightarrow> tasks (an_world s) = tasks (an_world b) \<and> projects (an_world s) = projects (an_world b) \<and> br_members s = br_members b"
  by (auto simp: bounded_def roams_def answer_scope_def aside_def dest: arg_cong [where f = tasks] arg_cong [where f = projects])

lemma logs_bounded:
  assumes "bounded b c v s" "acc \<in> set (br_members s)" "p_slug (acc_project acc) = slug" "\<not> lo_follow opts"
  shows "bounded b c v (snd (on_world (task_logs bl slug name opts) s))"
proof -
  let ?w = "snd (tk_logs slug name opts (an_world s))"
  have "bounded b c v (s\<lparr>an_world := ?w\<rparr>)"
  proof (rule tk_logs_run [of slug name opts "an_world s" "fst (tk_logs slug name opts (an_world s))" ?w])
    assume "tables_of ?w = tables_of (an_world s)"
    then have "aside ?w = aside (an_world s)" "dlog ?w = dlog (an_world s) @ []"
      by (auto simp: tables_of_def aside_def dest: arg_cong [where f = dlog] arg_cong [where f = "\<lambda>w. w\<lparr>dlog := []\<rparr>"])
    then show ?thesis by (rule bounded_world [OF assms(1)]) simp
  next
    fix t p
    assume at: "p \<in> set (projects (an_world s))" "p_slug p = slug" "t \<in> set (tasks (an_world s))" "t_project t = p_id p"
      and w: "aside ?w = aside (an_world s)"
        "dlog ?w = dlog (an_world s) @ [ContainerLogs (t_container t) (lo_follow opts) (fst (log_args opts)) (snd (log_args opts))]"
    have "log_read b (ContainerLogs (t_container t) (lo_follow opts) (fst (log_args opts)) (snd (log_args opts)))"
      using at assms(2,3,4) bounded_tables [OF assms(1)] by (fastforce simp: log_read_def)
    then show ?thesis by (intro bounded_world [OF assms(1) w]) simp
  qed simp
  then show ?thesis by (simp add: on_world_def case_prod_beta task_logs_state)
qed

text \<open>What was found is of a project the answer reaches.\<close>

lemma bora_find_ok:
  assumes "bora_find slug name s = (Inr (Some ft), s1)"
  shows "\<exists>acc \<in> set (br_members s1). p_slug (acc_project acc) = slug"
  using assms by (auto simp: bora_find_def run_ok bora_project_def find_Some_iff split: option.split_asm)

lemma task_logs_bounded: "preserves (bounded b c v) (task_logs_tool bl a)"
proof (unfold preserves_def, intro allI impI)
  fix s assume s: "bounded b c v s"
  obtain r s1 where found: "bora_find (ar_project a) (ar_task a) s = (r, s1)" by fastforce
  have s1: "bounded b c v s1" using preservesD [OF find_bounded found s] .
  show "bounded b c v (snd (task_logs_tool bl a s))"
  proof (cases "\<exists>ft. r = Inr (Some ft)")
    case False
    then show ?thesis using found s1
      by (cases r) (auto simp: task_logs_tool_def io_bind_def io_get_def told_def fail_def)
  next
    case True
    then obtain ft where ft: "r = Inr (Some ft)" by blast
    from bora_find_ok [of "ar_project a" "ar_task a" s ft s1] found ft obtain acc where
      acc: "acc \<in> set (br_members s1)" "p_slug (acc_project acc) = ar_project a" by blast
    let ?J = "\<lambda>s. bounded b c v s \<and> acc \<in> set (br_members s)"
    define rest_of where "rest_of = (let n = (if ar_tail a = 0 then 200 else ar_tail a) in
         if n < 1 \<or> n > 200 then told ''error: tail must be 1 to 200''
         else (case since_of bl (ar_since a) of None \<Rightarrow> told ''error: since must be an RFC 3339 time''
           | Some since \<Rightarrow> io_bind (bora_step (''Reading '' @ ar_task a @ [CHR 0x27] @ ''s logs'' @ dots)) (\<lambda>_.
               io_bind (io_try (on_world (task_logs bl (ar_project a) (ar_task a) \<lparr>lo_tail = n, lo_follow = False, lo_since = since\<rparr>))) (\<lambda>r. case r of
                 Inl e \<Rightarrow> if err_is e ErrConflict then ret ''no logs: the task has no container yet'' else told ''error: could not read the logs''
               | Inr text \<Rightarrow> ret (if text = [] then ''no log lines'' else first_of (cut_logs text) ''error: the lines are too long to read'')))))"
    have step: "preserves ?J (bora_step line)" for line
      unfolding bora_step_def by (rule preserves_mod) simp
    have read: "preserves ?J (on_world (task_logs bl (ar_project a) (ar_task a) opts))" if "\<not> lo_follow opts" for opts
      using logs_bounded [OF _ _ acc(2) that] by (fastforce simp: preserves_def on_world_def split: prod.splits)
    have "preserves ?J rest_of"
      unfolding rest_of_def Let_def by (intro step read told_bounded preserves_rules) simp_all
    then have "bounded b c v (snd (rest_of s1))" using s1 acc(1) by (auto simp: preserves_def)
    moreover have "task_logs_tool bl a s = rest_of s1"
      using found ft by (simp add: task_logs_tool_def io_bind_def rest_of_def)
    ultimately show ?thesis by simp
  qed
qed

section \<open>Proposals\<close>

lemma bounded_actions [simp]: "bounded b c False (s\<lparr>br_actions := as\<rparr>) = bounded b c False s"
  by (simp add: bounded_def roams_def answer_scope_def)

text \<open>The checks of a proposal's fields change the state only by reading the tables.\<close>

lemma fields_frame: "(\<And>s w. f (s\<lparr>an_world := w\<rparr>) = f s) \<Longrightarrow> keeps f (action_fields bl acc p act)"
  "(\<And>s w. f (s\<lparr>an_world := w\<rparr>) = f s) \<Longrightarrow> keeps f (task_role acc oper p)"
  unfolding field_defs by (intro keeps_intros; assumption)+

lemma read_only_bounded:
  assumes "keeps (\<lambda>s. s\<lparr>an_world := w0\<rparr>) m" "keeps (\<lambda>s. tables_of (an_world s)) m"
  shows "preserves (bounded b c v) m"
proof (unfold preserves_def, intro allI impI)
  fix s assume s: "bounded b c v s"
  let ?s = "snd (m s)"
  have same: "?s\<lparr>an_world := w0\<rparr> = s\<lparr>an_world := w0\<rparr>" "tables_of (an_world ?s) = tables_of (an_world s)"
    using assms by (simp_all add: keeps_def)
  have "?s = s\<lparr>an_world := an_world ?s\<rparr>"
    using arg_cong [OF same(1), of "\<lambda>x. x\<lparr>an_world := an_world ?s\<rparr>"] by simp
  moreover have "aside (an_world ?s) = aside (an_world s)" "dlog (an_world ?s) = dlog (an_world s) @ []"
    using same(2) by (auto simp: tables_of_def aside_def dest: arg_cong [where f = dlog] arg_cong [where f = "\<lambda>w. w\<lparr>dlog := []\<rparr>"])
  then have "bounded b c v (s\<lparr>an_world := an_world ?s\<rparr>)" by (rule bounded_world [OF s]) simp
  ultimately show "bounded b c v ?s" by simp
qed

lemma fields_bounded: "preserves (bounded b c v) (action_fields bl acc p act)" "preserves (bounded b c v) (task_role acc oper p)"
  by (rule read_only_bounded, (rule fields_frame fields_keep; simp), rule fields_keep)+

lemma propose_roams: "preserves (bounded b c False) (bora_propose x bl p)"
  unfolding bora_propose_def Let_def by (intro fields_bounded preserves_mod tool_rules) simp_all

text \<open>What a tainted answer may not do, one that is not tainted may.\<close>

lemma allowed_before:
  assumes "action_allowed s a" "roams b s"
  shows "action_allowed b a"
proof -
  have scope: "br_members b = br_members s" "br_actor b = br_actor s" "br_tasks b = br_tasks s"
    using assms(2) by (auto simp: roams_def answer_scope_def)
  have world: "aside (an_world b) = aside (an_world s)" using assms(2) by (simp add: roams_def)
  have "fields_allowed (an_world b) u p a = fields_allowed (an_world s) u p a" for u p
    using arg_cong [OF world, of users] arg_cong [OF world, of members] arg_cong [OF world, of tasks] arg_cong [OF world, of grants]
    by (simp add: aside_def fields_allowed_def names_person_def granted_in_def)
  moreover have "role_at b acc op i = role_at s acc op i" "names_task b acc a = names_task s acc a" for acc op i
    by (simp_all add: role_at_def names_task_def bora_task_def bora_tasks_of_def scope)
  ultimately show ?thesis using assms scope by (auto simp: action_allowed_def roams_def)
qed

lemma propose_bounded: "preserves (bounded b c v) (bora_propose x bl p)"
proof (unfold preserves_def, intro allI impI)
  fix s assume s: "bounded b c v s"
  obtain r s' where run: "bora_propose x bl p s = (r, s')" by fastforce
  have "bounded b c False s" using s by (simp add: bounded_def)
  then have free: "bounded b c False s'" using preservesD [OF propose_roams run] by blast
  have "v \<longrightarrow> good_buttons b (br_actions s')"
  proof (cases r)
    case (Inl e)
    then have "br_actions s' = br_actions s" using propose_refused(1) [of x bl p] run by (simp add: keeps_refused_def answer_view_def)
    then show ?thesis using s by (simp add: bounded_def)
  next
    case (Inr t)
    from propose_appends [OF run [unfolded Inr]] obtain a where a: "br_actions s' = br_actions s @ [a]" "action_allowed s a"
      "length (br_actions s') \<le> max_actions" "\<not> list_ex (\<lambda>o'. same_button o' a) (br_actions s)" by blast
    have "action_allowed b a" using allowed_before [OF a(2)] s by (simp add: bounded_def)
    then show ?thesis using a s by (auto simp: bounded_def good_buttons_def sorted_wrt_append list_ex_iff)
  qed
  then show "bounded b c v (snd (bora_propose x bl p s))" using free run by (simp add: bounded_def)
qed

section \<open>Code\<close>

lemma code_project_bounded: "preserves (bounded b c v) (code_project slug)"
  unfolding code_project_def Let_def by (intro tool_rules)

lemma code_repo_bounded: "preserves (bounded b c v) (code_repo a)"
  unfolding code_repo_def by (intro code_project_bounded tool_rules)

lemma code_call_bounded: "preserves (bounded b c v) (code_call f)"
  unfolding code_call_def code_error_def by (intro tool_rules)

text \<open>The text of a tool on code comes after the taint.\<close>

lemma taint_bounded:
  assumes "preserves (bounded b True v) m"
  shows "bounded b c v s \<Longrightarrow> bounded b True v (snd (io_bind bora_taint (\<lambda>_. m) s))"
  using assms by (auto simp: io_bind_def bora_taint_def io_mod_def preserves_def bounded_def roams_def answer_scope_def)

lemmas code_rules = code_project_bounded code_repo_bounded code_call_bounded tool_rules

lemma code_tools_bounded:
  assumes "bounded b c v s"
  shows "bounded b True v (snd (search_code_tool ci a s))" "bounded b True v (snd (read_file_tool ci a s))"
    "bounded b True v (snd (code_history_tool ci a s))" "bounded b True v (snd (code_diff_tool ci a s))"
    "bounded b True v (snd (blame_tool ci a s))" "bounded b True v (snd (ask_sourcebot_tool ci a s))"
  unfolding search_code_tool_def read_file_tool_def code_history_tool_def code_diff_tool_def blame_tool_def ask_sourcebot_tool_def Let_def
  by (rule taint_bounded [OF _ assms]; intro code_rules preserves_mod; simp add: bounded_source)+

section \<open>The tools of an answer\<close>

definition code_names :: "string list" where
  "code_names = [''search_code'', ''read_file'', ''code_history'', ''code_diff'', ''blame'', ''ask_sourcebot'']"

lemma bora_tool_run: "\<exists>r. snd (tl_run (bora_tool bl n d fs z run) raw s) = s \<or> snd (tl_run (bora_tool bl n d fs z run) raw s) = snd (run r s)"
  by (auto simp: bora_tool_def case_prod_beta split: option.split sum.split)

lemma bora_tool_keeps:
  assumes "\<And>r. I (snd (run r s))" "I s"
  shows "I (snd (tl_run (bora_tool bl n d fs z run) raw s))"
  using bora_tool_run [of bl n d fs z run raw s] assms by metis

lemma fleet_tool_keeps: "(\<And>r. preserves I (run r)) \<Longrightarrow> I s \<Longrightarrow> I (snd (tl_run (bora_tool bl n d fs z run) raw s))"
  by (rule bora_tool_keeps) (simp_all add: preserves_def)

lemma code_tool_keeps: "(\<And>r. bounded b True v (snd (run r s))) \<Longrightarrow> bounded b c v s \<Longrightarrow> bounded b c v (snd (tl_run (bora_tool bl n d fs z run) raw s))"
  by (rule bora_tool_keeps [where I = "bounded b c v"]) (auto simp: bounded_def)

lemmas fleet_tools_bounded = list_projects_bounded list_tasks_bounded task_details_bounded activity_bounded settings_bounded
  task_logs_bounded metrics_bounded members_bounded grants_bounded title_bounded

text \<open>A tool is one on the fleet, a proposal, or one on code.\<close>

lemma in_if: "l \<in> set (if b then xs else []) \<Longrightarrow> l \<in> set xs"
  by (simp split: if_split_asm)

lemma in_option: "l \<in> set (case v of None \<Rightarrow> [] | Some y \<Rightarrow> f y) \<Longrightarrow> \<exists>y. v = Some y \<and> l \<in> set (f y)"
  by (cases v) auto

lemma tools_cases:
  assumes "l \<in> set (bora_tools x bl about first b0)"
  obtains (fleet) n run where "l = bora_tool bl n (about n) args_fields no_args run" "n \<notin> set code_names"
      "run \<in> {list_projects_tool (bora_lib.truncate bl), list_tasks_tool (bora_lib.truncate bl), task_details_tool (bora_lib.truncate bl),
        activity_tool (bora_lib.truncate bl), settings_tool, task_logs_tool bl, metrics_tool bl, members_tool, grants_tool, title_tool}"
  | (proposes) "l = bora_tool bl ''propose_action'' (about ''propose_action'') proposal_fields no_proposal (bora_propose x (bora_lib.truncate bl))"
  | (code) n run ci where "l = bora_tool bl n (about n) args_fields no_args run" "bl_code bl = Some ci"
      "run \<in> {search_code_tool ci, read_file_tool ci, code_history_tool ci, code_diff_tool ci, blame_tool ci, ask_sourcebot_tool ci}"
  using assms unfolding bora_tools_def Let_def set_append Un_iff
  apply (elim disjE)
  subgoal unfolding list.set insert_iff empty_iff
    by (elim disjE FalseE) ((rule proposes, assumption) | (rule fleet, assumption, simp add: code_names_def, simp))+
  subgoal by (drule in_if, unfold list.set insert_iff empty_iff, elim disjE FalseE) (rule fleet, assumption, simp add: code_names_def, simp)+
  subgoal by (drule in_option, elim exE conjE, unfold list.set insert_iff empty_iff, elim disjE FalseE) (rule code, assumption, assumption, simp)+
  subgoal by (drule in_if, unfold list.set insert_iff empty_iff, elim disjE FalseE) (rule fleet, assumption, simp add: code_names_def, simp)+
  done

lemma tools_bounded:
  assumes "l \<in> set (bora_tools x bl about first b0)" "bounded b c v s"
  shows "bounded b c v (snd (tl_run l raw s))"
  using assms(1)
proof (cases rule: tools_cases)
  case (fleet n run)
  have "preserves (bounded b c v) (run r)" for r using fleet(3) fleet_tools_bounded by auto
  then show ?thesis unfolding fleet(1) by (rule fleet_tool_keeps [where I = "bounded b c v", OF _ assms(2)])
next
  case proposes
  show ?thesis unfolding proposes by (rule fleet_tool_keeps [where I = "bounded b c v", OF propose_bounded assms(2)])
next
  case (code n run ci)
  have "bounded b True v (snd (run r s))" for r using code(3) code_tools_bounded [OF assms(2)] by auto
  then show ?thesis unfolding code(1) by (rule code_tool_keeps [OF _ assms(2)])
qed

lemma roams_refl: "roams s s"
  by (auto simp: roams_def)

lemma code_tool_taints:
  assumes "\<And>r. bounded s True False (snd (run r s))"
  shows "br_tainted (snd (tl_run (bora_tool bl n d fs z run) raw s)) \<or> tl_run (bora_tool bl n d fs z run) raw s = (''error: arguments are not valid JSON'', s)"
  using assms by (auto simp: bora_tool_def bounded_def case_prod_beta split: option.split sum.split)

lemma code_tools_taint:
  assumes "l \<in> set (bora_tools x bl about first b0)" "tl_name l \<in> set code_names"
  shows "br_tainted (snd (tl_run l raw s)) \<or> tl_run l raw s = (''error: arguments are not valid JSON'', s)"
  using assms(1)
proof (cases rule: tools_cases)
  case (code n run ci)
  have "bounded s False False s" by (simp add: bounded_def roams_refl)
  then have "bounded s True False (snd (run r s))" for r using code(3) code_tools_bounded by auto
  then show ?thesis unfolding code(1) by (rule code_tool_taints)
qed (use assms(2) in \<open>auto simp: bora_tool_def code_names_def\<close>)

section \<open>The beginning of an answer\<close>

text \<open>A project the actor is a member of, with their role there; an administrator is of every project.\<close>

definition reaches :: "world \<Rightarrow> user \<Rightarrow> access \<Rightarrow> bool" where
  "reaches w actor acc \<longleftrightarrow> acc_project acc \<in> set (projects w) \<and> (is_admin actor \<and> acc_role acc = ProjectRoleOwner \<or>
     (\<exists>m \<in> set (members w). m_project m = p_id (acc_project acc) \<and> m_user m = u_id actor \<and> acc_role acc = m_role m))"

lemma user_access_reaches: "user_access (u_id actor) p w = Some acc \<Longrightarrow> acc_all acc \<Longrightarrow> p \<in> set (projects w) \<Longrightarrow> reaches w actor acc"
  by (auto simp: user_access_def reaches_def member_of_def rows_with_def filter_eq_Cons_iff split: list.split_asm if_split_asm)

lemma user_access_faults [simp]: "user_access u p (w\<lparr>faults := fs\<rparr>) = user_access u p w"
  by (simp add: user_access_def granted_in_def split: list.split)

lemma fleet_reaches:
  assumes "pr_fleet actor w = (Inr (accs, ts), w1)" "acc \<in> set accs" "acc_all acc"
  shows "reaches w actor acc"
proof (cases "is_admin actor")
  case True
  then show ?thesis using assms
    by (auto simp: pr_fleet_def pr_list_def run_ok reaches_def db_projects_list_def dest!: query_ok)
next
  case False
  from False assms(1) obtain w2 where "db_projects_for_user (u_id actor) w = (Inr accs, w2)"
    by (auto simp: pr_fleet_def pr_list_def run_ok)
  then obtain p where "p \<in> set (projects w)" "user_access (u_id actor) p w = Some acc"
    using assms(2) by (auto simp: db_projects_for_user_def map_filter_def dest!: query_ok)
  then show ?thesis using user_access_reaches assms(3) by blast
qed

end
