(* ===== verification/Bora_Answers.thy ===== *)
theory Bora_Answers
  imports Bora_Turns Bora_Confined
begin

text \<open>
  What the turns of Bora promise: an answer stays within what its actor may see and do, a turn saves its
  question with its answer or nothing and ends its streams once, the turns that run are bounded, and no
  operation shows or changes another user's conversations.
\<close>

section \<open>An answer is confined\<close>

lemma served_all:
  assumes "(acc, True) \<in> set (zip accs (bora_serves sv t accs))"
  shows "acc \<in> set accs \<and> acc_all acc"
proof -
  obtain i where i: "i < length accs" "i < length (bora_serves sv t accs)" "acc = accs ! i" "bora_serves sv t accs ! i"
    using assms by (auto simp: in_set_zip)
  then have "acc_all (accs ! i)" by (auto simp: bora_serves_def split: option.split_asm)
  then show ?thesis using i by auto
qed

lemma new_bora_members: "acc \<in> set (br_members (new_bora actor accs (bora_serves sv t accs) ts w)) \<Longrightarrow> acc \<in> set accs \<and> acc_all acc"
  by (rule served_all [of acc accs sv t]) (auto simp: new_bora_def)

text \<open>What the subject's description leaves alone.\<close>

definition subject_frame :: "answering \<Rightarrow> user \<times> access list \<times> bora_action list \<times> code_source list \<times> uuid list" where
  "subject_frame s = (br_actor s, br_members s, br_actions s, br_sources s, br_read s)"

lemma subject_keeps: "keeps subject_frame (bora_alert bl a acc)" "keeps subject_frame (bora_task_subject bl a acc f)"
  unfolding bora_alert_def bora_task_subject_def Let_def
  by (intro keeps_intros; simp add: subject_frame_def)+

lemma about_subject_ok:
  assumes "bora_about_subject bl about accs f b = (Inr u, b1)" "br_read b = []"
  shows "br_actor b1 = br_actor b \<and> br_actions b1 = br_actions b \<and> br_sources b1 = br_sources b \<and> set (br_members b1) \<subseteq> set (br_members b) \<and>
    set (br_read b1) \<subseteq> (\<lambda>acc. p_id (acc_project acc)) ` set (br_members b1) \<and>
    (ab_kind about \<noteq> ''fleet'' \<longrightarrow> (\<exists>acc. br_members b1 = [acc] \<and> p_slug (acc_project acc) = ab_project about))"
proof (cases "ab_kind about = ''fleet''")
  case True
  then show ?thesis using assms by (auto simp: bora_about_subject_def io_mod_def)
next
  case False
  from assms(1) False obtain acc b2 where acc: "bora_project (ab_project about) b = (Inr (Some acc), b2)"
    and more: "(if ab_kind about = ''project'' then io_mod (\<lambda>s. s\<lparr>br_label := ''project '' @ ab_project about\<rparr>)
           else if ab_kind about = ''alert'' then bora_alert bl about acc
           else bora_task_subject bl about acc f) (b2\<lparr>br_members := [acc]\<rparr>) = (Inr u, b1)"
    by (auto simp: bora_about_subject_def bind_ok_iff run_simps io_mod_def fail_def split: if_split_asm option.split_asm)
  have b2: "b2 = b\<lparr>br_read := br_read b @ [p_id (acc_project acc)]\<rparr>" "acc \<in> set (br_members b)" "p_slug (acc_project acc) = ab_project about"
    using acc by (auto simp: bora_project_def find_Some_iff split: option.split_asm)
  have "subject_frame b1 = subject_frame (b2\<lparr>br_members := [acc]\<rparr>)"
    using more keepsD [OF subject_keeps(1)] keepsD [OF subject_keeps(2)] by (auto simp: io_mod_def subject_frame_def split: if_split_asm)
  then show ?thesis using b2 assms(2) by (auto simp: subject_frame_def)
qed

lemma start_answer_ok:
  assumes "start_bora_answer bl sv actor about follow_up w = (Inr b, w1)"
  shows "(\<forall>acc \<in> set (br_members b). reaches w actor acc) \<and> br_actor b = actor \<and> br_actions b = [] \<and> br_sources b = [] \<and>
    set (br_read b) \<subseteq> (\<lambda>acc. p_id (acc_project acc)) ` set (br_members b) \<and>
    (ab_kind about \<noteq> ''fleet'' \<longrightarrow> (\<exists>acc. br_members b = [acc] \<and> p_slug (acc_project acc) = ab_project about))"
proof -
  obtain accs ts w2 where fleet: "pr_fleet actor w = (Inr (accs, ts), w2)"
    using assms by (auto simp: start_bora_answer_def split: prod.split_asm sum.split_asm)
  let ?b = "new_bora actor accs (bora_serves sv (now w2) accs) ts w2"
  obtain u where about: "bora_about_subject bl about accs follow_up ?b = (Inr u, b)"
    using assms fleet by (auto simp: start_bora_answer_def Let_def split: prod.split_asm sum.split_asm if_split_asm)
  have b: "br_actor ?b = actor" "br_actions ?b = []" "br_sources ?b = []" "br_read ?b = []" by (simp_all add: new_bora_def)
  have "\<forall>acc \<in> set (br_members ?b). reaches w actor acc" using new_bora_members fleet_reaches [OF fleet] by blast
  with about_subject_ok [OF about b(4)] show ?thesis unfolding b by blast
qed

interpretation bora_tools: tools_keep "bora_ask bl t images b" "bounded b0 c v" for bl t images b b0 c v
proof unfold_locales
  fix l s raw
  assume "l \<in> set (ak_tools (bora_ask bl t images b))" "bounded b0 c v s"
  then show "bounded b0 c v (snd (tl_run l raw s))" by (auto simp: bora_ask_def Let_def intro: tools_bounded)
qed (auto simp: bora_ask_def Let_def split: prod.splits)

lemma load_keeps: "keeps (\<lambda>w. w\<lparr>olog := []\<rparr>) (load_images user is)"
proof (induction "is")
  case (Cons i "is")
  then show ?case unfolding load_images.simps image_key_def by (intro keeps_intros; simp)
qed simp

lemma question_images_world: "question_images t w = Some (images, w2) \<Longrightarrow> w2\<lparr>olog := []\<rparr> = w\<lparr>olog := []\<rparr>"
  using keepsD [OF load_keeps] by (auto simp: question_images_def split: if_split_asm option.split_asm prod.split_asm sum.split_asm)

text \<open>
  C33: Whatever the model calls, an answer stays within what its actor may see and do: it reaches only projects the actor is
  a member of (an administrator all), and only the one it is about unless it is about the fleet; it changes no table, site or file, asks
  the daemon for nothing but logs of those projects' tasks, counts only those projects as read, and what it takes from code taints it; its buttons
  are at most ten, all different, each one the actor may press there, and only start, stop and restart where the question came with an image.
  Every tool on code taints the answer before it reads.
\<close>

theorem answer_confined:
  assumes start: "start_bora_answer lib sv actor about follow_up w0 = (Inr b, w1)"
    and asked: "tu_bora t = b" "ask_model bl t w = Some (r, s)"
  shows "\<exists>images w2. question_images t w = Some (images, w2) \<and> w2\<lparr>olog := []\<rparr> = w\<lparr>olog := []\<rparr> \<and>
     (let b0 = b\<lparr>br_tainted := (images \<noteq> []), an_world := w2\<rparr> in roams b0 s \<and> good_buttons b0 (br_actions s) \<and>
        set (br_read s) \<subseteq> (\<lambda>acc. p_id (acc_project acc)) ` set (br_members b) \<and>
        (\<forall>acc \<in> set (br_members b). reaches w0 actor acc) \<and>
        (ab_kind about \<noteq> ''fleet'' \<longrightarrow> (\<exists>acc. br_members b = [acc] \<and> p_slug (acc_project acc) = ab_project about)) \<and>
        (\<forall>l \<in> set (ak_tools (bora_ask bl t images b0)). tl_name l \<in> set code_names \<longrightarrow>
           br_tainted (snd (tl_run l raw s')) \<or> tl_run l raw s' = (''error: arguments are not valid JSON'', s')))"
proof -
  obtain images w2 where im: "question_images t w = Some (images, w2)"
    using asked(2) by (auto simp: ask_model_def split: option.split_asm)
  define b0 where "b0 = b\<lparr>br_tainted := (images \<noteq> []), an_world := w2\<rparr>"
  note ok = start_answer_ok [OF start]
  have "bounded b0 False True b0" using ok by (simp add: bounded_def roams_refl good_buttons_def b0_def)
  then have "bounded b0 False True (ta_state (snd (answer (bl_llm bl) (bora_ask bl t images b0) \<lparr>ta_sent = [], ta_state = b0\<rparr>)))"
    by (intro bora_tools.answer_keeps) simp
  then have s: "roams b0 s" "good_buttons b0 (br_actions s)"
    using asked im by (auto simp: ask_model_def bounded_def b0_def [symmetric] split: prod.split_asm)
  have "set (br_read s) \<subseteq> (\<lambda>acc. p_id (acc_project acc)) ` set (br_members b)"
    using s(1) ok by (auto simp: roams_def b0_def)
  moreover have "br_tainted (snd (tl_run l raw s')) \<or> tl_run l raw s' = (''error: arguments are not valid JSON'', s')"
    if "l \<in> set (ak_tools (bora_ask bl t images b0))" "tl_name l \<in> set code_names" for l
    by (rule code_tools_taint) (use that in \<open>auto simp: bora_ask_def Let_def\<close>)
  ultimately show ?thesis using im question_images_world [OF im] s ok unfolding Let_def
    by (intro exI [of _ images] exI [of _ w2]) (fold b0_def, blast)
qed

definition demo_wiring :: server where
  "demo_wiring = \<lparr>h_json = (\<lambda>_. None), h_uuid = (\<lambda>_. None), h_json_time = (\<lambda>_. None), h_rfc_time = (\<lambda>_. None),
     h_mime = (\<lambda>_. []), sv_version = [], sv_probe = (\<lambda>_ _. Answered 200 0), sv_assist = True, sv_code = None\<rparr>"

definition demo_lib :: turn_lib where
  "demo_lib = \<lparr>bl_time = (\<lambda>_. []), bl_fold = (=), bl_json = (\<lambda>_. None), bl_rfc = (\<lambda>_. None), bl_demux = (\<lambda>_. ([], None)),
     bl_samples = (\<lambda>_ _ _. Inr []), bl_code = None, bl_wiring = demo_wiring,
     bl_llm = \<lparr>lm_server = (\<lambda>_ _. \<lparr>ma_chunks = [], ma_error = None, ma_message = Some (''hello'', []), ma_prompt = 0, ma_completion = 0\<rparr>),
       lm_json = (\<lambda>_. None), lm_instructions = []\<rparr>,
     bl_prompt = [], bl_about = (\<lambda>_. []), bl_letter = (\<lambda>_. False), bl_nano = (\<lambda>_. []), bl_nano_of = (\<lambda>_. None), bl_uuid_of = (\<lambda>_. None)\<rparr>"

definition demo_about :: bora_about where
  "demo_about = no_about\<lparr>ab_kind := ''project'', ab_project := ''p''\<rparr>"

definition demo_conv :: conversation where
  "demo_conv = \<lparr>cv_id = 5, cv_user = 8, cv_project = None, cv_about = demo_about, cv_projects = [], cv_title = [], cv_snippet = [],
     cv_messages = [], cv_answering = None, cv_created = 0, cv_updated = 0\<rparr>"

lemma demo_answer_start: "\<exists>b w. start_bora_answer demo_bora_lib demo_wiring demo_boss demo_about False demo_team = (Inr b, w)"
proof -
  have "\<not> isl (fst (start_bora_answer demo_bora_lib demo_wiring demo_boss demo_about False demo_team))" by code_simp
  then show ?thesis by (metis prod.collapse sum.collapse(2))
qed

theorem answer_confined_witness:
  "\<exists>b w1 s acc. start_bora_answer demo_bora_lib demo_wiring demo_boss demo_about False demo_team = (Inr b, w1) \<and> roams (b\<lparr>br_tainted := False, an_world := w1\<rparr>) s \<and>
     br_members b = [acc] \<and> reaches demo_team demo_boss acc"
proof -
  obtain b w1 where start: "start_bora_answer demo_bora_lib demo_wiring demo_boss demo_about False demo_team = (Inr b, w1)" using demo_answer_start by blast
  define t where "t = new_turn demo_boss demo_conv ''why?'' [] [] [] b 0"
  have t: "tu_bora t = b" "question_images t w1 = Some ([], w1)"
    by (simp_all add: t_def new_turn_def demo_conv_def question_images_def newest_def Let_def)
  have "ask_model demo_lib t w1 \<noteq> None" by (simp add: ask_model_def t(2) Let_def case_prod_beta)
  then obtain r s where asked: "ask_model demo_lib t w1 = Some (r, s)" by auto
  have "ab_kind demo_about \<noteq> ''fleet''" by (simp add: demo_about_def)
  then show ?thesis using answer_confined [OF start t(1) asked] t(2) start_answer_ok [OF start] start
    by (intro exI [of _ b] exI [of _ w1] exI [of _ s]) (auto simp: Let_def)
qed

end
