(* ===== verification/Bora_Life.thy ===== *)
theory Bora_Life
  imports Bora_Answers
begin

text \<open>
  The life of turns and conversations, over any interleaving of requests with the two steps of each turn
  and with whatever else the process does in between.
\<close>

section \<open>Steps\<close>

datatype turn_op = StartBora user bora_about string string "uuid list" | AskBora user uuid string string "uuid list"
  | Think uuid | Finish uuid | StopBora user uuid | StopAllBora | DeleteBora user "uuid option" | AddBoraRan user uuid int string
  | ListBora user string string int | GetBora user uuid | Elsewhere world

text \<open>A panic in a turn's goroutine ends the process; there are no steps after it.\<close>

fun turn_step :: "turn_lib \<Rightarrow> turn_op \<Rightarrow> bora_service \<Rightarrow> bora_service" where
  "turn_step bl (StartBora u about question screen images) s = snd (start_bora bl u about question screen images s)"
| "turn_step bl (AskBora u i question screen images) s = snd (ask_again bl u i question screen images s)"
| "turn_step bl (Think i) s = (case think_turn bl i s of None \<Rightarrow> s | Some s' \<Rightarrow> s')"
| "turn_step bl (Finish i) s = finish_turn bl i s"
| "turn_step bl (StopBora u i) s = stop_bora u i s"
| "turn_step bl StopAllBora s = stop_all_bora s"
| "turn_step bl (DeleteBora u i) s = snd (delete_bora u i s)"
| "turn_step bl (AddBoraRan u i index line) s = snd (add_bora_ran u i index line s)"
| "turn_step bl (ListBora u query before limit) s = snd (bora_conversations bl u query before limit s)"
| "turn_step bl (GetBora u i) s = snd (bora_conversation u i s)"
| "turn_step bl (Elsewhere w) s = s\<lparr>bt_world := w\<rparr>"

section \<open>Frames\<close>

text \<open>The rows of the two tables and the turns.\<close>

definition turns_view :: "bora_service \<Rightarrow> bora_turn list \<times> bora_turn list" where
  "turns_view s = (bs_turns s, bs_past s)"

definition rows_view :: "bora_service \<Rightarrow> conversation list \<times> (uuid \<times> bora_message) list" where
  "rows_view s = (bt_conversations s, bt_messages s)"

lemma view_simps [simp]:
  "turns_view (s\<lparr>bt_world := w\<rparr>) = turns_view s" "rows_view (s\<lparr>bt_world := w\<rparr>) = rows_view s"
  "rows_view (s\<lparr>bs_turns := ts\<rparr>) = rows_view s" "turns_view (s\<lparr>bt_conversations := cs\<rparr>) = turns_view s" "turns_view (s\<lparr>bt_messages := ms\<rparr>) = turns_view s"
  "turns_view (s\<lparr>bt_conversations := cs, bt_messages := ms\<rparr>) = turns_view s"
  by (simp_all add: turns_view_def rows_view_def)

lemma keeps_in_world [keeps_intros]: "(\<And>s w. f (s\<lparr>bt_world := w\<rparr>) = f s) \<Longrightarrow> keeps f (in_world m)"
  by (auto simp: keeps_def in_world_def split: prod.splits)

lemma keeps_bora_call [keeps_intros]: "(\<And>s w. f (s\<lparr>bt_world := w\<rparr>) = f s) \<Longrightarrow> keeps f m \<Longrightarrow> keeps f (bora_call operation m)"
  unfolding bora_call_def by (intro keeps_intros)

lemma keeps_one_row [keeps_intros]: "keeps f (one operation rs)"
  by (simp add: one_def keeps_basic pg_fail_def split: list.split)

lemma reads_keep [keeps_intros]:
  fixes f :: "bora_service \<Rightarrow> 'c"
  assumes "\<And>s w. f (s\<lparr>bt_world := w\<rparr>) = f s"
  shows "keeps f (conv_get u a i)" "keeps f (conv_list u a q before n)"
  unfolding conv_get_def conv_list_def by (intro keeps_intros assms)+

lemma statements_keep_turns [keeps_intros]:
  "keeps turns_view (conv_save c ms)" "keeps turns_view (conv_add_ran i n line)" "keeps turns_view (conv_delete u a which)"
  unfolding conv_save_def conv_add_ran_def conv_delete_def Let_def pg_fail_def by (intro keeps_intros; simp)+

lemma requests_keep:
  "keeps turns_view (add_bora_ran u i n line)" "keeps turns_view (bora_conversations bl u q before limit)" "keeps turns_view (bora_conversation u i)"
  "keeps rows_view (bora_conversations bl u q before limit)" "keeps rows_view (bora_conversation u i)"
  "keeps rows_view (start_bora bl u about question screen images)" "keeps rows_view (ask_again bl u i question screen images)"
  unfolding add_bora_ran_def bora_conversations_def bora_conversation_def start_bora_def ask_again_def ask_bora_def enter_turn_def Let_def
  by (intro keeps_intros view_simps)+

section \<open>Starting a turn\<close>

text \<open>The room \<open>enter\<close> asks for.\<close>

definition has_room :: "bora_turn \<Rightarrow> bora_turn list \<Rightarrow> bool" where
  "has_room t ts \<longleftrightarrow> turn_id t \<notin> turn_id ` set ts \<and> length (filter (\<lambda>o'. tu_user o' = tu_user t) ts) < turns_per_user \<and> length ts < turns_in_flight"

text \<open>A turn as it starts in a conversation.\<close>

definition starts_in :: "user \<Rightarrow> conversation \<Rightarrow> bora_turn \<Rightarrow> bool" where
  "starts_in u c t \<longleftrightarrow> tu_user t = u_id u \<and> turn_id t = cv_id c \<and> cv_user (tu_conv t) = cv_user c \<and> cv_messages (tu_conv t) = cv_messages c \<and>
     (tu_first t \<longleftrightarrow> cv_messages c = []) \<and> (\<not> tu_first t \<longrightarrow> cv_project (tu_conv t) = cv_project c) \<and> \<not> tu_cancelled t \<and> \<not> tu_over t \<and> tu_answer t = None \<and> tu_events t = (if tu_first t then [Began (cv_id c)] else [])"

lemma new_turn_starts: "starts_in u c (new_turn u c q screen images shots b t)"
  by (simp add: starts_in_def new_turn_def turn_id_def Let_def)

text \<open>What a request adds to the turns: nothing, or one turn where there is room for it.\<close>

definition adds :: "(bora_turn \<Rightarrow> bool) \<Rightarrow> bora_service \<Rightarrow> bora_service \<Rightarrow> bool" where
  "adds P s s' \<longleftrightarrow> bs_past s' = bs_past s \<and> rows_view s' = rows_view s \<and>
     (bs_turns s' = bs_turns s \<or> (\<exists>t. bs_turns s' = bs_turns s @ [t] \<and> has_room t (bs_turns s) \<and> P t))"

lemma adds_world [simp]: "adds P (s\<lparr>bt_world := w\<rparr>) s' = adds P s s'" "adds P s (s'\<lparr>bt_world := w\<rparr>) = adds P s s'"
  by (simp_all add: adds_def)

lemma adds_refl [simp]: "adds P s s"
  by (simp add: adds_def)

lemma adds_mono: "adds P s s' \<Longrightarrow> (\<And>t. P t \<Longrightarrow> Q t) \<Longrightarrow> adds Q s s'"
  unfolding adds_def by blast

lemma in_world_run: "in_world m s = (r, s') \<longleftrightarrow> (\<exists>w. m (bt_world s) = (r, w) \<and> s' = s\<lparr>bt_world := w\<rparr>)"
  by (auto simp: in_world_def split: prod.split)

lemma enter_adds:
  assumes "P t"
  shows "adds P s (snd (enter_turn t s))"
  using assms by (auto simp: enter_turn_def io_bind_def io_get_def io_mod_def fail_def adds_def has_room_def rows_view_def list_ex_iff Let_def not_le)

lemma wp_in_world: "(\<And>r w. m (bt_world s) = (r, w) \<Longrightarrow> (case r of Inl e \<Rightarrow> E e (s\<lparr>bt_world := w\<rparr>) | Inr y \<Rightarrow> Q y (s\<lparr>bt_world := w\<rparr>))) \<Longrightarrow> wp (in_world m) Q E s"
  by (auto simp: wp_def in_world_def split: prod.split sum.splits)

lemma wp_enter: "P t \<Longrightarrow> adds P s0 s \<Longrightarrow> bs_turns s = bs_turns s0 \<Longrightarrow> wp (enter_turn t) (\<lambda>_. wp (ret y) (\<lambda>_. adds P s0) E) (\<lambda>_. adds P s0) s"
  using enter_adds [of P t s] by (auto simp: wp_def ret_def adds_def split: prod.split sum.split)

lemma ask_adds: "adds (starts_in u conv) s (snd (ask_bora bl u conv raw screen images s))"
proof -
  have "wp (ask_bora bl u conv raw screen images) (\<lambda>_. adds (starts_in u conv) s) (\<lambda>_. adds (starts_in u conv) s) s"
    unfolding ask_bora_def Let_def
    by (auto simp: wp_simps intro!: wp_in_world wp_enter new_turn_starts split: sum.split option.split prod.split)
  then show ?thesis by (auto simp: wp_def split: prod.splits sum.splits)
qed

text \<open>A first question starts in a conversation of the user's without messages; a later one in one that the store has and shows.\<close>

lemma start_adds: "adds (\<lambda>t. \<exists>c. starts_in u c t \<and> cv_user c = u_id u \<and> cv_messages c = []) s (snd (start_bora bl u about q screen images s))"
proof (cases "valid_about about")
  case False
  then show ?thesis by (simp add: start_bora_def fail_def)
next
  case True
  let ?P = "\<lambda>t. \<exists>c. starts_in u c t \<and> cv_user c = u_id u \<and> cv_messages c = []"
  obtain r w where id: "fresh_id (bt_world s) = (r, w)" by fastforce
  have "adds ?P (s\<lparr>bt_world := w\<rparr>) (snd (ask_bora bl u c q screen images (s\<lparr>bt_world := w\<rparr>)))" if "cv_user c = u_id u" "cv_messages c = []" for c
    by (rule adds_mono [OF ask_adds]) (use that in auto)
  then show ?thesis by (cases r) (simp_all add: start_bora_def True io_bind_def in_world_def id)
qed

lemma bora_call_ok:
  assumes "bora_call oper m s = (Inr y, s')"
  shows "\<exists>fs. m (s\<lparr>bt_world := (bt_world s)\<lparr>faults := fs\<rparr>\<rparr>) = (Inr y, s')"
  using assms by (auto simp: bora_call_def bind_ok_iff in_world_run run_simps dest!: db_call_ok)

lemma conv_messages_world [simp]: "conv_messages i (s\<lparr>bt_world := w\<rparr>) = conv_messages i s"
  by (simp add: conv_messages_def)

lemma conv_get_ok:
  assumes "conv_get u admin i s = (Inr c, s')"
  obtains c0 w where "c0 \<in> set (bt_conversations s)" "cv_id c0 = i" "cv_user c0 = u" "c = c0\<lparr>cv_messages := conv_messages i s\<rparr>" "s' = s\<lparr>bt_world := w\<rparr>"
proof -
  obtain c0 s1 ms where got: "bora_call ''get conversation'' (io_bind (io_get (\<lambda>s.
       filter (\<lambda>c. visible_conversation s u admin c \<and> cv_id c = i) (conversations s))) (one ''get conversation'')) s = (Inr c0, s1)"
    and read: "bora_call ''list messages'' (io_get (conv_messages i)) s1 = (Inr ms, s')" and c: "c = c0\<lparr>cv_messages := ms\<rparr>"
    using assms by (auto simp: conv_get_def bind_ok_iff run_simps)
  obtain fs where f: "s1 = s\<lparr>bt_world := (bt_world s)\<lparr>faults := fs\<rparr>\<rparr>"
    "filter (\<lambda>c. visible_conversation s1 u admin c \<and> cv_id c = i) (conversations s1) = [c0]"
    using bora_call_ok [OF got] by (auto simp: bind_ok_iff run_simps one_ok)
  then have c0: "c0 \<in> set (conversations s1)" "visible_conversation s1 u admin c0" "cv_id c0 = i" by (auto simp: filter_eq_Cons_iff)
  obtain gs where g: "s' = s1\<lparr>bt_world := (bt_world s1)\<lparr>faults := gs\<rparr>\<rparr>" "ms = conv_messages i s1"
    using bora_call_ok [OF read] by (auto simp: run_simps)
  show thesis by (rule that [of c0]) (use c c0 f g in \<open>auto simp: conversations_def visible_conversation_def\<close>)
qed

text \<open>A later question: \<open>c0\<close> is the conversation's row.\<close>

definition goes_on_in :: "bora_service \<Rightarrow> user \<Rightarrow> uuid \<Rightarrow> bora_turn \<Rightarrow> bool" where
  "goes_on_in s u i t \<longleftrightarrow> (\<exists>c0 \<in> set (bt_conversations s). cv_id c0 = i \<and> cv_user c0 = u_id u \<and> starts_in u (c0\<lparr>cv_messages := conv_messages i s\<rparr>) t)"

lemma again_adds: "adds (goes_on_in s u i) s (snd (ask_again bl u i q screen images s))"
proof -
  have more: "adds (goes_on_in s u i) s (snd (ask_bora bl u c q screen images s1))" if got: "conv_get (u_id u) (is_admin u) i s = (Inr c, s1)" for c s1
  proof (rule conv_get_ok [OF got])
    fix c0 w assume c: "c0 \<in> set (bt_conversations s)" "cv_id c0 = i" "cv_user c0 = u_id u" "c = c0\<lparr>cv_messages := conv_messages i s\<rparr>" "s1 = s\<lparr>bt_world := w\<rparr>"
    have "adds (goes_on_in s u i) s1 (snd (ask_bora bl u c q screen images s1))"
      by (rule adds_mono [OF ask_adds]) (use c in \<open>auto simp: goes_on_in_def\<close>)
    then show ?thesis using c(5) by simp
  qed
  have get: "adds (goes_on_in s u i) s (snd (conv_get (u_id u) (is_admin u) i s))"
    using reads_keep(1) [of turns_view "u_id u" "is_admin u" i] reads_keep(1) [of rows_view "u_id u" "is_admin u" i]
    by (simp add: keeps_def adds_def turns_view_def)
  show ?thesis using more get
    by (auto simp: ask_again_def io_bind_def io_get_def fail_def io_wrap_def split: prod.split sum.split)
qed

section \<open>Turns\<close>

fun final :: "bora_event \<Rightarrow> bool" where
  "final (Done m t) = True"
| "final (Failed e) = True"
| "final Stopped = True"
| "final (Began i) = False"
| "final (Turn e) = False"

text \<open>A running turn has not ended its streams; one that has ended did so once, and a first one names its conversation first.\<close>

definition names_conv :: "bora_turn \<Rightarrow> bora_event list \<Rightarrow> bool" where
  "names_conv t es \<longleftrightarrow> (tu_first t \<longrightarrow> prefix [Began (turn_id t)] es)"

definition live_turn :: "bora_turn \<Rightarrow> bool" where
  "live_turn t \<longleftrightarrow> \<not> tu_over t \<and> \<not> list_ex final (tu_events t) \<and> names_conv t (tu_events t)"

definition ended_turn :: "bora_turn \<Rightarrow> bool" where
  "ended_turn t \<longleftrightarrow> tu_over t \<and> (\<exists>es e. tu_events t = es @ [e] \<and> final e \<and> \<not> list_ex final es \<and> names_conv t es)"

definition turns_ok :: "bora_service \<Rightarrow> bool" where
  "turns_ok s \<longleftrightarrow> distinct (map turn_id (bs_turns s)) \<and> length (bs_turns s) \<le> turns_in_flight \<and>
     (\<forall>u. length (filter (\<lambda>t. tu_user t = u) (bs_turns s)) \<le> turns_per_user) \<and> list_all live_turn (bs_turns s) \<and> list_all ended_turn (bs_past s)"

lemma turns_ok_view: "turns_view s' = turns_view s \<Longrightarrow> turns_ok s' = turns_ok s"
  by (simp add: turns_view_def turns_ok_def)

lemma adds_turns_ok:
  assumes "turns_ok s" "adds P s s'" "\<And>t. P t \<Longrightarrow> \<exists>u c. starts_in u c t"
  shows "turns_ok s'"
proof -
  have "live_turn t" if "P t" for t
    using assms(3) [OF that] by (auto simp: starts_in_def live_turn_def names_conv_def turn_id_def)
  then show ?thesis using assms(1,2) by (auto simp: turns_ok_def adds_def has_room_def)
qed

text \<open>Changes of the turns that leave who they belong to.\<close>

definition same_turn :: "(bora_turn \<Rightarrow> bora_turn) \<Rightarrow> bool" where
  "same_turn f \<longleftrightarrow> (\<forall>t. turn_id (f t) = turn_id t \<and> tu_user (f t) = tu_user t \<and> (live_turn t \<longrightarrow> live_turn (f t)))"

lemma map_turns_ok:
  assumes "turns_ok s" "same_turn f"
  shows "turns_ok (s\<lparr>bs_turns := map f (bs_turns s)\<rparr>)"
proof -
  let ?ts = "bs_turns s"
  have ids: "map turn_id (map f ?ts) = map turn_id ?ts" using assms(2) by (simp add: same_turn_def)
  have mine: "length (filter (\<lambda>t. tu_user t = u) (map f ?ts)) = length (filter (\<lambda>t. tu_user t = u) ?ts)" for u
    using assms(2) by (simp add: filter_map comp_def same_turn_def)
  have "list_all live_turn (map f ?ts)" using assms by (auto simp: turns_ok_def list_all_iff same_turn_def)
  then show ?thesis using assms(1) mine by (simp add: turns_ok_def ids del: map_map list.pred_map)
qed

lemma cancel_same: "same_turn cancel_turn" "same_turn (\<lambda>t. if P t then cancel_turn t else t)"
  by (simp_all add: same_turn_def cancel_turn_def turn_id_def live_turn_def names_conv_def)

lemma think_turns_ok:
  assumes "turns_ok s" "think_turn bl i s = Some s'"
  shows "turns_ok s'"
proof -
  have "same_turn (\<lambda>t. if turn_id t = i then t\<lparr>tu_bora := b, tu_events := tu_events t @ map Turn es, tu_answer := a\<rparr> else t)" for b es a
    by (auto simp: same_turn_def turn_id_def live_turn_def names_conv_def list_ex_iff)
  note map_turns_ok [OF assms(1) this]
  moreover have "turns_ok (s\<lparr>bt_world := w, bs_turns := ts\<rparr>) = turns_ok (s\<lparr>bs_turns := ts\<rparr>)" for w ts by (simp add: turns_ok_def)
  ultimately show ?thesis using assms
    by (auto simp: think_turn_def set_turn_def split: option.split_asm if_split_asm prod.split_asm)
qed

section \<open>The end of a turn\<close>

lemma publish_live: "\<not> tu_over t \<Longrightarrow> tu_events (fold publish_turn es t) = tu_events t @ es \<and> \<not> tu_over (fold publish_turn es t) \<and>
    tu_conv (fold publish_turn es t) = tu_conv t \<and> tu_first (fold publish_turn es t) = tu_first t"
  by (induction es arbitrary: t) (auto simp: publish_turn_def)

text \<open>The last event of a turn: the error or the stop, or what saving gave.\<close>

definition last_event :: "bora_turn \<Rightarrow> goerr + bora_event \<Rightarrow> bora_event" where
  "last_event t r = (case r of Inr e \<Rightarrow> e | Inl e \<Rightarrow> if tu_cancelled t then Stopped else Failed e)"

lemma leave_ok:
  assumes "live_turn t" "\<not> list_ex final said" "\<And>e. r = Inr e \<Longrightarrow> final e"
  obtains t' where "leave_turn t said r s = s\<lparr>bs_turns := filter (\<lambda>o'. turn_id o' \<noteq> turn_id t) (bs_turns s), bs_past := bs_past s @ [t']\<rparr>"
    "tu_events t' = tu_events t @ said @ [last_event t r]" "ended_turn t'" "turn_id t' = turn_id t"
proof -
  let ?t = "end_turn (publish_turn (last_event t r) (fold publish_turn said t))"
  have over: "\<not> tu_over t" using assms(1) by (simp add: live_turn_def)
  have ev: "tu_events ?t = tu_events t @ said @ [last_event t r]" "turn_id ?t = turn_id t" "tu_first ?t = tu_first t" "tu_over ?t"
    using publish_live [OF over, of said] by (auto simp: end_turn_def publish_turn_def turn_id_def)
  have "final (last_event t r)" using assms(3) by (auto simp: last_event_def split: sum.split)
  then have "ended_turn ?t" using ev assms(1,2) by (auto simp: ended_turn_def live_turn_def names_conv_def intro!: exI [of _ "tu_events t @ said"])
  then show thesis using that [of ?t] ev by (simp add: leave_turn_def last_event_def)
qed

lemma say_not_final: "\<not> list_ex final (late_say bl x t content)"
  by (simp add: late_say_def split: prod.split)

lemma save_done: "save_turn bl t content choices s = (Inr e, s') \<Longrightarrow> \<exists>m title. e = Done m title"
  by (auto simp: save_turn_def Let_def run_ok split: prod.split_asm)

lemma save_keeps: "keeps turns_view (save_turn bl t content choices)"
  unfolding save_turn_def Let_def by (intro keeps_intros; simp)

text \<open>
  How a turn that has its answer finishes: what \<open>save_turn\<close> did to the tables, if there was something to save, and one last event.
\<close>

lemma finish_cases:
  assumes "turn_in s i = Some t" "tu_answer t = Some r" "live_turn t"
  obtains (unanswered) e t' where "r = Inl e" "tu_events t' = tu_events t @ [if tu_cancelled t then Stopped else Failed e]" "ended_turn t'" "turn_id t' = i"
      "finish_turn bl i s = s\<lparr>bs_turns := filter (\<lambda>o'. turn_id o' \<noteq> i) (bs_turns s), bs_past := bs_past s @ [t']\<rparr>"
  | (answered) content choices q s1 t' said where "r = Inr (content, choices)" "save_turn bl t content choices s = (q, s1)"
      "turns_view s1 = turns_view s" "\<not> list_ex final said"
      "tu_events t' = tu_events t @ said @ [last_event t q]" "ended_turn t'" "turn_id t' = i"
      "finish_turn bl i s = s1\<lparr>bs_turns := filter (\<lambda>o'. turn_id o' \<noteq> i) (bs_turns s), bs_past := bs_past s @ [t']\<rparr>"
proof -
  have i: "turn_id t = i" using assms(1) by (auto simp: turn_in_def find_Some_iff)
  show thesis
  proof (cases r)
    case (Inl e)
    from leave_ok [OF assms(3), of "[]" "Inl e" s] obtain t' where "ended_turn t'" "turn_id t' = turn_id t" "tu_events t' = tu_events t @ [last_event t (Inl e)]"
      "leave_turn t [] (Inl e) s = s\<lparr>bs_turns := filter (\<lambda>o'. turn_id o' \<noteq> turn_id t) (bs_turns s), bs_past := bs_past s @ [t']\<rparr>" by auto
    then show thesis using unanswered [OF Inl] assms(1,2) Inl i by (simp add: finish_turn_def last_event_def)
  next
    case (Inr p)
    obtain content choices where p: "p = (content, choices)" by (cases p)
    obtain q s1 where saved: "save_turn bl t content choices s = (q, s1)" by fastforce
    have kept: "turns_view s1 = turns_view s" using keepsD [OF save_keeps saved] .
    let ?said = "late_say bl (ext (bt_world s)) t content"
    have fin: "final e" if "q = Inr e" for e using save_done [OF saved [unfolded that]] by auto
    from leave_ok [OF assms(3) say_not_final [of bl "ext (bt_world s)" t content] fin, of q s1] obtain t' where t': "ended_turn t'" "turn_id t' = turn_id t"
      "tu_events t' = tu_events t @ ?said @ [last_event t q]"
      "leave_turn t ?said q s1 = s1\<lparr>bs_turns := filter (\<lambda>o'. turn_id o' \<noteq> turn_id t) (bs_turns s1), bs_past := bs_past s1 @ [t']\<rparr>" by auto
    show thesis
      by (rule answered [OF Inr [unfolded p] saved kept say_not_final t'(3,1)])
        (use assms(1,2) Inr p saved t' kept i in \<open>simp_all add: finish_turn_def turns_view_def\<close>)
  qed
qed

lemma leave_turns_ok:
  assumes "turns_ok s" "ended_turn t'"
  shows "turns_ok (s1\<lparr>bs_turns := filter Q (bs_turns s), bs_past := bs_past s @ [t']\<rparr>)"
proof -
  have "length (filter (\<lambda>t. tu_user t = u) (filter Q (bs_turns s))) \<le> turns_per_user" for u
  proof -
    have "length (filter Q (filter (\<lambda>t. tu_user t = u) (bs_turns s))) \<le> length (filter (\<lambda>t. tu_user t = u) (bs_turns s))" by (rule length_filter_le)
    also have "\<dots> \<le> turns_per_user" using assms(1) by (simp add: turns_ok_def)
    finally show ?thesis by (simp add: conj_commute)
  qed
  moreover have "length (filter Q (bs_turns s)) \<le> turns_in_flight"
    using le_trans [OF length_filter_le [of Q "bs_turns s"], of turns_in_flight] assms(1) by (simp add: turns_ok_def)
  ultimately show ?thesis using assms by (auto simp: turns_ok_def list_all_iff distinct_map inj_on_def)
qed

lemma finish_turns_ok:
  assumes "turns_ok s"
  shows "turns_ok (finish_turn bl i s)"
proof (cases "turn_in s i")
  case None
  then show ?thesis using assms by (simp add: finish_turn_def)
next
  case (Some t)
  show ?thesis
  proof (cases "tu_answer t")
    case None
    then show ?thesis using assms Some by (simp add: finish_turn_def)
  next
    case (Some r)
    have live: "live_turn t" using assms \<open>turn_in s i = Some t\<close> by (auto simp: turns_ok_def turn_in_def find_Some_iff list_all_iff)
    show ?thesis
      by (rule finish_cases [OF \<open>turn_in s i = Some t\<close> Some live, of bl]) (simp_all add: leave_turns_ok [OF assms])
  qed
qed

section \<open>Conversations\<close>

text \<open>The messages of a conversation after so many answers: questions and answers in turn, numbered from zero.\<close>

definition chat :: "nat \<Rightarrow> bora_message list \<Rightarrow> bool" where
  "chat k ms \<longleftrightarrow> map bm_index ms = [0..<2 * k] \<and> map bm_role ms = concat (replicate k [ChatUser, ChatAssistant])"

text \<open>Every message is of a conversation in the table, and each conversation has at least one answer.\<close>

definition chats_ok :: "bora_service \<Rightarrow> bool" where
  "chats_ok s \<longleftrightarrow> distinct (map cv_id (bt_conversations s)) \<and>
     (\<forall>i. \<exists>k. chat k (conv_messages i s) \<and> (k = 0 \<longleftrightarrow> i \<notin> cv_id ` set (bt_conversations s)))"

text \<open>What a running turn holds of its conversation is still so, unless it is stopped or the conversation is new.\<close>

definition linked :: "bora_service \<Rightarrow> bora_turn \<Rightarrow> bool" where
  "linked s t \<longleftrightarrow> cv_user (tu_conv t) = tu_user t \<and> (tu_first t \<longleftrightarrow> cv_messages (tu_conv t) = []) \<and>
     (\<not> tu_cancelled t \<and> \<not> tu_first t \<longrightarrow> (\<exists>c \<in> set (bt_conversations s). cv_id c = turn_id t \<and> cv_user c = tu_user t \<and> cv_project c = cv_project (tu_conv t)) \<and>
       length (cv_messages (tu_conv t)) = length (conv_messages (turn_id t) s))"

definition bora_ok :: "bora_service \<Rightarrow> bool" where
  "bora_ok s \<longleftrightarrow> turns_ok s \<and> chats_ok s \<and> list_all (linked s) (bs_turns s)"

lemma rows_view_chats: "rows_view s' = rows_view s \<Longrightarrow> chats_ok s' = chats_ok s"
  "rows_view s' = rows_view s \<Longrightarrow> linked s' = linked s"
  by (auto simp: rows_view_def chats_ok_def linked_def conv_messages_def fun_eq_iff)

lemma chat_length: "chat k ms \<Longrightarrow> length ms = 2 * k"
  by (metis chat_def length_map length_upt diff_zero)

lemma chat_unique: "chat k ms \<Longrightarrow> chat j ms \<Longrightarrow> k = j"
  by (metis chat_length mult_cancel_left zero_neq_numeral)

lemma adds_ok:
  assumes "bora_ok s" "adds P s s'" "\<And>t. P t \<Longrightarrow> \<exists>u c. starts_in u c t" "\<And>t. P t \<Longrightarrow> linked s t"
  shows "bora_ok s'"
proof -
  have "turns_ok s'" using adds_turns_ok [OF _ assms(2,3)] assms(1) by (simp add: bora_ok_def)
  moreover have rows: "rows_view s' = rows_view s" using assms(2) by (simp add: adds_def)
  moreover have "list_all (linked s) (bs_turns s')" using assms(1,2,4) by (auto simp: adds_def bora_ok_def)
  ultimately show ?thesis using assms(1) rows_view_chats [OF rows] by (simp add: bora_ok_def)
qed

lemma start_ok: "bora_ok s \<Longrightarrow> bora_ok (snd (start_bora bl u about q screen images s))"
  by (rule adds_ok [OF _ start_adds]) (auto simp: starts_in_def linked_def)

lemma goes_on_linked:
  assumes "chats_ok s" "goes_on_in s u i t"
  shows "linked s t"
proof -
  obtain c0 where c0: "c0 \<in> set (bt_conversations s)" "cv_id c0 = i" "cv_user c0 = u_id u" "starts_in u (c0\<lparr>cv_messages := conv_messages i s\<rparr>) t"
    using assms(2) by (auto simp: goes_on_in_def)
  then show ?thesis by (auto simp: starts_in_def linked_def)
qed

lemma again_ok: "bora_ok s \<Longrightarrow> bora_ok (snd (ask_again bl u i q screen images s))"
  by (rule adds_ok [OF _ again_adds]) (auto simp: bora_ok_def goes_on_in_def intro: goes_on_linked [unfolded goes_on_in_def])

lemma map_ok:
  assumes "bora_ok s" "same_turn f" "\<And>t. linked s t \<Longrightarrow> linked s (f t)"
  shows "bora_ok (s\<lparr>bs_turns := map f (bs_turns s)\<rparr>)"
  using assms map_turns_ok [of s f] rows_view_chats [of "s\<lparr>bs_turns := map f (bs_turns s)\<rparr>" s]
  by (auto simp: bora_ok_def list_all_iff)

lemma world_ok [simp]: "bora_ok (s\<lparr>bt_world := w\<rparr>) = bora_ok s"
  using rows_view_chats [of "s\<lparr>bt_world := w\<rparr>" s] by (simp add: bora_ok_def turns_ok_def)

lemma view_ok: "turns_view s' = turns_view s \<Longrightarrow> rows_view s' = rows_view s \<Longrightarrow> bora_ok s' = bora_ok s"
  using rows_view_chats [of s' s] by (simp add: bora_ok_def turns_ok_def turns_view_def)

lemma stop_ok: "bora_ok s \<Longrightarrow> bora_ok (stop_bora u i s)" "bora_ok s \<Longrightarrow> bora_ok (stop_all_bora s)"
  unfolding stop_bora_def stop_all_bora_def set_turn_def
  by (auto intro!: map_ok cancel_same simp: linked_def cancel_turn_def turn_id_def)

lemma think_ok:
  assumes "bora_ok s" "think_turn bl i s = Some s'"
  shows "bora_ok s'"
proof -
  have "turns_ok s'" using think_turns_ok assms by (auto simp: bora_ok_def)
  moreover have "rows_view s' = rows_view s"
    using assms(2) by (auto simp: think_turn_def split: option.split_asm if_split_asm prod.split_asm)
  moreover have "list_all (linked s) (bs_turns s')"
    using assms by (auto simp: think_turn_def bora_ok_def set_turn_def list_all_iff linked_def turn_id_def split: option.split_asm if_split_asm prod.split_asm)
  ultimately show ?thesis using assms(1) rows_view_chats [of s' s] by (simp add: bora_ok_def)
qed

section \<open>Saving\<close>

lemma live_faults [simp]: "live (s\<lparr>bt_world := (bt_world s)\<lparr>faults := fs\<rparr>\<rparr>) c = live s c"
  by (simp add: live_def split: option.split)

lemma live_faults_fun [simp]: "live (s\<lparr>bt_world := (bt_world s)\<lparr>faults := fs\<rparr>\<rparr>) = live s"
  by (simp add: fun_eq_iff)

lemma conversations_faults [simp]: "conversations (s\<lparr>bt_world := (bt_world s)\<lparr>faults := fs\<rparr>\<rparr>) = conversations s"
  by (simp add: conversations_def)

definition saved_row :: "conversation \<Rightarrow> time \<Rightarrow> conversation" where
  "saved_row c t = c\<lparr>cv_created := t, cv_updated := t, cv_snippet := [], cv_messages := [], cv_answering := None\<rparr>"

text \<open>What a save does: nothing with an error, or the messages and the new or updated row.\<close>

lemma conv_save_cases:
  assumes "conv_save c ms s = (r, s')"
  obtains (fails) e where "r = Inl e" "rows_view s' = rows_view s"
  | (inserts) t where "r = Inr ()" "bt_messages s' = bt_messages s @ map (Pair (cv_id c)) ms" "bt_conversations s' = bt_conversations s @ [saved_row c t]"
      "live s c" "\<forall>o' \<in> set (bt_conversations s). cv_id o' = cv_id c \<longrightarrow> \<not> live s o'"
      "\<forall>m \<in> set ms. (cv_id c, bm_index m) \<notin> (\<lambda>(i, m). (i, bm_index m)) ` set (bt_messages s)"
  | (appends) t where "r = Inr ()" "bt_messages s' = bt_messages s @ map (Pair (cv_id c)) ms" "cv_id c \<in> cv_id ` set (bt_conversations s)"
      "bt_conversations s' = rows_upd cv_id (cv_id c) (\<lambda>o'. o'\<lparr>cv_projects := cv_projects c, cv_updated := t\<rparr>) (bt_conversations s)"
      "\<forall>m \<in> set ms. (cv_id c, bm_index m) \<notin> (\<lambda>(i, m). (i, bm_index m)) ` set (bt_messages s)"
proof (cases r)
  case (Inl e)
  have "bt_conversations s' = bt_conversations s \<and> bt_messages s' = bt_messages s"
    using assms unfolding Inl conv_save_def bora_call_def
    by (auto simp: io_bind_def in_world_def io_get_def io_mod_def Let_def pg_fail_def fail_def split: prod.split_asm sum.split_asm if_split_asm)
  then show thesis using fails [OF Inl] by (simp add: rows_view_def)
next
  case (Inr u)
  from bora_call_ok [OF assms [unfolded conv_save_def Inr]] obtain fs where
    run: "io_bind (io_get (\<lambda>s. s)) (\<lambda>s. let t = now (bt_world s); old = rows_with cv_id (cv_id c) (conversations s) in
     if old = [] \<and> \<not> live s c then pg_fail ''save conversation'' (ForeignKeyViolation ''bora_conversations'')
     else if \<not> distinct (map bm_index ms) \<or> list_ex (\<lambda>m. rows_has (\<lambda>(i, m). (i, bm_index m)) (cv_id c, bm_index m) (bt_messages s)) ms
     then pg_fail ''save conversation'' (UniqueViolation ''bora_messages_pkey'')
     else io_mod (\<lambda>s. s\<lparr>bt_conversations := (if old = []
            then bt_conversations s @ [saved_row c t]
            else rows_upd cv_id (cv_id c) (\<lambda>o'. o'\<lparr>cv_projects := cv_projects c, cv_updated := t\<rparr>) (bt_conversations s)),
          bt_messages := bt_messages s @ map (\<lambda>m. (cv_id c, m)) ms\<rparr>)) (s\<lparr>bt_world := (bt_world s)\<lparr>faults := fs\<rparr>\<rparr>) = (Inr u, s')"
    unfolding saved_row_def by blast
  then have clash: "\<forall>m \<in> set ms. (cv_id c, bm_index m) \<notin> (\<lambda>(i, m). (i, bm_index m)) ` set (bt_messages s)"
  proof -
    have "\<not> list_ex (\<lambda>m. rows_has (\<lambda>(i, m). (i, bm_index m)) (cv_id c, bm_index m) (bt_messages s)) ms"
      using run by (auto simp: io_bind_def io_get_def Let_def pg_fail_def fail_def split: if_split_asm)
    then show ?thesis by (force simp: list_ex_iff rows_has_def)
  qed
  show thesis
  proof (cases "rows_with cv_id (cv_id c) (conversations s) = []")
    case True
    have "bt_messages s' = bt_messages s @ map (Pair (cv_id c)) ms \<and> bt_conversations s' = bt_conversations s @ [saved_row c (now (bt_world s))] \<and> live s c"
      using run True by (auto simp: io_bind_def io_get_def io_mod_def Let_def pg_fail_def fail_def split: if_split_asm)
    moreover have "\<forall>o' \<in> set (bt_conversations s). cv_id o' = cv_id c \<longrightarrow> \<not> live s o'"
      using True by (auto simp: rows_with_def conversations_def filter_empty_conv)
    ultimately show thesis using inserts [of "now (bt_world s)"] Inr clash by simp
  next
    case False
    then have "cv_id c \<in> cv_id ` set (bt_conversations s)"
      by (auto simp: rows_with_def conversations_def filter_empty_conv intro: rev_image_eqI)
    moreover have "bt_messages s' = bt_messages s @ map (Pair (cv_id c)) ms \<and>
      bt_conversations s' = rows_upd cv_id (cv_id c) (\<lambda>o'. o'\<lparr>cv_projects := cv_projects c, cv_updated := now (bt_world s)\<rparr>) (bt_conversations s)"
      using run False by (auto simp: io_bind_def io_get_def io_mod_def Let_def pg_fail_def fail_def split: if_split_asm)
    ultimately show thesis using appends [of "now (bt_world s)"] Inr clash by simp
  qed
qed

lemma sort_key_snoc: "\<forall>y \<in> set xs. f y \<le> f x \<Longrightarrow> sort_key f (xs @ [x]) = sort_key f xs @ [x]" for f :: "'a \<Rightarrow> nat"
proof (induction xs)
  case (Cons y xs)
  have "insort_key f y (zs @ [x]) = insort_key f y zs @ [x]" if "f y \<le> f x" for zs
    using that by (induction zs) auto
  with Cons show ?case by simp
qed simp

text \<open>A question and its answer after the messages there are.\<close>

lemma chat_snoc:
  assumes "chat k (conv_messages i s)" "bm_index q = 2 * k" "bm_index a = Suc (2 * k)" "bm_role q = ChatUser" "bm_role a = ChatAssistant"
    "bt_messages s' = bt_messages s @ [(i, q), (i, a)]"
  shows "conv_messages i s' = conv_messages i s @ [q, a] \<and> chat (Suc k) (conv_messages i s')"
proof -
  let ?ms = "map snd (rows_with fst i (bt_messages s))"
  have below: "\<forall>m \<in> set ?ms. bm_index m < 2 * k"
  proof
    fix m assume "m \<in> set ?ms"
    then have "m \<in> set (conv_messages i s)" by (simp add: conv_messages_def)
    then have "bm_index m \<in> set (map bm_index (conv_messages i s))" by simp
    moreover have "set (map bm_index (conv_messages i s)) = {0..<2 * k}" using assms(1) by (simp only: chat_def set_upt)
    ultimately show "bm_index m < 2 * k" by simp
  qed
  have "conv_messages i s' = sort_key bm_index ((?ms @ [q]) @ [a])" by (simp add: conv_messages_def assms(6) rows_with_def)
  also have "\<dots> = sort_key bm_index (?ms @ [q]) @ [a]" by (rule sort_key_snoc) (use below assms(2,3) in auto)
  also have "sort_key bm_index (?ms @ [q]) = conv_messages i s @ [q]"
    unfolding conv_messages_def by (rule sort_key_snoc) (use below assms(2) in auto)
  finally have eq: "conv_messages i s' = conv_messages i s @ [q, a]" by simp
  moreover have "concat (replicate (Suc k) [ChatUser, ChatAssistant]) = concat (replicate k [ChatUser, ChatAssistant]) @ [ChatUser, ChatAssistant]"
    by (simp flip: replicate_append_same)
  ultimately show ?thesis using assms by (simp add: chat_def)
qed

lemma other_messages: "bt_messages s' = bt_messages s @ map (Pair i) ms \<Longrightarrow> j \<noteq> i \<Longrightarrow> conv_messages j s' = conv_messages j s"
  by (induction ms) (auto simp: conv_messages_def rows_with_def)

lemma bt_save_cases:
  assumes "save_turn bl t content choices s = (q, s1)"
  obtains (fails) e where "q = Inl e" "rows_view s1 = rows_view s"
  | (saves) m title w where "q = Inr (Done m title)" "\<not> tu_cancelled t" "m = answered_message bl (ext (bt_world s)) t content choices (now (bt_world s))"
      "conv_save (answered_conv t) [asked_message t, m] (s\<lparr>bt_world := w\<rparr>) = (Inr (), s1)" "title = (if tu_first t then cv_title (answered_conv t) else [])"
proof -
  let ?m = "answered_message bl (ext (bt_world s)) t content choices (now (bt_world s))"
  have s: "s\<lparr>bt_world := bt_world s\<rparr> = s" by simp
  obtain r s2 where saved: "conv_save (answered_conv t) [asked_message t, ?m] s = (r, s2)" by fastforce
  show thesis
  proof (cases "tu_cancelled t")
    case True
    then show thesis using fails assms by (auto simp: save_turn_def Let_def io_bind_def in_world_def io_get_def io_wrap_def fail_def)
  next
    case False
    show thesis
    proof (cases r)
      case (Inl e)
      have "rows_view s2 = rows_view s" by (rule conv_save_cases [OF saved]) (use Inl in simp_all)
      then show thesis using fails assms False saved Inl by (auto simp: save_turn_def Let_def io_bind_def in_world_def io_get_def io_wrap_def fail_def)
    next
      case (Inr u)
      then show thesis using saves [of ?m "if tu_first t then cv_title (answered_conv t) else []" "bt_world s"] assms False saved
        by (auto simp: save_turn_def Let_def io_bind_def in_world_def io_get_def io_wrap_def fail_def ret_def)
    qed
  qed
qed

lemma answered_conv_simps [simp]: "cv_id (answered_conv t) = turn_id t" "cv_user (answered_conv t) = cv_user (tu_conv t)"
  "cv_project (answered_conv t) = cv_project (tu_conv t)"
  by (simp_all add: answered_conv_def turn_id_def)

lemma message_simps [simp]: "bm_index (asked_message t) = length (cv_messages (tu_conv t))" "bm_role (asked_message t) = ChatUser"
  "bm_index (answered_message bl x t content choices at_time) = Suc (length (cv_messages (tu_conv t)))"
  "bm_role (answered_message bl x t content choices at_time) = ChatAssistant"
  by (simp_all add: asked_message_def answered_message_def bora_message_of_def split: prod.split)

text \<open>How many answers a turn's conversation has when the turn saves.\<close>

lemma saves_after:
  assumes ok: "chats_ok s" "linked s t" "\<not> tu_cancelled t"
    and clash: "(turn_id t, length (cv_messages (tu_conv t))) \<notin> (\<lambda>(i, m). (i, bm_index m)) ` set (bt_messages s)"
  obtains k where "chat k (conv_messages (turn_id t) s)" "length (cv_messages (tu_conv t)) = 2 * k"
    "k = 0 \<longleftrightarrow> turn_id t \<notin> cv_id ` set (bt_conversations s)" "\<not> tu_first t \<longrightarrow> k \<noteq> 0"
proof -
  obtain k where k: "chat k (conv_messages (turn_id t) s)" "k = 0 \<longleftrightarrow> turn_id t \<notin> cv_id ` set (bt_conversations s)"
    using ok(1) by (auto simp: chats_ok_def)
  have "length (cv_messages (tu_conv t)) = 2 * k \<and> (\<not> tu_first t \<longrightarrow> k \<noteq> 0)"
  proof (cases "tu_first t")
    case True
    have "k = 0"
    proof (rule ccontr)
      assume "k \<noteq> 0"
      then have "0 \<in> set (map bm_index (conv_messages (turn_id t) s))" using k(1) by (simp only: chat_def set_upt) simp
      then obtain m where "m \<in> set (conv_messages (turn_id t) s)" "bm_index m = 0" by auto
      then have "(turn_id t, m) \<in> set (bt_messages s)" by (auto simp: conv_messages_def rows_with_def)
      then show False using clash True ok(2) \<open>bm_index m = 0\<close> by (force simp: linked_def)
    qed
    then show ?thesis using True ok(2) by (simp add: linked_def)
  next
    case False
    then show ?thesis using ok(2,3) k chat_length [OF k(1)] by (auto simp: linked_def)
  qed
  then show thesis using that k by blast
qed

lemma linked_other:
  assumes "turn_id o' \<noteq> i" "linked s o'" "bt_messages s' = bt_messages s @ map (Pair i) ms"
    "\<And>c. c \<in> set (bt_conversations s) \<Longrightarrow> cv_id c \<noteq> i \<Longrightarrow> c \<in> set (bt_conversations s')"
  shows "linked s' o'"
  using assms other_messages [OF assms(3,1)] by (fastforce simp: linked_def)

lemma chats_ok_grow:
  assumes "chats_ok s" "chat k (conv_messages i s)" "bt_messages s' = bt_messages s @ [(i, q), (i, a)]"
    "bm_index q = 2 * k" "bm_index a = Suc (2 * k)" "bm_role q = ChatUser" "bm_role a = ChatAssistant"
    "distinct (map cv_id (bt_conversations s'))" "cv_id ` set (bt_conversations s') = insert i (cv_id ` set (bt_conversations s))"
  shows "chats_ok s'"
proof -
  have "\<exists>n. chat n (conv_messages j s') \<and> (n = 0 \<longleftrightarrow> j \<notin> cv_id ` set (bt_conversations s'))" for j
  proof (cases "j = i")
    case True
    then show ?thesis using conjunct2 [OF chat_snoc [OF assms(2,4,5,6,7,3)]] assms(9) by (intro exI [of _ "Suc k"]) simp
  next
    case False
    have "conv_messages j s' = conv_messages j s" by (rule other_messages [of _ _ i "[q, a]"]) (use assms(3) False in simp_all)
    then show ?thesis using assms(1,9) False by (simp add: chats_ok_def)
  qed
  then show ?thesis using assms(8) by (simp add: chats_ok_def)
qed

lemma saved_ok:
  assumes ok: "chats_ok s" "linked s t" "\<not> tu_cancelled t"
    and saved: "conv_save (answered_conv t) [asked_message t, answered_message bl x t content choices at_time] s = (Inr (), s1)"
  shows "chats_ok s1 \<and> (\<forall>o'. turn_id o' \<noteq> turn_id t \<longrightarrow> linked s o' \<longrightarrow> linked s1 o') \<and>
    bt_messages s1 = bt_messages s @ [(turn_id t, asked_message t), (turn_id t, answered_message bl x t content choices at_time)] \<and>
    (\<exists>c \<in> set (bt_conversations s1). cv_id c = turn_id t \<and> cv_projects c = cv_projects (answered_conv t)) \<and>
    filter (\<lambda>c. cv_id c \<noteq> turn_id t) (bt_conversations s1) = filter (\<lambda>c. cv_id c \<noteq> turn_id t) (bt_conversations s)"
    (is "?chats \<and> ?links \<and> ?msgs \<and> ?row \<and> ?others")
proof -
  let ?i = "turn_id t"
  let ?q = "asked_message t" and ?a = "answered_message bl x t content choices at_time"
  have msgs: "bt_messages s1 = bt_messages s @ map (Pair ?i) [?q, ?a]"
    and clash: "(?i, length (cv_messages (tu_conv t))) \<notin> (\<lambda>(i, m). (i, bm_index m)) ` set (bt_messages s)"
    by (rule conv_save_cases [OF saved]; simp)+
  obtain k where k: "chat k (conv_messages ?i s)" "length (cv_messages (tu_conv t)) = 2 * k" "k = 0 \<longleftrightarrow> ?i \<notin> cv_id ` set (bt_conversations s)"
    "\<not> tu_first t \<longrightarrow> k \<noteq> 0" using saves_after [OF ok clash] by blast
  have first: "tu_first t \<longleftrightarrow> k = 0" using k(2,4) ok(2) by (auto simp: linked_def)
  have table: "distinct (map cv_id (bt_conversations s1)) \<and> cv_id ` set (bt_conversations s1) = insert ?i (cv_id ` set (bt_conversations s)) \<and>
    (\<forall>c. c \<in> set (bt_conversations s) \<longrightarrow> cv_id c \<noteq> ?i \<longrightarrow> c \<in> set (bt_conversations s1)) \<and> ?row \<and> ?others"
  proof (rule conv_save_cases [OF saved])
    fix at_t
    assume ins: "bt_conversations s1 = bt_conversations s @ [saved_row (answered_conv t) at_t]" "live s (answered_conv t)"
      "\<forall>o' \<in> set (bt_conversations s). cv_id o' = cv_id (answered_conv t) \<longrightarrow> \<not> live s o'"
    have "?i \<notin> cv_id ` set (bt_conversations s)"
    proof
      assume i: "?i \<in> cv_id ` set (bt_conversations s)"
      then have "\<not> tu_first t" using k(3) first by simp
      then obtain c where "c \<in> set (bt_conversations s)" "cv_id c = ?i" "cv_user c = tu_user t" "cv_project c = cv_project (tu_conv t)" "cv_user (tu_conv t) = tu_user t"
        using ok(2,3) by (auto simp: linked_def)
      then show False using ins(2,3) by (auto simp: live_def)
    qed
    then show ?thesis using ins(1) ok(1) by (auto simp: saved_row_def chats_ok_def)
  next
    fix at_t
    assume upd: "cv_id (answered_conv t) \<in> cv_id ` set (bt_conversations s)" "bt_conversations s1 = rows_upd cv_id (cv_id (answered_conv t))
       (\<lambda>o'. o'\<lparr>cv_projects := cv_projects (answered_conv t), cv_updated := at_t\<rparr>) (bt_conversations s)"
    let ?f = "\<lambda>c. if cv_id c = ?i then c\<lparr>cv_projects := cv_projects (answered_conv t), cv_updated := at_t\<rparr> else c"
    have s1: "bt_conversations s1 = map ?f (bt_conversations s)" using upd(2) by (simp add: rows_upd_def)
    have ids: "map cv_id (bt_conversations s1) = map cv_id (bt_conversations s)" by (simp add: s1)
    have img: "cv_id ` set (bt_conversations s1) = cv_id ` set (bt_conversations s)" using arg_cong [OF ids, of set] by simp
    obtain c where c: "c \<in> set (bt_conversations s)" "cv_id c = ?i" using upd(1) by auto
    have "?f c \<in> set (bt_conversations s1)" using c(1) unfolding s1 by simp
    then have row: ?row using c(2) by (intro bexI [of _ "?f c"]) simp_all
    have "filter (\<lambda>c. cv_id c \<noteq> ?i) (map ?f cs) = filter (\<lambda>c. cv_id c \<noteq> ?i) cs" for cs by (induction cs) auto
    then have ?others by (simp add: s1)
    moreover have "\<forall>c. c \<in> set (bt_conversations s) \<longrightarrow> cv_id c \<noteq> ?i \<longrightarrow> c \<in> set (bt_conversations s1)" by (auto simp: s1 intro: rev_image_eqI)
    ultimately show ?thesis using ids img row upd(1) ok(1) by (auto simp: chats_ok_def)
  qed simp_all
  have ?chats by (rule chats_ok_grow [OF ok(1) k(1), of _ ?q ?a]) (use table msgs k(2) in simp_all)
  moreover have ?links using linked_other [OF _ _ msgs] table by blast
  ultimately show ?thesis using table msgs by simp
qed

lemma turn_in_ok: "turn_in s i = Some t \<Longrightarrow> t \<in> set (bs_turns s) \<and> turn_id t = i"
  by (auto simp: turn_in_def find_Some_iff)

lemma finish_ok:
  assumes ok: "bora_ok s"
  shows "bora_ok (finish_turn bl i s)"
proof (cases "turn_in s i")
  case None
  then show ?thesis using ok by (simp add: finish_turn_def)
next
  case (Some t)
  note at = turn_in_ok [OF Some]
  have live: "live_turn t" and link: "linked s t" using ok at by (auto simp: bora_ok_def turns_ok_def list_all_iff)
  have turns: "turns_ok (finish_turn bl i s)" using ok finish_turns_ok by (auto simp: bora_ok_def)
  show ?thesis
  proof (cases "tu_answer t")
    case None
    then show ?thesis using ok Some by (simp add: finish_turn_def)
  next
    case answer: (Some r)
    have "chats_ok (finish_turn bl i s) \<and> list_all (linked (finish_turn bl i s)) (bs_turns (finish_turn bl i s))"
    proof (rule finish_cases [OF Some answer live, of bl])
      fix e t'
      assume fin: "finish_turn bl i s = s\<lparr>bs_turns := filter (\<lambda>o'. turn_id o' \<noteq> i) (bs_turns s), bs_past := bs_past s @ [t']\<rparr>"
      have "rows_view (finish_turn bl i s) = rows_view s" by (simp add: fin rows_view_def)
      from rows_view_chats [OF this] show ?thesis using ok by (auto simp: fin bora_ok_def list_all_iff)
    next
      fix content choices q s1 t' said
      assume saved: "save_turn bl t content choices s = (q, s1)"
        and fin: "finish_turn bl i s = s1\<lparr>bs_turns := filter (\<lambda>o'. turn_id o' \<noteq> i) (bs_turns s), bs_past := bs_past s @ [t']\<rparr>"
      have rows: "rows_view (finish_turn bl i s) = rows_view s1" by (simp add: fin rows_view_def)
      have "chats_ok s1 \<and> (\<forall>o'. turn_id o' \<noteq> i \<longrightarrow> linked s o' \<longrightarrow> linked s1 o')"
      proof (rule bt_save_cases [OF saved])
        assume "rows_view s1 = rows_view s"
        from rows_view_chats [OF this] show ?thesis using ok by (simp add: bora_ok_def)
      next
        fix m title w
        assume m: "m = answered_message bl (ext (bt_world s)) t content choices (now (bt_world s))" "\<not> tu_cancelled t"
          and save: "conv_save (answered_conv t) [asked_message t, m] (s\<lparr>bt_world := w\<rparr>) = (Inr (), s1)"
        have view: "rows_view (s\<lparr>bt_world := w\<rparr>) = rows_view s" by simp
        show ?thesis using saved_ok [OF _ _ m(2) save [unfolded m(1)]] rows_view_chats [OF view] ok link at by (simp add: bora_ok_def)
      qed
      then show ?thesis using rows_view_chats [OF rows] ok by (auto simp: fin bora_ok_def list_all_iff)
    qed
    then show ?thesis using turns by (simp add: bora_ok_def)
  qed
qed

section \<open>Deleting and recording\<close>

lemma conv_delete_cases:
  assumes "conv_delete u admin which s = (r, s')"
  obtains (fails) e where "r = Inl e" "rows_view s' = rows_view s"
  | (deletes) gone images where "r = Inr images" "bt_conversations s' = filter (\<lambda>c. cv_id c \<notin> gone) (bt_conversations s)"
      "bt_messages s' = filter (\<lambda>(j, _). j \<notin> gone) (bt_messages s)"
      "\<forall>i \<in> gone. (\<exists>c \<in> set (bt_conversations s). cv_id c = i \<and> cv_user c = u) \<and> (which = None \<or> which = Some i)"
proof (cases r)
  case (Inl e)
  have "bt_conversations s' = bt_conversations s \<and> bt_messages s' = bt_messages s"
    using assms unfolding Inl conv_delete_def bora_call_def
    by (auto simp: io_bind_def in_world_def io_get_def io_mod_def Let_def fail_def ret_def split: prod.split_asm sum.split_asm if_split_asm)
  then show thesis using fails [OF Inl] by (simp add: rows_view_def)
next
  case (Inr images)
  from bora_call_ok [OF assms [unfolded conv_delete_def Inr]] obtain fs where
    run: "io_bind (io_get (\<lambda>s. s)) (\<lambda>s. let hit = (\<lambda>c. case which of None \<Rightarrow> cv_user c = u | Some j \<Rightarrow> visible_conversation s u admin c \<and> cv_id c = j);
       gone = map cv_id (filter hit (conversations s));
       images = concat (map (\<lambda>(j, m). if j \<in> set gone then bm_images m else []) (bt_messages s)) in
     if which \<noteq> None \<and> gone = [] then fail (err_wrap ''delete conversations'' (err_sentinel ErrNotFound))
     else io_bind (io_mod (\<lambda>s. s\<lparr>bt_conversations := filter (\<lambda>c. cv_id c \<notin> set gone) (bt_conversations s),
         bt_messages := filter (\<lambda>(j, _). j \<notin> set gone) (bt_messages s)\<rparr>)) (\<lambda>_. ret images)) (s\<lparr>bt_world := (bt_world s)\<lparr>faults := fs\<rparr>\<rparr>) = (Inr images, s')" by blast
  let ?s = "s\<lparr>bt_world := (bt_world s)\<lparr>faults := fs\<rparr>\<rparr>"
  let ?hit = "\<lambda>c. case which of None \<Rightarrow> cv_user c = u | Some j \<Rightarrow> visible_conversation ?s u admin c \<and> cv_id c = j"
  define gone where "gone = set (map cv_id (filter ?hit (conversations ?s)))"
  have s': "s' = ?s\<lparr>bt_conversations := filter (\<lambda>c. cv_id c \<notin> gone) (bt_conversations s), bt_messages := filter (\<lambda>(j, _). j \<notin> gone) (bt_messages s)\<rparr>"
    using run unfolding gone_def by (auto simp: io_bind_def io_get_def io_mod_def Let_def fail_def ret_def split: if_split_asm)
  have "\<forall>i \<in> gone. (\<exists>c \<in> set (bt_conversations s). cv_id c = i \<and> cv_user c = u) \<and> (which = None \<or> which = Some i)"
    by (auto simp: gone_def conversations_def visible_conversation_def split: option.split_asm)
  then show thesis using deletes [OF Inr, of gone] by (simp add: s')
qed

lemma delete_run:
  assumes "delete_bora u which s = (r, s')"
  obtains q s1 where "conv_delete (u_id u) (is_admin u) which s = (q, s1)" "rows_view s' = rows_view s1" "bs_past s' = bs_past s"
    "bs_turns s' = map (\<lambda>t. if tu_user t = u_id u \<and> (which = None \<or> which = Some (turn_id t)) then cancel_turn t else t) (bs_turns s)"
proof -
  obtain q s1 where del: "conv_delete (u_id u) (is_admin u) which s = (q, s1)" by fastforce
  have view: "turns_view s1 = turns_view s" using keepsD [OF statements_keep_turns(3) del] .
  have none: "fst (drop_images a is w) = Inr ()" for a "is" w
  proof -
    have "fst (io_each (\<lambda>i. io_bind (io_try (m i)) (\<lambda>_. ret ())) is w) = Inr ()" for m :: "uuid \<Rightarrow> (world, unit) io"
      by (induction "is" arbitrary: w) (auto simp: io_bind_def io_try_def ret_def split: prod.split)
    then show ?thesis by (simp add: drop_images_def)
  qed
  let ?drop = "if s3_on (bt_world s1) then in_world (drop_images u (case q of Inl _ \<Rightarrow> [] | Inr is \<Rightarrow> is)) else ret ()"
  have "\<exists>w. ?drop s1 = (Inr (), s1\<lparr>bt_world := w\<rparr>)"
  proof (cases "s3_on (bt_world s1)")
    case True
    obtain r0 w where d: "drop_images u (case q of Inl _ \<Rightarrow> [] | Inr is \<Rightarrow> is) (bt_world s1) = (r0, w)" by fastforce
    have "r0 = Inr ()" using none [of u "case q of Inl _ \<Rightarrow> [] | Inr is \<Rightarrow> is" "bt_world s1"] d by simp
    then show ?thesis using True d by (intro exI [of _ w]) (simp add: in_world_def)
  next
    case False
    then show ?thesis by (intro exI [of _ "bt_world s1"]) (simp add: ret_def)
  qed
  then obtain w where mid: "?drop s1 = (Inr (), s1\<lparr>bt_world := w\<rparr>)" by blast
  have get: "in_world (io_get f) s0 = (Inr (f (bt_world s0)), s0)" for s0 :: bora_service and f :: "world \<Rightarrow> 'q"
    by (simp add: in_world_def io_get_def)
  have "s' = s1\<lparr>bt_world := w, bs_turns := map (\<lambda>t. if tu_user t = u_id u \<and> (which = None \<or> which = Some (turn_id t)) then cancel_turn t else t) (bs_turns s1)\<rparr>"
    using assms unfolding delete_bora_def io_bind_def io_try_def del get prod.case sum.case mid
    by (simp add: io_get_def io_mod_def Let_def ret_def fail_def split: sum.split_asm if_split_asm)
  then show thesis using that [OF del] view by (simp add: turns_view_def rows_view_def)
qed

lemma linked_cancel: "linked s t \<Longrightarrow> linked s (cancel_turn t)"
  by (simp add: linked_def cancel_turn_def turn_id_def)

lemma delete_ok:
  assumes ok: "bora_ok s"
  shows "bora_ok (snd (delete_bora u which s))"
proof -
  obtain r s' where run: "delete_bora u which s = (r, s')" by fastforce
  let ?f = "\<lambda>t. if tu_user t = u_id u \<and> (which = None \<or> which = Some (turn_id t)) then cancel_turn t else t"
  obtain q s1 where del: "conv_delete (u_id u) (is_admin u) which s = (q, s1)" "rows_view s' = rows_view s1" "bs_past s' = bs_past s"
    "bs_turns s' = map ?f (bs_turns s)" by (rule delete_run [OF run]) (rule that)
  have ts: "turns_ok s'" using map_turns_ok [OF _ cancel_same(2), of s] ok del(3,4) by (simp add: bora_ok_def turns_ok_def)
  have "chats_ok s1 \<and> list_all (linked s1) (map ?f (bs_turns s))"
  proof (rule conv_delete_cases [OF del(1)])
    assume "rows_view s1 = rows_view s"
    note same = rows_view_chats [OF this]
    then show ?thesis using same ok linked_cancel by (auto simp: bora_ok_def list_all_iff)
  next
    fix gone images
    assume gone: "bt_conversations s1 = filter (\<lambda>c. cv_id c \<notin> gone) (bt_conversations s)" "bt_messages s1 = filter (\<lambda>(j, _). j \<notin> gone) (bt_messages s)"
      "\<forall>i \<in> gone. (\<exists>c \<in> set (bt_conversations s). cv_id c = i \<and> cv_user c = u_id u) \<and> (which = None \<or> which = Some i)"
    have msgs: "conv_messages i s1 = (if i \<in> gone then [] else conv_messages i s)" for i
    proof -
      have "filter (\<lambda>r. fst r = i) (filter (\<lambda>(j, _). j \<notin> gone) ms) = (if i \<in> gone then [] else filter (\<lambda>r. fst r = i) ms)"
        for ms :: "(uuid \<times> bora_message) list"
        by (induction ms) auto
      then show ?thesis by (simp add: conv_messages_def rows_with_def gone(2))
    qed
    have ids: "distinct (map cv_id (bt_conversations s))" using ok by (simp add: bora_ok_def chats_ok_def)
    have "\<exists>k. chat k (conv_messages i s1) \<and> (k = 0 \<longleftrightarrow> i \<notin> cv_id ` set (bt_conversations s1))" for i
    proof (cases "i \<in> gone")
      case True
      then show ?thesis by (intro exI [of _ 0]) (auto simp: msgs chat_def gone(1))
    next
      case False
      have "\<exists>k. chat k (conv_messages i s) \<and> (k = 0 \<longleftrightarrow> i \<notin> cv_id ` set (bt_conversations s))"
        using ok by (simp add: bora_ok_def chats_ok_def)
      then obtain k where "chat k (conv_messages i s)" "k = 0 \<longleftrightarrow> i \<notin> cv_id ` set (bt_conversations s)" by blast
      then show ?thesis using False by (intro exI [of _ k]) (auto simp: msgs gone(1))
    qed
    then have "chats_ok s1" using ids by (simp add: chats_ok_def gone(1) distinct_map_filter)
    moreover have "linked s1 (?f t)" if "t \<in> set (bs_turns s)" for t
    proof (cases "tu_user t = u_id u \<and> (which = None \<or> which = Some (turn_id t))")
      case True
      then show ?thesis using ok that by (auto simp: bora_ok_def list_all_iff linked_def cancel_turn_def)
    next
      case False
      have t: "linked s t" using ok that by (simp add: bora_ok_def list_all_iff)
      have "turn_id t \<notin> gone" if own: "\<exists>c \<in> set (bt_conversations s). cv_id c = turn_id t \<and> cv_user c = tu_user t"
      proof
        assume "turn_id t \<in> gone"
        with gone(3) obtain c where c: "c \<in> set (bt_conversations s)" "cv_id c = turn_id t" "cv_user c = u_id u" "which = None \<or> which = Some (turn_id t)" by blast
        from own obtain c' where "c' \<in> set (bt_conversations s)" "cv_id c' = turn_id t" "cv_user c' = tu_user t" by blast
        with c ids have "c' = c" by (auto simp: distinct_map inj_on_def)
        then show False using False c \<open>cv_user c' = tu_user t\<close> by simp
      qed
      then show ?thesis using t False by (auto simp: linked_def msgs gone(1))
    qed
    ultimately show ?thesis by (simp add: list_all_iff del: if_image_distrib)
  qed
  then show ?thesis using run ts del(4) rows_view_chats [OF del(2)] by (simp add: bora_ok_def)
qed

lemma sort_key_map: "(\<And>y. f (g y) = f y) \<Longrightarrow> sort_key f (map g xs) = map g (sort_key f xs)" for f :: "'a \<Rightarrow> nat"
proof (induction xs)
  case (Cons x xs)
  have "insort_key f (g x) (map g zs) = map g (insort_key f x zs)" for zs
    using Cons.prems by (induction zs) simp_all
  with Cons show ?case by simp
qed simp

lemma add_ran_cases:
  assumes "conv_add_ran i n line s = (r, s')"
  obtains (fails) e where "r = Inl e" "rows_view s' = rows_view s"
  | (adds) "r = Inr ()" "bt_conversations s' = bt_conversations s" "list_ex (ran_room i n) (bt_messages s)"
      "bt_messages s' = map (\<lambda>(j, m). if ran_room i n (j, m) then (j, m\<lparr>bm_ran := bm_ran m @ [line]\<rparr>) else (j, m)) (bt_messages s)"
proof (cases r)
  case (Inl e)
  have "bt_conversations s' = bt_conversations s \<and> bt_messages s' = bt_messages s"
    using assms unfolding Inl conv_add_ran_def bora_call_def
    by (auto simp: io_bind_def in_world_def io_get_def io_mod_def Let_def fail_def ret_def split: prod.split_asm sum.split_asm if_split_asm)
  then show thesis using fails [OF Inl] by (simp add: rows_view_def)
next
  case (Inr u)
  from bora_call_ok [OF assms [unfolded conv_add_ran_def Inr]] show thesis
    using adds Inr by (auto simp: io_bind_def io_get_def io_mod_def fail_def split: if_split_asm)
qed

text \<open>The line of a message that has room.\<close>

definition with_ran :: "uuid \<Rightarrow> uuid \<Rightarrow> nat \<Rightarrow> string \<Rightarrow> bora_message \<Rightarrow> bora_message" where
  "with_ran j i n line m = (if ran_room i n (j, m) then m\<lparr>bm_ran := bm_ran m @ [line]\<rparr> else m)"

lemma with_ran_simps [simp]: "bm_index (with_ran j i n line m) = bm_index m" "bm_role (with_ran j i n line m) = bm_role m"
  by (simp_all add: with_ran_def)

lemma ran_messages:
  assumes "bt_messages s' = map (\<lambda>(j, m). if ran_room i n (j, m) then (j, m\<lparr>bm_ran := bm_ran m @ [line]\<rparr>) else (j, m)) (bt_messages s)"
  shows "conv_messages j s' = map (with_ran j i n line) (conv_messages j s)"
proof -
  have "map snd (filter (\<lambda>r. fst r = j) (map (\<lambda>(j, m). if ran_room i n (j, m) then (j, m\<lparr>bm_ran := bm_ran m @ [line]\<rparr>) else (j, m)) ms)) =
      map (with_ran j i n line) (map snd (filter (\<lambda>r. fst r = j) ms))" for ms
    by (induction ms) (auto simp: with_ran_def)
  then show ?thesis by (simp add: conv_messages_def rows_with_def assms sort_key_map del: map_map)
qed

lemma add_ran_run:
  assumes "add_bora_ran u i n line s = (r, s')"
  obtains (same) "rows_view s' = rows_view s"
  | (adds) j where "bt_conversations s' = bt_conversations s" "\<exists>c \<in> set (bt_conversations s). cv_id c = i \<and> cv_user c = u_id u" "j = nat n"
      "bt_messages s' = map (\<lambda>(k, m). if ran_room i j (k, m) then (k, m\<lparr>bm_ran := bm_ran m @ [trim_space line]\<rparr>) else (k, m)) (bt_messages s)"
proof -
  let ?line = "trim_space line"
  obtain q s1 where got: "conv_get (u_id u) (is_admin u) i s = (q, s1)" by fastforce
  have view: "rows_view s1 = rows_view s" using keepsD [OF reads_keep(1) got, of rows_view] by simp
  obtain q2 s2 where ran: "conv_add_ran i (nat n) ?line s1 = (q2, s2)" by fastforce
  have bad: "rows_view (snd (bora_call oper (fail e :: (bora_service, unit) io) s1)) = rows_view s1" for oper e
  proof -
    have "keeps rows_view (bora_call oper (fail e :: (bora_service, unit) io))" by (intro keeps_intros) simp
    then show ?thesis by (simp add: keeps_def)
  qed
  have "rows_view s' = rows_view s \<or> s' = s2 \<and> (\<exists>c. q = Inr c)"
    using assms got view ran bad
    by (auto simp: add_bora_ran_def Let_def io_bind_def io_wrap_def fail_def split: if_split_asm prod.split_asm sum.split_asm) (metis snd_conv)+
  then show thesis
  proof (elim disjE conjE exE)
    fix c assume s': "s' = s2" and q: "q = Inr c"
    from got q obtain c0 w where c0: "c0 \<in> set (bt_conversations s)" "cv_id c0 = i" "cv_user c0 = u_id u" "s1 = s\<lparr>bt_world := w\<rparr>"
      using conv_get_ok [of "u_id u" "is_admin u" i s c s1] by metis
    show thesis
      by (rule add_ran_cases [OF ran]) (use same adds [of "nat n"] s' view c0 in \<open>auto simp: rows_view_def\<close>)
  qed (rule same)
qed

lemma add_ran_ok:
  assumes ok: "bora_ok s"
  shows "bora_ok (snd (add_bora_ran u i n line s))"
proof -
  obtain r s' where run: "add_bora_ran u i n line s = (r, s')" by fastforce
  have turns: "turns_view s' = turns_view s" using keepsD [OF requests_keep(1) run] .
  have "chats_ok s' \<and> (\<forall>t. linked s t \<longrightarrow> linked s' t)"
  proof (rule add_ran_run [OF run])
    assume "rows_view s' = rows_view s"
    from rows_view_chats [OF this] show ?thesis using ok by (simp add: bora_ok_def)
  next
    fix j
    assume new: "bt_conversations s' = bt_conversations s"
      "bt_messages s' = map (\<lambda>(k, m). if ran_room i j (k, m) then (k, m\<lparr>bm_ran := bm_ran m @ [trim_space line]\<rparr>) else (k, m)) (bt_messages s)"
    note ms = ran_messages [OF new(2)]
    have "chat k (conv_messages h s') = chat k (conv_messages h s)" for k h
      by (simp add: chat_def ms comp_def)
    then show ?thesis using ok by (auto simp: bora_ok_def chats_ok_def linked_def ms new(1))
  qed
  then show ?thesis using run turns turns_ok_view [OF turns] ok by (auto simp: bora_ok_def turns_view_def list_all_iff)
qed

section \<open>Every reachable state\<close>

lemma step_ok:
  assumes ok: "bora_ok s"
  shows "bora_ok (turn_step bl x s)"
proof (cases x)
  case (ListBora u q before limit)
  show ?thesis using view_ok [of "turn_step bl x s" s] ok requests_keep(2,4) [of bl u q before limit] by (simp add: ListBora keeps_def)
next
  case (GetBora u i)
  show ?thesis using view_ok [of "turn_step bl x s" s] ok requests_keep(3,5) [of u i] by (simp add: GetBora keeps_def)
next
  case (Think i)
  then show ?thesis using ok think_ok by (simp split: option.split)
qed (use ok in \<open>simp_all add: start_ok again_ok finish_ok stop_ok delete_ok add_ran_ok\<close>)

interpretation bora_inv: invariant_steps "turn_step bl" bora_ok for bl
  by unfold_locales (rule step_ok)

definition no_turns :: "world \<Rightarrow> (string \<Rightarrow> bool) \<Rightarrow> (string \<Rightarrow> string \<Rightarrow> bool) \<Rightarrow> (string \<Rightarrow> string \<Rightarrow> string) \<Rightarrow> bora_service" where
  "no_turns w letter search snippet = \<lparr>bt_world = w, bt_conversations = [], bt_messages = [], bt_letter = letter, bt_search = search, bt_snippet = snippet,
     bs_turns = [], bs_past = []\<rparr>"

lemma no_turns_ok: "bora_ok (no_turns w letter search snippet)"
  by (auto simp: no_turns_def bora_ok_def turns_ok_def chats_ok_def chat_def conv_messages_def rows_with_def)


section \<open>Cutting at a rune\<close>

lemma width_1: "rune_width [a] = 1"
  by (simp add: rune_width_def)

lemma width_2: "rune_width (a # b # s) \<le> 2 \<Longrightarrow> rune_width [a, b] = rune_width (a # b # s)"
  by (cases s; cases "tl s") (auto simp: rune_width_def split: if_split_asm)

lemma width_3: "rune_width (a # b # c # s) \<le> 3 \<Longrightarrow> rune_width [a, b, c] = rune_width (a # b # c # s)"
  by (cases s) (auto simp: rune_width_def split: if_split_asm)

lemma width_4: "rune_width (a # b # c # d # s) = rune_width (a # b # c # d # r)"
  by (simp add: rune_width_def)

lemma rune_width_take:
  assumes "rune_width s \<le> m" "s \<noteq> []"
  shows "rune_width (take m s) = rune_width s"
proof -
  have m: "0 < m" using rune_width_pos [OF assms(2)] assms(1) by simp
  consider "length s \<le> m" | a b s' where "s = a # b # s'" "m = 1" | a b c s' where "s = a # b # c # s'" "m = 2"
    | a b c d s' where "s = a # b # c # d # s'" "m = 3" | a b c d s' k where "s = a # b # c # d # s'" "m = k + 4"
  proof -
    have two: "\<exists>a b s'. s = a # b # s'" if "2 \<le> length s" using that by (auto simp: numeral_2_eq_2 Suc_le_length_iff)
    have three: "\<exists>a b c s'. s = a # b # c # s'" if "3 \<le> length s" using that by (auto simp: numeral_3_eq_3 Suc_le_length_iff)
    have four: "\<exists>a b c d s'. s = a # b # c # d # s'" if "4 \<le> length s" using that by (auto simp: numeral_eq_Suc Suc_le_length_iff)
    have "length s \<le> m \<or> (m = 1 \<and> 2 \<le> length s) \<or> (m = 2 \<and> 3 \<le> length s) \<or> (m = 3 \<and> 4 \<le> length s) \<or> (m = (m - 4) + 4 \<and> 4 \<le> length s)" using m by arith
    then show thesis using that two three four by metis
  qed
  then show ?thesis
  proof cases
    case (2 a b s')
    then show ?thesis using assms(1) rune_width_pos [OF assms(2)] by (simp add: width_1 le_antisym)
  next
    case (3 a b c s')
    then show ?thesis using width_2 [of a b "c # s'"] assms(1) by (simp add: numeral_2_eq_2)
  next
    case (4 a b c d s')
    then show ?thesis using width_3 [of a b c "d # s'"] assms(1) by (simp add: numeral_3_eq_3)
  next
    case (5 a b c d s' k)
    then show ?thesis using width_4 [of a b c d "take k s'" s'] by (simp add: numeral_eq_Suc)
  qed simp
qed

lemma runes_take: "runes (concat (take n (runes s))) = take n (runes s)"
proof (induction s arbitrary: n rule: runes.induct)
  case (1 s)
  show ?case
  proof (cases "s = [] \<or> n = 0")
    case False
    then obtain k where n: "n = Suc k" and s: "s \<noteq> []" by (cases n) auto
    let ?w = "rune_width s" and ?r = "drop (rune_width s) s"
    have runes_s: "runes s = take ?w s # runes ?r" using s by (simp add: runes.simps [of s])
    have "concat (runes ?r) = concat (take k (runes ?r)) @ concat (drop k (runes ?r))" by (simp flip: concat_append)
    then have pre: "concat (take k (runes ?r)) = take (length (concat (take k (runes ?r)))) ?r" by (metis append_eq_conv_conj concat_runes)
    define l where "l = length (concat (take k (runes ?r)))"
    have whole: "concat (take n (runes s)) = take (?w + l) s"
      using pre by (simp add: n runes_s l_def take_add)
    have "take (?w + l) s \<noteq> []" using s rune_width_pos [OF s] by (cases s) auto
    then have "runes (take (?w + l) s) = take ?w s # runes (take l ?r)"
      using rune_width_take [of s "?w + l"] s by (subst runes.simps) (simp add: take_drop min_def add.commute)
    also have "take l ?r = concat (take k (runes ?r))" using pre by (simp add: l_def)
    also have "runes \<dots> = take k (runes ?r)" by (rule 1) (rule s)
    finally show ?thesis unfolding whole by (simp add: n runes_s)
  qed auto
qed

lemma truncate_count: "rune_count (truncate_runes s n) \<le> n"
  by (simp add: rune_count_def truncate_runes_def runes_take)

section \<open>What a turn saves\<close>

lemma answered_content: "rune_count (bm_content (answered_message bl x t content choices at_time)) \<le> answer_runes"
  by (simp add: answered_message_def bora_message_of_def truncate_count split: prod.split)

lemma left_turn: "turn_in (s\<lparr>bs_turns := filter (\<lambda>o'. turn_id o' \<noteq> i) ts, bs_past := ps\<rparr>) i = None"
  by (simp add: turn_in_def find_None_iff)

text \<open>What the last event of a turn says about the tables.\<close>

definition outcome_ok :: "bora_service \<Rightarrow> bora_turn \<Rightarrow> goerr + string \<times> string list option \<Rightarrow> bora_service \<Rightarrow> bora_event \<Rightarrow> bool" where
  "outcome_ok s t r s' e \<longleftrightarrow> (case e of
       Done m title \<Rightarrow> \<not> tu_cancelled t \<and> conv_messages (turn_id t) s' = conv_messages (turn_id t) s @ [asked_message t, m] \<and>
         bt_messages s' = bt_messages s @ [(turn_id t, asked_message t), (turn_id t, m)] \<and>
         filter (\<lambda>c. cv_id c \<noteq> turn_id t) (bt_conversations s') = filter (\<lambda>c. cv_id c \<noteq> turn_id t) (bt_conversations s) \<and>
         (\<exists>c \<in> set (bt_conversations s'). cv_id c = turn_id t \<and> set (br_read (tu_bora t)) \<subseteq> set (cv_projects c)) \<and>
         rune_count (bm_content m) \<le> 4000 \<and> (\<exists>content choices. r = Inr (content, choices) \<and> bm_content m = truncate_runes (redact (snd (split_say content))) 4000 \<and>
           bm_actions m = (if choices = None then br_actions (tu_bora t) else []))
     | Failed er \<Rightarrow> \<not> tu_cancelled t \<and> rows_view s' = rows_view s
     | Stopped \<Rightarrow> tu_cancelled t \<and> rows_view s' = rows_view s
     | _ \<Rightarrow> False)"

lemma add_read_set: "set (add_read is ps) = set is \<union> set ps"
  by (induction "is" ps rule: add_read.induct) auto

lemma finish_outcome:
  assumes ok: "bora_ok s" and at: "turn_in s i = Some t" "tu_answer t = Some r"
  obtains t' e where "bs_past (finish_turn bl i s) = bs_past s @ [t']" "turn_in (finish_turn bl i s) i = None"
    "\<exists>said. tu_events t' = tu_events t @ said @ [e]" "ended_turn t'" "outcome_ok s t r (finish_turn bl i s) e"
proof -
  note i = turn_in_ok [OF at(1)]
  have live: "live_turn t" and link: "linked s t" using ok i by (auto simp: bora_ok_def turns_ok_def list_all_iff)
  show thesis
  proof (rule finish_cases [OF at live, of bl])
    fix e t'
    assume fin: "tu_events t' = tu_events t @ [if tu_cancelled t then Stopped else Failed e]" "ended_turn t'"
      "finish_turn bl i s = s\<lparr>bs_turns := filter (\<lambda>o'. turn_id o' \<noteq> i) (bs_turns s), bs_past := bs_past s @ [t']\<rparr>"
    show thesis
      by (rule that [of t' "if tu_cancelled t then Stopped else Failed e"]) (use fin in \<open>auto simp: left_turn outcome_ok_def rows_view_def\<close>)
  next
    fix content choices q s1 t' said
    assume r: "r = Inr (content, choices)" and saved: "save_turn bl t content choices s = (q, s1)" and "turns_view s1 = turns_view s"
      and fin: "tu_events t' = tu_events t @ said @ [last_event t q]" "ended_turn t'"
        "finish_turn bl i s = s1\<lparr>bs_turns := filter (\<lambda>o'. turn_id o' \<noteq> i) (bs_turns s), bs_past := bs_past s @ [t']\<rparr>"
    have msgs: "conv_messages j (finish_turn bl i s) = conv_messages j s1" for j by (simp add: fin(3) conv_messages_def)
    have "outcome_ok s t r (finish_turn bl i s) (last_event t q)"
    proof (rule bt_save_cases [OF saved])
      fix e assume "q = Inl e" "rows_view s1 = rows_view s"
      then show ?thesis by (simp add: outcome_ok_def last_event_def fin(3) rows_view_def)
    next
      fix m title w
      assume q: "q = Inr (Done m title)" and m: "m = answered_message bl (ext (bt_world s)) t content choices (now (bt_world s))" "\<not> tu_cancelled t"
        and save: "conv_save (answered_conv t) [asked_message t, m] (s\<lparr>bt_world := w\<rparr>) = (Inr (), s1)"
      have "rows_view (s\<lparr>bt_world := w\<rparr>) = rows_view s" by simp
      note same = rows_view_chats [OF this]
      from saved_ok [OF _ _ m(2) save [unfolded m(1)]] same ok link have done_: "chats_ok s1"
        "bt_messages s1 = bt_messages s @ [(turn_id t, asked_message t), (turn_id t, m)]"
        "\<exists>c \<in> set (bt_conversations s1). cv_id c = turn_id t \<and> cv_projects c = cv_projects (answered_conv t)"
        "filter (\<lambda>c. cv_id c \<noteq> turn_id t) (bt_conversations s1) = filter (\<lambda>c. cv_id c \<noteq> turn_id t) (bt_conversations s)"
        by (simp_all add: bora_ok_def m(1))
      have clash: "(turn_id t, length (cv_messages (tu_conv t))) \<notin> (\<lambda>(i, m). (i, bm_index m)) ` set (bt_messages s)"
        by (rule conv_save_cases [OF save]; simp)
      obtain k where k: "chat k (conv_messages (turn_id t) s)" "length (cv_messages (tu_conv t)) = 2 * k"
        using saves_after [OF _ link m(2) clash] ok by (auto simp: bora_ok_def)
      have grown: "conv_messages (turn_id t) s1 = conv_messages (turn_id t) s @ [asked_message t, m]"
        using chat_snoc [OF k(1), of "asked_message t" m s1] k(2) done_(2) by (simp add: m(1))
      have content: "bm_content m = truncate_runes (redact (snd (split_say content))) 4000" "bm_actions m = (if choices = None then br_actions (tu_bora t) else [])"
        by (simp_all add: m(1) answered_message_def bora_message_of_def answer_runes_def split: prod.split)
      have read: "set (br_read (tu_bora t)) \<subseteq> set (cv_projects (answered_conv t))" by (auto simp: answered_conv_def add_read_set)
      show ?thesis unfolding outcome_ok_def
        using m(2) done_(2,3,4) grown content read r truncate_count [of "redact (snd (split_say content))" 4000]
        by (auto simp: last_event_def q msgs) (simp_all add: fin(3), metis)
    qed
    then show thesis using that [of t' "last_event t q"] fin by (simp add: left_turn)
  qed
qed

end
