(* ===== verification/Bora_Private.thy ===== *)
theory Bora_Private
  imports Bora_Life
begin

text \<open>
  What a turn saves, what its streams send, and whose conversations a request reads or changes.
\<close>

section \<open>Saved or not\<close>


definition demo_turn :: "answering \<Rightarrow> bora_turn" where
  "demo_turn b = (new_turn demo_boss demo_conv ''why?'' [] [] [] b 0)\<lparr>tu_answer := Some (Inr (''because'', None))\<rparr>"

definition demo_service :: "answering \<Rightarrow> bora_service" where
  "demo_service b = (no_turns demo_team (\<lambda>_. False) (\<lambda>_ _. False) (\<lambda>_ _. []))\<lparr>bs_turns := [demo_turn b]\<rparr>"

lemma demo_service_turn: "turn_in (demo_service b) 5 = Some (demo_turn b)" "tu_answer (demo_turn b) = Some (Inr (''because'', None))"
  by (simp_all add: turn_in_def demo_service_def demo_turn_def new_turn_def turn_id_def demo_conv_def Let_def)

lemma demo_service_ok: "bora_ok (demo_service b)"
  using no_turns_ok [of demo_team "\<lambda>_. False" "\<lambda>_ _. False" "\<lambda>_ _. []"]
  by (simp add: bora_ok_def demo_service_def no_turns_def turns_ok_def chats_ok_def conv_messages_def linked_def live_turn_def names_conv_def
      demo_turn_def new_turn_def turn_id_def demo_conv_def turns_in_flight_def turns_per_user_def Let_def demo_boss_def)


section \<open>Streams\<close>

text \<open>A stream that reads a turn as it grows has sent, in order, all events of the last state it read; it ends when that state is over.\<close>

lemma follow_all:
  assumes "successively (\<lambda>a b. prefix (fst a) (fst b) \<and> \<not> snd a) reads" "reads \<noteq> []" "sent \<le> length (fst (hd reads))"
  shows "take sent (fst (hd reads)) @ follow reads sent = fst (List.last reads)"
  using assms
proof (induction reads arbitrary: sent)
  case (Cons r reads)
  obtain es over where r: "r = (es, over)" by (cases r)
  show ?case
  proof (cases reads)
    case Nil
    then show ?thesis by (simp add: r)
  next
    case (Cons r' rs)
    then have grows: "prefix es (fst r')" "\<not> over" using Cons.prems(1) by (simp_all add: r)
    have sent: "sent + length (drop sent es) = length es" using Cons.prems(3) by (simp add: r)
    have "length es \<le> length (fst r')" using grows(1) by (rule prefix_length_le)
    then have "take (length es) (fst r') @ follow reads (length es) = fst (List.last reads)"
      using Cons.IH [of "length es"] Cons.prems(1) Cons by simp
    moreover have "take (length es) (fst r') = es" using grows(1) by (auto elim: prefixE)
    ultimately have rest_of: "es @ follow reads (length es) = fst (List.last reads)" by simp
    have "follow (r # reads) sent = drop sent es @ follow reads (length es)" using grows(2) sent by (simp add: r)
    then have "take sent es @ follow (r # reads) sent = es @ follow reads (length es)" by (metis append_assoc append_take_drop_id)
    then show ?thesis using rest_of Cons by (simp add: r)
  qed
qed simp

section \<open>Whose conversations\<close>

text \<open>Conversations, their messages and the turns of everyone but \<open>u\<close>.\<close>

definition of_others :: "uuid \<Rightarrow> bora_service \<Rightarrow> conversation list \<times> (uuid \<times> bora_message) list \<times> bora_turn list" where
  "of_others u s = (filter (\<lambda>c. cv_user c \<noteq> u) (bt_conversations s),
     filter (\<lambda>(i, _). list_ex (\<lambda>c. cv_id c = i \<and> cv_user c \<noteq> u) (bt_conversations s)) (bt_messages s), filter (\<lambda>t. tu_user t \<noteq> u) (bs_turns s))"

fun by_user :: "turn_op \<Rightarrow> uuid option" where
  "by_user (StartBora u about question screen images) = Some (u_id u)"
| "by_user (AskBora u i question screen images) = Some (u_id u)"
| "by_user (StopBora u i) = Some (u_id u)"
| "by_user (DeleteBora u which) = Some (u_id u)"
| "by_user (AddBoraRan u i index line) = Some (u_id u)"
| "by_user (ListBora u query before limit) = Some (u_id u)"
| "by_user (GetBora u i) = Some (u_id u)"
| "by_user _ = None"

lemma same_others: "rows_view s' = rows_view s \<Longrightarrow> filter (\<lambda>t. tu_user t \<noteq> u) (bs_turns s') = filter (\<lambda>t. tu_user t \<noteq> u) (bs_turns s) \<Longrightarrow> of_others u s' = of_others u s"
  by (simp add: of_others_def rows_view_def)

lemma adds_others: "adds P s s' \<Longrightarrow> (\<And>t. P t \<Longrightarrow> tu_user t = u) \<Longrightarrow> of_others u s' = of_others u s"
  by (rule same_others) (auto simp: adds_def)

lemma map_others:
  assumes "\<And>t. t \<in> set ts \<Longrightarrow> f t = t \<or> tu_user t = u \<and> tu_user (f t) = u"
  shows "filter (\<lambda>t. tu_user t \<noteq> u) (map f ts) = filter (\<lambda>t. tu_user t \<noteq> u) ts"
  using assms
proof (induction ts)
  case (Cons t ts)
  have "filter (\<lambda>t. tu_user t \<noteq> u) (map f ts) = filter (\<lambda>t. tu_user t \<noteq> u) ts" using Cons by simp
  moreover have "f t = t \<or> tu_user t = u \<and> tu_user (f t) = u" using Cons.prems by simp
  ultimately show ?case by (elim disjE) simp_all
qed simp

lemma stop_others:
  assumes "bora_ok s"
  shows "of_others (u_id u) (stop_bora u i s) = of_others (u_id u) s"
proof (cases "user_turn u i s")
  case None
  then show ?thesis by (simp add: stop_bora_def)
next
  case (Some t)
  then have t: "t \<in> set (bs_turns s)" "turn_id t = i" "tu_user t = u_id u"
    by (auto simp: user_turn_def split: option.split_asm if_split_asm dest: turn_in_ok)
  have "x = t" if "x \<in> set (bs_turns s)" "turn_id x = i" for x
    using assms that t by (auto simp: bora_ok_def turns_ok_def distinct_map inj_on_def)
  then have "filter (\<lambda>t. tu_user t \<noteq> u_id u) (set_turn i cancel_turn (bs_turns s)) = filter (\<lambda>t. tu_user t \<noteq> u_id u) (bs_turns s)"
    unfolding set_turn_def by (intro map_others) (use t(3) in \<open>auto simp: cancel_turn_def split: if_split_asm\<close>)
  then show ?thesis using Some by (intro same_others) (simp_all add: stop_bora_def)
qed

lemma delete_others:
  assumes ok: "bora_ok s"
  shows "of_others (u_id u) (snd (delete_bora u which s)) = of_others (u_id u) s"
proof -
  obtain r s' where run: "delete_bora u which s = (r, s')" by fastforce
  obtain q s1 where del: "conv_delete (u_id u) (is_admin u) which s = (q, s1)" "rows_view s' = rows_view s1"
    "bs_turns s' = map (\<lambda>t. if tu_user t = u_id u \<and> (which = None \<or> which = Some (turn_id t)) then cancel_turn t else t) (bs_turns s)"
    by (rule delete_run [OF run]) (rule that)
  have turns: "filter (\<lambda>t. tu_user t \<noteq> u_id u) (bs_turns s') = filter (\<lambda>t. tu_user t \<noteq> u_id u) (bs_turns s)"
    unfolding del(3) by (rule map_others) (auto simp: cancel_turn_def)
  have ids: "distinct (map cv_id (bt_conversations s))" using ok by (simp add: bora_ok_def chats_ok_def)
  have "of_others (u_id u) s' = of_others (u_id u) s"
  proof (rule conv_delete_cases [OF del(1)])
    assume "rows_view s1 = rows_view s"
    then show ?thesis using del(2) turns by (intro same_others) simp_all
  next
    fix gone images
    assume gone: "bt_conversations s1 = filter (\<lambda>c. cv_id c \<notin> gone) (bt_conversations s)" "bt_messages s1 = filter (\<lambda>(j, _). j \<notin> gone) (bt_messages s)"
      "\<forall>i \<in> gone. (\<exists>c \<in> set (bt_conversations s). cv_id c = i \<and> cv_user c = u_id u) \<and> (which = None \<or> which = Some i)"
    have safe: "cv_id c \<notin> gone" if "c \<in> set (bt_conversations s)" "cv_user c \<noteq> u_id u" for c
      using gone(3) that ids by (auto simp: distinct_map inj_on_def)
    have "filter (\<lambda>c. cv_user c \<noteq> u_id u) (bt_conversations s1) = filter (\<lambda>c. cv_user c \<noteq> u_id u) (bt_conversations s)"
      unfolding gone(1) filter_filter by (rule filter_cong) (use safe in auto)
    moreover have owned: "list_ex (\<lambda>c. cv_id c = i \<and> cv_user c \<noteq> u_id u) (bt_conversations s1) = list_ex (\<lambda>c. cv_id c = i \<and> cv_user c \<noteq> u_id u) (bt_conversations s)" for i
      using safe by (auto simp: gone(1) list_ex_iff)
    have "filter (\<lambda>(i, _). list_ex (\<lambda>c. cv_id c = i \<and> cv_user c \<noteq> u_id u) (bt_conversations s1)) (bt_messages s1) =
        filter (\<lambda>(i, _). list_ex (\<lambda>c. cv_id c = i \<and> cv_user c \<noteq> u_id u) (bt_conversations s)) (bt_messages s)"
      unfolding owned gone(2) filter_filter by (rule filter_cong) (use safe in \<open>auto simp: list_ex_iff\<close>)
    ultimately show ?thesis using turns del(2) by (simp add: of_others_def rows_view_def)
  qed
  then show ?thesis by (simp add: run)
qed

lemma ran_others:
  assumes ok: "bora_ok s"
  shows "of_others (u_id u) (snd (add_bora_ran u i n line s)) = of_others (u_id u) s"
proof -
  obtain r s' where run: "add_bora_ran u i n line s = (r, s')" by fastforce
  have turns: "bs_turns s' = bs_turns s" using keepsD [OF requests_keep(1) run] by (simp add: turns_view_def)
  have ids: "distinct (map cv_id (bt_conversations s))" using ok by (simp add: bora_ok_def chats_ok_def)
  have "of_others (u_id u) s' = of_others (u_id u) s"
  proof (rule add_ran_run [OF run])
    assume "rows_view s' = rows_view s"
    then show ?thesis using turns by (intro same_others) simp_all
  next
    fix j
    assume new: "bt_conversations s' = bt_conversations s" "\<exists>c \<in> set (bt_conversations s). cv_id c = i \<and> cv_user c = u_id u"
      "bt_messages s' = map (\<lambda>(k, m). if ran_room i j (k, m) then (k, m\<lparr>bm_ran := bm_ran m @ [trim_space line]\<rparr>) else (k, m)) (bt_messages s)"
    have mine: "\<not> list_ex (\<lambda>c. cv_id c = i \<and> cv_user c \<noteq> u_id u) (bt_conversations s)"
      using new(2) ids by (auto simp: list_ex_iff distinct_map inj_on_def)
    have "filter (\<lambda>(k, _). P k) (map (\<lambda>(k, m). if ran_room i j (k, m) then (k, g m) else (k, m)) ms) = filter (\<lambda>(k, _). P k) ms" if "\<not> P i"
      for P and g and ms :: "(uuid \<times> bora_message) list"
      using that
    proof (induction ms)
      case (Cons y ms)
      obtain k m where "y = (k, m)" by (cases y)
      then show ?case using Cons by (cases "k = i") (simp_all add: ran_room_def)
    qed simp
    from this [of "\<lambda>i. list_ex (\<lambda>c. cv_id c = i \<and> cv_user c \<noteq> u_id u) (bt_conversations s)", OF mine] show ?thesis
      using turns by (simp add: of_others_def new(1,3))
  qed
  then show ?thesis by (simp add: run)
qed

lemma step_others:
  assumes "bora_ok s" "by_user x = Some u"
  shows "of_others u (turn_step bl x s) = of_others u s"
proof (cases x)
  case (StartBora v about q screen images)
  then have u: "u = u_id v" using assms(2) by simp
  show ?thesis unfolding StartBora turn_step.simps by (rule adds_others [OF start_adds]) (auto simp: u starts_in_def)
next
  case (AskBora v i q screen images)
  then have u: "u = u_id v" using assms(2) by simp
  show ?thesis unfolding AskBora turn_step.simps by (rule adds_others [OF again_adds]) (auto simp: u goes_on_in_def starts_in_def)
next
  case (ListBora v q before limit)
  have "rows_view (turn_step bl x s) = rows_view s" "turns_view (turn_step bl x s) = turns_view s"
    using requests_keep(2,4) [of bl v q before limit] by (simp_all add: ListBora keeps_def)
  then show ?thesis by (intro same_others) (simp_all add: turns_view_def)
next
  case (GetBora v i)
  have "rows_view (turn_step bl x s) = rows_view s" "turns_view (turn_step bl x s) = turns_view s"
    using requests_keep(3,5) [of v i] by (simp_all add: GetBora keeps_def)
  then show ?thesis by (intro same_others) (simp_all add: turns_view_def)
qed (use assms stop_others delete_others ran_others in auto)

text \<open>What a request shows.\<close>

lemma page_subset: "set (conv_page before n cs) \<subseteq> set cs"
  by (auto simp: conv_page_def dest: in_set_takeD)

lemma conv_list_own:
  assumes "conv_list u admin q before n s = (Inr cs, s')" "c \<in> set cs"
  shows "cv_user c = u"
proof -
  have found: "cv_user c' = u" if "c' \<in> set (List.map_filter (conv_search ws s0) (filter (visible_conversation s0 u admin) xs))" for c' ws s0 xs
    using that by (auto simp: map_filter_def conv_search_def visible_conversation_def split: list.split_asm)
  show ?thesis
  proof (cases "q = []")
    case True
    then obtain fs where "cs = conv_page before n (filter (visible_conversation (s\<lparr>bt_world := (bt_world s)\<lparr>faults := fs\<rparr>\<rparr>) u admin) (conversations s))"
      using assms(1) by (auto simp: conv_list_def run_simps dest!: bora_call_ok)
    then show ?thesis using assms(2) page_subset by (fastforce simp: visible_conversation_def)
  next
    case False
    show ?thesis
    proof (cases "words_of (bt_letter s) [] (runes q) = []")
      case True
      then show ?thesis using assms False by (simp add: conv_list_def io_bind_def io_get_def ret_def)
    next
      case ws: False
      then obtain fs ws where "cs = conv_page before n (List.map_filter (conv_search ws (s\<lparr>bt_world := (bt_world s)\<lparr>faults := fs\<rparr>\<rparr>))
          (filter (visible_conversation (s\<lparr>bt_world := (bt_world s)\<lparr>faults := fs\<rparr>\<rparr>) u admin) (conversations s)))"
        using assms(1) False by (auto simp: conv_list_def run_simps bind_ok_iff dest!: bora_call_ok)
      then show ?thesis using assms(2) page_subset found by blast
    qed
  qed
qed

lemma list_own:
  assumes "bora_conversations bl u q before limit s = (Inr (cs, next), s')"
  shows "list_all (\<lambda>c. cv_user c = u_id u) cs"
proof -
  obtain cursor xs s1 s2 where "conv_list (u_id u) (is_admin u) q cursor (nat limit + 1) s = (Inr xs, s1)" "cs = map (answering_of u s2) (take (nat limit) xs)"
    using assms by (auto simp: bora_conversations_def Let_def run_ok split: if_split_asm)
  then show ?thesis using conv_list_own [of "u_id u" "is_admin u" q cursor "nat limit + 1" s xs s1]
    by (auto simp: list_all_iff answering_of_def dest!: in_set_takeD split: option.split)
qed

lemma get_own:
  assumes ok: "bora_ok s" and got: "bora_conversation u i s = (Inr c, s')"
  shows "cv_user c = u_id u"
proof -
  obtain r s1 where read: "conv_get (u_id u) (is_admin u) i s = (r, s1)" by fastforce
  show ?thesis
  proof (cases r)
    case (Inr c0)
    have "cv_user c0 = u_id u" by (rule conv_get_ok [OF read [unfolded Inr]]) simp
    then show ?thesis using got read Inr
      by (auto simp: bora_conversation_def io_bind_def io_get_def io_try_def io_wrap_def io_lift_def Let_def split: option.split_asm)
  next
    case (Inl e)
    from got read Inl obtain t where t: "user_turn u i s = Some t" "c = (tu_conv t)\<lparr>cv_answering := Some (tu_pending t)\<rparr>"
      by (auto simp: bora_conversation_def io_bind_def io_get_def io_try_def io_wrap_def io_lift_def Let_def split: option.split_asm if_split_asm)
    then have "t \<in> set (bs_turns s)" "tu_user t = u_id u" by (auto simp: user_turn_def split: option.split_asm if_split_asm dest: turn_in_ok)
    then show ?thesis using ok t(2) by (auto simp: bora_ok_def list_all_iff linked_def)
  qed
qed

text \<open>
  A user's requests show and change only their own conversations: asking, reading, listing, searching, recording, stopping and deleting leave every
  other user's conversations, messages and running turns as they are, whatever id is named, and what is read, listed, searched or followed is the
  user's own, an administrator's requests included.
\<close>

lemma conversations_private:
  assumes "bora_ok s" "by_user x = Some (u_id u)"
  shows "of_others (u_id u) (turn_step bl x s) = of_others (u_id u) s \<and>
    (case fst (bora_conversation u i s) of Inl e \<Rightarrow> True | Inr c \<Rightarrow> cv_user c = u_id u) \<and>
    (case fst (bora_conversations bl u q before limit s) of Inl e \<Rightarrow> True | Inr (cs, next) \<Rightarrow> list_all (\<lambda>c. cv_user c = u_id u) cs) \<and>
    (case follow_bora u i s of None \<Rightarrow> True | Some (es, over) \<Rightarrow> list_ex (\<lambda>t. tu_user t = u_id u \<and> turn_id t = i \<and> tu_events t = es) (bs_turns s))"
proof (intro conjI)
  show "of_others (u_id u) (turn_step bl x s) = of_others (u_id u) s" using step_others [OF assms] .
  show "case fst (bora_conversation u i s) of Inl e \<Rightarrow> True | Inr c \<Rightarrow> cv_user c = u_id u"
    using get_own [OF assms(1), of u i] by (cases "bora_conversation u i s") (auto split: sum.split)
  show "case fst (bora_conversations bl u q before limit s) of Inl e \<Rightarrow> True | Inr (cs, next) \<Rightarrow> list_all (\<lambda>c. cv_user c = u_id u) cs"
    using list_own [of bl u q before limit s] by (cases "bora_conversations bl u q before limit s") (auto split: sum.split)
  show "case follow_bora u i s of None \<Rightarrow> True | Some (es, over) \<Rightarrow> list_ex (\<lambda>t. tu_user t = u_id u \<and> turn_id t = i \<and> tu_events t = es) (bs_turns s)"
    using turn_in_ok [of s i] by (auto simp: follow_bora_def user_turn_def list_ex_iff split: option.split)
qed

end
