(* ===== verification/Bora_Requests.thy ===== *)
theory Bora_Requests
  imports Bora_Private Routes
begin

text \<open>
  The handlers of Bora's conversations (internal/transport/http/handlers.go): what each reads of a request,
  the operation on turns and conversations it calls, and its answer; each behind a session's login, as the table of
  routes has it. The answer to a question is the stream of the turn, by its conversation's id.
\<close>

section \<open>Requests\<close>

record start_request =
  zq_about :: bora_about
  zq_question :: string
  zq_screen :: string
  zq_images :: "uuid list"

record search_request =
  zq_query :: string
  zq_before :: string
  zq_limit :: int

definition about_fields :: "http_lib \<Rightarrow> bora_about field list" where
  "about_fields lib = [field ''kind'' ab_kind ab_kind_update d_str, field ''project'' ab_project ab_project_update d_str,
     field ''task'' ab_task ab_task_update d_str, field ''id'' ab_id ab_id_update (d_text (h_uuid lib)), field ''at'' ab_at ab_at_update d_str,
     field ''line'' ab_line ab_line_update d_str]"

definition ask_fields :: "http_lib \<Rightarrow> start_request field list" where
  "ask_fields lib = [field ''question'' zq_question zq_question_update d_str, field ''screen'' zq_screen zq_screen_update d_str,
     field ''images'' zq_images zq_images_update (d_elems 0 (d_text (h_uuid lib)))]"

definition start_fields :: "http_lib \<Rightarrow> start_request field list" where
  "start_fields lib = field ''about'' zq_about zq_about_update (d_struct (about_fields lib)) # ask_fields lib"

definition zero_start :: start_request where
  "zero_start = \<lparr>zq_about = no_about, zq_question = [], zq_screen = [], zq_images = []\<rparr>"

definition search_fields :: "search_request field list" where
  "search_fields = [field ''query'' zq_query zq_query_update d_str, field ''before'' zq_before zq_before_update d_str,
     field ''limit'' zq_limit zq_limit_update d_int]"

definition ran_fields :: "string field list" where
  "ran_fields = [field ''line'' id id d_str]"

section \<open>Answers\<close>

record conversation_item =
  vi_id :: uuid
  vi_title :: string
  vi_about :: bora_about
  vi_updated :: time
  vi_answering :: bool
  vi_snippet :: string

definition conversation_item_from_core :: "conversation \<Rightarrow> conversation_item" where
  "conversation_item_from_core c = \<lparr>vi_id = cv_id c, vi_title = cv_title c, vi_about = cv_about c, vi_updated = cv_updated c,
     vi_answering = (cv_answering c \<noteq> None), vi_snippet = cv_snippet c\<rparr>"

record conversation_dto =
  vd_id :: uuid
  vd_title :: string
  vd_about :: bora_about
  vd_created :: time
  vd_updated :: time
  vd_answering :: "bora_pending option"
  vd_messages :: "bora_message list"

definition conversation_dto_of :: "conversation \<Rightarrow> conversation_dto" where
  "conversation_dto_of c = \<lparr>vd_id = cv_id c, vd_title = cv_title c, vd_about = cv_about c, vd_created = cv_created c, vd_updated = cv_updated c,
     vd_answering = cv_answering c, vd_messages = cv_messages c\<rparr>"

datatype conversation_answer = PlainAnswer response | ListAnswer "conversation_item list" string | ConversationAnswer conversation_dto | TurnAnswer uuid

text \<open>An event of a turn as its stream sends it.\<close>

datatype event_data = IdData uuid | DoneData bora_message string | NoData | ErrorData nat string string | TextData string

definition error_kind :: "nat \<Rightarrow> string" where
  "error_kind st = (if st = 400 then ''invalid-input'' else if st = 401 then ''unauthorized'' else if st = 403 then ''forbidden''
     else if st = 404 then ''not-found'' else if st = 409 then ''conflict'' else if st = 429 then ''rate-limited'' else ''server'')"

fun event_payload :: "bora_event \<Rightarrow> string \<times> event_data" where
  "event_payload (Began i) = (''conversation'', IdData i)"
| "event_payload (Turn (Step t)) = (''step'', TextData t)"
| "event_payload (Turn (Say t)) = (''say'', TextData t)"
| "event_payload (Turn (Delta t)) = (''delta'', TextData t)"
| "event_payload (Turn Reset) = (''reset'', NoData)"
| "event_payload (Done m title) = (''done'', DoneData m title)"
| "event_payload Stopped = (''stopped'', NoData)"
| "event_payload (Failed e) = (''error'', case error_status e of (st, m) \<Rightarrow> ErrorData st (error_kind st) m)"

section \<open>Handlers\<close>

type_synonym bora_handler = "turn_lib \<Rightarrow> call \<Rightarrow> (bora_service, conversation_answer) io"

definition http_of :: "turn_lib \<Rightarrow> http_lib" where
  "http_of bl = http_lib.truncate (bl_wiring bl)"

definition bora_body :: "turn_lib \<Rightarrow> 'r field list \<Rightarrow> 'r \<Rightarrow> call \<Rightarrow> ('r \<Rightarrow> (bora_service, conversation_answer) io) \<Rightarrow> (bora_service, conversation_answer) io" where
  "bora_body bl fs z c k = (case decode (http_of bl) fs z (cl_content c) of None \<Rightarrow> ret (PlainAnswer bad_request) | Some r \<Rightarrow> k r)"

definition bora_path_id :: "turn_lib \<Rightarrow> call \<Rightarrow> (uuid \<Rightarrow> (bora_service, conversation_answer) io) \<Rightarrow> (bora_service, conversation_answer) io" where
  "bora_path_id bl c k = (case h_uuid (http_of bl) (var ''id'' (cl_vars c)) of None \<Rightarrow> ret (PlainAnswer bad_request) | Some i \<Rightarrow> k i)"

text \<open>\<open>reply\<close>, \<open>noContent\<close> and \<open>streamTurn\<close>: an error before the stream is a plain answer.\<close>

definition bora_reply :: "('a \<Rightarrow> conversation_answer) \<Rightarrow> (bora_service, 'a) io \<Rightarrow> (bora_service, conversation_answer) io" where
  "bora_reply v m = io_bind (io_try m) (\<lambda>r. ret (case r of Inl e \<Rightarrow> PlainAnswer (write_service_error e) | Inr x \<Rightarrow> v x))"

definition bora_no_content :: "unit \<Rightarrow> conversation_answer" where
  "bora_no_content _ = PlainAnswer no_content"

definition h_start_conversation :: bora_handler where
  "h_start_conversation bl c = bora_body bl (start_fields (http_of bl)) zero_start c (\<lambda>r.
     bora_reply TurnAnswer (start_bora bl (cl_user c) (zq_about r) (zq_question r) (zq_screen r) (zq_images r)))"

definition h_ask_conversation :: bora_handler where
  "h_ask_conversation bl c = bora_path_id bl c (\<lambda>i. bora_body bl (ask_fields (http_of bl)) zero_start c (\<lambda>r.
     bora_reply TurnAnswer (ask_again bl (cl_user c) i (zq_question r) (zq_screen r) (zq_images r))))"

definition h_follow_conversation :: bora_handler where
  "h_follow_conversation bl c = bora_path_id bl c (\<lambda>i. io_get (\<lambda>s. if follow_bora (cl_user c) i s = None then PlainAnswer no_content else TurnAnswer i))"

definition h_stop_conversation :: bora_handler where
  "h_stop_conversation bl c = bora_path_id bl c (\<lambda>i. io_bind (io_mod (stop_bora (cl_user c) i)) (\<lambda>_. ret (PlainAnswer no_content)))"

definition h_conversations :: "turn_lib \<Rightarrow> call \<Rightarrow> string \<Rightarrow> string \<Rightarrow> int \<Rightarrow> (bora_service, conversation_answer) io" where
  "h_conversations bl c query before limit = bora_reply (\<lambda>(cs, next_page). ListAnswer (map conversation_item_from_core cs) next_page)
     (bora_conversations bl (cl_user c) query before limit)"

definition h_list_conversations :: bora_handler where
  "h_list_conversations bl c = (case parse_int64 (or_str (var ''limit'' (cl_query c)) ''50'') of None \<Rightarrow> ret (PlainAnswer bad_request)
     | Some n \<Rightarrow> h_conversations bl c [] (var ''before'' (cl_query c)) n)"

definition h_search_conversations :: bora_handler where
  "h_search_conversations bl c = bora_body bl search_fields \<lparr>zq_query = [], zq_before = [], zq_limit = 0\<rparr> c (\<lambda>r.
     h_conversations bl c (zq_query r) (zq_before r) (or_int (zq_limit r) 50))"

definition h_get_conversation :: bora_handler where
  "h_get_conversation bl c = bora_path_id bl c (\<lambda>i. bora_reply (\<lambda>v. ConversationAnswer (conversation_dto_of v)) (bora_conversation (cl_user c) i))"

definition h_add_ran :: bora_handler where
  "h_add_ran bl c = bora_path_id bl c (\<lambda>i. case parse_int64 (var ''index'' (cl_vars c)) of None \<Rightarrow> ret (PlainAnswer bad_request)
     | Some n \<Rightarrow> bora_body bl ran_fields [] c (\<lambda>line. bora_reply bora_no_content (add_bora_ran (cl_user c) i n line)))"

definition h_delete_conversation :: bora_handler where
  "h_delete_conversation bl c = bora_path_id bl c (\<lambda>i. bora_reply bora_no_content (delete_bora (cl_user c) (Some i)))"

definition h_delete_conversations :: bora_handler where
  "h_delete_conversations bl c = bora_reply bora_no_content (delete_bora (cl_user c) None)"

text \<open>The routes of conversations, by method and path as the table has them.\<close>

definition conversation_routes :: "(string \<times> string list \<times> bora_handler) list" where
  "conversation_routes = [(''POST'', [''bora'', ''conversations''], h_start_conversation),
     (''POST'', [''bora'', ''conversations'', ''{id}'', ''messages''], h_ask_conversation),
     (''GET'', [''bora'', ''conversations'', ''{id}'', ''stream''], h_follow_conversation),
     (''POST'', [''bora'', ''conversations'', ''{id}'', ''stop''], h_stop_conversation),
     (''GET'', [''bora'', ''conversations''], h_list_conversations),
     (''POST'', [''bora'', ''conversations'', ''search''], h_search_conversations),
     (''GET'', [''bora'', ''conversations'', ''{id}''], h_get_conversation),
     (''POST'', [''bora'', ''conversations'', ''{id}'', ''messages'', ''{index}'', ''ran''], h_add_ran),
     (''DELETE'', [''bora'', ''conversations'', ''{id}''], h_delete_conversation),
     (''DELETE'', [''bora'', ''conversations''], h_delete_conversations)]"

lemma conversation_routes_listed:
  "list_all (\<lambda>(m, p, h). list_ex (\<lambda>r. ep_method r = m \<and> ep_path r = p \<and> ep_access r = AccessSession \<and> (m = ''GET'' \<or> ep_quiet r)) (bora_routes others))
     conversation_routes"
  by (simp add: conversation_routes_def bora_routes_def route_at_def)

text \<open>\<open>authorize\<close> for a route of sessions: no publishing follows, as these routes are quiet or read.\<close>

definition with_session :: "bora_handler \<Rightarrow> bora_handler" where
  "with_session h bl c = io_bind (io_try (in_world (auth_authenticate (bearer_token (cl_auth c))))) (\<lambda>r. case r of
       Inl e \<Rightarrow> ret (PlainAnswer (write_service_error e))
     | Inr (u, kind) \<Rightarrow> if kind \<noteq> TokenKindSession then ret (PlainAnswer (write_service_error (err_sentinel ErrForbidden)))
         else h bl (c\<lparr>cl_user := u\<rparr>))"

section \<open>Requests are steps\<close>

text \<open>A handler leaves the service alone or makes one step of its own user, and shows nothing but that user's.\<close>

definition own_answer :: "uuid \<Rightarrow> conversation_answer \<Rightarrow> bora_service \<Rightarrow> bool" where
  "own_answer u a s \<longleftrightarrow> (case a of PlainAnswer r \<Rightarrow> True
     | ListAnswer items next_page \<Rightarrow> (\<exists>cs. items = map conversation_item_from_core cs \<and> list_all (\<lambda>c. cv_user c = u) cs)
     | ConversationAnswer d \<Rightarrow> (\<exists>c. d = conversation_dto_of c \<and> cv_user c = u)
     | TurnAnswer i \<Rightarrow> list_ex (\<lambda>t. turn_id t = i \<and> tu_user t = u) (bs_turns s))"

definition own_step :: "turn_lib \<Rightarrow> user \<Rightarrow> (bora_service, conversation_answer) io \<Rightarrow> bora_service \<Rightarrow> bool" where
  "own_step bl u m s \<longleftrightarrow> (\<exists>a s'. m s = (Inr a, s') \<and> own_answer (u_id u) a s' \<and>
     (s' = s \<or> (\<exists>x. s' = turn_step bl x s \<and> by_user x = Some (u_id u))))"

lemma own_plain: "own_step bl u (ret (PlainAnswer r)) s"
  by (simp add: own_step_def ret_def own_answer_def)

lemma own_body: "(\<And>r. own_step bl u (k r) s) \<Longrightarrow> own_step bl u (bora_body bl fs z c k) s"
  by (simp add: bora_body_def own_plain split: option.split)

lemma own_path_id: "(\<And>i. own_step bl u (k i) s) \<Longrightarrow> own_step bl u (bora_path_id bl c k) s"
  by (simp add: bora_path_id_def own_plain split: option.split)

lemma own_reply:
  assumes "snd (m s) = turn_step bl x s" "by_user x = Some (u_id u)" "\<And>y s'. m s = (Inr y, s') \<Longrightarrow> own_answer (u_id u) (v y) s'"
  shows "own_step bl u (bora_reply v m) s"
proof -
  obtain r s' where run: "m s = (r, s')" by fastforce
  then have "s' = turn_step bl x s" using assms(1) by simp
  then show ?thesis using assms(2,3) run
    by (cases r) (auto simp: own_step_def bora_reply_def io_bind_def io_try_def ret_def own_answer_def)
qed

lemma enter_ok: "enter_turn t s = (Inr (), s') \<Longrightarrow> t \<in> set (bs_turns s')"
  by (auto simp: enter_turn_def io_bind_def io_get_def io_mod_def fail_def Let_def split: if_split_asm)

lemma ask_bora_turn:
  assumes "ask_bora bl u conv raw screen images s = (Inr i, s')"
  shows "\<exists>t \<in> set (bs_turns s'). turn_id t = i \<and> tu_user t = u_id u"
proof -
  have enter: "wp (enter_turn t) (\<lambda>_. wp (ret (turn_id t)) (\<lambda>i s'. \<exists>t \<in> set (bs_turns s'). turn_id t = i \<and> tu_user t = u_id u) (\<lambda>_ _. True)) (\<lambda>_ _. True) s1"
    if "tu_user t = u_id u" for t s1
    using that enter_ok [of t s1] by (auto simp: wp_def ret_def split: prod.splits sum.splits)
  have "wp (ask_bora bl u conv raw screen images) (\<lambda>i s'. \<exists>t \<in> set (bs_turns s'). turn_id t = i \<and> tu_user t = u_id u) (\<lambda>_ _. True) s"
    unfolding ask_bora_def Let_def
    by (auto simp: wp_simps new_turn_def Let_def intro!: wp_in_world enter split: sum.split option.split prod.split)
  from wp_okD [OF assms this] show ?thesis .
qed

lemma start_bora_turn: "start_bora bl u about q screen images s = (Inr i, s') \<Longrightarrow> \<exists>t \<in> set (bs_turns s'). turn_id t = i \<and> tu_user t = u_id u"
  unfolding start_bora_def
  by (auto simp: fail_def io_bind_def split: if_split_asm prod.split_asm sum.split_asm dest: ask_bora_turn)

lemma ask_again_turn: "ask_again bl u j q screen images s = (Inr i, s') \<Longrightarrow> \<exists>t \<in> set (bs_turns s'). turn_id t = i \<and> tu_user t = u_id u"
  unfolding ask_again_def
  by (auto simp: fail_def io_bind_def io_get_def split: if_split_asm prod.split_asm sum.split_asm dest: ask_bora_turn)

lemma own_start: "own_step bl u (bora_reply TurnAnswer (start_bora bl u about q screen images)) s"
  by (rule own_reply [where x = "StartBora u about q screen images"]) (auto simp: own_answer_def list_ex_iff dest: start_bora_turn)

lemma own_again: "own_step bl u (bora_reply TurnAnswer (ask_again bl u i q screen images)) s"
  by (rule own_reply [where x = "AskBora u i q screen images"]) (auto simp: own_answer_def list_ex_iff dest: ask_again_turn)

lemma own_conversations: "own_step bl (cl_user c) (h_conversations bl c q before limit) s"
  unfolding h_conversations_def
proof (rule own_reply [where x = "ListBora (cl_user c) q before limit"], goal_cases)
  case (3 y s')
  obtain cs next_page where y: "y = (cs, next_page)" by fastforce
  show ?case using list_own [OF 3 [unfolded y]] by (auto simp: y own_answer_def)
qed simp_all

lemma own_get: "bora_ok s \<Longrightarrow> own_step bl u (bora_reply (\<lambda>v. ConversationAnswer (conversation_dto_of v)) (bora_conversation u i)) s"
  by (rule own_reply [where x = "GetBora u i"]) (auto simp: own_answer_def dest: get_own)

lemma own_delete: "own_step bl u (bora_reply bora_no_content (delete_bora u which)) s"
  by (rule own_reply [where x = "DeleteBora u which"]) (auto simp: own_answer_def bora_no_content_def)

lemma own_add_ran: "own_step bl u (bora_reply bora_no_content (add_bora_ran u i n line)) s"
  by (rule own_reply [where x = "AddBoraRan u i n line"]) (auto simp: own_answer_def bora_no_content_def)

lemma own_stop: "own_step bl u (io_bind (io_mod (stop_bora u i)) (\<lambda>_. ret (PlainAnswer no_content))) s"
  by (auto simp: own_step_def io_bind_def io_mod_def ret_def own_answer_def intro!: exI [of _ "StopBora u i"])

lemma own_follow: "own_step bl u (io_get (\<lambda>s. if follow_bora u i s = None then PlainAnswer no_content else TurnAnswer i)) s"
  using turn_in_ok [of s i]
  by (auto simp: own_step_def io_get_def own_answer_def follow_bora_def user_turn_def list_ex_iff split: option.splits if_split_asm)

lemmas own_rules = own_plain own_start own_again own_conversations own_get own_delete own_add_ran own_stop own_follow

lemma handler_own:
  assumes "bora_ok s" "(m, p, h) \<in> set conversation_routes"
  shows "own_step bl (cl_user c) (h bl c) s"
proof -
  note defs = h_start_conversation_def h_ask_conversation_def h_follow_conversation_def h_stop_conversation_def h_list_conversations_def
    h_search_conversations_def h_get_conversation_def h_add_ran_def h_delete_conversation_def h_delete_conversations_def
  have "h \<in> {h_start_conversation, h_ask_conversation, h_follow_conversation, h_stop_conversation, h_list_conversations,
    h_search_conversations, h_get_conversation, h_add_ran, h_delete_conversation, h_delete_conversations}"
    using assms(2) unfolding conversation_routes_def by auto
  then show ?thesis unfolding insert_iff empty_iff
    by (elim disjE FalseE) (auto simp: defs intro!: own_path_id own_body own_rules assms(1) split: option.split)
qed

section \<open>Any request\<close>

lemma world_others [simp]: "of_others u (s\<lparr>bt_world := w\<rparr>) = of_others u s" "turns_view (s\<lparr>bt_world := w\<rparr>) = turns_view s"
  "rows_view (s\<lparr>bt_world := w\<rparr>) = rows_view s"
  by (simp_all add: of_others_def turns_view_def rows_view_def)

text \<open>
  C36: A request on conversations, whatever its token, ids and body: it is answered, keeps the invariant of turns and conversations, and either is refused
  for want of a session's login and leaves every turn, conversation and message as it is, or acts for the user the token names alone: nothing of
  another user's conversations, messages and running turns changes, and what is listed, searched, read or streamed is that user's own.
\<close>

theorem conversation_requests:
  assumes "bora_ok s" "(m, p, h) \<in> set conversation_routes" "with_session h bl c s = (r, s')"
  shows "bora_ok s' \<and> (\<exists>a. r = Inr a \<and> (case fst (auth_authenticate (bearer_token (cl_auth c)) (bt_world s)) of
       Inr (u, TokenKindSession) \<Rightarrow> own_answer (u_id u) a s' \<and> of_others (u_id u) s' = of_others (u_id u) s
     | Inr (u, k) \<Rightarrow> a = PlainAnswer (write_service_error (err_sentinel ErrForbidden)) \<and> turns_view s' = turns_view s \<and> rows_view s' = rows_view s
     | Inl e \<Rightarrow> a = PlainAnswer (write_service_error e) \<and> turns_view s' = turns_view s \<and> rows_view s' = rows_view s))"
proof -
  obtain r0 w where auth: "auth_authenticate (bearer_token (cl_auth c)) (bt_world s) = (r0, w)" by fastforce
  have ok: "bora_ok (s\<lparr>bt_world := w\<rparr>)" using step_ok [OF assms(1), of bl "Elsewhere w"] by simp
  show ?thesis
  proof (cases "\<exists>u. r0 = Inr (u, TokenKindSession)")
    case True
    then obtain u where u: "r0 = Inr (u, TokenKindSession)" by blast
    obtain a s1 where run: "h bl (c\<lparr>cl_user := u\<rparr>) (s\<lparr>bt_world := w\<rparr>) = (Inr a, s1)" "own_answer (u_id u) a s1"
      "s1 = s\<lparr>bt_world := w\<rparr> \<or> (\<exists>x. s1 = turn_step bl x (s\<lparr>bt_world := w\<rparr>) \<and> by_user x = Some (u_id u))"
      using handler_own [OF ok assms(2), of bl "c\<lparr>cl_user := u\<rparr>"] by (auto simp: own_step_def)
    have "with_session h bl c s = (Inr a, s1)"
      using run(1) by (simp add: with_session_def io_bind_def io_try_def in_world_def auth u)
    then have "r = Inr a" "s' = s1" using assms(3) by simp_all
    moreover have "bora_ok s1" "of_others (u_id u) s1 = of_others (u_id u) s" using run(3) ok step_ok [OF ok] step_others [OF ok] by auto
    ultimately show ?thesis using run(2) by (simp add: auth u)
  next
    case False
    then have "\<exists>a. with_session h bl c s = (Inr a, s\<lparr>bt_world := w\<rparr>) \<and> (case r0 of Inl e \<Rightarrow> a = PlainAnswer (write_service_error e)
       | Inr (u, k) \<Rightarrow> k \<noteq> TokenKindSession \<and> a = PlainAnswer (write_service_error (err_sentinel ErrForbidden)))"
      by (auto simp: with_session_def io_bind_def io_try_def in_world_def auth ret_def split: sum.split)
    then show ?thesis using assms(3) ok by (auto simp: auth split: sum.split token_kind.split)
  qed
qed

definition demo_sent :: call where
  "demo_sent = \<lparr>cl_query = [], cl_auth = ''Bearer tok'', cl_content = [], cl_vars = [], cl_user = zero_user, cl_access = zero_access\<rparr>"

definition demo_visitor :: world where
  "demo_visitor = demo_team\<lparr>tokens := [demo_session]\<rparr>"

lemma demo_visitor_auth: "fst (auth_authenticate (bearer_token (cl_auth demo_sent)) demo_visitor) = Inr (demo_user, TokenKindSession)"
  by code_simp

theorem conversation_requests_witness:
  "\<forall>b. \<exists>a s'. with_session h_delete_conversations demo_lib demo_sent ((demo_service b)\<lparr>bt_world := demo_visitor\<rparr>) = (Inr a, s') \<and>
     of_others 7 s' = of_others 7 (demo_service b)"
proof
  fix b
  let ?s = "(demo_service b)\<lparr>bt_world := demo_visitor\<rparr>"
  obtain r s' where run: "with_session h_delete_conversations demo_lib demo_sent ?s = (r, s')" by fastforce
  have ok: "bora_ok ?s" using step_ok [OF demo_service_ok, of demo_lib "Elsewhere demo_visitor"] by simp
  have "(''DELETE'', [''bora'', ''conversations''], h_delete_conversations) \<in> set conversation_routes" by (simp add: conversation_routes_def)
  from conversation_requests [OF ok this run] run
  show "\<exists>a s'. with_session h_delete_conversations demo_lib demo_sent ?s = (Inr a, s') \<and> of_others 7 s' = of_others 7 (demo_service b)"
    by (auto simp: demo_visitor_auth demo_user_def)
qed

end
