(* ===== verification/Sourcebot.thy ===== *)
theory Sourcebot
  imports Bora_Tools Streams
begin

text \<open>
  The Sourcebot client, internal/infra/sourcebot/client.go: the code index Bora's tools read. A project's
  code is the search context named after it, and every call but Ask is confined to the repositories of that
  context. Sourcebot's server is an argument: what it answers may depend on every request it has had, and it
  says how long it took. Requests to it, the answers remembered and the shared chat are the state.
\<close>

section \<open>State\<close>

record sb_request =
  sr_method :: string
  sr_endpoint :: string
  sr_query :: strmap
  sr_body :: "json option"
  sr_key :: string

text \<open>
  What comes of a request: an error of the transport, or a status with its line, the header X-Total-Count and
  a body, which may break off with an error.
\<close>

record sb_answer =
  sa_error :: "goerr option"
  sa_status :: nat
  sa_line :: string
  sa_total :: string
  sa_body :: string
  sa_broken :: "goerr option"
  sa_took :: nat

text \<open>
  \<open>sl_json\<close> and \<open>sl_first\<close> are the syntax of JSON, of a whole text and of its first value, and \<open>sl_why\<close> the words of
  a decoder that fails; \<open>sl_lower\<close> is \<open>strings.ToLower\<close> beyond ASCII, \<open>sl_refused\<close> the error of
  \<open>http.NewRequest\<close> for an address, \<open>sl_rand\<close> what \<open>rand.Text\<close> gives after so many requests.
\<close>

record sb_lib =
  sl_json :: "string \<Rightarrow> json option"
  sl_first :: "string \<Rightarrow> json option"
  sl_why :: "string \<Rightarrow> string"
  sl_lower :: "string \<Rightarrow> string"
  sl_refused :: "string \<Rightarrow> goerr option"
  sl_rand :: "nat \<Rightarrow> string"
  sl_server :: "sb_request list \<Rightarrow> sb_request \<Rightarrow> sb_answer"

record ask_chat =
  ac_id :: string
  ac_model :: json

definition no_chat :: ask_chat where
  "no_chat = \<lparr>ac_id = [], ac_model = JNull\<rparr>"

record sourcebot =
  sb_url :: string
  sb_key :: string
  sb_seen :: "string \<rightharpoonup> bool \<times> time"
  sb_chat :: ask_chat
  sb_sent :: "sb_request list"
  sb_now :: time

definition new_sourcebot :: "string \<Rightarrow> string \<Rightarrow> time \<Rightarrow> sourcebot" where
  "new_sourcebot base key t = \<lparr>sb_url = trim_suffix base ''/'', sb_key = key, sb_seen = Map.empty, sb_chat = no_chat, sb_sent = [], sb_now = t\<rparr>"

type_synonym 'a sb = "(sourcebot, 'a) io"

definition response_limit :: nat where "response_limit = 8 * 1024 * 1024"
definition search_matches :: int where "search_matches = 200"
definition search_files_max :: nat where "search_files_max = 25"
definition file_chunks :: nat where "file_chunks = 2"
definition commits_page :: int where "commits_page = 30"
definition context_ttl :: int where "context_ttl = 5 * minute"

definition answer_marker :: string where "answer_marker = ''<!--answer-->''"

section \<open>Paths and refs\<close>

definition blocked_names :: "string list" where
  "blocked_names = [''*.config'', ''appsettings*.json'', ''.env*'', ''*.pem'', ''*.key'', ''*.pfx'', ''*.p12'', ''*.jks'', ''*.keystore'',
     ''*secret*'', ''id_rsa*'', ''.git-credentials'', ''.npmrc'', ''*.tfvars*'', ''*.pubxml*'', ''*.publishsettings'', ''.vs'',
     ''*.env'', ''*.tfstate*'', ''credentials'', ''credentials.json'', ''credentials.y*ml*'', ''.netrc'', ''.pgpass'', ''kubeconfig*'',
     ''*.ppk'', ''.dockerconfigjson'', ''.aws'', ''.ssh'', ''.docker'']"

text \<open>\<open>path.Match\<close> for patterns of stars and plain characters, which all of these are.\<close>

fun glob :: "string \<Rightarrow> string \<Rightarrow> bool" where
  "glob [] s \<longleftrightarrow> s = []"
| "glob (p # ps) [] \<longleftrightarrow> p = CHR ''*'' \<and> glob ps []"
| "glob (p # ps) (c # s) \<longleftrightarrow> (if p = CHR ''*'' then glob ps (c # s) \<or> c \<noteq> slash \<and> glob (p # ps) s else p = c \<and> glob ps s)"

definition lower_case :: "sb_lib \<Rightarrow> string \<Rightarrow> string" where
  "lower_case lib s = (if list_all is_ascii s then map ascii_lower s else sl_lower lib s)"

definition blocked :: "string \<Rightarrow> bool" where
  "blocked segment \<longleftrightarrow> list_ex (\<lambda>p. glob p segment) blocked_names"

definition allowed_path :: "sb_lib \<Rightarrow> string \<Rightarrow> string option" where
  "allowed_path lib file = (if file = [] \<or> contains_any file [CHR 0x5C, CHR 0x00] then None
     else let cleaned = path_clean (trim_prefix file ''/'') in
       if cleaned = ''.'' \<or> cleaned = ''..'' \<or> prefix ''../'' cleaned then None
       else if list_ex blocked (split_at slash (lower_case lib cleaned)) then None
       else Some cleaned)"

text \<open>\<open>gitRef\<close>: a character of a word, then at most 199 of words, dots, slashes, carets, tildes, at signs, braces and hyphens.\<close>

definition ref_char :: "char \<Rightarrow> bool" where
  "ref_char c \<longleftrightarrow> is_word c \<or> c \<in> set ''./^~}-'' \<or> c = CHR 0x40 \<or> c = CHR 0x7B"

definition git_ref :: "string \<Rightarrow> bool" where
  "git_ref s \<longleftrightarrow> (case s of [] \<Rightarrow> False | c # cs \<Rightarrow> is_word c \<and> length cs \<le> 199 \<and> list_all ref_char cs)"

text \<open>\<open>regexp.QuoteMeta\<close>.\<close>

definition meta_char :: "char \<Rightarrow> bool" where
  "meta_char c \<longleftrightarrow> c = CHR 0x5C \<or> c \<in> set ''.+*?()|[]{}^$''"

definition quote_meta :: "string \<Rightarrow> string" where
  "quote_meta s = concat (map (\<lambda>c. if meta_char c then [CHR 0x5C, c] else [c]) s)"

section \<open>Requests\<close>

text \<open>\<open>url.QueryEscape\<close> and \<open>url.Values.Encode\<close> of a query in the order of its keys.\<close>

definition upper_hex :: "nat \<Rightarrow> char" where
  "upper_hex n = (if n < 10 then char_of (48 + n) else char_of (55 + n))"

definition query_char :: "char \<Rightarrow> string" where
  "query_char c = (if is_alnum c \<or> c \<in> set ''-_.~'' then [c] else if c = CHR '' '' then ''+''
     else [CHR ''%'', upper_hex (c_nat c div 16), upper_hex (c_nat c mod 16)])"

definition query_escape :: "string \<Rightarrow> string" where
  "query_escape s = concat (map query_char s)"

definition encode_query :: "strmap \<Rightarrow> string" where
  "encode_query q = join_with ''&'' (map (\<lambda>(k, v). query_escape k @ ''='' @ query_escape v) (sort_key fst q))"

text \<open>
  \<open>send\<close>: the answer of a request that Sourcebot took. \<open>sr_query\<close> is empty where the code passes none. What a sb_refusal says is
  decoded as far as it can be: a field of another type leaves the others.
\<close>

record sb_failure =
  sf_code :: string
  sf_message :: string

definition failure_fields :: "sb_failure field list" where
  "failure_fields = [field ''ErrorCode'' sf_code sf_code_update d_str, field ''Message'' sf_message sf_message_update d_str]"

definition decode_lax :: "'r field list \<Rightarrow> 'r \<Rightarrow> json \<Rightarrow> 'r" where
  "decode_lax fs r j = (case j of JObj kvs \<Rightarrow> fold (\<lambda>(k, j) r. case field_named k fs of None \<Rightarrow> r
     | Some f \<Rightarrow> (case snd f r j of None \<Rightarrow> r | Some r' \<Rightarrow> r')) kvs r | _ \<Rightarrow> r)"

definition failure_of :: "sb_lib \<Rightarrow> string \<Rightarrow> sb_failure" where
  "failure_of lib body = (let z = \<lparr>sf_code = [], sf_message = []\<rparr> in
     case sl_first lib (take (64 * 1024) body) of None \<Rightarrow> z | Some j \<Rightarrow> decode_lax failure_fields z j)"

definition sb_refusal :: "sb_lib \<Rightarrow> string \<Rightarrow> sb_answer \<Rightarrow> goerr" where
  "sb_refusal lib endpoint a = (let f = failure_of lib (sa_body a) in
     if sa_status a = 404 \<and> sf_code f \<noteq> [] then GoErr [ErrNotFound] (sentinel_text ErrNotFound @ '': '' @ sf_message f)
     else err_new (''sourcebot '' @ endpoint @ '': '' @ trim_space (sa_line a @ '' '' @ sf_code f @ '' '' @ sf_message f)))"

definition post_to :: "sb_lib \<Rightarrow> sb_request \<Rightarrow> sb_answer sb" where
  "post_to lib rq s = (let a = sl_server lib (sb_sent s) rq in (Inr a, s\<lparr>sb_sent := sb_sent s @ [rq], sb_now := sb_now s + int (sa_took a)\<rparr>))"

definition sb_send :: "sb_lib \<Rightarrow> string \<Rightarrow> string \<Rightarrow> strmap \<Rightarrow> json option \<Rightarrow> sb_answer sb" where
  "sb_send lib meth endpoint query body = io_bind (io_get (\<lambda>s. (sb_url s, sb_key s))) (\<lambda>(base, key).
     let target = base @ endpoint @ (if query = [] then [] else ''?'' @ encode_query query) in
     case sl_refused lib target of Some e \<Rightarrow> fail (err_wrap ''build sourcebot request'' e)
     | None \<Rightarrow> io_bind (post_to lib \<lparr>sr_method = meth, sr_endpoint = endpoint, sr_query = query, sr_body = body, sr_key = key\<rparr>) (\<lambda>a.
         case sa_error a of Some e \<Rightarrow> fail (err_wrap (''call sourcebot '' @ endpoint) e)
         | None \<Rightarrow> if 300 \<le> sa_status a then fail (sb_refusal lib endpoint a) else ret a))"

text \<open>\<open>call\<close>: a request whose answer is decoded, with the header the code reads.\<close>

definition sb_call :: "sb_lib \<Rightarrow> string \<Rightarrow> string \<Rightarrow> strmap \<Rightarrow> json option \<Rightarrow> (json \<Rightarrow> 'r option) \<Rightarrow> ('r \<times> string) sb" where
  "sb_call lib meth endpoint query body dec = io_bind (sb_send lib meth endpoint query body) (\<lambda>a.
     let text = take response_limit (sa_body a) in
     case Option.bind (sl_first lib text) dec of Some r \<Rightarrow> ret (r, sa_total a)
     | None \<Rightarrow> fail (err_new (''decode sourcebot '' @ endpoint @ '', at most 8 MiB: '' @ sl_why lib text)))"

text \<open>A body of \<open>json.Marshal\<close>: the keys in order.\<close>

definition search_body :: "string \<Rightarrow> int \<Rightarrow> (string \<times> json) list \<Rightarrow> json" where
  "search_body query n extra = JObj (extra @ [(''matches'', JInt n), (''query'', JStr query)])"

section \<open>Confinement\<close>

definition any_json :: "json dec" where
  "any_json old j = Some j"

definition files_of :: "json \<Rightarrow> json list option" where
  "files_of = decode_known [field ''files'' id id (d_elems JNull any_json)] []"

definition remember :: "string \<Rightarrow> bool \<Rightarrow> unit sb" where
  "remember key yes = io_mod (\<lambda>s. s\<lparr>sb_seen := (sb_seen s)(key \<mapsto> (yes, sb_now s))\<rparr>)"

definition sb_matches :: "sb_lib \<Rightarrow> string \<Rightarrow> string \<Rightarrow> (bool \<times> goerr option) sb" where
  "sb_matches lib key query = io_bind (io_get (\<lambda>s. (sb_seen s key, sb_now s))) (\<lambda>(last, t).
     let yes = (case last of None \<Rightarrow> False | Some (y, _) \<Rightarrow> y) in
     if (case last of None \<Rightarrow> False | Some (_, u) \<Rightarrow> t - u < context_ttl) then ret (yes, None)
     else io_bind (io_try (sb_call lib ''POST'' ''/api/search'' [] (Some (search_body query 1 [])) files_of)) (\<lambda>r. case r of
         Inl e \<Rightarrow> if err_is e ErrNotFound then io_bind (remember key False) (\<lambda>_. ret (False, None)) else ret (yes, Some e)
       | Inr (files, _) \<Rightarrow> io_bind (remember key (files \<noteq> [])) (\<lambda>_. ret (files \<noteq> [], None))))"

text \<open>\<open>Has\<close> asks for every project at once; here in their order.\<close>

fun sb_has :: "sb_lib \<Rightarrow> string list \<Rightarrow> bool list sb" where
  "sb_has lib [] = ret []"
| "sb_has lib (p # ps) = io_bind (sb_matches lib p (''context:'' @ p)) (\<lambda>(yes, _). io_bind (sb_has lib ps) (\<lambda>rs. ret (yes # rs)))"

definition repo_query :: "string \<Rightarrow> string \<Rightarrow> string" where
  "repo_query proj repo = ''context:'' @ proj @ '' repo:^'' @ quote_meta repo @ ''$''"

definition bad_ref :: goerr where
  "bad_ref = GoErr [ErrInvalidInput] (sentinel_text ErrInvalidInput @ '': a ref is a branch, tag or commit, or a range of them such as a..b'')"

definition confine :: "sb_lib \<Rightarrow> string \<Rightarrow> string \<Rightarrow> string list \<Rightarrow> unit sb" where
  "confine lib proj repo refs =
     (if list_ex (\<lambda>r. r \<noteq> [] \<and> \<not> git_ref r) refs then fail bad_ref
      else if \<not> valid_repo_name repo then fail (GoErr [ErrNotFound] (sentinel_text ErrNotFound @ '': no repository '' @ quoted repo))
      else io_bind (sb_matches lib (proj @ '' '' @ repo) (repo_query proj repo)) (\<lambda>(yes, e).
        if yes then ret ()
        else fail (case e of Some e \<Rightarrow> e
          | None \<Rightarrow> GoErr [ErrNotFound] (sentinel_text ErrNotFound @ '': '' @ repo @ '' is not part of '' @ proj @ [CHR 0x27] @ ''s code''))))"

section \<open>Search\<close>

record chunk =
  ck_content :: string
  ck_line :: int

record found_file =
  fl_name :: string
  fl_repo :: string
  fl_chunks :: "chunk list"

definition text_field :: "string dec" where
  "text_field = decode_known [field ''text'' id id d_str]"

definition line_field :: "int dec" where
  "line_field = decode_known [field ''lineNumber'' id id d_int]"

definition chunk_fields :: "chunk field list" where
  "chunk_fields = [field ''content'' ck_content ck_content_update d_str, field ''contentStart'' ck_line ck_line_update line_field]"

definition found_fields :: "found_file field list" where
  "found_fields = [field ''fileName'' fl_name fl_name_update text_field, field ''repository'' fl_repo fl_repo_update d_str,
     field ''chunks'' fl_chunks fl_chunks_update (d_elems \<lparr>ck_content = [], ck_line = 0\<rparr> (decode_known chunk_fields))]"

definition found_of :: "json \<Rightarrow> found_file list option" where
  "found_of = decode_known [field ''files'' id id (d_elems \<lparr>fl_name = [], fl_repo = [], fl_chunks = []\<rparr> (decode_known found_fields))] []"

fun keep_found :: "sb_lib \<Rightarrow> string \<Rightarrow> nat \<Rightarrow> found_file list \<Rightarrow> code_match list sb" where
  "keep_found lib proj n [] = ret []"
| "keep_found lib proj n (f # fs) = (if allowed_path lib (fl_name f) = None then keep_found lib proj n fs
     else io_bind (io_try (confine lib proj (fl_repo f) [])) (\<lambda>r. case r of Inl _ \<Rightarrow> keep_found lib proj n fs
       | Inr _ \<Rightarrow> if search_files_max < n + 1 then ret []
           else io_bind (keep_found lib proj (n + 1) fs) (\<lambda>ms. ret (map (\<lambda>c. \<lparr>cx_repo = fl_repo f, cx_path = fl_name f, cx_line = ck_line c,
             cx_snippet = ck_content c\<rparr>) (take file_chunks (fl_chunks f)) @ ms))))"

definition sb_search :: "sb_lib \<Rightarrow> string \<Rightarrow> string \<Rightarrow> code_match list sb" where
  "sb_search lib proj query = io_bind (sb_call lib ''POST'' ''/api/search'' []
     (Some (search_body (''context:'' @ proj @ '' ('' @ query @ '')'') search_matches [(''contextLines'', JInt 2)])) found_of) (\<lambda>(files, _).
     keep_found lib proj 0 files)"

section \<open>Files and folders\<close>

datatype tree_node = TreeNode (tn_name: string) (tn_type: string) (tn_children: "tree_node list")

definition no_node :: tree_node where "no_node = TreeNode [] [] []"

text \<open>The decoder of a tree: a name, a type and children, under folded names.\<close>

definition tree_names :: "string list" where "tree_names = [''name'', ''type'', ''children'']"

definition tree_name :: "string \<Rightarrow> string option" where
  "tree_name k = (case List.find (\<lambda>n. n = k) tree_names of Some n \<Rightarrow> Some n | None \<Rightarrow> List.find (\<lambda>n. fold_name n = fold_name k) tree_names)"

fun d_tree :: "tree_node \<Rightarrow> json \<Rightarrow> tree_node option"
  and d_tree_fields :: "(string \<times> json) list \<Rightarrow> tree_node \<Rightarrow> tree_node option"
  and d_trees :: "json list \<Rightarrow> tree_node list option" where
  "d_tree r (JObj kvs) = d_tree_fields kvs r"
| "d_tree r JNull = Some r"
| "d_tree r (JBool b) = None"
| "d_tree r (JInt i) = None"
| "d_tree r (JFrac f) = None"
| "d_tree r (JStr s) = None"
| "d_tree r (JArr js) = None"
| "d_tree_fields [] r = Some r"
| "d_tree_fields ((k, j) # kvs) (TreeNode n t cs) =
     (if tree_name k = Some ''name'' then (case d_str n j of None \<Rightarrow> None | Some n' \<Rightarrow> d_tree_fields kvs (TreeNode n' t cs))
      else if tree_name k = Some ''type'' then (case d_str t j of None \<Rightarrow> None | Some t' \<Rightarrow> d_tree_fields kvs (TreeNode n t' cs))
      else if tree_name k = Some ''children'' then (case j of JNull \<Rightarrow> d_tree_fields kvs (TreeNode n t [])
        | JArr js \<Rightarrow> (case d_trees js of None \<Rightarrow> None | Some cs' \<Rightarrow> d_tree_fields kvs (TreeNode n t cs')) | _ \<Rightarrow> None)
      else d_tree_fields kvs (TreeNode n t cs))"
| "d_trees [] = Some []"
| "d_trees (j # js) = (case d_tree no_node j of None \<Rightarrow> None | Some c \<Rightarrow> map_option ((#) c) (d_trees js))"

definition tree_of :: "json \<Rightarrow> tree_node option" where
  "tree_of = decode_known [field ''tree'' id id d_tree] no_node"

fun walk_tree :: "tree_node \<Rightarrow> string list \<Rightarrow> tree_node option" where
  "walk_tree node [] = Some node"
| "walk_tree node (name # names) = (case List.find (\<lambda>c. tn_name c = name) (tn_children node) of None \<Rightarrow> None
     | Some c \<Rightarrow> walk_tree c names)"

definition list_entry :: "sb_lib \<Rightarrow> tree_node \<Rightarrow> string" where
  "list_entry lib c = (if allowed_path lib (tn_name c) = None then [] else tn_name c @ (if tn_type c = ''tree'' then ''/'' else []) @ nl)"

definition list_paths :: "string \<Rightarrow> json" where
  "list_paths dir = JArr (if dir = [] then [] else [JStr dir])"

definition list_folder :: "sb_lib \<Rightarrow> string \<Rightarrow> string \<Rightarrow> string \<Rightarrow> code_file sb" where
  "list_folder lib repo ref dir = io_bind (sb_call lib ''POST'' ''/api/tree'' []
     (Some (JObj [(''paths'', list_paths dir), (''repoName'', JStr repo), (''revisionName'', JStr (or_str ref ''HEAD''))])) tree_of) (\<lambda>(tree, _).
     case walk_tree tree (if dir = [] then [] else split_at slash dir) of
       None \<Rightarrow> fail (GoErr [ErrNotFound] (sentinel_text ErrNotFound @ '': no folder '' @ dir))
     | Some node \<Rightarrow> ret \<lparr>cf_repo = repo, cf_path = dir @ ''/'', cf_content = concat (map (list_entry lib) (tn_children node)), cf_url = []\<rparr>)"

definition sb_list :: "sb_lib \<Rightarrow> string \<Rightarrow> string \<Rightarrow> string \<Rightarrow> code_file sb" where
  "sb_list lib repo ref dir = (if dir = [] then list_folder lib repo ref []
     else (case allowed_path lib dir of None \<Rightarrow> fail (err_sentinel ErrNotFound) | Some cleaned \<Rightarrow> list_folder lib repo ref cleaned))"

definition with_param :: "string \<Rightarrow> string \<Rightarrow> strmap" where
  "with_param k v = (if v = [] then [] else [(k, v)])"

record source_answer =
  sn_source :: string
  sn_url :: string

definition source_of :: "json \<Rightarrow> source_answer option" where
  "source_of = decode_known [field ''source'' sn_source sn_source_update d_str, field ''externalWebUrl'' sn_url sn_url_update d_str]
     \<lparr>sn_source = [], sn_url = []\<rparr>"

definition sb_read :: "sb_lib \<Rightarrow> string \<Rightarrow> string \<Rightarrow> string \<Rightarrow> string \<Rightarrow> code_file sb" where
  "sb_read lib proj repo ref file = io_bind (confine lib proj repo [ref]) (\<lambda>_.
     if suffix ''/'' file \<or> file = [] then sb_list lib repo ref (trim_suffix file ''/'')
     else (case allowed_path lib file of None \<Rightarrow> fail (err_sentinel ErrNotFound)
       | Some cleaned \<Rightarrow> io_bind (sb_call lib ''GET'' ''/api/source'' ([(''repo'', repo), (''path'', cleaned)] @ with_param ''ref'' ref) None source_of)
           (\<lambda>(r, _). ret \<lparr>cf_repo = repo, cf_path = cleaned, cf_content = sn_source r, cf_url = sn_url r\<rparr>)))"

section \<open>History\<close>

text \<open>\<open>strconv.Atoi\<close> with its error ignored: 0 for what is no number, the bound for one out of range.\<close>

definition atoi_or :: "string \<Rightarrow> int" where
  "atoi_or s = (case parse_int64 s of Some n \<Rightarrow> n
     | None \<Rightarrow> (case digits_val 0 (trim_prefix s ''+'') of Some n \<Rightarrow> if s = [] \<or> s = ''+'' then 0 else 2 ^ 63 - 1
         | None \<Rightarrow> (case digits_val 0 (trim_prefix s ''-'') of Some n \<Rightarrow> if s = ''-'' then 0 else - (2 ^ 63) | None \<Rightarrow> 0)))"

definition commit_fields :: "commit field list" where
  "commit_fields = [field ''Hash'' co_hash co_hash_update d_str, field ''Date'' co_date co_date_update d_str, field ''Message'' co_subject co_subject_update d_str,
     field ''Refs'' co_refs co_refs_update d_str, field ''AuthorName'' co_author co_author_update d_str]"

definition no_commit :: commit where
  "no_commit = \<lparr>co_hash = [], co_date = [], co_author = [], co_subject = [], co_refs = []\<rparr>"

definition commits_of :: "json \<Rightarrow> commit list option" where
  "commits_of = d_elems no_commit (decode_known commit_fields) []"

text \<open>A path the caller may leave out: the parameter it adds, or not found.\<close>

definition path_param :: "sb_lib \<Rightarrow> string \<Rightarrow> strmap sb" where
  "path_param lib file = (if file = [] then ret []
     else (case allowed_path lib file of None \<Rightarrow> fail (err_sentinel ErrNotFound) | Some cleaned \<Rightarrow> ret [(''path'', cleaned)]))"

definition sb_commits :: "sb_lib \<Rightarrow> string \<Rightarrow> string \<Rightarrow> string \<Rightarrow> string \<Rightarrow> string \<Rightarrow> (commit list \<times> int) sb" where
  "sb_commits lib proj repo ref file query = io_bind (confine lib proj repo [ref]) (\<lambda>_. io_bind (path_param lib file) (\<lambda>path.
     io_bind (sb_call lib ''GET'' ''/api/commits'' ([(''repo'', repo), (''perPage'', int_str commits_page)] @ path @ with_param ''ref'' ref
       @ with_param ''query'' query) None commits_of) (\<lambda>(cs, count). ret (cs, max (atoi_or count) (int (length cs))))))"

section \<open>Diffs\<close>

record hunk =
  hk_old :: "int \<times> int"
  hk_new :: "int \<times> int"
  hk_heading :: string
  hk_body :: string

record diff_file =
  df_old :: "string option"
  df_new :: "string option"
  df_hunks :: "hunk list"

definition range_field :: "(int \<times> int) dec" where
  "range_field = decode_known [field ''Start'' fst apfst d_int, field ''Lines'' snd apsnd d_int]"

definition hunk_fields :: "hunk field list" where
  "hunk_fields = [field ''OldRange'' hk_old hk_old_update range_field, field ''NewRange'' hk_new hk_new_update range_field,
     field ''Heading'' hk_heading hk_heading_update d_str, field ''Body'' hk_body hk_body_update d_str]"

definition diff_fields :: "diff_file field list" where
  "diff_fields = [field ''OldPath'' df_old df_old_update (d_opt [] d_str), field ''NewPath'' df_new df_new_update (d_opt [] d_str),
     field ''Hunks'' df_hunks df_hunks_update (d_elems \<lparr>hk_old = (0, 0), hk_new = (0, 0), hk_heading = [], hk_body = []\<rparr> (decode_known hunk_fields))]"

definition diff_of :: "json \<Rightarrow> diff_file list option" where
  "diff_of = decode_known [field ''Files'' id id (d_elems \<lparr>df_old = None, df_new = None, df_hunks = []\<rparr> (decode_known diff_fields))] []"

definition deref :: "string option \<Rightarrow> string" where
  "deref v = (case v of None \<Rightarrow> [] | Some s \<Rightarrow> s)"

text \<open>A line of a hunk counts by its first character; \<open>strings.Lines\<close> has no empty line.\<close>

definition hunk_text :: "hunk \<Rightarrow> string" where
  "hunk_text h = ''@@ -'' @ int_str (fst (hk_old h)) @ '','' @ int_str (snd (hk_old h)) @ '' +'' @ int_str (fst (hk_new h)) @ '','' @ int_str (snd (hk_new h))
     @ '' @@ '' @ hk_heading h @ nl @ hk_body h @ (if suffix nl (hk_body h) then [] else nl)"

definition starting :: "char \<Rightarrow> string \<Rightarrow> nat" where
  "starting c body = length (filter (\<lambda>l. prefix [c] l) (log_lines body))"

definition count_lines :: "char \<Rightarrow> hunk list \<Rightarrow> int" where
  "count_lines c hs = int (sum_list (map (\<lambda>h. starting c (hk_body h)) hs))"

definition change_of :: "diff_file \<Rightarrow> code_change" where
  "change_of f = (let before = deref (df_old f); after = deref (df_new f);
     (p, st) = (if before = [] then (after, ''A'') else if after = [] then (before, ''D'')
       else if before \<noteq> after then (before @ [CHR '' '', CHR 0xE2, CHR 0x86, CHR 0x92, CHR '' ''] @ after, ''R'') else (after, ''M''))
     in \<lparr>cg_path = p, cg_status = st, cg_body = concat (map hunk_text (df_hunks f)), cg_added = count_lines (CHR ''+'') (df_hunks f),
       cg_removed = count_lines (CHR ''-'') (df_hunks f)\<rparr>)"

definition shown_file :: "sb_lib \<Rightarrow> diff_file \<Rightarrow> bool" where
  "shown_file lib f = (let before = deref (df_old f); after = deref (df_new f) in
     allowed_path lib (or_str before after) \<noteq> None \<and> allowed_path lib (or_str after before) \<noteq> None)"

definition sb_diff :: "sb_lib \<Rightarrow> string \<Rightarrow> string \<Rightarrow> string \<Rightarrow> string \<Rightarrow> string \<Rightarrow> code_change list sb" where
  "sb_diff lib proj repo base head file = io_bind (confine lib proj repo [base, head]) (\<lambda>_. io_bind (path_param lib file) (\<lambda>path.
     io_bind (sb_call lib ''GET'' ''/api/diff'' ([(''repo'', repo), (''base'', base), (''head'', head)] @ path) None diff_of) (\<lambda>(files, _).
     ret (map change_of (filter (shown_file lib) files)))))"

section \<open>Blame\<close>

record blame_row =
  br_hash :: string
  br_start :: int
  br_count :: int

record blame_answer =
  bw_ranges :: "blame_row list"
  bw_commits :: "(string \<times> commit) list"

definition row_fields :: "blame_row field list" where
  "row_fields = [field ''Hash'' br_hash br_hash_update d_str, field ''StartLine'' br_start br_start_update d_int, field ''LineCount'' br_count br_count_update d_int]"

definition blamed_fields :: "commit field list" where
  "blamed_fields = [field ''Date'' co_date co_date_update d_str, field ''Message'' co_subject co_subject_update d_str,
     field ''AuthorName'' co_author co_author_update d_str]"

fun put_commits :: "(string \<times> json) list \<Rightarrow> (string \<times> commit) list \<Rightarrow> (string \<times> commit) list option" where
  "put_commits [] m = Some m"
| "put_commits ((k, j) # kvs) m = (case decode_known blamed_fields no_commit j of None \<Rightarrow> None
     | Some c \<Rightarrow> put_commits kvs (AList.update k c m))"

definition d_commits :: "(string \<times> commit) list dec" where
  "d_commits old j = (case j of JNull \<Rightarrow> Some [] | JObj kvs \<Rightarrow> put_commits kvs old | _ \<Rightarrow> None)"

definition blame_of :: "json \<Rightarrow> blame_answer option" where
  "blame_of = decode_known [field ''Ranges'' bw_ranges bw_ranges_update (d_elems \<lparr>br_hash = [], br_start = 0, br_count = 0\<rparr> (decode_known row_fields)),
     field ''Commits'' bw_commits bw_commits_update d_commits] \<lparr>bw_ranges = [], bw_commits = []\<rparr>"

text \<open>Neighbouring ranges of one commit are one; a commit the answer does not describe is empty but for its hash.\<close>

definition add_row :: "(string \<times> commit) list \<Rightarrow> blame_row \<Rightarrow> blame_range list \<Rightarrow> blame_range list" where
  "add_row cs r rs = (if rs \<noteq> [] \<and> co_hash (bg_commit (last rs)) = br_hash r \<and> bg_start (last rs) + bg_lines (last rs) = br_start r
     then butlast rs @ [(last rs)\<lparr>bg_lines := bg_lines (last rs) + br_count r\<rparr>]
     else rs @ [\<lparr>bg_start = br_start r, bg_lines = br_count r,
       bg_commit = (case map_of cs (br_hash r) of None \<Rightarrow> no_commit | Some c \<Rightarrow> c)\<lparr>co_hash := br_hash r\<rparr>\<rparr>])"

definition sb_blame :: "sb_lib \<Rightarrow> string \<Rightarrow> string \<Rightarrow> string \<Rightarrow> string \<Rightarrow> blame_range list sb" where
  "sb_blame lib proj repo ref file = io_bind (confine lib proj repo [ref]) (\<lambda>_. case allowed_path lib file of
       None \<Rightarrow> fail (err_sentinel ErrNotFound)
     | Some cleaned \<Rightarrow> io_bind (sb_call lib ''GET'' ''/api/blame'' ([(''repo'', repo), (''path'', cleaned)] @ with_param ''ref'' ref) None blame_of) (\<lambda>(b, _).
         ret (fold (add_row (bw_commits b)) (bw_ranges b) [])))"

section \<open>Ask\<close>

definition chat_fields :: "ask_chat field list" where
  "chat_fields = [field ''chatId'' ac_id ac_id_update d_str, field ''languageModel'' ac_model ac_model_update any_json]"

text \<open>\<open>askChat\<close>: the shared chat, made on first use.\<close>

definition shared_chat :: "sb_lib \<Rightarrow> ask_chat sb" where
  "shared_chat lib = io_bind (io_get sb_chat) (\<lambda>c. if ac_id c \<noteq> [] then ret c
     else io_bind (sb_call lib ''POST'' ''/api/chat/blocking'' [] (Some (JObj [(''query'', JStr ''Reply with OK. Use no tools.'')])) (decode_known chat_fields no_chat))
       (\<lambda>(made, _). io_bind (io_mod (\<lambda>s. s\<lparr>sb_chat := made\<rparr>)) (\<lambda>_. ret made)))"

definition chat_body :: "ask_chat \<Rightarrow> string \<Rightarrow> string \<Rightarrow> string \<Rightarrow> json" where
  "chat_body c n proj question = JObj [(''disabledMcpServerIds'', JArr []), (''id'', JStr (ac_id c)), (''languageModel'', ac_model c),
     (''messages'', JArr [JObj [(''id'', JStr n), (''parts'', JArr [JObj [(''text'', JStr question), (''type'', JStr ''text'')]]), (''role'', JStr ''user'')]]),
     (''selectedSearchScopes'', JArr [JObj [(''name'', JStr proj), (''repoCount'', JInt 0), (''type'', JStr ''reposet''), (''value'', JStr proj)]])]"

definition open_chat :: "sb_lib \<Rightarrow> string \<Rightarrow> string \<Rightarrow> sb_answer sb" where
  "open_chat lib proj question = io_bind (shared_chat lib) (\<lambda>c. io_bind (io_get (\<lambda>s. sl_rand lib (length (sb_sent s)))) (\<lambda>n.
     io_bind (io_try (sb_send lib ''POST'' ''/api/ee/chat'' [] (Some (chat_body c n proj question)))) (\<lambda>r. case r of
       Inl e \<Rightarrow> io_bind (io_mod (\<lambda>s. s\<lparr>sb_chat := no_chat\<rparr>)) (\<lambda>_. fail e)
     | Inr a \<Rightarrow> ret a)))"

record ask_event =
  ae_type :: string
  ae_delta :: string
  ae_error :: string
  ae_automatic :: bool

definition event_fields :: "ask_event field list" where
  "event_fields = [field ''Type'' ae_type ae_type_update d_str, field ''Delta'' ae_delta ae_delta_update d_str, field ''ErrorText'' ae_error ae_error_update d_str,
     field ''IsAutomatic'' ae_automatic ae_automatic_update d_bool]"

definition event_of :: "sb_lib \<Rightarrow> string \<Rightarrow> ask_event option" where
  "event_of lib line = (if \<not> prefix ''data: '' line then None
     else Option.bind (sl_json lib (trim_prefix line ''data: '')) (decode_known event_fields \<lparr>ae_type = [], ae_delta = [], ae_error = [], ae_automatic = False\<rparr>))"

definition needs_approval :: goerr where
  "needs_approval = err_new ''sourcebot ask: a connector tool needs approval; set it to Allowed or Blocked in Sourcebot''"

fun ask_text :: "sb_lib \<Rightarrow> string list \<Rightarrow> goerr + string" where
  "ask_text lib [] = Inr []"
| "ask_text lib (l # ls) = (case event_of lib l of None \<Rightarrow> ask_text lib ls
     | Some e \<Rightarrow> if ae_type e = ''text-delta'' then (case ask_text lib ls of Inl x \<Rightarrow> Inl x | Inr t \<Rightarrow> Inr (ae_delta e @ t))
         else if ae_type e = ''error'' then Inl (err_new (''sourcebot ask: '' @ ae_error e))
         else if ae_type e = ''tool-approval-request'' \<and> \<not> ae_automatic e then Inl needs_approval
         else ask_text lib ls)"

text \<open>
  \<open>bufio.Scanner\<close> over the body: its lines without their line ends, up to the first that does not fit its buffer, and the error it
  ends with. A body that breaks off still gives its last line.
\<close>

definition scanned :: "sb_answer \<Rightarrow> string list \<times> goerr option" where
  "scanned a = (let ls = log_lines (sa_body a) in (map (\<lambda>l. trim_suffix l [CHR 0x0D]) (takeWhile (\<lambda>l. length l < response_limit) ls),
     if list_ex (\<lambda>l. response_limit \<le> length l) ls then Some (err_new ''bufio.Scanner: token too long'') else sa_broken a))"

fun after_last :: "string \<Rightarrow> string \<Rightarrow> string option" where
  "after_last m [] = None"
| "after_last m (c # s) = (case after_last m s of Some t \<Rightarrow> Some t | None \<Rightarrow> if prefix m (c # s) then Some (drop (length m) (c # s)) else None)"

definition answer_text :: "string \<Rightarrow> string" where
  "answer_text said = trim_space (case after_last answer_marker said of None \<Rightarrow> said | Some t \<Rightarrow> t)"

definition sb_ask :: "sb_lib \<Rightarrow> string \<Rightarrow> string \<Rightarrow> string sb" where
  "sb_ask lib proj question = io_bind (io_try (open_chat lib proj question)) (\<lambda>r.
     io_bind (case r of Inl _ \<Rightarrow> open_chat lib proj question | Inr a \<Rightarrow> ret a) (\<lambda>a. case scanned a of (lines, e) \<Rightarrow>
       (case ask_text lib lines of Inl x \<Rightarrow> fail x
        | Inr text \<Rightarrow> (case e of Some x \<Rightarrow> fail (err_wrap ''read sourcebot ask'' x) | None \<Rightarrow> ret (answer_text text)))))"

end
