(* ===== verification/Sourcebot_Confined.thy ===== *)
theory Sourcebot_Confined
  imports Sourcebot
begin

text \<open>
  What the Sourcebot client reaches. Whatever was asked before and whatever Sourcebot answered, a call for a
  project asks only for repositories that Sourcebot itself has found in the project's context, at refs that
  cannot be options and paths that neither climb nor name a file of secrets; and it shows no other.
\<close>

section \<open>Paths\<close>

definition open_path :: "sb_lib \<Rightarrow> string \<Rightarrow> bool" where
  "open_path lib p \<longleftrightarrow> p \<noteq> [] \<and> path_clean p = p \<and> ''..'' \<notin> set (split_at slash p) \<and> \<not> list_ex blocked (split_at slash (lower_case lib p))"

lemma clean_no_climb:
  assumes "path_clean q \<noteq> ''..''" "\<not> prefix ''../'' (path_clean q)"
  shows "''..'' \<notin> set (split_at slash (path_clean q))"
proof (cases "is_abs q")
  case True
  have "\<forall>g \<in> set (clean_out q). slash \<notin> set g \<and> g \<noteq> ''..''" using clean_out_segs True by blast
  then show ?thesis using True by (cases "clean_out q = []") (auto simp: path_clean_out slash_sep split_join)
next
  case False
  show ?thesis
  proof (cases "clean_out q = []")
    case True
    with False show ?thesis by (simp add: path_clean_out slash_def)
  next
    case ne: False
    obtain xs n where out: "rev (clean_out q) = xs @ replicate n ''..''" and up: "''..'' \<notin> set xs"
      using clean_out_stack [of q] by (auto simp: clean_stack_def)
    from arg_cong [OF out, of rev] have segs: "clean_out q = replicate n ''..'' @ rev xs" by simp
    have "n = 0"
    proof (rule ccontr)
      assume "n \<noteq> 0"
      then obtain k where "clean_out q = ''..'' # replicate k ''..'' @ rev xs" using segs by (cases n) auto
      then show False using assms False by (cases "replicate k ''..'' @ rev xs") (auto simp: path_clean_out)
    qed
    have "\<forall>g \<in> set (clean_out q). slash \<notin> set g" using clean_out_segs by blast
    then have "split_at slash (path_clean q) = clean_out q" using False ne by (simp add: path_clean_out slash_sep split_join)
    with segs up \<open>n = 0\<close> show ?thesis by simp
  qed
qed

lemma clean_not_empty: "path_clean q \<noteq> []"
proof (cases "is_abs q \<or> clean_out q = []")
  case True
  then show ?thesis by (auto simp: path_clean_out)
next
  case False
  then have "hd (clean_out q) \<noteq> []" using clean_out_segs by (meson hd_in_set)
  with False show ?thesis using join_head [of "clean_out q" "''/''"] by (simp add: path_clean_out)
qed

lemma allowed_open:
  assumes "allowed_path lib file = Some p"
  shows "open_path lib p"
proof -
  let ?q = "trim_prefix file ''/''"
  from assms have p: "p = path_clean ?q" "path_clean ?q \<noteq> ''..''" "\<not> prefix ''../'' (path_clean ?q)"
    "\<not> list_ex blocked (split_at slash (lower_case lib (path_clean ?q)))"
    by (auto simp: allowed_path_def Let_def split: if_splits)
  show ?thesis using clean_no_climb [OF p(2,3)] p(4) clean_not_empty [of ?q] by (simp add: open_path_def p(1) path_clean_idem)
qed

section \<open>What the requests sent show\<close>

definition answered_with :: "sb_lib \<Rightarrow> sb_request \<Rightarrow> (json \<Rightarrow> 'r option) \<Rightarrow> 'r \<Rightarrow> sb_request list \<Rightarrow> bool" where
  "answered_with lib rq dec r past \<longleftrightarrow> (\<exists>n < length past. past ! n = rq \<and> (let a = sl_server lib (take n past) rq in sa_error a = None \<and> sa_status a < 300
     \<and> Option.bind (sl_first lib (take response_limit (sa_body a))) dec = Some r))"

lemma answered_append: "answered_with lib rq dec r past \<Longrightarrow> answered_with lib rq dec r (past @ l)"
proof -
  assume "answered_with lib rq dec r past"
  then obtain n where n: "n < length past" "past ! n = rq" "let a = sl_server lib (take n past) rq in sa_error a = None \<and> sa_status a < 300
     \<and> Option.bind (sl_first lib (take response_limit (sa_body a))) dec = Some r" by (auto simp: answered_with_def)
  then show ?thesis unfolding answered_with_def by (intro exI [of _ n]) (simp add: nth_append)
qed

text \<open>Sourcebot has found something for a query, such as a repository in a project's context.\<close>

definition found_for :: "sb_lib \<Rightarrow> string \<Rightarrow> sb_request list \<Rightarrow> bool" where
  "found_for lib query past \<longleftrightarrow> (\<exists>key files. files \<noteq> [] \<and> answered_with lib
     \<lparr>sr_method = ''POST'', sr_endpoint = ''/api/search'', sr_query = [], sr_body = Some (search_body query 1 []), sr_key = key\<rparr> files_of files past)"

lemma found_append: "found_for lib query past \<Longrightarrow> found_for lib query (past @ l)"
  unfolding found_for_def by (blast intro: answered_append)

definition vouched :: "sb_lib \<Rightarrow> string \<Rightarrow> string \<Rightarrow> sb_request list \<Rightarrow> bool" where
  "vouched lib proj repo past \<longleftrightarrow> found_for lib (repo_query proj repo) past"

lemma vouched_append: "vouched lib proj repo past \<Longrightarrow> vouched lib proj repo (past @ l)"
  by (simp add: vouched_def found_append)

text \<open>A key stands for one query, for a context or for a repository of one; only what Sourcebot found is remembered as found.\<close>

definition key_for :: "string \<Rightarrow> string \<Rightarrow> bool" where
  "key_for key query \<longleftrightarrow> CHR '' '' \<notin> set key \<and> query = ''context:'' @ key
     \<or> (\<exists>proj repo. CHR '' '' \<notin> set proj \<and> key = proj @ '' '' @ repo \<and> query = repo_query proj repo)"

lemma space_split:
  assumes "CHR '' '' \<notin> set a" "CHR '' '' \<notin> set b" "a @ '' '' @ x = b @ '' '' @ y"
  shows "a = b \<and> x = y"
proof -
  have "a @ CHR '' '' # x = b @ CHR '' '' # y" using assms(3) by simp
  from arg_cong [OF this, of "cut_at (CHR '' '')"] show ?thesis
    by (simp only: cut_at_sep [OF assms(1)] cut_at_sep [OF assms(2)] prod.inject)
qed

lemma key_for_unique:
  assumes "key_for key q" "key_for key q'"
  shows "q = q'"
proof (cases "CHR '' '' \<in> set key")
  case True
  with assms obtain a x b y where "CHR '' '' \<notin> set a" "CHR '' '' \<notin> set b" and k: "key = a @ '' '' @ x" "key = b @ '' '' @ y"
    and q: "q = repo_query a x" "q' = repo_query b y"
    unfolding key_for_def by blast
  then show ?thesis using space_split [of a b x y] by simp
next
  case False
  then show ?thesis using assms by (auto simp: key_for_def)
qed

definition seen_vouched :: "sb_lib \<Rightarrow> sourcebot \<Rightarrow> bool" where
  "seen_vouched lib s \<longleftrightarrow> (\<forall>key t query. sb_seen s key = Some (True, t) \<longrightarrow> key_for key query \<longrightarrow> found_for lib query (sb_sent s))"

definition safe_ref :: "string \<Rightarrow> bool" where
  "safe_ref r \<longleftrightarrow> r = [] \<or> git_ref r"

definition asks_for :: "sb_lib \<Rightarrow> string \<Rightarrow> sb_request \<Rightarrow> bool" where
  "asks_for lib repo rq \<longleftrightarrow>
     sr_endpoint rq \<in> {''/api/source'', ''/api/commits'', ''/api/diff'', ''/api/blame''} \<and> sr_body rq = None \<and> map_of (sr_query rq) ''repo'' = Some repo \<and>
       list_all (\<lambda>(k, v). (k = ''path'' \<longrightarrow> open_path lib v) \<and> (k \<in> {''ref'', ''base'', ''head''} \<longrightarrow> safe_ref v)) (sr_query rq)
   \<or> sr_endpoint rq = ''/api/tree'' \<and> (\<exists>dir ref. (dir = [] \<or> open_path lib dir) \<and> git_ref ref \<and>
       sr_body rq = Some (JObj [(''paths'', list_paths dir), (''repoName'', JStr repo), (''revisionName'', JStr ref)]))"

definition fair :: "sb_lib \<Rightarrow> string \<Rightarrow> sb_request list \<Rightarrow> sb_request \<Rightarrow> bool" where
  "fair lib proj past rq \<longleftrightarrow> sr_endpoint rq = ''/api/search'' \<or> (\<exists>repo. valid_repo_name repo \<and> vouched lib proj repo past \<and> asks_for lib repo rq)"

section \<open>Computations under a rule for requests\<close>

text \<open>A rule for requests, given those sent: searches pass, and a request that passed stays passed.\<close>

locale request_rule =
  fixes lib :: sb_lib and F :: "sb_request list \<Rightarrow> sb_request \<Rightarrow> bool"
  assumes search_passes: "sr_endpoint rq = ''/api/search'' \<Longrightarrow> F past rq"
    and stays: "F past rq \<Longrightarrow> F (past @ l) rq"
begin

definition steps :: "sourcebot \<Rightarrow> sourcebot \<Rightarrow> bool" where
  "steps s s' \<longleftrightarrow> seen_vouched lib s' \<and> (\<exists>l. sb_sent s' = sb_sent s @ l \<and> (\<forall>rq \<in> set l. F (sb_sent s') rq))"

definition fares :: "'a sb \<Rightarrow> ('a \<Rightarrow> sourcebot \<Rightarrow> bool) \<Rightarrow> sourcebot \<Rightarrow> bool" where
  "fares m P s \<longleftrightarrow> wp m (\<lambda>x s'. steps s s' \<and> P x s') (\<lambda>_ s'. steps s s') s"

lemma steps_refl: "seen_vouched lib s \<Longrightarrow> steps s s"
  by (simp add: steps_def)

lemma steps_trans:
  assumes "steps s s1" "steps s1 s2"
  shows "steps s s2"
proof -
  obtain l1 l2 where l: "sb_sent s1 = sb_sent s @ l1" "\<forall>rq \<in> set l1. F (sb_sent s1) rq" "sb_sent s2 = sb_sent s1 @ l2"
    "\<forall>rq \<in> set l2. F (sb_sent s2) rq"
    using assms by (auto simp: steps_def)
  then have "sb_sent s2 = sb_sent s @ l1 @ l2" "\<forall>rq \<in> set (l1 @ l2). F (sb_sent s2) rq" using stays [of "sb_sent s1" _ l2] by auto
  then show ?thesis using assms(2) unfolding steps_def by blast
qed

lemma steps_seen: "steps s s' \<Longrightarrow> seen_vouched lib s'"
  by (simp add: steps_def)

lemma steps_vouched: "steps s s' \<Longrightarrow> vouched lib proj repo (sb_sent s) \<Longrightarrow> vouched lib proj repo (sb_sent s')"
  by (auto simp: steps_def vouched_append)

lemma fares_ret: "seen_vouched lib s \<Longrightarrow> P x s \<Longrightarrow> fares (ret x) P s"
  by (simp add: fares_def wp_simps steps_refl)

lemma fares_fail: "seen_vouched lib s \<Longrightarrow> fares (fail e) P s"
  by (simp add: fares_def wp_simps steps_refl)

lemma fares_get: "fares (k (f s)) P s \<Longrightarrow> fares (io_bind (io_get f) k) P s"
  by (simp add: fares_def wp_simps)

lemma fares_bind:
  assumes "fares m P s" "\<And>x s1. steps s s1 \<Longrightarrow> P x s1 \<Longrightarrow> fares (k x) Q s1"
  shows "fares (io_bind m k) Q s"
  unfolding fares_def wp_bind
  by (rule wp_mono [OF assms(1) [unfolded fares_def]]) (auto intro!: wp_mono [OF assms(2) [unfolded fares_def]] intro: steps_trans)

lemma fares_try: "fares m P s \<Longrightarrow> fares (io_try m) (\<lambda>r s'. case r of Inl _ \<Rightarrow> True | Inr x \<Rightarrow> P x s') s"
  by (simp add: fares_def wp_simps)

lemma fares_mono: "fares m P s \<Longrightarrow> (\<And>x s'. steps s s' \<Longrightarrow> P x s' \<Longrightarrow> Q x s') \<Longrightarrow> fares m Q s"
  unfolding fares_def by (erule wp_mono) auto

lemma fares_run: "fares m P s \<Longrightarrow> m s = (r, s') \<Longrightarrow> steps s s' \<and> (\<forall>x. r = Inr x \<longrightarrow> P x s')"
  by (auto simp: fares_def wp_def split: sum.splits)

lemma fares_if: "(b \<Longrightarrow> fares m P s) \<Longrightarrow> (\<not> b \<Longrightarrow> fares m' P s) \<Longrightarrow> fares (if b then m else m') P s"
  by simp

lemma fares_case_pair: "(\<And>x y. v = (x, y) \<Longrightarrow> fares (k x y) P s) \<Longrightarrow> fares (case v of (x, y) \<Rightarrow> k x y) P s"
  by (cases v) simp

text \<open>A request the rule passes: an answer that could be decoded is on record.\<close>

lemma steps_post:
  assumes "seen_vouched lib s" "F (sb_sent s @ [rq]) rq"
  shows "steps s (s\<lparr>sb_sent := sb_sent s @ [rq], sb_now := t\<rparr>)"
  using assms found_append unfolding steps_def seen_vouched_def by simp

lemma fares_post:
  assumes "seen_vouched lib s" "F (sb_sent s @ [rq]) rq"
  shows "fares (post_to lib rq) (\<lambda>a s'. a = sl_server lib (sb_sent s) rq \<and> sb_sent s' = sb_sent s @ [rq]) s"
  using steps_post [OF assms] by (simp add: fares_def wp_def post_to_def Let_def)

lemma fares_call:
  assumes seen: "seen_vouched lib s"
    and pass: "\<And>key. F (sb_sent s @ [\<lparr>sr_method = meth, sr_endpoint = endpoint, sr_query = query, sr_body = body, sr_key = key\<rparr>])
      \<lparr>sr_method = meth, sr_endpoint = endpoint, sr_query = query, sr_body = body, sr_key = key\<rparr>"
  shows "fares (sb_call lib meth endpoint query body dec) (\<lambda>(r, _) s'. \<exists>key. answered_with lib
    \<lparr>sr_method = meth, sr_endpoint = endpoint, sr_query = query, sr_body = body, sr_key = key\<rparr> dec r (sb_sent s')) s"
  (is "fares _ ?P s")
proof -
  let ?rq = "\<lparr>sr_method = meth, sr_endpoint = endpoint, sr_query = query, sr_body = body, sr_key = sb_key s\<rparr>"
  let ?a = "sl_server lib (sb_sent s) ?rq"
  have send: "fares (sb_send lib meth endpoint query body) (\<lambda>a s'. a = ?a \<and> sa_error a = None \<and> sa_status a < 300 \<and> sb_sent s' = sb_sent s @ [?rq]) s"
    unfolding sb_send_def
  proof (rule fares_get, simp only: prod.case Let_def, cases "sl_refused lib (sb_url s @ endpoint @ (if query = [] then [] else ''?'' @ encode_query query))", goal_cases)
    case 1
    then show ?case
      by (simp only: option.case, intro fares_bind [OF fares_post [OF seen pass]]) (auto split: option.splits simp: steps_seen fares_fail fares_ret)
  next
    case (2 e)
    then show ?case using seen by (simp add: fares_fail)
  qed
  show ?thesis unfolding sb_call_def
  proof (rule fares_bind [OF send])
    fix a s1
    assume s1: "steps s s1" and a: "a = ?a \<and> sa_error a = None \<and> sa_status a < 300 \<and> sb_sent s1 = sb_sent s @ [?rq]"
    have "answered_with lib ?rq dec r (sb_sent s1)" if "Option.bind (sl_first lib (take response_limit (sa_body a))) dec = Some r" for r
      using a that unfolding answered_with_def by (intro exI [of _ "length (sb_sent s)"]) (auto simp: Let_def)
    then show "fares (let text = take response_limit (sa_body a) in case Option.bind (sl_first lib text) dec of Some r \<Rightarrow> ret (r, sa_total a)
       | None \<Rightarrow> fail (err_new (''decode sourcebot '' @ endpoint @ '', at most 8 MiB: '' @ sl_why lib text))) ?P s1"
      using steps_seen [OF s1] by (auto simp: Let_def fares_fail intro!: fares_ret split: option.splits)
  qed
qed

lemma fares_remember:
  assumes seen: "seen_vouched lib s" and key: "key_for key query" and found: "yes \<Longrightarrow> found_for lib query (sb_sent s)"
  shows "fares (remember key yes) (\<lambda>_ s'. sb_sent s' = sb_sent s) s"
proof -
  have "seen_vouched lib (s\<lparr>sb_seen := (sb_seen s)(key \<mapsto> (yes, sb_now s))\<rparr>)"
    using seen found key_for_unique [OF key] by (auto simp: seen_vouched_def)
  then show ?thesis by (simp add: fares_def wp_def remember_def io_mod_def steps_def)
qed

lemma fares_matches:
  assumes seen: "seen_vouched lib s" and key: "key_for key query"
  shows "fares (sb_matches lib key query) (\<lambda>(yes, _) s'. yes \<longrightarrow> found_for lib query (sb_sent s')) s"
proof -
  have old: "found_for lib query (sb_sent s)" if "sb_seen s key = Some (True, t)" for t
    using seen key that by (auto simp: seen_vouched_def)
  show ?thesis unfolding sb_matches_def
proof (rule fares_get, simp only: prod.case Let_def, rule fares_if, goal_cases)
  case 1
  then show ?case using seen old by (auto intro!: fares_ret split: option.splits)
next
  case 2
  have call: "fares (sb_call lib ''POST'' ''/api/search'' [] (Some (search_body query 1 [])) files_of)
      (\<lambda>(files, _) s'. files \<noteq> [] \<longrightarrow> found_for lib query (sb_sent s')) s"
    by (rule fares_mono [OF fares_call [OF seen search_passes]]) (auto simp: found_for_def)
  show ?case
  proof (rule fares_bind [OF fares_try [OF call]], goal_cases)
    case (1 r s1)
    have later: "found_for lib query (sb_sent s1)" if "found_for lib query (sb_sent s)"
      using that found_append 1(1) by (auto simp: steps_def)
    note seen1 = steps_seen [OF 1(1)]
    show ?case
    proof (cases r)
      case (Inl e)
      show ?thesis unfolding Inl sum.case
      proof (rule fares_if, goal_cases)
        case 1
        show ?case by (rule fares_bind [OF fares_remember [OF seen1 key]]) (auto simp: steps_seen intro!: fares_ret)
      next
        case 2
        show ?case using old later seen1 by (auto intro!: fares_ret split: option.splits)
      qed
    next
      case (Inr fh)
      obtain files count where fh: "fh = (files, count)" by (cases fh)
      from 1(2) have found: "files \<noteq> [] \<Longrightarrow> found_for lib query (sb_sent s1)" by (simp add: Inr fh)
      show ?thesis unfolding Inr fh sum.case prod.case
        by (rule fares_bind [OF fares_remember [OF seen1 key found]])
          (use found in \<open>auto simp: steps_seen intro!: fares_ret\<close>)
    qed
  qed
qed
qed

end

section \<open>The calls of a project\<close>

text \<open>A rule that also passes what asks for a repository Sourcebot found in the project's context.\<close>

locale project_rule = request_rule +
  fixes proj :: string
  assumes plain: "CHR '' '' \<notin> set proj"
    and asks_pass: "valid_repo_name repo \<Longrightarrow> vouched lib proj repo past \<Longrightarrow> asks_for lib repo rq \<Longrightarrow> F past rq"
begin

definition reached :: "string \<Rightarrow> string list \<Rightarrow> sourcebot \<Rightarrow> bool" where
  "reached repo refs s \<longleftrightarrow> valid_repo_name repo \<and> vouched lib proj repo (sb_sent s) \<and> list_all safe_ref refs"

lemma reached_steps: "reached repo refs s \<Longrightarrow> steps s s' \<Longrightarrow> reached repo refs s'"
  by (auto simp: reached_def steps_vouched)

lemma reached_pass: "reached repo refs s \<Longrightarrow> asks_for lib repo rq \<Longrightarrow> F (sb_sent s @ [rq]) rq"
  by (auto simp: reached_def intro: asks_pass vouched_append)

lemma fares_confine:
  assumes seen: "seen_vouched lib s"
  shows "fares (confine lib proj repo refs) (\<lambda>_. reached repo refs) s"
  unfolding confine_def
proof (intro fares_if fares_fail seen, goal_cases)
  case 1
  have key: "key_for (proj @ '' '' @ repo) (repo_query proj repo)" using plain by (auto simp: key_for_def)
  have refs: "list_all safe_ref refs" using 1 by (auto simp: list_ex_iff list_all_iff safe_ref_def)
  show ?case
    by (rule fares_bind [OF fares_matches [OF seen key]])
      (use 1 refs in \<open>auto simp: vouched_def reached_def steps_seen intro!: fares_case_pair fares_if fares_ret fares_fail\<close>)
qed

lemma fares_path_param: "seen_vouched lib s \<Longrightarrow> fares (path_param lib file) (\<lambda>q _. q = [] \<or> (\<exists>p. q = [(''path'', p)] \<and> open_path lib p)) s"
  by (auto simp: path_param_def intro!: fares_ret fares_fail dest: allowed_open split: option.splits)

lemma fares_keep_found:
  "seen_vouched lib s \<Longrightarrow> fares (keep_found lib proj n fs) (\<lambda>ms s'. \<forall>m \<in> set ms. vouched lib proj (cx_repo m) (sb_sent s') \<and> allowed_path lib (cx_path m) \<noteq> None) s"
proof (induction fs arbitrary: n s)
  case Nil
  then show ?case by (simp add: fares_ret)
next
  case (Cons f fs)
  show ?case unfolding keep_found.simps
  proof (rule fares_if, rule Cons.IH [OF Cons.prems], rule fares_bind [OF fares_try [OF fares_confine [OF Cons.prems]]], goal_cases)
    case (1 r s1)
    note seen1 = steps_seen [OF 1(2)]
    show ?case
    proof (cases r)
      case (Inl e)
      then show ?thesis using Cons.IH [OF seen1] by simp
    next
      case (Inr u)
      with 1(3) have found: "vouched lib proj (fl_repo f) (sb_sent s1)" by (simp add: reached_def)
      show ?thesis unfolding Inr sum.case
        by (rule fares_if, use seen1 in \<open>simp add: fares_ret\<close>, rule fares_bind [OF Cons.IH [OF seen1]])
          (use 1(1) found in \<open>auto simp: steps_seen steps_vouched intro!: fares_ret\<close>)
    qed
  qed
qed

lemma fares_search:
  assumes "seen_vouched lib s"
  shows "fares (sb_search lib proj query) (\<lambda>ms s'. \<forall>m \<in> set ms. vouched lib proj (cx_repo m) (sb_sent s') \<and> allowed_path lib (cx_path m) \<noteq> None) s"
  unfolding sb_search_def
  by (rule fares_bind [OF fares_call [OF assms search_passes]]) (auto intro!: fares_case_pair fares_keep_found simp: steps_seen simp del: not_None_eq)

lemma asks_for_get:
  "endpoint \<in> {''/api/source'', ''/api/commits'', ''/api/diff'', ''/api/blame''} \<Longrightarrow> map_of query ''repo'' = Some repo \<Longrightarrow>
   list_all (\<lambda>(k, v). (k = ''path'' \<longrightarrow> open_path lib v) \<and> (k \<in> {''ref'', ''base'', ''head''} \<longrightarrow> safe_ref v)) query \<Longrightarrow>
   asks_for lib repo \<lparr>sr_method = ''GET'', sr_endpoint = endpoint, sr_query = query, sr_body = None, sr_key = key\<rparr>"
  by (simp add: asks_for_def)

lemma fares_get_call:
  assumes "seen_vouched lib s" "reached repo refs s" "endpoint \<in> {''/api/source'', ''/api/commits'', ''/api/diff'', ''/api/blame''}"
    "map_of query ''repo'' = Some repo"
    "list_all (\<lambda>(k, v). (k = ''path'' \<longrightarrow> open_path lib v) \<and> (k \<in> {''ref'', ''base'', ''head''} \<longrightarrow> safe_ref v)) query"
  shows "fares (sb_call lib ''GET'' endpoint query None dec) (\<lambda>_ _. True) s"
  by (rule fares_mono [OF fares_call [OF assms(1) reached_pass [OF assms(2) asks_for_get [OF assms(3-5)]]]]) simp

lemma fares_list_folder:
  assumes "seen_vouched lib s" "reached repo [ref] s" "dir = [] \<or> open_path lib dir"
  shows "fares (list_folder lib repo ref dir) (\<lambda>f _. cf_repo f = repo) s"
proof -
  have "git_ref (or_str ref ''HEAD'')" using assms(2) by (auto simp: reached_def safe_ref_def or_str_def git_ref_def ref_char_def char_class_defs)
  then have asks: "asks_for lib repo \<lparr>sr_method = ''POST'', sr_endpoint = ''/api/tree'', sr_query = [],
      sr_body = Some (JObj [(''paths'', list_paths dir), (''repoName'', JStr repo), (''revisionName'', JStr (or_str ref ''HEAD''))]), sr_key = key\<rparr>" for key
    unfolding asks_for_def using assms(3) by (intro disjI2) auto
  show ?thesis unfolding list_folder_def
    by (rule fares_bind [OF fares_call [OF assms(1) reached_pass [OF assms(2) asks]]])
      (auto simp: steps_seen intro!: fares_case_pair fares_ret fares_fail split: option.splits)
qed

lemma reached_ref: "reached repo [ref] s \<Longrightarrow> list_all (\<lambda>(k, v). (k = ''path'' \<longrightarrow> open_path lib v) \<and> (k \<in> {''ref'', ''base'', ''head''} \<longrightarrow> safe_ref v))
    (with_param ''ref'' ref)"
  by (simp add: with_param_def reached_def)

lemma fares_read:
  assumes "seen_vouched lib s"
  shows "fares (sb_read lib proj repo ref file) (\<lambda>f s'. cf_repo f = repo) s"
  unfolding sb_read_def
proof (rule fares_bind [OF fares_confine [OF assms]], rule fares_if, goal_cases)
  case (1 u s1)
  then show ?case
    by (auto simp: sb_list_def steps_seen dest: allowed_open intro!: fares_list_folder fares_fail split: option.splits)
next
  case (2 u s1)
  note seen1 = steps_seen [OF 2(1)]
  show ?case
  proof (cases "allowed_path lib file")
    case None
    then show ?thesis using seen1 by (simp add: fares_fail)
  next
    case (Some cleaned)
    show ?thesis unfolding Some option.case
      by (rule fares_bind [OF fares_get_call [OF seen1 2(2)]])
        (use allowed_open [OF Some] reached_ref [OF 2(2)] in \<open>auto simp: steps_seen intro!: fares_case_pair fares_ret\<close>)
  qed
qed

lemma fares_commits:
  assumes "seen_vouched lib s"
  shows "fares (sb_commits lib proj repo ref file query) (\<lambda>_ _. True) s"
  unfolding sb_commits_def
proof (rule fares_bind [OF fares_confine [OF assms]], rule fares_bind [OF fares_path_param], goal_cases)
  case (2 u s1 q s2)
  note seen2 = steps_seen [OF 2(3)]
  show ?case
    by (rule fares_bind [OF fares_get_call [OF seen2 reached_steps [OF 2(2) 2(3)]]])
      (use 2(4) reached_ref [OF 2(2)] in \<open>auto simp: steps_seen with_param_def intro!: fares_case_pair fares_ret\<close>)
qed (simp add: steps_seen)

lemma fares_diff:
  assumes "seen_vouched lib s"
  shows "fares (sb_diff lib proj repo base head file) (\<lambda>cs _. \<exists>fs. cs = map change_of fs \<and> (\<forall>f \<in> set fs. shown_file lib f)) s"
  unfolding sb_diff_def
proof (rule fares_bind [OF fares_confine [OF assms]], rule fares_bind [OF fares_path_param], goal_cases)
  case (2 u s1 q s2)
  note seen2 = steps_seen [OF 2(3)]
  show ?case
    by (rule fares_bind [OF fares_get_call [OF seen2 reached_steps [OF 2(2) 2(3)]]])
      (use 2(4) 2(2) in \<open>auto simp: steps_seen reached_def intro!: fares_case_pair fares_ret exI [of _ "filter (shown_file lib) f" for f]\<close>)
qed (simp add: steps_seen)

lemma fares_blame:
  assumes "seen_vouched lib s"
  shows "fares (sb_blame lib proj repo ref file) (\<lambda>_ _. True) s"
  unfolding sb_blame_def
proof (rule fares_bind [OF fares_confine [OF assms]], goal_cases)
  case (1 u s1)
  note seen1 = steps_seen [OF 1(1)]
  show ?case
  proof (cases "allowed_path lib file")
    case None
    then show ?thesis using seen1 by (simp add: fares_fail)
  next
    case (Some cleaned)
    show ?thesis unfolding Some option.case
      by (rule fares_bind [OF fares_get_call [OF seen1 1(2)]])
        (use allowed_open [OF Some] reached_ref [OF 1(2)] in \<open>auto simp: steps_seen intro!: fares_case_pair fares_ret\<close>)
  qed
qed

end

section \<open>Every project\<close>

context request_rule begin

lemma fares_has: "(\<forall>p \<in> set ps. CHR '' '' \<notin> set p) \<Longrightarrow> seen_vouched lib s \<Longrightarrow> fares (sb_has lib ps) (\<lambda>_ _. True) s"
proof (induction ps arbitrary: s)
  case Nil
  then show ?case by (simp add: fares_ret)
next
  case (Cons p ps)
  have key: "key_for p (''context:'' @ p)" using Cons.prems(1) by (simp add: key_for_def)
  show ?case unfolding sb_has.simps
    by (rule fares_bind [OF fares_matches [OF Cons.prems(2) key]], rule fares_case_pair, rule fares_bind [OF Cons.IH])
      (use Cons.prems(1) in \<open>auto simp: steps_seen intro!: fares_ret\<close>)
qed

end

text \<open>The rule of one project, and the rule that passes every request, which the agent's chat needs.\<close>

interpretation sb_any: request_rule lib "\<lambda>_ _. True" for lib
  by unfold_locales auto

lemma fair_append: "fair lib proj past rq \<Longrightarrow> fair lib proj (past @ l) rq"
  by (auto simp: fair_def vouched_append)

interpretation sb_fair: request_rule lib "fair lib proj" for lib proj
  by unfold_locales (auto simp: fair_def fair_append vouched_append)

lemma fair_project: "CHR '' '' \<notin> set proj \<Longrightarrow> project_rule lib (fair lib proj) proj"
  by unfold_locales (auto simp: fair_def)

lemma any_project: "CHR '' '' \<notin> set proj \<Longrightarrow> project_rule lib (\<lambda>_ _. True) proj"
  by unfold_locales auto

section \<open>Ask\<close>

lemma fares_shared_chat: "seen_vouched lib s \<Longrightarrow> sb_any.fares lib (shared_chat lib) (\<lambda>_ _. True) s"
  unfolding shared_chat_def
proof (rule sb_any.fares_get, rule sb_any.fares_if, goal_cases)
  case 2
  have set: "sb_any.fares lib (io_mod (\<lambda>s. s\<lparr>sb_chat := c\<rparr>)) (\<lambda>_ _. True) s1" if "seen_vouched lib s1" for c s1
    using that by (simp add: sb_any.fares_def wp_simps sb_any.steps_def seen_vouched_def)
  show ?case
    by (rule sb_any.fares_bind [OF sb_any.fares_call [OF 2(1)]])
      (auto intro!: sb_any.fares_case_pair sb_any.fares_bind [OF set] sb_any.fares_ret simp: sb_any.steps_seen)
qed (simp add: sb_any.fares_ret)

lemma fares_send:
  assumes "seen_vouched lib s"
  shows "sb_any.fares lib (sb_send lib meth endpoint query body) (\<lambda>_ _. True) s"
  unfolding sb_send_def
  by (auto simp: Let_def sb_any.steps_seen intro!: sb_any.fares_get sb_any.fares_case_pair sb_any.fares_fail assms sb_any.fares_ret
      sb_any.fares_bind [OF sb_any.fares_post [OF assms]] split: option.splits)

lemma fares_open_chat:
  assumes "seen_vouched lib s"
  shows "sb_any.fares lib (open_chat lib proj question) (\<lambda>_ _. True) s"
  unfolding open_chat_def
proof (rule sb_any.fares_bind [OF fares_shared_chat [OF assms]], rule sb_any.fares_get,
    rule sb_any.fares_bind [OF sb_any.fares_try [OF fares_send]], goal_cases)
  case (2 c s1 r s2)
  have forget: "sb_any.fares lib (io_mod (\<lambda>s. s\<lparr>sb_chat := no_chat\<rparr>)) (\<lambda>_ _. True) s2"
    using sb_any.steps_seen [OF 2(3)] by (simp add: sb_any.fares_def wp_simps sb_any.steps_def seen_vouched_def)
  show ?case
    using sb_any.steps_seen [OF 2(3)]
    by (cases r) (auto intro!: sb_any.fares_bind [OF forget] sb_any.fares_ret sb_any.fares_fail simp: sb_any.steps_seen)
qed (simp add: sb_any.steps_seen)

lemma fares_ask:
  assumes "seen_vouched lib s"
  shows "sb_any.fares lib (sb_ask lib proj question) (\<lambda>_ _. True) s"
  unfolding sb_ask_def
proof (rule sb_any.fares_bind [OF sb_any.fares_try [OF fares_open_chat [OF assms]]],
    rule sb_any.fares_bind [where P = "\<lambda>_ _. True"], goal_cases)
  case (1 r s1)
  then show ?case
    by (cases r) (auto intro!: fares_open_chat sb_any.fares_ret simp: sb_any.steps_seen)
next
  case (2 r s1 a s2)
  then show ?case
    by (auto intro!: sb_any.fares_case_pair sb_any.fares_fail sb_any.fares_ret simp: sb_any.steps_seen split: sum.splits option.splits)
qed

section \<open>Any calls\<close>

datatype sb_op = HasCode "string list" | SearchCode string string | ReadCode string string string string | CommitsOf string string string string string
  | DiffOf string string string string string | BlameOf string string string string | AskAgent string string

fun sb_step :: "sb_lib \<Rightarrow> sb_op \<Rightarrow> sourcebot \<Rightarrow> sourcebot" where
  "sb_step lib (HasCode ps) s = snd (sb_has lib ps s)"
| "sb_step lib (SearchCode p q) s = snd (sb_search lib p q s)"
| "sb_step lib (ReadCode p r v f) s = snd (sb_read lib p r v f s)"
| "sb_step lib (CommitsOf p r v f q) s = snd (sb_commits lib p r v f q s)"
| "sb_step lib (DiffOf p r b h f) s = snd (sb_diff lib p r b h f s)"
| "sb_step lib (BlameOf p r v f) s = snd (sb_blame lib p r v f s)"
| "sb_step lib (AskAgent p q) s = snd (sb_ask lib p q s)"

text \<open>The project of a call that is confined, and calls whose projects are named as slugs are, without a space.\<close>

fun confined_to :: "sb_op \<Rightarrow> string option" where
  "confined_to (SearchCode p q) = Some p"
| "confined_to (ReadCode p r v f) = Some p"
| "confined_to (CommitsOf p r v f q) = Some p"
| "confined_to (DiffOf p r b h f) = Some p"
| "confined_to (BlameOf p r v f) = Some p"
| "confined_to _ = None"

definition plain_op :: "sb_op \<Rightarrow> bool" where
  "plain_op op \<longleftrightarrow> (case op of HasCode ps \<Rightarrow> list_all (\<lambda>p. CHR '' '' \<notin> set p) ps
     | _ \<Rightarrow> (case confined_to op of None \<Rightarrow> True | Some p \<Rightarrow> CHR '' '' \<notin> set p))"

lemma fares_step:
  assumes rule: "project_rule lib F proj" and seen: "seen_vouched lib s" and op: "confined_to op = Some proj"
  shows "request_rule.steps lib F s (sb_step lib op s)"
proof -
  have base: "request_rule F" using rule by (simp add: project_rule_def)
  note ran = request_rule.fares_run [OF base, THEN conjunct1]
  note calls = project_rule.fares_search [OF rule seen] project_rule.fares_read [OF rule seen] project_rule.fares_commits [OF rule seen]
    project_rule.fares_diff [OF rule seen] project_rule.fares_blame [OF rule seen]
  show ?thesis using op by (cases op) (auto intro: ran [OF calls(1) surjective_pairing] ran [OF calls(2) surjective_pairing]
    ran [OF calls(3) surjective_pairing] ran [OF calls(4) surjective_pairing] ran [OF calls(5) surjective_pairing])
qed

lemma step_seen:
  assumes seen: "seen_vouched lib s" and op: "plain_op op"
  shows "seen_vouched lib (sb_step lib op s)"
proof (cases "confined_to op")
  case (Some proj)
  then have "CHR '' '' \<notin> set proj" using op by (cases op) (auto simp: plain_op_def)
  from fares_step [OF any_project [OF this] seen Some] show ?thesis by (rule sb_any.steps_seen)
next
  case None
  note ran = sb_any.fares_run [THEN conjunct1, THEN sb_any.steps_seen]
  show ?thesis
  proof (cases "\<exists>ps. op = HasCode ps")
    case True
    then obtain ps where ps: "op = HasCode ps" "\<forall>p \<in> set ps. CHR '' '' \<notin> set p" using op by (auto simp: plain_op_def list_all_iff)
    then show ?thesis using ran [OF sb_any.fares_has [OF ps(2) seen] surjective_pairing] by simp
  next
    case False
    with None obtain p q where "op = AskAgent p q" by (cases op) auto
    then show ?thesis using ran [OF fares_ask [OF seen] surjective_pairing] by simp
  qed
qed

lemma runs_seen: "list_all plain_op ops \<Longrightarrow> seen_vouched lib s \<Longrightarrow> seen_vouched lib (run_ops (sb_step lib) ops s)"
  by (induction ops arbitrary: s) (auto intro: step_seen)

lemma new_seen: "seen_vouched lib (new_sourcebot base key t)"
  by (simp add: seen_vouched_def new_sourcebot_def)


section \<open>What is remembered and merged\<close>

text \<open>An answer holds for five minutes: until then the same question sends nothing and is answered the same.\<close>

lemma matches_held:
  assumes "sb_seen s key = Some (yes, u)" "sb_now s - u < context_ttl"
  shows "sb_matches lib key query s = (Inr (yes, None), s)"
  using assms by (simp add: sb_matches_def io_defs)

lemma matches_remembers:
  assumes "sb_matches lib key query s = (Inr (yes, None), s')"
  shows "\<exists>u. sb_seen s' key = Some (yes, u) \<and> sb_now s' - u < context_ttl"
proof -
  have ttl: "0 < context_ttl" by (simp add: context_ttl_def minute_def second_def)
  have noted: "wp (io_bind (remember key y) (\<lambda>_. ret (y, None))) (\<lambda>(y, e) s'. \<exists>u. sb_seen s' key = Some (y, u) \<and> sb_now s' - u < context_ttl) E s1" for y E s1
    using ttl by (simp add: wp_simps remember_def)
  have "wp (sb_matches lib key query) (\<lambda>(y, e) s'. e = None \<longrightarrow> (\<exists>u. sb_seen s' key = Some (y, u) \<and> sb_now s' - u < context_ttl)) (\<lambda>_ _. True) s"
    unfolding sb_matches_def wp_bind wp_get prod.case Let_def wp_if wp_try
    by (auto simp: wp_ret wp_if split: option.splits intro!: wp_mono [OF noted]
        wp_runI [where m = "sb_call lib meth endpoint query body dec" for meth endpoint query body dec])
  from wp_okD [OF assms this] show ?thesis by simp
qed

text \<open>So asking twice in a row asks Sourcebot once.\<close>

lemma matches_twice:
  assumes "sb_matches lib key query s = (Inr (yes, None), s')"
  shows "sb_matches lib key query s' = (Inr (yes, None), s')"
  using matches_remembers [OF assms] by (auto intro: matches_held)

text \<open>Merging neighbouring ranges blames every line on the commit Sourcebot blamed.\<close>

definition blamed :: "int \<Rightarrow> int \<Rightarrow> string \<Rightarrow> (int \<times> string) list" where
  "blamed start n h = map (\<lambda>i. (start + int i, h)) [0..<nat n]"

definition blamed_ranges :: "blame_range list \<Rightarrow> (int \<times> string) list" where
  "blamed_ranges rs = concat (map (\<lambda>b. blamed (bg_start b) (bg_lines b) (co_hash (bg_commit b))) rs)"

lemma blamed_append:
  assumes "0 \<le> n" "0 \<le> m"
  shows "blamed start (n + m) h = blamed start n h @ blamed (start + n) m h"
proof -
  have upt: "[0..<nat n + nat m] = [0..<nat n] @ map (\<lambda>i. i + nat n) [0..<nat m]"
    using upt_add_eq_append [of 0 "nat n" "nat m"] map_add_upt [of "nat n" "nat m"] by (simp only: add.commute [of "nat m"] le0 simp_thms)
  have "map (\<lambda>i. (start + int i, h)) (map (\<lambda>i. i + nat n) [0..<nat m]) = blamed (start + n) m h"
    using assms(1) by (simp add: blamed_def comp_def)
  then show ?thesis by (simp only: blamed_def nat_add_distrib [OF assms] upt map_append)
qed

lemma add_row_blames:
  assumes "\<forall>b \<in> set rs. 0 \<le> bg_lines b" "0 \<le> br_count r"
  shows "blamed_ranges (add_row cs r rs) = blamed_ranges rs @ blamed (br_start r) (br_count r) (br_hash r) \<and>
    (\<forall>b \<in> set (add_row cs r rs). 0 \<le> bg_lines b)"
proof (cases "rs \<noteq> [] \<and> co_hash (bg_commit (last rs)) = br_hash r \<and> bg_start (last rs) + bg_lines (last rs) = br_start r")
  case True
  define l where "l = last rs"
  have rs: "rs = butlast rs @ [l]" using True by (simp add: l_def)
  have l: "0 \<le> bg_lines l" "co_hash (bg_commit l) = br_hash r" "br_start r = bg_start l + bg_lines l"
    using True assms(1) rs by (auto simp: l_def)
  have "blamed_ranges rs = blamed_ranges (butlast rs) @ blamed (bg_start l) (bg_lines l) (br_hash r)"
    by (subst rs) (simp add: blamed_ranges_def l(2))
  moreover have "add_row cs r rs = butlast rs @ [l\<lparr>bg_lines := bg_lines l + br_count r\<rparr>]" using True by (simp add: add_row_def l_def)
  moreover have "\<forall>b \<in> set (butlast rs). 0 \<le> bg_lines b" using assms(1) by (auto dest: in_set_butlastD)
  ultimately show ?thesis using assms(2) l by (simp add: blamed_ranges_def blamed_append)
next
  case False
  then have "add_row cs r rs = rs @ [\<lparr>bg_start = br_start r, bg_lines = br_count r,
      bg_commit = (case map_of cs (br_hash r) of None \<Rightarrow> no_commit | Some c \<Rightarrow> c)\<lparr>co_hash := br_hash r\<rparr>\<rparr>]"
    unfolding add_row_def by (rule if_not_P)
  then show ?thesis using assms by (simp add: blamed_ranges_def)
qed

lemma rows_blamed:
  "\<forall>r \<in> set rows. 0 \<le> br_count r \<Longrightarrow> \<forall>b \<in> set rs. 0 \<le> bg_lines b \<Longrightarrow>
   blamed_ranges (fold (add_row cs) rows rs) = blamed_ranges rs @ concat (map (\<lambda>r. blamed (br_start r) (br_count r) (br_hash r)) rows)"
proof (induction rows arbitrary: rs)
  case (Cons r rows)
  then have "0 \<le> br_count r" by simp
  from add_row_blames [OF Cons.prems(2) this, of cs] Cons.IH [of "add_row cs r rs"] Cons.prems show ?case by simp
qed simp

text \<open>An index with one repository, and a file read from it: two searches and the file.\<close>

definition demo_index :: sb_lib where
  "demo_index = \<lparr>sl_json = (\<lambda>_. None),
     sl_first = (\<lambda>b. if b = ''found'' then Some (JObj [(''files'', JArr [JNull])]) else Some (JObj [(''source'', JStr b)])),
     sl_why = id, sl_lower = id, sl_refused = (\<lambda>_. None), sl_rand = (\<lambda>_. []),
     sl_server = (\<lambda>_ rq. \<lparr>sa_error = None, sa_status = 200, sa_line = [], sa_total = [],
       sa_body = (if sr_endpoint rq = ''/api/search'' then ''found'' else ''x''), sa_broken = None, sa_took = 1\<rparr>)\<rparr>"

definition demo_client :: sourcebot where
  "demo_client = run_ops (sb_step demo_index) [HasCode [''shop'']] (new_sourcebot ''http://s/'' ''k'' 0)"

lemma demo_call: "sb_call demo_index meth endpoint q body dec s =
   (case dec (if endpoint = ''/api/search'' then JObj [(''files'', JArr [JNull])] else JObj [(''source'', JStr ''x'')]) of
      Some r \<Rightarrow> Inr (r, []) | None \<Rightarrow> Inl (err_new (''decode sourcebot '' @ endpoint @ '', at most 8 MiB: '' @ (if endpoint = ''/api/search'' then ''found'' else ''x''))),
    s\<lparr>sb_sent := sb_sent s @ [\<lparr>sr_method = meth, sr_endpoint = endpoint, sr_query = q, sr_body = body, sr_key = sb_key s\<rparr>], sb_now := sb_now s + 1\<rparr>)"
  by (simp add: sb_call_def sb_send_def post_to_def demo_index_def io_defs Let_def response_limit_def split: option.splits)

lemma demo_files: "files_of (JObj [(''files'', JArr [JNull])]) = Some [JNull]"
  by code_simp

lemma demo_source: "source_of (JObj [(''source'', JStr ''x'')]) = Some \<lparr>sn_source = ''x'', sn_url = []\<rparr>"
  by code_simp

lemma demo_allowed: "valid_repo_name ''a/b''" "allowed_path demo_index ''m.go'' = Some ''m.go''" "\<not> suffix ''/'' ''m.go''"
  by code_simp+

lemma demo_reads: "map sr_endpoint (sb_sent (sb_step demo_index (ReadCode ''shop'' ''a/b'' [] ''m.go'') demo_client)) = [''/api/search'', ''/api/search'', ''/api/source'']"
  by (simp add: demo_client_def new_sourcebot_def sb_matches_def sb_read_def confine_def demo_call demo_files demo_source demo_allowed remember_def
      io_defs with_param_def)


end
