(* ===== verification/Api_Policy.thy ===== *)
theory Api_Policy
  imports Api
begin

text \<open>
  The API under its policies: what a request reaches is decided by the tables alone, and what is
  shown to anyone does not depend on what is kept secret.
\<close>

section \<open>Guarded routes\<close>

definition guarded :: "endpoint \<Rightarrow> handler" where
  "guarded r = (if ep_method r \<noteq> ''GET'' \<and> \<not> ep_quiet r then publishing (ep_handler r) else ep_handler r)"

lemma refusal_status:
  "rs_status (write_service_error (err_sentinel ErrUnauthorized)) = 401"
  "rs_status (write_service_error (err_sentinel ErrForbidden)) = 403"
  "rs_status (write_service_error (err_sentinel ErrNotFound)) = 404"
  "err_is e ErrInvalidInput \<Longrightarrow> rs_status (write_service_error e) = 400"
  by (simp_all add: write_service_error_def error_status_def write_json_def)

lemma policy_refused: "policy w need c = Refused a \<Longrightarrow> rs_status a \<in> {400, 401, 403, 404}"
  by (auto simp: policy_def refusal_def refusal_status validators_invalid_input split: option.splits prod.splits if_splits access_level.splits
      simp del: validate_project_slug_None)


definition demo_server :: server where
  "demo_server = \<lparr>h_json = (\<lambda>_. None), h_uuid = (\<lambda>_. None), h_json_time = (\<lambda>_. None), h_rfc_time = (\<lambda>_. None),
     h_mime = (\<lambda>_. ''image/png''), sv_version = ''1'', sv_probe = (\<lambda>_ _. Answered 200 0), sv_assist = False, sv_code = None\<rparr>"

definition demo_delete :: api_request where
  "demo_delete = \<lparr>rq_method = ''DELETE'', rq_path = ''/api/v1/projects/p/tasks/t'', rq_uri = [], rq_rawquery = [], rq_cookie = None,
     rq_password = [], rq_loop = [], rq_tls = False, rq_proto = [], rq_segs = [''api'', ''v1'', ''projects'', ''p'', ''tasks'', ''t''],
     rq_query = [], rq_auth = ''Bearer tok'', rq_origin = [], rq_content = []\<rparr>"

definition demo_guest :: world where
  "demo_guest = demo_team\<lparr>tokens := [demo_session], grants := [new_grant 2 7 ProjectRoleOperator]\<rparr>"

lemma demo_guest_ok: "team_ok demo_guest" "unique_key k_hash (tokens demo_guest)"
proof -
  have "match_task_name ''t''" "validate_project_slug ''p'' = None" by code_simp+
  then show "team_ok demo_guest"
    by (simp add: demo_guest_def team_ok_def unique_key_def new_member_def new_grant_def demo_user_def demo_boss_def demo_task_def
        demo_project_def del: validate_project_slug_None)
  show "unique_key k_hash (tokens demo_guest)" by (simp add: demo_guest_def unique_key_def)
qed

abbreviation demo_others :: "string \<Rightarrow> handler" where
  "demo_others \<equiv> \<lambda>_. h_health"

abbreviation delete_route :: endpoint where
  "delete_route \<equiv> route_at ''DELETE'' [''projects'', ''{project}'', ''tasks'', ''{name}''] AccessMember h_delete_task ''tasks''"

lemma demo_delete_route: "delete_route \<in> set (api_routes demo_others)"
  "matches delete_route (rq_method demo_delete) (rq_segs demo_delete) = Some [(''project'', ''p''), (''name'', ''t'')]"
  by (simp add: api_routes_def route_table_def task_api_routes_def)
    (simp add: matches_def method_matches_def demo_delete_def route_at_def pattern_segs_def wildcard_def wildcard_name_def)

lemma demo_refusal: "policy demo_guest AccessMember (new_call demo_delete [(''project'', ''p''), (''name'', ''t'')]) = refusal ErrForbidden"
  by code_simp


end
