(* ===== verification/Api_Public.thy ===== *)
theory Api_Public
  imports Api_Policy
begin

text \<open>
  The public directory and the public streams.
\<close>

section \<open>What the public directory shows\<close>

text \<open>A task as anyone may know it: the columns the directory leaves out are blank, and of a locked task the note too.\<close>

definition public_view :: "task \<Rightarrow> task" where
  "public_view t = t\<lparr>t_image := [], t_password := (if t_password t = [] then [] else ''locked''), t_port := 0, t_container := [],
     t_ip := [], t_labels := [], t_env := [], t_volumes := [], t_routes := [], t_error := [], t_pending := False,
     t_note := (if t_password t = [] then t_note t else []), t_assignees := [],
     t_build := (t_build t)\<lparr>b_url := []\<rparr>, t_revision := (t_revision t)\<lparr>v_repo := []\<rparr>\<rparr>"

definition public_project :: "project \<Rightarrow> uuid \<times> string \<times> string" where
  "public_project p = (p_id p, p_slug p, p_name p)"

definition public_user :: "user \<Rightarrow> uuid \<times> string" where
  "public_user u = (u_id u, u_username u)"

text \<open>A deploy is known by its task, outcome and time, not by its texts.\<close>

definition public_notice :: "notification \<Rightarrow> uuid \<times> string \<times> notification_type \<times> notification_status \<times> time" where
  "public_notice n = (n_project n, n_task n, n_type n, n_status n, n_created n)"

definition same_public :: "world \<Rightarrow> world \<Rightarrow> bool" where
  "same_public w w' \<longleftrightarrow> ext w' = ext w \<and> map public_view (tasks w') = map public_view (tasks w) \<and>
     map public_project (projects w') = map public_project (projects w) \<and>
     map public_user (users w') = map public_user (users w) \<and>
     map public_notice (notifications w') = map public_notice (notifications w) \<and>
     (\<forall>t \<in> set (tasks w). t_password t = [] \<longrightarrow>
        filter (\<lambda>g. g_task g = t_id t) (grants w') = filter (\<lambda>g. g_task g = t_id t) (grants w))"

lemma map_insort: "(\<And>x. f x = g (v x)) \<Longrightarrow> map v (insort_key f x xs) = insort_key g (v x) (map v xs)"
  by (induction xs) auto

lemma map_sort: "(\<And>x. f x = g (v x)) \<Longrightarrow> map v (sort_key f xs) = sort_key g (map v xs)"
  by (induction xs) (auto simp: map_insort)

lemma map_filter_view: "(\<And>x. P x = Q (v x)) \<Longrightarrow> map v (filter P xs) = filter Q (map v xs)"
  by (induction xs) auto

lemma public_view_simps: "t_id (public_view t) = t_id t" "t_project (public_view t) = t_project t" "t_name (public_view t) = t_name t"
  "t_created (public_view t) = t_created t" "t_password (public_view t) = [] \<longleftrightarrow> t_password t = []"
  by (simp_all add: public_view_def)

lemma map_task_order: "map public_view (task_order w ts) = task_order w (map public_view ts)"
  unfolding task_order_def by (rule map_sort) (simp add: public_view_simps)

lemma task_order_ext: "ext w' = ext w \<Longrightarrow> task_order w' ts = task_order w ts"
  by (simp add: task_order_def)

lemma public_task_view: "public_task \<lparr>ft_task = scan_task w t, ft_role = r, ft_deploy = d\<rparr> =
    public_task \<lparr>ft_task = scan_task w (public_view t), ft_role = r, ft_deploy = d\<rparr>"
  by (simp add: public_task_def Let_def scan_task_def public_view_def)

lemma users_lookup:
  assumes "map public_user us' = map public_user us"
  shows "map public_user (rows_with u_id i us') = map public_user (rows_with u_id i us)"
  using arg_cong [OF assms, of "filter (\<lambda>p. fst p = i)"]
  by (simp add: rows_with_def map_filter_view [where P = "\<lambda>u. u_id u = i" and Q = "\<lambda>p. fst p = i"] public_user_def)

lemma assignees_names:
  fixes w w' :: world
  assumes "ext w' = ext w" "map public_user (users w') = map public_user (users w)"
    "filter (\<lambda>g. g_task g = t) (grants w') = filter (\<lambda>g. g_task g = t) (grants w)"
  shows "map (\<lambda>a. (a_username a, a_role a)) (task_assignees t w') = map (\<lambda>a. (a_username a, a_role a)) (task_assignees t w)"
proof -
  let ?v = "\<lambda>a. (a_username a, a_role a)"
  let ?row = "\<lambda>w g. case rows_with u_id (g_user g) (users w) of
          [] \<Rightarrow> \<lparr>a_user = g_user g, a_username = g_username g, a_avatar = None, a_role = g_role g\<rparr>
        | u # _ \<Rightarrow> \<lparr>a_user = g_user g, a_username = u_username u, a_avatar = u_avatar u, a_role = g_role g\<rparr>"
  have row: "?v (?row w' g) = ?v (?row w g)" for g
    using users_lookup [OF assms(2), of "g_user g"] by (auto simp: public_user_def split: list.splits)
  have joined: "joined w' i = joined w i" for i
  proof -
    have "rows_with u_id i (users w') = [] \<longleftrightarrow> rows_with u_id i (users w) = []"
      using users_lookup [OF assms(2), of i] by (metis map_is_Nil_conv)
    then show ?thesis by (simp add: joined_def rows_with_nil_iff)
  qed
  have gs: "filter (\<lambda>g. g_task g = t \<and> joined w' (g_user g)) (grants w') = filter (\<lambda>g. g_task g = t \<and> joined w (g_user g)) (grants w)"
    using arg_cong [OF assms(3), of "filter (\<lambda>g. joined w (g_user g))"] by (simp add: joined)
  have sorted: "map ?v (task_assignees t v) = sort_key (\<lambda>p. x_collate (ext v) (fst p))
      (map (\<lambda>g. ?v (?row v g)) (filter (\<lambda>g. g_task g = t \<and> joined v (g_user g)) (grants v)))" for v :: world
    unfolding task_assignees_def
    by (subst map_sort [where g = "\<lambda>p. x_collate (ext v) (fst p)"]) (simp_all add: comp_def)
  show ?thesis unfolding sorted gs assms(1) by (simp only: row)
qed

lemma public_task_assignees:
  fixes w w' :: world
  assumes "t_password t = [] \<Longrightarrow> map (\<lambda>a. (a_username a, a_role a)) (task_assignees (t_id t) w') =
      map (\<lambda>a. (a_username a, a_role a)) (task_assignees (t_id t) w)"
  shows "public_task \<lparr>ft_task = scan_task w' t, ft_role = r, ft_deploy = d\<rparr> = public_task \<lparr>ft_task = scan_task w t, ft_role = r, ft_deploy = d\<rparr>"
proof (cases "t_password t = []")
  case True
  have names: "map a_username (filter (\<lambda>a. a_role a = ProjectRoleMember) as) =
      map fst (filter (\<lambda>p. snd p = ProjectRoleMember) (map (\<lambda>a. (a_username a, a_role a)) as))" for as
    by (simp add: filter_map comp_def)
  show ?thesis using True assms [OF True] by (simp add: public_task_def Let_def scan_task_def names del: filter_map)
next
  case False
  then show ?thesis by (simp add: public_task_def Let_def scan_task_def)
qed

lemma public_task_deploy: "map_option public_notice d = map_option public_notice d' \<Longrightarrow>
    public_task \<lparr>ft_task = t, ft_role = r, ft_deploy = d\<rparr> = public_task \<lparr>ft_task = t, ft_role = r, ft_deploy = d'\<rparr>"
  by (cases d; cases d') (simp_all add: public_task_def Let_def last_deploy_from_def public_notice_def)

lemma last_deploy_view:
  fixes w w' :: world
  assumes "map public_notice (notifications w') = map public_notice (notifications w)"
  shows "map_option public_notice (last_deploy w' t) = map_option public_notice (last_deploy w (public_view t))"
proof -
  let ?P = "\<lambda>(p, k, ty, st, c). p = t_project t \<and> k = t_name t \<and> (ty = NotificationDeployed \<or> ty = NotificationDeployFailed) \<and> t_created t \<le> c"
  have sorted: "map public_notice (sort_key (\<lambda>n. - n_created n) (filter (\<lambda>n. n_project n = t_project t \<and> n_task n = t_name t \<and>
       is_deploy n \<and> t_created t \<le> n_created n) (notifications v))) =
     sort_key (\<lambda>(_, _, _, _, c). - c) (filter ?P (map public_notice (notifications v)))" for v :: world
    by (subst map_sort [where g = "\<lambda>(_, _, _, _, c). - c"])
      (simp_all add: public_notice_def is_deploy_def map_filter_view [where Q = ?P and v = public_notice])
  have "map public_notice xs = map public_notice ys \<Longrightarrow> map_option public_notice (case xs of [] \<Rightarrow> None | n # _ \<Rightarrow> Some n) =
      map_option public_notice (case ys of [] \<Rightarrow> None | n # _ \<Rightarrow> Some n)" for xs ys
    by (cases xs; cases ys) simp_all
  moreover note sorted [of w', unfolded assms, folded sorted [of w]]
  ultimately show ?thesis unfolding last_deploy_def public_view_simps by blast
qed

lemma map_of_deploys:
  assumes "unique_key t_id ts" "t \<in> set ts"
  shows "map_of (List.map_filter (\<lambda>t. map_option (\<lambda>n. (t_id t, n)) (f t)) ts) (t_id t) = f t"
  using assms
proof (induction ts)
  case (Cons s ts)
  have none: "map_of (List.map_filter (\<lambda>t. map_option (\<lambda>n. (t_id t, n)) (f t)) ts) (t_id s) = None"
    using Cons.prems(1) by (auto simp: map_of_eq_None_iff map_filter_def unique_key_def image_iff)
  have uniq: "unique_key t_id ts" "s = t \<or> t_id s \<noteq> t_id t" using Cons.prems by (auto simp: unique_key_def)
  show ?case
  proof (cases "s = t")
    case True
    then show ?thesis using none by (cases "f t") (simp_all add: map_filter_simps)
  next
    case False
    then have "t \<in> set ts" "t_id s \<noteq> t_id t" using Cons.prems uniq by auto
    then show ?thesis using Cons.IH [OF uniq(1)] by (cases "f s") (simp_all add: map_filter_simps)
  qed
qed simp

text \<open>The directory's entry of a task.\<close>

definition directory_task :: "world \<Rightarrow> task \<Rightarrow> public_task_dto" where
  "directory_task w t = public_task \<lparr>ft_task = scan_task w t, ft_role = no_role, ft_deploy = last_deploy w t\<rparr>"

lemma directory_task_view: "directory_task w (public_view t) = directory_task w t"
  unfolding directory_task_def public_task_view [of w t]
  by (rule public_task_deploy) (rule last_deploy_view [symmetric, OF refl])

lemma directory_task_same:
  assumes "same_public w w'" "t \<in> set (tasks w)"
  shows "directory_task w' t = directory_task w t"
proof -
  have same: "ext w' = ext w" "map public_user (users w') = map public_user (users w)"
    "map public_notice (notifications w') = map public_notice (notifications w)"
    "t_password t = [] \<Longrightarrow> filter (\<lambda>g. g_task g = t_id t) (grants w') = filter (\<lambda>g. g_task g = t_id t) (grants w)"
    using assms by (simp_all add: same_public_def)
  have "directory_task w' t = public_task \<lparr>ft_task = scan_task w t, ft_role = no_role, ft_deploy = last_deploy w' t\<rparr>"
    unfolding directory_task_def by (rule public_task_assignees) (rule assignees_names [OF same(1,2,4)])
  also have "\<dots> = directory_task w (public_view t)"
    unfolding directory_task_def public_task_view [of w t] by (rule public_task_deploy) (rule last_deploy_view [OF same(3)])
  finally show ?thesis by (simp add: directory_task_view)
qed

definition directory_entry :: "world \<Rightarrow> uuid \<times> string \<times> string \<Rightarrow> public_project_dto" where
  "directory_entry w = (\<lambda>(i, slug, name). \<lparr>zd_slug = slug, zd_name = name,
     zd_tasks = map (directory_task w) (filter (\<lambda>v. t_project v = i) (task_order w (map public_view (tasks w))))\<rparr>)"

lemma public_projects_run:
  assumes "faults w = []" "unique_key t_id (tasks w)"
  shows "h_public_projects sv c w = (Inr (write_json 200 (PublicBody
     (map (directory_entry w) (sort_key (\<lambda>(_, slug, _). x_collate (ext w) slug) (map public_project (projects w))))
     (length (projects w)))), w)"
proof -
  let ?ds = "List.map_filter (\<lambda>t. map_option (\<lambda>n. (t_id t, n)) (last_deploy w t)) (tasks w)"
  let ?ft = "\<lambda>t. \<lparr>ft_task = t, ft_role = no_role, ft_deploy = map_of ?ds (t_id t)\<rparr>"
  let ?ps = "sort_key (\<lambda>p. x_collate (ext w) (p_slug p)) (projects w)"
  let ?ts = "map ?ft (map (scan_task w) (task_order w (tasks w)))"
  have "pr_directory w = (Inr (?ps, ?ts), w)"
    using assms(1) by (simp add: pr_directory_def pr_tasks_with_deploys_def io_defs db_projects_list_def db_last_deploys_def
        db_tasks_all_def query_many_def db_call_healthy)
  then have run: "h_public_projects sv c w = (Inr (write_json 200 (PublicBody (map (public_entry ?ts) ?ps) (length (projects w)))), w)"
    by (simp add: h_public_projects_def reply_def io_defs)
  have task: "public_task \<lparr>ft_task = scan_task w t, ft_role = no_role, ft_deploy = map_of ?ds (t_id t)\<rparr> = directory_task w (public_view t)"
    if "t \<in> set (task_order w (tasks w))" for t
    using that map_of_deploys [OF assms(2), of t "last_deploy w"] directory_task_view
    by (simp add: task_order_def directory_task_def)
  have entry: "public_entry ?ts p = directory_entry w (public_project p)" for p
  proof -
    have "filter (\<lambda>ft. t_project (ft_task ft) = p_id p) ?ts = map (\<lambda>t. ?ft (scan_task w t)) (filter (\<lambda>t. t_project t = p_id p) (task_order w (tasks w)))"
      by (simp add: filter_map comp_def)
    moreover have "filter (\<lambda>v. t_project v = p_id p) (task_order w (map public_view (tasks w))) =
        map public_view (filter (\<lambda>t. t_project t = p_id p) (task_order w (tasks w)))"
      by (simp add: map_task_order [symmetric] filter_map comp_def public_view_simps)
    ultimately show ?thesis
      by (simp add: public_entry_def directory_entry_def public_project_def task)
  qed
  have "map (public_entry ?ts) ?ps = map (\<lambda>p. directory_entry w (public_project p)) ?ps"
    by (rule map_cong [OF refl]) (rule entry)
  also have "\<dots> = map (directory_entry w) (map public_project ?ps)" by simp
  also have "map public_project ?ps = sort_key (\<lambda>(_, slug, _). x_collate (ext w) slug) (map public_project (projects w))"
    by (rule map_sort) (simp add: public_project_def)
  finally show ?thesis unfolding run by (simp only:)
qed

text \<open>
  C12: The public directory shows nothing else: two states that agree on what anyone may know of tasks,
  projects, usernames and deploys, whatever their images, ports, environments, volumes, routes, labels,
  passwords, error texts, container identifiers, credentials and repositories, and of a locked task its
  note and assignees, give the same answer.
\<close>

theorem public_directory_hides:
  assumes "same_public w w'" "faults w = []" "faults w' = []" "unique_key t_id (tasks w)"
  shows "fst (h_public_projects sv c w') = fst (h_public_projects sv c w)"
proof -
  have same: "ext w' = ext w" "map public_view (tasks w') = map public_view (tasks w)"
    "map public_project (projects w') = map public_project (projects w)"
    using assms(1) by (simp_all add: same_public_def)
  have "map t_id (tasks w') = map t_id (tasks w)"
    using arg_cong [OF same(2), of "map t_id"] by (simp add: comp_def public_view_simps)
  then have unique: "unique_key t_id (tasks w')" using assms(4) by (simp add: unique_key_def)
  have len: "length (projects w') = length (projects w)" using same(3) by (metis length_map)
  have task: "directory_task w' v = directory_task w v" if "v \<in> public_view ` set (tasks w)" for v
    using that directory_task_same [OF assms(1)] by (auto simp: directory_task_view)
  have tasks: "map (directory_task w') (filter P (task_order w (map public_view (tasks w)))) =
      map (directory_task w) (filter P (task_order w (map public_view (tasks w))))" for P
    by (rule map_cong [OF refl]) (auto simp: task_order_def task)
  have "directory_entry w' p = directory_entry w p" for p
    by (cases p) (simp only: directory_entry_def same(2) task_order_ext [OF same(1)] prod.case tasks)
  then have "map (directory_entry w') = map (directory_entry w)" by (simp add: fun_eq_iff)
  then show ?thesis
    by (simp add: public_projects_run [OF assms(2,4)] public_projects_run [OF assms(3) unique] same(1,3) len)
qed

text \<open>A locked task with a note and an assignee, and what may differ without showing.\<close>

definition demo_locked :: world where
  "demo_locked = demo_team\<lparr>tasks := [demo_task\<lparr>t_password := ''hash'', t_note := ''plan'', t_env := [(''KEY'', ''secret'')]\<rparr>],
     grants := [new_grant 2 7 ProjectRoleMember]\<rparr>"

definition demo_other :: world where
  "demo_other = demo_team\<lparr>tasks := [demo_task\<lparr>t_password := ''other'', t_image := ''nginx:2'', t_container := ''c''\<rparr>],
     projects := [demo_project\<lparr>p_env := []\<rparr>]\<rparr>"

theorem public_directory_hides_witness:
  "fst (h_public_projects demo_server (new_call demo_delete []) demo_other) = fst (h_public_projects demo_server (new_call demo_delete []) demo_locked) \<and>
   demo_other \<noteq> demo_locked"
proof -
  have "same_public demo_locked demo_other"
    by (simp add: same_public_def demo_locked_def demo_other_def public_view_def demo_task_def public_project_def demo_project_def)
  moreover have "grants demo_other \<noteq> grants demo_locked" by (simp add: demo_locked_def demo_other_def)
  then have "demo_other \<noteq> demo_locked" by metis
  ultimately show ?thesis
    using public_directory_hides [of demo_locked demo_other demo_server "new_call demo_delete []"]
    by (simp add: demo_locked_def demo_other_def unique_key_def)
qed

section \<open>Public streams\<close>

datatype stream_op = OpenPublic call | ClosePublic nat | OtherWrite

text \<open>
  The public streams that are open, by the channel each reads, beside the state. Opening asks the
  handler; closing an open stream runs what its handler deferred; other requests publish.
\<close>

fun stream_step :: "server \<Rightarrow> stream_op \<Rightarrow> nat list \<times> world \<Rightarrow> nat list \<times> world" where
  "stream_step sv (OpenPublic c) (opened, w) = (case h_stream_public_events sv c w of
       (Inr a, w') \<Rightarrow> (case rs_body a of EventsBody (HubEvents i) \<Rightarrow> opened @ [i] | _ \<Rightarrow> opened, w')
     | (Inl e, w') \<Rightarrow> (opened, w'))"
| "stream_step sv (ClosePublic i) (opened, w) = (if i \<in> set opened then (remove1 i opened, close_stream True i w) else (opened, w))"
| "stream_step sv OtherWrite (opened, w) = (opened, snd (publish_events w))"

definition streams_ok :: "nat list \<times> world \<Rightarrow> bool" where
  "streams_ok s \<longleftrightarrow> (case s of (opened, w) \<Rightarrow> publics w = length opened \<and> length opened \<le> max_public_streams \<and>
     (\<exists>h. hub w = Some h \<and> hub_ok h))"

lemma stream_public_run:
  assumes "hub w = Some h"
  shows "h_stream_public_events sv c w = (if publics w < max_public_streams
     then (Inr (sse (HubEvents (fst (subscribe h)))), w\<lparr>publics := publics w + 1, hub := Some (snd (subscribe h))\<rparr>)
     else (Inr (write_json 503 (ErrorBody ''too many open streams'')), w))"
  using assms by (cases "subscribe h") (simp add: h_stream_public_events_def h_stream_events_def io_defs)

interpretation public_inv: invariant_steps "stream_step sv" streams_ok for sv
proof
  fix w :: "nat list \<times> world" and x assume ok: "streams_ok w"
  obtain opened v where w: "w = (opened, v)" by (cases w)
  with ok obtain h where h: "publics v = length opened" "length opened \<le> max_public_streams" "hub v = Some h" "hub_ok h"
    by (auto simp: streams_ok_def)
  show "streams_ok (stream_step sv x w)"
  proof (cases x)
    case (OpenPublic c)
    obtain i h' where sub: "subscribe h = (i, h')" by (cases "subscribe h")
    with hub_ok_subscribe [OF h(4) sub] show ?thesis using h
      by (simp add: OpenPublic w stream_public_run streams_ok_def sse_def write_json_def)
  next
    case (ClosePublic i)
    then show ?thesis using h hub_ok_unsubscribe [OF h(4)]
      by (auto simp: w streams_ok_def close_stream_def length_remove1)
  next
    case OtherWrite
    from publish_ok [OF h(4)] obtain h' where "publish h = Some h'" "hub_ok h'" by metis
    then show ?thesis using h by (simp add: OtherWrite w streams_ok_def publish_events_def io_mod_def)
  qed
qed

text \<open>
  C25: At most 256 public streams are open at any time: after any sequence of opening and closing them and
  of writes elsewhere, the server's count is the number of open streams, at most 256, and a further
  request gets a stream if there are fewer and 503 otherwise.
\<close>

theorem public_streams_bounded:
  assumes "publics w = 0" "hub w = Some new_hub" "run_ops (stream_step sv) ops ([], w) = (opened, w')"
  shows "publics w' = length opened \<and> length opened \<le> 256 \<and>
    (\<exists>a w''. h_stream_public_events sv c w' = (Inr a, w'') \<and> rs_status a = (if length opened < 256 then 200 else 503))"
proof -
  have "streams_ok ([], w)" using assms(1,2) by (simp add: streams_ok_def)
  from public_inv.run_inv [OF this, of sv ops] assms(3) obtain h where
    "publics w' = length opened" "length opened \<le> max_public_streams" "hub w' = Some h"
    by (auto simp: streams_ok_def)
  then show ?thesis
    by (auto simp: stream_public_run sse_def write_json_def max_public_streams_def)
qed

theorem public_streams_bounded_witness:
  "let (opened, w') = run_ops (stream_step demo_server) [OpenPublic (new_call demo_delete []), OpenPublic (new_call demo_delete []),
      OtherWrite, ClosePublic 0] ([], demo_team) in publics w' = length opened \<and> opened = [1]"
proof -
  let ?ops = "[OpenPublic (new_call demo_delete []), OpenPublic (new_call demo_delete []), OtherWrite, ClosePublic 0]"
  have "publics demo_team = 0" "hub demo_team = Some new_hub" by (simp_all add: demo_team_def demo_world_def)
  moreover have "fst (run_ops (stream_step demo_server) ?ops ([], demo_team)) = [1]" by code_simp
  moreover obtain opened w' where "run_ops (stream_step demo_server) ?ops ([], demo_team) = (opened, w')" by fastforce
  ultimately show ?thesis
    using public_streams_bounded [of demo_team demo_server ?ops opened w' "new_call demo_delete []"] by simp
qed

section \<open>Writes reach every stream\<close>

lemma wake_all_pending:
  "wake_all is cs = Some cs' \<Longrightarrow> length cs' = length cs \<and> (\<forall>j < length cs. j \<in> set is \<or> ch_pending (cs ! j) \<longrightarrow> ch_pending (cs' ! j))"
proof (induction "is" arbitrary: cs)
  case (Cons i "is")
  let ?cs = "cs[i := (cs ! i)\<lparr>ch_pending := True\<rparr>]"
  have "wake_all is ?cs = Some cs'" using Cons.prems by (simp split: if_splits)
  from Cons.IH [OF this] have ih: "length cs' = length cs"
    "\<And>j. j < length cs \<Longrightarrow> j \<in> set is \<or> ch_pending (?cs ! j) \<Longrightarrow> ch_pending (cs' ! j)" by auto
  have "ch_pending (?cs ! j)" if "j < length cs" "j = i \<or> ch_pending (cs ! j)" for j
    using that by (cases "j = i") auto
  with ih show ?case by auto
qed simp

lemma publish_pending:
  "publish h = Some h' \<Longrightarrow> h_subs h' = Some subs \<Longrightarrow> i \<in> set subs \<Longrightarrow> i < length (h_chans h') \<Longrightarrow> ch_pending (h_chans h' ! i)"
  using wake_all_pending by (fastforce simp: publish_def split: option.splits)

lemma error_at_least_400: "400 \<le> rs_status (write_service_error e)"
  by (simp add: write_service_error_def error_status_def write_json_def)

lemma wse_not_below: "rs_status a < 400 \<Longrightarrow> write_service_error e \<noteq> a"
  using error_at_least_400 [of e] by auto

lemma authorize_below_400:
  assumes "authorize need next sv c w = (Inr a, w')" "rs_status a < 400"
  shows "\<exists>c' w1. next sv c' w1 = (Inr a, w')"
proof -
  note no = wse_not_below [OF assms(2)]
  from assms(1) obtain r w1 where r: "(case r of Inl e \<Rightarrow> ret (write_service_error e)
     | Inr (u, kind) \<Rightarrow>
         if (need = AccessAdmin \<and> \<not> is_admin u) \<or> (need = AccessSession \<and> kind \<noteq> TokenKindSession)
         then ret (write_service_error (err_sentinel ErrForbidden))
         else (case project_roles need of None \<Rightarrow> next sv (c\<lparr>cl_user := u\<rparr>)
           | Some least \<Rightarrow> io_bind (io_try (pr_access u (slug_of c) (name_of c))) (\<lambda>a. case a of
               Inl e \<Rightarrow> ret (write_service_error e)
             | Inr acc \<Rightarrow> if role_rank (acc_role acc) < role_rank least then ret (write_service_error (err_sentinel ErrForbidden))
                 else next sv (c\<lparr>cl_user := u, cl_access := acc\<rparr>)))) w1 = (Inr a, w')"
    unfolding authorize_def bind_ok_iff by blast
  then obtain u kind where u: "r = Inr (u, kind)" using no by (cases r) (auto simp: ret_def)
  show ?thesis
  proof (cases "project_roles need")
    case None
    with r no show ?thesis by (auto simp: u ret_def split: if_splits)
  next
    case (Some least)
    with r no u have "io_bind (io_try (pr_access u (slug_of c) (name_of c))) (\<lambda>a. case a of
               Inl e \<Rightarrow> ret (write_service_error e)
             | Inr acc \<Rightarrow> if role_rank (acc_role acc) < role_rank least then ret (write_service_error (err_sentinel ErrForbidden))
                 else next sv (c\<lparr>cl_user := u, cl_access := acc\<rparr>)) w1 = (Inr a, w')"
      by (simp add: ret_def split: if_splits)
    then obtain b w2 where "(case b of Inl e \<Rightarrow> ret (write_service_error e)
             | Inr acc \<Rightarrow> if role_rank (acc_role acc) < role_rank least then ret (write_service_error (err_sentinel ErrForbidden))
                 else next sv (c\<lparr>cl_user := u, cl_access := acc\<rparr>)) w2 = (Inr a, w')"
      unfolding bind_ok_iff by blast
    with no show ?thesis by (cases b) (auto simp: ret_def split: if_splits)
  qed
qed


definition demo_mark :: api_request where
  "demo_mark = demo_delete\<lparr>rq_method := ''POST'', rq_segs := [''api'', ''v1'', ''auth'', ''logout'']\<rparr>"

abbreviation logout_route :: endpoint where
  "logout_route \<equiv> route_at ''POST'' [''auth'', ''logout''] AccessAuthed h_logout ''auth''"

definition demo_watched :: world where
  "demo_watched = demo_team\<lparr>tokens := [demo_session], hub := Some (snd (receive 0 (snd (subscribe new_hub))))\<rparr>"

lemma demo_logout: "case served_by logout_route demo_server (new_call demo_mark []) demo_watched of
    (Inr a, w') \<Rightarrow> rs_status a < 400 \<and> (case hub w' of Some h \<Rightarrow> h_subs h = Some [0] \<and> 0 < length (h_chans h) | None \<Rightarrow> False) | _ \<Rightarrow> False"
  by code_simp


end
