(* ===== verification/Spec2Isabelle.thy ===== *)
theory Spec2Isabelle
  imports Validate Hub Registry World Auth Docker Projects Notify Streams Tasks Task_Runs Task_Effects Task_Edits Task_Calls Metrics Json Messages Rewriting Bora_Store Bora_Actions Bora_Proposals Bora_Tools Assistant Bora_Private Bora_Requests Sourcebot_Confined Handlers
    Routes Api Api_Policy Api_Public
begin

text \<open>
  A verification of Boreas, a server that runs staging environments: projects hold tasks, each task is
  one Docker container reached under \<open>/<project>/<task>\<close> through the server's own proxy, beside routes a
  task may have to other sites. An HTTP API serves accounts, projects, tasks, notifications and Bora, an
  assistant that answers questions about them with a language model. The Go code under src/ is translated
  definition by definition, by the names the code has where Isabelle allows them.

  \<^bold>\<open>How the program is modelled.\<close>
  A Go function that returns \<open>(T, error)\<close> and acts on the process is a computation of type
  \<open>('s, 'a) io\<close> (Computation): from a state to an error or a value and the next state, total, with
  \<open>io_bind\<close>, \<open>io_try\<close> and a weakest-precondition calculus. Errors are values (\<open>goerr\<close> in Prelude)
  with the sentinels of core.go that \<open>errors.Is\<close> finds. The state of one process is the record \<open>world\<close>
  (World): the tables, pairings and sites in memory, the event hub, what was handed to the notifier, and the
  log of calls to the Docker daemon, the object store and the push services. What these answer is an oracle
  over the whole history of calls, and a script of faults may make any statement of the store fail, so a
  theorem holds for every behaviour of the outside. Mutexes make operations steps; where an operation is
  not one step (\<open>ReportBuild\<close>, streams, hub and metrics feeds) the steps are separate and interleave.
  Library functions the code only calls (hashing, UUIDs, JSON and time syntax, URL parsing, bcrypt) are fields of the
  parameter \<open>ext\<close> or of a component's own library record. Byte strings are lists of bytes.

  \<^bold>\<open>Data, store and services.\<close>
  Core and Validate hold the domain types and validators of internal/core/core.go. Tables and Store are
  internal/infra/postgres over the schema of the migrations, one operation per statement, with constraints
  and cascades; the interface \<open>keyed_table\<close> is interpreted on users, tokens, tasks and projects.
  Bora_Store adds the conversations. Auth is auth_service.go (logins, sessions, pairing, API tokens,
  users) with the invariant \<open>accounts_ok\<close> over any operations; Projects is project_service.go (members,
  access, grants, credentials, notifications) with the invariant that an owned project keeps an owner.
  Docker is internal/infra/docker: which calls an operation makes, and that creating a container removes
  only the task's own. Tasks is task_service.go. Task_Runs shows what a success leaves behind,
  Task_Effects and Task_Edits what an operation cannot touch (the interface \<open>lifecycle_frame\<close>), Task_Calls
  that only the task's own containers are started, stopped or removed. Metrics is the hub that
  shares one Docker stream per container, Notify the delivery of a notification over FCM and Apprise.

  \<^bold>\<open>Proxy and HTTP.\<close>
  Registry and Rewriting are internal/infra/proxy: sites, longest-path routing, the password lock and its
  signed cookie, and what a hop rewrites of requests, redirects, cookies and pages. The interface
  \<open>route_registry\<close> is what the task service relies on. Hub and Streams are the event hub and the streams of
  internal/transport/http (server-sent events, the entries of logs). Json and Messages decode and answer
  requests, Handlers and Routes are the handlers, the table of routes, the mux, the policies and CORS. Api,
  Api_Policy and Api_Public compose them: a request is decided by a policy over the tables alone, a refusal
  changes nothing, a success wakes every event stream, the public directory shows only what anyone may
  know, and public streams are bounded.

  \<^bold>\<open>Bora.\<close>
  Regexp is the part of the standard library's regular expressions the program uses, by its own matching
  order, and Redact the redaction of secrets with all its patterns. Speech is the line the phone reads aloud and
  the sayer that streams it. Assistant is internal/infra/llm: screening, rounds, tool calls, budget.
  Bora_Actions is what an answer may see and its subject, Bora_Tools every tool of bora_tools.go, and
  Bora_Proposals shows that a proposal is refused or appends one action the actor's role allows.
  Bora_Confined shows what every tool keeps, whatever the model calls it with. Bora_Turns is the life of a question in
  bora.go: entering, asking the model, saving, the events its streams replay, stopping, and the requests on
  conversations. Bora_Answers puts the tools behind the interface \<open>tools_keep\<close> of the language model client, so an answer
  stays within its actor's reach; Bora_Life proves the invariant of turns and conversations over any interleaving, and
  Bora_Private what a turn saves and that requests keep to the user's own conversations. Bora_Requests is the handlers of
  conversations behind a session's login, each one step of that machine. A turn's goroutine is two steps (asking the model, saving), other
  requests and any change of the process may come between; reading a conversation and entering a turn is one step.
  Sourcebot is internal/infra/sourcebot, the code index: its calls, the memory of which project has what, and the agent's
  chat, over a server that answers anything; Sourcebot_Confined shows which requests it sends, through the
  interfaces \<open>request_rule\<close> and \<open>project_rule\<close>. The tools take the index as the parameter \<open>code_index\<close>, whose answers may
  differ at every moment.

  \<^bold>\<open>Properties.\<close>
  Invariants over every reachable state are proved by rule induction through the interface \<open>invariant_steps\<close>
  (Computation), interpreted on accounts, members, sites and public streams. Equivalences compare with a reference:
  a lock with what it signed, the entries of a log with the lines of its bytes, pushes with the feed, the
  operations of Bora with the routes that run them. Frames and safety theorems compare the state before with
  the state after, errors included. Round trips cover logins, event streams and redirects. Each property
  with a hypothesis has a witness on a concrete state beside it.

  \<^bold>\<open>Bounds and fuel.\<close>
  Loops that end by their data are recursive functions with a measure: the rounds of an answer (six rounds
  and one forced answer, so seven streamed requests after at most one for screening), the matcher (the runes
  left), the words of a number. \<open>wait_ready\<close> has fuel: it polls at once and then every 200 ms until 20 s have passed, so
  \<open>max_polls\<close> is 101, and how many of them the clock leaves room for is the argument \<open>x_polls\<close>; the theorems
  on starting hold for every such number. Constants are
  the code's: 256 public streams, sixty samples per feed, a buffer of 120, ten actions an answer,
  48 KiB of tool results (96 KiB with code) of at most 24 KiB each, twenty routes a task.

  \<^bold>\<open>Not modelled.\<close>
  Moving bytes (reverse proxying, WebSockets, HTTP servers and clients, start and shutdown), the SQL of the
  migrations, logging, the generated OpenAPI document, the embedded client, environment variables, request
  signing and encryption, which are the standard library's or a third party's. Scheduling of goroutines is the order of steps. The arithmetic of CPU percentages is on floats and left
  out. The names of the JSON fields of answers are left out; the prompts and descriptions given to the model are arguments.
\<close>

end
